(* ===== verification/Prelude.thy ===== *)
theory Prelude
  imports Main "HOL-Library.Word" "HOL-Library.Sublist"
begin

section \<open>Prelude: C strings, keyed lists, event systems\<close>

text \<open>
  What the components share. A \<open>char*\<close> is a \<open>cstr\<close>: \<open>None\<close> is the null pointer,
  \<open>Some s\<close> a NUL-terminated string whose bytes before the terminator are \<open>s\<close>. The
  C library functions the sources call on such strings (\<open>strtok\<close>, \<open>strchr\<close>,
  \<open>strstr\<close>, \<open>strncasecmp\<close>) are defined here, with the lemmas about splitting and
  joining that the parsers need. The locale \<open>keyed_list\<close> is the contract of the linked
  lists that the daemon searches by a key, and \<open>event_system\<close> the contract of a state
  that evolves by handlers and keeps an invariant.
\<close>

named_theorems cstr_simps \<open>equations that evaluate the C string functions\<close>
named_theorems inv_intros \<open>preservation of component invariants, one fact per handler\<close>

type_synonym cstr = "string option"
type_synonym u32 = "32 word"
type_synonym addr = nat

subsection \<open>C strings\<close>

definition str_empty :: "cstr \<Rightarrow> bool" where
  "str_empty s \<longleftrightarrow> (case s of None \<Rightarrow> True | Some t \<Rightarrow> t = [])"

lemma str_empty_simps [simp]:
  "str_empty None" "str_empty (Some t) \<longleftrightarrow> t = []"
  by (simp_all add: str_empty_def)

text \<open>\<open>split_fields d s\<close>: the fields of \<open>s\<close> between occurrences of \<open>d\<close>, empty ones
  included. \<open>strtok\<close> called until it returns null skips runs of the delimiter, so the
  tokens it yields are the non-empty fields, in order.\<close>

fun split_fields :: "char \<Rightarrow> string \<Rightarrow> string list" where
  "split_fields d [] = [[]]"
| "split_fields d (c # s) =
     (if c = d then [] # split_fields d s
      else (case split_fields d s of [] \<Rightarrow> [[c]] | f # fs \<Rightarrow> (c # f) # fs))"

definition strtok_all :: "char \<Rightarrow> string \<Rightarrow> string list" where
  "strtok_all d s = filter (\<lambda>t. t \<noteq> []) (split_fields d s)"

fun join_with :: "char \<Rightarrow> string list \<Rightarrow> string" where
  "join_with d [] = []"
| "join_with d [x] = x"
| "join_with d (x # y # zs) = x @ d # join_with d (y # zs)"

text \<open>\<open>strchr\<close> and \<open>strstr\<close> return the suffix that starts at the match.\<close>

definition strchr :: "string \<Rightarrow> char \<Rightarrow> cstr" where
  "strchr s c = (case dropWhile (\<lambda>x. x \<noteq> c) s of [] \<Rightarrow> None | t \<Rightarrow> Some t)"

fun strstr :: "string \<Rightarrow> string \<Rightarrow> cstr" where
  "strstr [] n = (if n = [] then Some [] else None)"
| "strstr (c # s) n = (if prefix n (c # s) then Some (c # s) else strstr s n)"

definition to_lower :: "char \<Rightarrow> char" where
  "to_lower c = (let n = of_char c :: nat in if 65 \<le> n \<and> n \<le> 90 then char_of (n + 32) else c)"

text \<open>\<open>strncasecmp a b n == 0\<close>: the first \<open>n\<close> bytes agree up to case, where a string that
  ends earlier agrees only with one that ends at the same place.\<close>

definition strncaseeq :: "string \<Rightarrow> string \<Rightarrow> nat \<Rightarrow> bool" where
  "strncaseeq a b n \<longleftrightarrow> map to_lower (take n a) = map to_lower (take n b)"

text \<open>\<open>atoi\<close>: leading white space, an optional sign, then digits up to the first other byte. The
  value is the mathematical one; callers reduce it to the width of their variable (for values beyond
  \<open>int\<close> the C function is undefined).\<close>

definition is_space :: "char \<Rightarrow> bool" where
  "is_space c \<longleftrightarrow> (of_char c :: nat) = 32 \<or> (9 \<le> (of_char c :: nat) \<and> (of_char c :: nat) \<le> 13)"

definition is_digit :: "char \<Rightarrow> bool" where
  "is_digit c \<longleftrightarrow> 48 \<le> (of_char c :: nat) \<and> (of_char c :: nat) \<le> 57"

fun read_digits :: "int \<Rightarrow> string \<Rightarrow> int" where
  "read_digits acc [] = acc"
| "read_digits acc (c # s) =
     (if is_digit c then read_digits (10 * acc + (of_char c - 48)) s else acc)"

definition atoi :: "string \<Rightarrow> int" where
  "atoi s =
     (case dropWhile is_space s of
        [] \<Rightarrow> 0
      | c # r \<Rightarrow>
          (if c = CHR ''-'' then - read_digits 0 r
           else if c = CHR ''+'' then read_digits 0 r else read_digits 0 (c # r)))"

lemma split_fields_not_Nil [simp]: "split_fields d s \<noteq> []"
  by (induction s) (auto split: list.splits)

lemma split_fields_no_delim: "f \<in> set (split_fields d s) \<Longrightarrow> d \<notin> set f"
  by (induction s arbitrary: f) (auto split: list.splits if_splits)

lemma split_fields_plain: "d \<notin> set s \<Longrightarrow> split_fields d s = [s]"
  by (induction s) auto

lemma split_fields_delim:
  "d \<notin> set a \<Longrightarrow> split_fields d (a @ d # b) = a # split_fields d b"
  by (induction a) auto

lemma join_split [simp]: "join_with d (split_fields d s) = s"
proof (induction s)
  case Nil
  then show ?case by simp
next
  case (Cons c s)
  obtain f fs where f: "split_fields d s = f # fs"
    by (cases "split_fields d s") auto
  with Cons show ?case by (cases fs) auto
qed

lemma split_join:
  "xs \<noteq> [] \<Longrightarrow> \<forall>x\<in>set xs. d \<notin> set x \<Longrightarrow> split_fields d (join_with d xs) = xs"
  by (induction d xs rule: join_with.induct) (auto simp: split_fields_plain split_fields_delim)

lemma strtok_all_join:
  assumes "\<forall>x\<in>set xs. x \<noteq> [] \<and> d \<notin> set x"
  shows "strtok_all d (join_with d xs) = xs"
proof (cases "xs = []")
  case True
  then show ?thesis by (simp add: strtok_all_def)
next
  case False
  with assms show ?thesis by (simp add: strtok_all_def split_join filter_id_conv)
qed

lemma strtok_all_token: "t \<in> set (strtok_all d s) \<Longrightarrow> t \<noteq> [] \<and> d \<notin> set t"
  by (auto simp: strtok_all_def dest: split_fields_no_delim)

lemma length_join_with:
  "length (join_with d xs) = sum_list (map length xs) + (length xs - 1)"
  by (induction d xs rule: join_with.induct) auto

lemma join_with_Cons:
  "xs \<noteq> [] \<Longrightarrow> join_with d (x # xs) = x @ d # join_with d xs"
  by (cases xs) auto

lemma join_with_snoc:
  "xs \<noteq> [] \<Longrightarrow> join_with d (xs @ [x]) = join_with d xs @ d # x"
  by (induction d xs rule: join_with.induct) (auto simp: join_with_Cons)

lemma strchr_None_iff: "strchr s c = None \<longleftrightarrow> c \<notin> set s"
  by (induction s) (auto simp: strchr_def)

lemma strchr_skip: "c \<notin> set a \<Longrightarrow> strchr (a @ c # b) c = Some (c # b)"
  by (induction a) (auto simp: strchr_def)

lemma strstr_Some_iff: "(\<exists>t. strstr s n = Some t) \<longleftrightarrow> sublist n s"
  by (induction s n rule: strstr.induct) (auto simp: sublist_Cons_right)

lemma strstr_Some_prefix: "strstr s n = Some t \<Longrightarrow> prefix n t \<and> suffix t s"
  by (induction s n rule: strstr.induct) (auto simp: suffix_def split: if_splits)

lemma strncaseeq_refl [simp]: "strncaseeq s s n"
  by (simp add: strncaseeq_def)

subsection \<open>Keyed lists\<close>

text \<open>
  The daemon's linked lists (timers, poll events, subscriptions) are searched from the head for
  the first item with a key, extended at the tail, and an item is removed by unlinking the first
  match. The laws below are those three walks; the lemmas are what the callers rely on.
\<close>

locale keyed_list =
  fixes key :: "'a \<Rightarrow> 'k"
    and find_key :: "'a list \<Rightarrow> 'k \<Rightarrow> 'a option"
    and add_item :: "'a list \<Rightarrow> 'a \<Rightarrow> 'a list"
    and del_key :: "'a list \<Rightarrow> 'k \<Rightarrow> 'a list"
  assumes find_Nil: "find_key [] k = None"
    and find_Cons: "find_key (x # xs) k = (if key x = k then Some x else find_key xs k)"
    and add_item: "add_item xs x = xs @ [x]"
    and del_Nil: "del_key [] k = []"
    and del_Cons: "del_key (x # xs) k = (if key x = k then xs else x # del_key xs k)"
begin

lemma find_Some: "find_key xs k = Some x \<Longrightarrow> x \<in> set xs \<and> key x = k"
  by (induction xs) (auto simp: find_Nil find_Cons split: if_splits)

lemma find_None_iff: "find_key xs k = None \<longleftrightarrow> k \<notin> key ` set xs"
  by (induction xs) (auto simp: find_Nil find_Cons)

lemma find_mem: "distinct (map key xs) \<Longrightarrow> x \<in> set xs \<Longrightarrow> find_key xs (key x) = Some x"
  by (induction xs) (auto simp: find_Cons)

lemma find_add:
  "find_key (add_item xs x) k =
     (case find_key xs k of Some y \<Rightarrow> Some y | None \<Rightarrow> if key x = k then Some x else None)"
  by (induction xs) (auto simp: add_item find_Nil find_Cons)

lemma set_add: "set (add_item xs x) = insert x (set xs)"
  by (simp add: add_item)

lemma distinct_add:
  "distinct (map key xs) \<Longrightarrow> find_key xs (key x) = None \<Longrightarrow> distinct (map key (add_item xs x))"
  by (auto simp: add_item find_None_iff)

lemma set_del_subset: "set (del_key xs k) \<subseteq> set xs"
  by (induction xs) (auto simp: del_Nil del_Cons)

lemma set_del:
  "distinct (map key xs) \<Longrightarrow> set (del_key xs k) = {x \<in> set xs. key x \<noteq> k}"
proof (induction xs)
  case Nil
  then show ?case by (simp add: del_Nil)
next
  case (Cons a xs)
  then show ?case by (cases "key a = k") (auto simp: del_Cons rev_image_eqI)
qed

lemma distinct_del: "distinct (map key xs) \<Longrightarrow> distinct (map key (del_key xs k))"
proof (induction xs)
  case Nil
  then show ?case by (simp add: del_Nil)
next
  case (Cons a xs)
  then show ?case using set_del_subset [of xs k] by (auto simp: del_Cons)
qed

lemma find_del:
  assumes "distinct (map key xs)"
  shows "find_key (del_key xs k) j = (if j = k then None else find_key xs j)"
  using assms
proof (induction xs)
  case Nil
  then show ?case by (simp add: del_Nil find_Nil)
next
  case (Cons a xs)
  show ?case
  proof (cases "key a = k")
    case True
    with Cons.prems have "find_key xs k = None" by (auto simp: find_None_iff)
    with True show ?thesis by (auto simp: del_Cons find_Cons)
  next
    case False
    with Cons show ?thesis by (auto simp: del_Cons find_Cons)
  qed
qed

lemma del_absent: "find_key xs k = None \<Longrightarrow> del_key xs k = xs"
  by (induction xs) (auto simp: del_Nil del_Cons find_Cons split: if_splits)

lemma length_del: "find_key xs k = Some x \<Longrightarrow> length xs = Suc (length (del_key xs k))"
  by (induction xs) (auto simp: find_Nil find_Cons del_Cons split: if_splits)

lemma del_add_absent: "find_key xs (key x) = None \<Longrightarrow> del_key (add_item xs x) (key x) = xs"
  by (induction xs) (auto simp: add_item del_Nil del_Cons find_Nil find_Cons split: if_splits)

end

subsection \<open>Event systems\<close>

text \<open>
  A component whose handlers run one after the other, with an invariant that every handler keeps
  when it is called in a state where the environment may call it. \<open>enabled_run\<close> says that
  each event of a list is enabled when its turn comes.
\<close>

fun enabled_run :: "('s \<Rightarrow> 'e \<Rightarrow> bool) \<Rightarrow> ('s \<Rightarrow> 'e \<Rightarrow> 's) \<Rightarrow> 's \<Rightarrow> 'e list \<Rightarrow> bool" where
  "enabled_run ok step s [] = True"
| "enabled_run ok step s (e # es) = (ok s e \<and> enabled_run ok step (step s e) es)"

locale event_system =
  fixes step :: "'s \<Rightarrow> 'e \<Rightarrow> 's"
    and ok :: "'s \<Rightarrow> 'e \<Rightarrow> bool"
    and inv :: "'s \<Rightarrow> bool"
  assumes step_inv: "inv s \<Longrightarrow> ok s e \<Longrightarrow> inv (step s e)"
begin

lemma run_inv: "inv s \<Longrightarrow> enabled_run ok step s es \<Longrightarrow> inv (foldl step s es)"
  by (induction es arbitrary: s) (auto intro: step_inv)

end

text \<open>An event system that implements an abstract transition function.\<close>

locale refining_system = event_system step ok inv
  for step :: "'s \<Rightarrow> 'e \<Rightarrow> 's" and ok :: "'s \<Rightarrow> 'e \<Rightarrow> bool" and inv :: "'s \<Rightarrow> bool" +
  fixes abs_state :: "'s \<Rightarrow> 'a"
    and spec :: "'a \<Rightarrow> 'e \<Rightarrow> 'a"
  assumes abs_step: "inv s \<Longrightarrow> ok s e \<Longrightarrow> abs_state (step s e) = spec (abs_state s) e"
begin

lemma run_refines:
  "inv s \<Longrightarrow> enabled_run ok step s es \<Longrightarrow>
   inv (foldl step s es) \<and> abs_state (foldl step s es) = foldl spec (abs_state s) es"
proof (induction es arbitrary: s)
  case (Cons e es)
  then show ?case using step_inv [of s e] abs_step [of s e] by simp
qed simp

end

subsection \<open>Ambiorix timers\<close>

text \<open>An \<open>amxp_timer_t*\<close>: null, or a timer with the timeout it was last started with.\<close>

datatype amxp_timer = No_timer | Timer "u32 option"

fun amxp_start :: "amxp_timer \<Rightarrow> u32 \<Rightarrow> amxp_timer" where
  "amxp_start No_timer v = No_timer"
| "amxp_start (Timer _) v = Timer (Some v)"

subsection \<open>Status codes of the daemon (include\_priv/dmmain/cwmpd.h)\<close>

datatype cwmp_status = cwmp_status_ok | cwmp_status_ko

subsection \<open>Decimal text\<close>

text \<open>The decimal digits that \<open>printf\<close> writes for an unsigned number.\<close>

function dec_text :: "nat \<Rightarrow> string" where
  "dec_text n = (if n < 10 then [] else dec_text (n div 10)) @ [char_of (48 + n mod 10)]"
  by pat_completeness auto
termination
  by (relation "measure id") auto

declare dec_text.simps [simp del]

definition int_text :: "int \<Rightarrow> string" where
  "int_text n = (if n < 0 then CHR ''-'' # dec_text (nat (- n)) else dec_text (nat n))"

lemma read_digits_snoc:
  "list_all is_digit s \<Longrightarrow> is_digit c \<Longrightarrow> read_digits a (s @ [c]) = 10 * read_digits a s + (of_char c - 48)"
  by (induction s arbitrary: a) auto

lemma is_digit_dec: "is_digit (char_of (48 + n mod 10 :: nat))"
proof -
  have "n mod 10 < 10" by simp
  then have "48 + n mod 10 < (256 :: nat)" "48 \<le> 48 + n mod 10" "48 + n mod 10 \<le> (57 :: nat)" by linarith+
  then show ?thesis by (simp add: is_digit_def)
qed

lemma dec_text_digits: "list_all is_digit (dec_text n)"
  by (induction n rule: dec_text.induct) (subst dec_text.simps, simp add: is_digit_dec)

lemma read_dec_text: "read_digits 0 (dec_text n) = int n"
proof (induction n rule: dec_text.induct)
  case (1 n)
  have "of_char (char_of (48 + n mod 10) :: char) = (48 + int (n mod 10))"
  proof -
    have "48 + n mod 10 < 256" using mod_less_divisor [of 10 n] by linarith
    then show ?thesis by (subst of_nat_of_char [symmetric, where ?'a = int]) simp
  qed
  then show ?case
    using 1 is_digit_dec [of n] dec_text_digits [of "n div 10"]
    by (subst dec_text.simps) (simp add: read_digits_snoc zdiv_int zmod_int)
qed

lemma dec_text_not_Nil [simp]: "dec_text n \<noteq> []"
  by (subst dec_text.simps) simp

lemma atoi_dec_text: "atoi (dec_text n) = int n"
proof -
  obtain c r where d: "dec_text n = c # r" by (cases "dec_text n") auto
  then have c: "is_digit c" using dec_text_digits [of n] by simp
  then have "\<not> is_space c" "c \<noteq> CHR ''-''" "c \<noteq> CHR ''+''" by (auto simp: is_digit_def is_space_def)
  then show ?thesis using read_dec_text [of n] by (simp add: atoi_def d)
qed

lemma strstr_digits:
  assumes "list_all is_digit s" "\<exists>c\<in>set n. \<not> is_digit c"
  shows "strstr s n = None"
proof (rule ccontr)
  assume "strstr s n \<noteq> None"
  then have "sublist n s" using strstr_Some_iff by blast
  then show False using assms set_mono_sublist by (fastforce simp: list_all_iff)
qed

lemma dec_text_inj: "dec_text m = dec_text n \<Longrightarrow> m = n"
  by (metis read_dec_text of_nat_eq_iff)

subsection \<open>Searching a table\<close>

lemma find_append_fresh: "\<forall>t\<in>set xs. \<not> P t \<Longrightarrow> P t \<Longrightarrow> find P (xs @ [t]) = Some t"
  by (induction xs) auto

end
