(* ===== verification/Timers.thy ===== *)
theory Timers
  imports Prelude
begin

section \<open>Named timers (src/dmmain/cwmpd\_timer.c)\<close>

text \<open>
  The engine starts and stops timers by name. \<open>timer_list\<close> is the module's linked list; the
  Ambiorix timers behind it are addresses, and every call to libamxp is appended to
  \<open>amxp_calls\<close>, in order, so that their use can be stated: \<open>run_calls\<close> replays such a log
  and fails on a call to a timer that was not created or is already deleted. What
  \<open>malloc\<close>/\<open>amxp_timer_new\<close> yield is the argument \<open>alloc\<close> (\<open>None\<close>: out of memory).
  Times are 32-bit words, so the conversion to milliseconds wraps as the C multiplication does.
\<close>

subsection \<open>Model\<close>

record 'h timer_item =
  t_timer :: addr
  t_name :: string
  t_handler :: "'h option"
  t_interval :: bool

datatype amxp_call =
    Timer_new addr
  | Timer_set_interval addr u32
  | Timer_start addr u32
  | Timer_stop addr
  | Timer_delete addr

record 'h timers =
  timer_list :: "'h timer_item list"
  amxp_calls :: "amxp_call list"

fun timer_find_from :: "'h timer_item list \<Rightarrow> string \<Rightarrow> 'h timer_item option" where
  "timer_find_from [] name = None"
| "timer_find_from (t # ts) name = (if t_name t = name then Some t else timer_find_from ts name)"

definition timer_find :: "'h timers \<Rightarrow> cstr \<Rightarrow> 'h timer_item option" where
  "timer_find st name =
     (if str_empty name then None else timer_find_from (timer_list st) (the name))"

fun timer_find_addr_from :: "'h timer_item list \<Rightarrow> addr \<Rightarrow> 'h timer_item option" where
  "timer_find_addr_from [] a = None"
| "timer_find_addr_from (t # ts) a = (if a = t_timer t then Some t else timer_find_addr_from ts a)"

text \<open>Address 0 is the null pointer, on which the loop does not start.\<close>

definition timer_find_by_addr :: "'h timers \<Rightarrow> addr \<Rightarrow> 'h timer_item option" where
  "timer_find_by_addr st a = (if a = 0 then None else timer_find_addr_from (timer_list st) a)"

definition timer_free :: "'h timer_item \<Rightarrow> amxp_call list" where
  "timer_free t = [Timer_stop (t_timer t), Timer_delete (t_timer t)]"

fun timer_unlink :: "'h timer_item list \<Rightarrow> string \<Rightarrow> 'h timer_item list" where
  "timer_unlink [] name = []"
| "timer_unlink (t # ts) name = (if t_name t = name then ts else t # timer_unlink ts name)"

definition timer_remove :: "'h timers \<Rightarrow> cstr \<Rightarrow> 'h timers" where
  "timer_remove st name =
     (case name of
        None \<Rightarrow> st
      | Some n \<Rightarrow>
          (case timer_find_from (timer_list st) n of
             None \<Rightarrow> st
           | Some t \<Rightarrow> st\<lparr>timer_list := timer_unlink (timer_list st) n,
                         amxp_calls := amxp_calls st @ timer_free t\<rparr>))"

definition cwmp_timer_remove_all :: "'h timers \<Rightarrow> 'h timers" where
  "cwmp_timer_remove_all st =
     st\<lparr>timer_list := [],
        amxp_calls := amxp_calls st @ concat (map timer_free (timer_list st))\<rparr>"

text \<open>The second result is the engine handler that is called, with its argument.\<close>

definition timer_timeout_handler ::
  "'h timers \<Rightarrow> addr \<Rightarrow> string \<Rightarrow> 'h timers \<times> ('h \<times> string) option" where
  "timer_timeout_handler st a name =
     (case timer_find_by_addr st a of
        None \<Rightarrow> (st, None)
      | Some t \<Rightarrow>
          (case t_handler t of
             None \<Rightarrow> (st, None)
           | Some h \<Rightarrow>
               ((if t_interval t then st else timer_remove st (Some name)), Some (h, name))))"

definition timer_append :: "'h timer_item list \<Rightarrow> 'h timer_item \<Rightarrow> 'h timer_item list" where
  "timer_append ts t = ts @ [t]"

definition cwmp_timer_start ::
  "addr option \<Rightarrow> cstr \<Rightarrow> u32 \<Rightarrow> u32 \<Rightarrow> 'h option \<Rightarrow> 'h timers \<Rightarrow> cwmp_status \<times> 'h timers" where
  "cwmp_timer_start alloc name waitTime intervalTime handler st =
     (if str_empty name then (cwmp_status_ko, st)
      else (case timer_find st name of
        None \<Rightarrow>
          (case alloc of
             None \<Rightarrow> (cwmp_status_ko, st)
           | Some a \<Rightarrow>
               (cwmp_status_ok,
                st\<lparr>timer_list := timer_append (timer_list st)
                     \<lparr>t_timer = a, t_name = the name, t_handler = handler,
                      t_interval = (intervalTime \<noteq> 0)\<rparr>,
                   amxp_calls := amxp_calls st @ [Timer_new a] @
                     (if intervalTime \<noteq> 0 then [Timer_set_interval a (intervalTime * 1000)] else []) @
                     [Timer_start a (waitTime * 1000)]\<rparr>))
      | Some t \<Rightarrow>
          (cwmp_status_ok,
           st\<lparr>amxp_calls := amxp_calls st @
                [Timer_stop (t_timer t), Timer_start (t_timer t) (waitTime * 1000)]\<rparr>)))"

definition cwmp_timer_stop :: "cstr \<Rightarrow> 'h timers \<Rightarrow> cwmp_status \<times> 'h timers" where
  "cwmp_timer_stop name st =
     (if str_empty name then (cwmp_status_ko, st)
      else (case timer_find st name of
        None \<Rightarrow> (cwmp_status_ko, st)
      | Some t \<Rightarrow>
          (cwmp_status_ok,
           timer_remove (st\<lparr>amxp_calls := amxp_calls st @ [Timer_stop (t_timer t)]\<rparr>) name)))"

definition cwmp_timer_remainingTime :: "(addr \<Rightarrow> u32) \<Rightarrow> 'h timers \<Rightarrow> cstr \<Rightarrow> u32" where
  "cwmp_timer_remainingTime remaining st name =
     (case timer_find st name of None \<Rightarrow> 0 | Some t \<Rightarrow> remaining (t_timer t))"

subsection \<open>The timer module as an event system\<close>

datatype 'h timer_event =
    Ev_start "addr option" cstr u32 u32 "'h option"
  | Ev_stop cstr
  | Ev_timeout addr string
  | Ev_remove_all

fun timer_step :: "'h timers \<Rightarrow> 'h timer_event \<Rightarrow> 'h timers" where
  "timer_step st (Ev_start al n w i h) = snd (cwmp_timer_start al n w i h st)"
| "timer_step st (Ev_stop n) = snd (cwmp_timer_stop n st)"
| "timer_step st (Ev_timeout a n) = fst (timer_timeout_handler st a n)"
| "timer_step st Ev_remove_all = cwmp_timer_remove_all st"

definition live_timers :: "'h timers \<Rightarrow> addr set" where
  "live_timers st = t_timer ` set (timer_list st)"

text \<open>The environment: the allocator returns non-null memory that is not in use.\<close>

fun timer_ok :: "'h timers \<Rightarrow> 'h timer_event \<Rightarrow> bool" where
  "timer_ok st (Ev_start (Some a) n w i h) = (a \<noteq> 0 \<and> a \<notin> live_timers st)"
| "timer_ok st e = True"

text \<open>Replaying a log: the timers alive after it, or \<open>None\<close> if a call used a dead timer.\<close>

fun run_calls :: "addr set \<Rightarrow> amxp_call list \<Rightarrow> addr set option" where
  "run_calls L [] = Some L"
| "run_calls L (Timer_new a # cs) = (if a \<in> L then None else run_calls (insert a L) cs)"
| "run_calls L (Timer_set_interval a v # cs) = (if a \<in> L then run_calls L cs else None)"
| "run_calls L (Timer_start a v # cs) = (if a \<in> L then run_calls L cs else None)"
| "run_calls L (Timer_stop a # cs) = (if a \<in> L then run_calls L cs else None)"
| "run_calls L (Timer_delete a # cs) = (if a \<in> L then run_calls (L - {a}) cs else None)"

definition timers_inv :: "'h timers \<Rightarrow> bool" where
  "timers_inv st \<longleftrightarrow>
     distinct (map t_name (timer_list st)) \<and> distinct (map t_timer (timer_list st)) \<and>
     (\<forall>t\<in>set (timer_list st). t_name t \<noteq> [] \<and> t_timer t \<noteq> 0) \<and>
     run_calls {} (amxp_calls st) = Some (live_timers st)"

interpretation timer_names: keyed_list t_name timer_find_from timer_append timer_unlink
  by unfold_locales (auto simp: timer_append_def)

lemma run_calls_append:
  "run_calls L (cs @ ds) = (case run_calls L cs of None \<Rightarrow> None | Some M \<Rightarrow> run_calls M ds)"
  by (induction L cs rule: run_calls.induct) auto

lemma timer_unlink_live:
  assumes "timers_inv st" "timer_find_from (timer_list st) n = Some t"
  shows "t_timer ` set (timer_unlink (timer_list st) n) = live_timers st - {t_timer t}"
proof -
  have t: "t \<in> set (timer_list st)" "t_name t = n"
    using timer_names.find_Some [OF assms(2)] by auto
  have inj: "inj_on t_timer (set (timer_list st))" "inj_on t_name (set (timer_list st))"
    and d: "distinct (map t_name (timer_list st))"
    using assms(1) by (auto simp: timers_inv_def distinct_map)
  have "set (timer_unlink (timer_list st) n) = set (timer_list st) - {t}"
    using t inj(2) by (auto simp: timer_names.set_del [OF d] dest: inj_onD)
  then show ?thesis
    using inj_on_image_set_diff [OF inj(1), of "set (timer_list st)" "{t}"] t(1)
    by (simp add: live_timers_def)
qed

lemma timer_unlink_addrs:
  "distinct (map t_timer ts) \<Longrightarrow> distinct (map t_timer (timer_unlink ts n))"
  using timer_names.set_del_subset by (induction ts) fastforce+

lemma run_calls_free_all:
  "distinct (map t_timer ts) \<Longrightarrow> t_timer ` set ts \<subseteq> L \<Longrightarrow>
   run_calls L (concat (map timer_free ts)) = Some (L - t_timer ` set ts)"
  by (induction ts arbitrary: L) (auto simp: timer_free_def Diff_insert2 [symmetric] subset_Diff_insert)

lemma timer_remove_inv [inv_intros]:
  assumes "timers_inv st"
  shows "timers_inv (timer_remove st name)"
proof (cases "\<exists>n t. name = Some n \<and> timer_find_from (timer_list st) n = Some t")
  case True
  then obtain n t where nt: "name = Some n" "timer_find_from (timer_list st) n = Some t" by blast
  then have "t_timer t \<in> live_timers st"
    using timer_names.find_Some by (fastforce simp: live_timers_def)
  with nt assms timer_unlink_live [OF assms nt(2)] show ?thesis
    using timer_names.set_del_subset [of "timer_list st" n]
    by (auto simp: timers_inv_def timer_remove_def run_calls_append timer_free_def
        live_timers_def timer_names.distinct_del timer_unlink_addrs)
next
  case False
  with assms show ?thesis by (auto simp: timer_remove_def split: option.splits)
qed

lemma timer_start_inv [inv_intros]:
  assumes "timers_inv st" "timer_ok st (Ev_start al n w i h)"
  shows "timers_inv (snd (cwmp_timer_start al n w i h st))"
proof (cases "str_empty n")
  case True
  with assms show ?thesis by (simp add: cwmp_timer_start_def)
next
  case ne: False
  show ?thesis
  proof (cases "timer_find st n")
    case None
    then have "the n \<notin> t_name ` set (timer_list st)" "the n \<noteq> []"
      using ne by (cases n; auto simp: timer_find_def timer_names.find_None_iff)+
    with None assms ne show ?thesis
      by (cases al) (auto simp: cwmp_timer_start_def timers_inv_def live_timers_def
          run_calls_append timer_append_def)
  next
    case (Some t)
    then have "t \<in> set (timer_list st)"
      using ne timer_names.find_Some by (fastforce simp: timer_find_def)
    with Some ne assms(1) show ?thesis
      by (auto simp: cwmp_timer_start_def timers_inv_def live_timers_def run_calls_append)
  qed
qed

lemma timer_stop_inv [inv_intros]:
  assumes "timers_inv st"
  shows "timers_inv (snd (cwmp_timer_stop n st))"
proof (cases "str_empty n \<or> timer_find st n = None")
  case True
  with assms show ?thesis by (auto simp: cwmp_timer_stop_def)
next
  case False
  then obtain t where t: "timer_find st n = Some t" "\<not> str_empty n" by auto
  then have "t_timer t \<in> live_timers st"
    using timer_names.find_Some by (fastforce simp: timer_find_def live_timers_def)
  with assms have "timers_inv (st\<lparr>amxp_calls := amxp_calls st @ [Timer_stop (t_timer t)]\<rparr>)"
    by (simp add: timers_inv_def run_calls_append live_timers_def)
  with t show ?thesis by (simp add: cwmp_timer_stop_def inv_intros)
qed

lemma timer_step_inv:
  assumes "timers_inv st" "timer_ok st e"
  shows "timers_inv (timer_step st e)"
proof (cases e)
  case (Ev_timeout a n)
  with assms show ?thesis by (auto simp: timer_timeout_handler_def inv_intros split: option.splits)
next
  case Ev_remove_all
  have "run_calls (live_timers st) (concat (map timer_free (timer_list st))) = Some {}"
    using assms(1) run_calls_free_all [of "timer_list st" "live_timers st"]
    by (simp add: timers_inv_def live_timers_def)
  with assms(1) Ev_remove_all show ?thesis
    by (simp add: timers_inv_def cwmp_timer_remove_all_def run_calls_append live_timers_def)
qed (use assms in \<open>simp_all add: inv_intros\<close>)

interpretation timer_system: event_system timer_step timer_ok timers_inv
  by unfold_locales (rule timer_step_inv)

subsection \<open>Refinement to a map of names\<close>

text \<open>What the engine relies on: a name is bound to a handler, an interval flag and a timer.\<close>

definition timer_map :: "'h timers \<Rightarrow> string \<Rightarrow> 'h timer_item option" where
  "timer_map st n = timer_find_from (timer_list st) n"

lemma timer_map_remove:
  "timers_inv st \<Longrightarrow> timer_map (timer_remove st (Some n)) = (timer_map st)(n := None)"
  by (auto simp: fun_eq_iff timer_map_def timer_remove_def timers_inv_def timer_names.find_del
      split: option.splits)

lemma timer_by_addr:
  assumes "timers_inv st" "t \<in> set (timer_list st)"
  shows "timer_find_by_addr st (t_timer t) = Some t"
proof -
  have "distinct (map t_timer ts) \<Longrightarrow> t \<in> set ts \<Longrightarrow> timer_find_addr_from ts (t_timer t) = Some t"
    for ts :: "'a timer_item list"
    by (induction ts) (auto simp: image_iff)
  with assms show ?thesis by (auto simp: timer_find_by_addr_def timers_inv_def)
qed

subsection \<open>Properties\<close>

text \<open>Property C4. Whatever sequence of starts, stops, expirations and clean-ups the engine makes,
  names and Ambiorix timers in the list stay distinct, and the calls to libamxp are memory safe
  and leak free: replaying them never touches a timer that is not alive, and the timers alive at
  the end are exactly those in the list.\<close>

theorem timers_run_safe:
  assumes "enabled_run timer_ok timer_step \<lparr>timer_list = [], amxp_calls = []\<rparr> es"
    and "st = foldl timer_step \<lparr>timer_list = [], amxp_calls = []\<rparr> es"
  shows "distinct (map t_name (timer_list st)) \<and> distinct (map t_timer (timer_list st)) \<and>
     run_calls {} (amxp_calls st) = Some (t_timer ` set (timer_list st))"
proof -
  have "timers_inv \<lparr>timer_list = [], amxp_calls = []\<rparr>"
    by (simp add: timers_inv_def live_timers_def)
  from timer_system.run_inv [OF this assms(1)] assms(2) show ?thesis
    by (simp add: timers_inv_def live_timers_def)
qed

theorem timers_run_safe_witness:
  "run_calls {} [Timer_new 8, Timer_start 8 45000, Timer_stop 8, Timer_stop 8, Timer_delete 8] = Some {}"
proof -
  let ?es = "[Ev_start (Some 8) (Some ''Session-timer'') 45 0 (Some ()), Ev_stop (Some ''Session-timer'')]"
  have "enabled_run timer_ok timer_step \<lparr>timer_list = [], amxp_calls = []\<rparr> ?es"
    by (simp add: live_timers_def)
  from timers_run_safe [OF this refl] show ?thesis
    by (simp add: cwmp_timer_start_def cwmp_timer_stop_def timer_find_def timer_append_def
        timer_remove_def timer_free_def)
qed

text \<open>Starting a timer under a new name binds the name to the handler and starts its
  Ambiorix timer with the wait time in milliseconds; starting it under a bound name only re-arms
  the old timer: the binding, with its handler and interval, is kept and the new ones are
  ignored. No other name is touched.\<close>

theorem timer_start_refines:
  assumes "n \<noteq> []" "cwmp_timer_start (Some a) (Some n) w i h st = (rc, st')"
  shows "rc = cwmp_status_ok \<and>
     timer_map st' = (case timer_map st n of
        Some t \<Rightarrow> timer_map st
      | None \<Rightarrow> (timer_map st)(n \<mapsto> \<lparr>t_timer = a, t_name = n, t_handler = h, t_interval = (i \<noteq> 0)\<rparr>)) \<and>
     (\<exists>b. timer_map st' n = Some b \<and> last (amxp_calls st') = Timer_start (t_timer b) (w * 1000))"
proof (cases "timer_map st n")
  case None
  with assms show ?thesis
    by (auto simp: cwmp_timer_start_def timer_find_def timer_map_def timer_names.find_add fun_eq_iff
        split: option.splits)
next
  case (Some t)
  with assms show ?thesis
    by (auto simp: cwmp_timer_start_def timer_find_def timer_map_def fun_eq_iff)
qed

theorem timer_start_refines_witness:
  "fst (cwmp_timer_start (Some 16) (Some ''T'') 5 0 (Some True)
      \<lparr>timer_list = [\<lparr>t_timer = 8, t_name = ''T'', t_handler = Some False, t_interval = True\<rparr>],
       amxp_calls = []\<rparr>) = cwmp_status_ok \<and>
   map_option t_handler (timer_map (snd (cwmp_timer_start (Some 16) (Some ''T'') 5 0 (Some True)
      \<lparr>timer_list = [\<lparr>t_timer = 8, t_name = ''T'', t_handler = Some False, t_interval = True\<rparr>],
       amxp_calls = []\<rparr>)) ''T'') = Some (Some False)"
proof -
  let ?st = "\<lparr>timer_list = [\<lparr>t_timer = 8, t_name = ''T'', t_handler = Some False, t_interval = True\<rparr>],
       amxp_calls = []\<rparr>"
  show ?thesis
    using timer_start_refines [OF _ prod.collapse [symmetric], of "''T''" 16 5 0 "Some True" ?st]
    by (simp add: timer_map_def)
qed

text \<open>Stopping a timer unbinds its name and nothing else, and fails exactly when the
  name is null, empty or unbound.\<close>

theorem timer_stop_refines:
  assumes "timers_inv st" "cwmp_timer_stop (Some n) st = (rc, st')"
  shows "timer_map st' = (timer_map st)(n := None) \<and>
     (rc = cwmp_status_ok \<longleftrightarrow> timer_map st n \<noteq> None)"
proof (cases "timer_map st n = None")
  case True
  then have "timer_find st (Some n) = None" by (simp add: timer_find_def timer_map_def)
  with True assms(2) show ?thesis
    by (auto simp: cwmp_timer_stop_def fun_eq_iff split: if_splits)
next
  case False
  moreover have "timer_map st [] = None"
    using assms(1) by (auto simp: timer_map_def timers_inv_def timer_names.find_None_iff)
  ultimately obtain t where t: "timer_find_from (timer_list st) n = Some t" "n \<noteq> []"
    by (cases "n = []") (auto simp: timer_map_def)
  let ?st = "st\<lparr>amxp_calls := amxp_calls st @ [Timer_stop (t_timer t)]\<rparr>"
  have "timer_find_from (timer_unlink (timer_list st) n) k = ((timer_map st)(n := None)) k" for k
    using assms(1) by (simp add: timer_map_def timers_inv_def timer_names.find_del)
  with t assms(2) show ?thesis
    by (auto simp: cwmp_timer_stop_def timer_find_def timer_map_def timer_remove_def fun_eq_iff)
qed

theorem timer_stop_refines_witness:
  "timer_map (snd (cwmp_timer_stop (Some ''T'') (snd (cwmp_timer_start (Some 8) (Some ''T'') 5 0 (Some ())
      \<lparr>timer_list = [], amxp_calls = []\<rparr>)))) ''T'' = None"
proof -
  let ?s = "snd (cwmp_timer_start (Some 8) (Some ''T'') 5 0 (Some ()) \<lparr>timer_list = [], amxp_calls = []\<rparr>)"
  have "timers_inv ?s"
    by (rule timer_start_inv) (simp_all add: timers_inv_def live_timers_def)
  from timer_stop_refines [OF this prod.collapse [symmetric], of "''T''"] show ?thesis by simp
qed

text \<open>When the Ambiorix timer of a bound name expires, its handler is called with that
  name; a single-shot timer is unbound before the call, an interval timer stays bound, and no
  other binding changes.\<close>

theorem timer_timeout_refines:
  assumes "timers_inv st" "timer_map st n = Some t" "t_handler t = Some h"
    and "timer_timeout_handler st (t_timer t) n = (st', out)"
  shows "out = Some (h, n) \<and>
     timer_map st' = (if t_interval t then timer_map st else (timer_map st)(n := None))"
proof -
  have "t \<in> set (timer_list st)"
    using assms(2) timer_names.find_Some by (auto simp: timer_map_def)
  then have "timer_find_by_addr st (t_timer t) = Some t"
    using assms(1) by (rule timer_by_addr [rotated])
  with assms show ?thesis
    by (auto simp: timer_timeout_handler_def timer_map_remove)
qed

theorem timer_timeout_refines_witness:
  "snd (timer_timeout_handler (snd (cwmp_timer_start (Some 8) (Some ''T'') 5 0 (Some True)
      \<lparr>timer_list = [], amxp_calls = []\<rparr>)) 8 ''T'') = Some (True, ''T'')"
proof -
  let ?s = "snd (cwmp_timer_start (Some 8) (Some ''T'') 5 0 (Some True) \<lparr>timer_list = [], amxp_calls = []\<rparr>)"
  let ?t = "\<lparr>t_timer = 8, t_name = ''T'', t_handler = Some True, t_interval = False\<rparr>"
  have "timers_inv ?s"
    by (rule timer_start_inv) (simp_all add: timers_inv_def live_timers_def)
  moreover have "timer_map ?s ''T'' = Some ?t"
    by (simp add: cwmp_timer_start_def timer_find_def timer_append_def timer_map_def)
  ultimately show ?thesis
    using timer_timeout_refines [OF _ _ _ prod.collapse [symmetric], of ?s "''T''" ?t True] by simp
qed

end
