(* ===== verification/Conn_Requests.thy ===== *)
theory Conn_Requests
  imports Prelude
begin

section \<open>Connection requests (cwmpd\_connectionsecurity.c, cwmpd\_server.c)\<close>

text \<open>
  The HTTP server on which the ACS asks for a session: the list of accepted requests that limits
  their rate, the checks of one request (availability, path, digest authentication), the replies,
  and the start and stop of the server. libwebsockets, the digest functions and the engine are
  fields of \<open>cr_env\<close>: what each call returns. Created and not yet destroyed contexts and virtual
  hosts are kept in \<open>live_ctx\<close> and \<open>live_vhost\<close>.
\<close>

subsection \<open>Model\<close>

datatype ms_param =
    DM_ENG_ENABLECWMP | DM_ENG_LOCALIPADDRESS | DM_ENG_CONNECTIONREQUESTPORT
  | DM_ENG_CONNECTIONREQUESTPATH | DM_ENG_CONNECTIONREQUESTUSERNAME | DM_ENG_CONNECTIONREQUESTPASSWORD

datatype lws_write = Hdr_status nat | Hdr_www_authenticate string | Hdr_content_length nat | Hdr_finalize

record cr_env =
  ce_now :: int
  ce_alloc :: bool
  ce_params :: "string list"
  ce_default_mc :: u32
  ce_default_fc :: u32
  ce_value :: "ms_param \<Rightarrow> cstr option"
  ce_stack :: string
  ce_auth_token :: string
  ce_check_content :: "string \<Rightarrow> bool"
  ce_digest_ok :: "string \<Rightarrow> cstr \<Rightarrow> cstr \<Rightarrow> bool"
  ce_digest_msg :: string
  ce_write_fails :: "lws_write \<Rightarrow> bool"
  ce_completed :: bool
  ce_request_connection :: int
  ce_callback_dummy :: int
  ce_new_ctx :: "addr option"
  ce_new_vhost :: "addr option"

record cr_server =
  connection_timestamp_list :: "int list"
  g_randomCpeUrl :: cstr
  vhost_name :: cstr
  lws_server_ctx :: "addr option"
  lws_server_vhost :: "addr option"
  live_ctx :: "addr list"
  live_vhost :: "addr list"
  cr_replies :: "nat list"
  session_requests :: nat
  leaked_messages :: nat
  null_deref :: bool

text \<open>The request: its path with the length libwebsockets gives, the presence of the GET and HTTP
  tokens, and the Authorization header (empty when absent). libwebsockets passes the length of the
  path, so a path that reaches \<open>requested_uri + 1\<close> has a first byte.\<close>

record request =
  rq_uri :: cstr
  rq_len :: int
  rq_get :: bool
  rq_http :: bool
  rq_authorization :: string

subsubsection \<open>The rate limiter\<close>

definition cwmp_server_initConnectionTimestampList :: "cr_server \<Rightarrow> cr_server" where
  "cwmp_server_initConnectionTimestampList st = st\<lparr>connection_timestamp_list := []\<rparr>"

definition cwmp_server_maxConnectionsAdd :: "cr_env \<Rightarrow> cr_server \<Rightarrow> cr_server" where
  "cwmp_server_maxConnectionsAdd env st =
     (if ce_alloc env
      then st\<lparr>connection_timestamp_list := connection_timestamp_list st @ [ce_now env]\<rparr> else st)"

definition request_limits :: "cr_env \<Rightarrow> u32 \<times> u32" where
  "request_limits env =
     (case ce_params env of
        a # b # _ \<Rightarrow> (word_of_int (atoi a), word_of_int (atoi b))
      | _ \<Rightarrow> (ce_default_mc env, ce_default_fc env))"

definition expired :: "int \<Rightarrow> u32 \<Rightarrow> int \<Rightarrow> bool" where
  "expired now fc t \<longleftrightarrow> (now > t \<and> now - t > sint fc) \<or> t > now"

definition cwmp_server_maxConnectionsReached :: "cr_env \<Rightarrow> cr_server \<Rightarrow> bool \<times> cr_server" where
  "cwmp_server_maxConnectionsReached env st =
     (case request_limits env of (mc, fc) \<Rightarrow>
        (let ts = filter (\<lambda>t. \<not> expired (ce_now env) fc t) (connection_timestamp_list st)
         in (length ts > unat (2 * mc), st\<lparr>connection_timestamp_list := ts\<rparr>)))"

definition cwmp_server_maxConnectionsCleanup :: "cr_server \<Rightarrow> cr_server" where
  "cwmp_server_maxConnectionsCleanup st = st\<lparr>connection_timestamp_list := []\<rparr>"

subsubsection \<open>One request\<close>

definition cwmp_server_validate_uri :: "request \<Rightarrow> cr_server \<Rightarrow> cwmp_status" where
  "cwmp_server_validate_uri rq st =
     (if \<not> rq_get rq \<or> \<not> rq_http rq then cwmp_status_ko
      else (case (rq_uri rq, g_randomCpeUrl st) of
              (Some u, Some url) \<Rightarrow> (if tl u \<noteq> url then cwmp_status_ko else cwmp_status_ok)
            | _ \<Rightarrow> cwmp_status_ko))"

definition cwmp_server_check_availability :: "cr_env \<Rightarrow> cr_server \<Rightarrow> cwmp_status \<times> cr_server" where
  "cwmp_server_check_availability env st =
     (case cwmp_server_maxConnectionsReached env st of
        (True, st') \<Rightarrow> (cwmp_status_ko, st')
      | (False, st') \<Rightarrow> (cwmp_status_ok, cwmp_server_maxConnectionsAdd env st'))"

definition cwmp_server_reply_http_unauthorized :: "cr_env \<Rightarrow> cr_server \<Rightarrow> cwmp_status \<times> cr_server" where
  "cwmp_server_reply_http_unauthorized env st =
     (let leak = st\<lparr>leaked_messages := Suc (leaked_messages st)\<rparr> in
      if ce_write_fails env (Hdr_status 401) then (cwmp_status_ko, leak)
      else if ce_write_fails env (Hdr_www_authenticate (ce_digest_msg env)) then (cwmp_status_ko, leak)
      else if ce_write_fails env (Hdr_content_length 0) then (cwmp_status_ko, leak)
      else if ce_write_fails env Hdr_finalize then (cwmp_status_ko, leak)
      else (cwmp_status_ok, st\<lparr>cr_replies := cr_replies st @ [401]\<rparr>))"

definition cwmp_server_reply_http_no_content :: "cr_env \<Rightarrow> cr_server \<Rightarrow> int \<times> cr_server" where
  "cwmp_server_reply_http_no_content env st =
     (if ce_write_fails env (Hdr_status 204) then (1, st)
      else if ce_write_fails env (Hdr_content_length 0) then (1, st)
      else if ce_write_fails env Hdr_finalize then (1, st)
      else (0, st\<lparr>cr_replies := cr_replies st @ [204]\<rparr>))"

text \<open>\<open>lws_hdr_copy\<close> copies nothing when the header and its terminator do not fit; its result is
  not looked at, so the message is then built from what the buffer holds (\<open>ce_stack\<close>).\<close>

definition auth_data :: "cr_env \<Rightarrow> request \<Rightarrow> string" where
  "auth_data env rq =
     (if length (rq_authorization rq) < 1024 then rq_authorization rq else ce_stack env)"

definition digest_message :: "cr_env \<Rightarrow> request \<Rightarrow> string" where
  "digest_message env rq =
     (if rq_get rq then ''GET'' else []) @ '' '' @ (case rq_uri rq of None \<Rightarrow> ''(null)'' | Some u \<Rightarrow> u) @
     [CHR 0x0A, CHR 0x0D] @ ce_auth_token env @ '' '' @ auth_data env rq"

definition cwmp_server_validate_authentication :: "cr_env \<Rightarrow> request \<Rightarrow> cwmp_status" where
  "cwmp_server_validate_authentication env rq =
     (case ce_value env DM_ENG_CONNECTIONREQUESTUSERNAME of
        None \<Rightarrow> cwmp_status_ko
      | Some user \<Rightarrow>
          (case ce_value env DM_ENG_CONNECTIONREQUESTPASSWORD of
             None \<Rightarrow> cwmp_status_ko
           | Some passwd \<Rightarrow>
               (if rq_authorization rq = [] then cwmp_status_ko
                else if ce_check_content env (digest_message env rq) then
                  (if \<not> ce_digest_ok env (digest_message env rq) user passwd then cwmp_status_ko
                   else cwmp_status_ok)
                else cwmp_status_ko)))"

definition lws_return_http_status :: "nat \<Rightarrow> cr_server \<Rightarrow> cr_server" where
  "lws_return_http_status code st = st\<lparr>cr_replies := cr_replies st @ [code]\<rparr>"

definition cwmp_server_handle_request :: "cr_env \<Rightarrow> request \<Rightarrow> cr_server \<Rightarrow> int \<times> cr_server" where
  "cwmp_server_handle_request env rq st =
     (if rq_len rq < 1 then (0, lws_return_http_status 400 st)
      else (case cwmp_server_check_availability env st of (avail, st1) \<Rightarrow>
        (if avail \<noteq> cwmp_status_ok then (0, lws_return_http_status 503 st1)
         else if cwmp_server_validate_uri rq st1 \<noteq> cwmp_status_ok then (0, lws_return_http_status 404 st1)
         else if cwmp_server_validate_authentication env rq = cwmp_status_ko then
           ((if ce_completed env then -1 else 0), snd (cwmp_server_reply_http_unauthorized env st1))
         else
           (let st2 = st1\<lparr>session_requests := Suc (session_requests st1)\<rparr> in
            if ce_request_connection env = 0
            then (-1, snd (cwmp_server_reply_http_no_content env st2))
            else (0, lws_return_http_status 503 st2)))))"

datatype lws_reason =
    LWS_CALLBACK_ESTABLISHED | LWS_CALLBACK_HTTP | LWS_CALLBACK_HTTP_BODY_COMPLETION | LWS_CALLBACK_other

definition cwmp_server_http_callback ::
  "cr_env \<Rightarrow> lws_reason \<Rightarrow> request \<Rightarrow> cr_server \<Rightarrow> int \<times> cr_server" where
  "cwmp_server_http_callback env reason rq st =
     (case reason of
        LWS_CALLBACK_HTTP \<Rightarrow> cwmp_server_handle_request env rq st
      | LWS_CALLBACK_HTTP_BODY_COMPLETION \<Rightarrow> (ce_callback_dummy env, lws_return_http_status 200 st)
      | _ \<Rightarrow> (ce_callback_dummy env, st))"

subsubsection \<open>Start and stop\<close>

definition cwmp_server_init_lws :: "cr_env \<Rightarrow> cstr \<Rightarrow> int \<Rightarrow> cr_server \<Rightarrow> cwmp_status \<times> cr_server" where
  "cwmp_server_init_lws env server_host port st =
     (case server_host of
        None \<Rightarrow> (cwmp_status_ko, st)
      | Some host \<Rightarrow>
          (let st1 = st\<lparr>vhost_name := Some host\<rparr> in
           if host = [] then (cwmp_status_ko, st1)
           else (case ce_new_ctx env of
                   None \<Rightarrow> (cwmp_status_ko, st1\<lparr>lws_server_ctx := None\<rparr>)
                 | Some c \<Rightarrow> (cwmp_status_ok,
                     st1\<lparr>lws_server_ctx := Some c, live_ctx := c # live_ctx st1\<rparr>))))"

text \<open>The last steps of \<open>cwmp_server_start\<close>, once host and port are known; a null port would be
  dereferenced by \<open>atoi\<close>.\<close>

definition start_listening :: "cr_env \<Rightarrow> cstr \<Rightarrow> cstr \<Rightarrow> cr_server \<Rightarrow> cwmp_status \<times> cr_server" where
  "start_listening env server_host server_port st =
     (case ce_value env DM_ENG_CONNECTIONREQUESTPATH of
        None \<Rightarrow> (cwmp_status_ko, st\<lparr>g_randomCpeUrl := None\<rparr>)
      | Some path \<Rightarrow>
          (let st1 = cwmp_server_initConnectionTimestampList (st\<lparr>g_randomCpeUrl := path\<rparr>) in
           case server_port of
             None \<Rightarrow> (cwmp_status_ko, st1\<lparr>null_deref := True\<rparr>)
           | Some port \<Rightarrow>
               (case cwmp_server_init_lws env server_host (atoi port) st1 of
                  (cwmp_status_ko, st2) \<Rightarrow> (cwmp_status_ko, st2)
                | (cwmp_status_ok, st2) \<Rightarrow>
                    (case ce_new_vhost env of
                       None \<Rightarrow> (cwmp_status_ko, st2\<lparr>lws_server_vhost := None\<rparr>)
                     | Some v \<Rightarrow> (cwmp_status_ok,
                         st2\<lparr>lws_server_vhost := Some v, live_vhost := v # live_vhost st2\<rparr>)))))"

definition cwmp_server_start :: "cr_env \<Rightarrow> cr_server \<Rightarrow> cwmp_status \<times> cr_server" where
  "cwmp_server_start env st =
     (case ce_value env DM_ENG_ENABLECWMP of
        None \<Rightarrow> (cwmp_status_ko, st)
      | Some enabled \<Rightarrow>
          (if enabled = None \<or> enabled = Some ''0'' then (cwmp_status_ko, st)
           else (case ce_value env DM_ENG_LOCALIPADDRESS of
             None \<Rightarrow> (cwmp_status_ko, st)
           | Some host \<Rightarrow>
               (if host = Some [] \<or> host = Some ''0.0.0.0'' then (cwmp_status_ok, st)
                else (case ce_value env DM_ENG_CONNECTIONREQUESTPORT of
                  None \<Rightarrow> (cwmp_status_ko, st)
                | Some port \<Rightarrow> start_listening env host port st)))))"

definition cwmp_server_stop :: "cr_server \<Rightarrow> cwmp_status \<times> cr_server" where
  "cwmp_server_stop st =
     (cwmp_status_ok, cwmp_server_maxConnectionsCleanup
        (st\<lparr>live_vhost := (case lws_server_vhost st of None \<Rightarrow> live_vhost st | Some v \<Rightarrow> remove1 v (live_vhost st)),
            g_randomCpeUrl := None, lws_server_vhost := None,
            live_ctx := (case lws_server_ctx st of None \<Rightarrow> live_ctx st | Some c \<Rightarrow> remove1 c (live_ctx st)),
            lws_server_ctx := None, vhost_name := None\<rparr>))"

subsection \<open>The rate limiter bounds every window\<close>

text \<open>The times of the accepted ones among a sequence of requests.\<close>

fun accept_run :: "cr_env \<Rightarrow> cr_server \<Rightarrow> int list \<Rightarrow> int list" where
  "accept_run env st [] = []"
| "accept_run env st (t # ts) =
     (case cwmp_server_check_availability (env\<lparr>ce_now := t\<rparr>) st of
        (cwmp_status_ok, st') \<Rightarrow> t # accept_run env st' ts
      | (cwmp_status_ko, st') \<Rightarrow> accept_run env st' ts)"

lemma expired_iff: "0 \<le> sint fc \<Longrightarrow> t \<le> now \<Longrightarrow> expired now fc t \<longleftrightarrow> now - t > sint fc"
  by (auto simp: expired_def)

lemma unat_double:
  assumes "unat mc < 2 ^ 31"
  shows "unat (2 * mc :: u32) = 2 * unat mc"
proof -
  have "unat (2 * mc) = (2 * unat mc) mod 2 ^ 32" by (simp add: unat_word_ariths)
  with assms show ?thesis by simp
qed

lemma request_limits_now [simp]: "request_limits (env\<lparr>ce_now := t\<rparr>) = request_limits env"
  by (simp add: request_limits_def split: list.splits)

lemma check_availability_limits:
  assumes "request_limits env = (mc, fc)" "unat mc < 2 ^ 31" "ce_alloc env"
    and "ts = filter (\<lambda>x. \<not> expired t fc x) (connection_timestamp_list st)"
  shows "cwmp_server_check_availability (env\<lparr>ce_now := t\<rparr>) st =
    (if length ts > 2 * unat mc then (cwmp_status_ko, st\<lparr>connection_timestamp_list := ts\<rparr>)
     else (cwmp_status_ok, st\<lparr>connection_timestamp_list := ts @ [t]\<rparr>))"
  using assms
  by (simp add: cwmp_server_check_availability_def cwmp_server_maxConnectionsReached_def Let_def
      unat_double cwmp_server_maxConnectionsAdd_def)

definition in_window :: "int \<Rightarrow> int \<Rightarrow> int \<Rightarrow> bool" where
  "in_window w len x \<longleftrightarrow> w \<le> x \<and> x \<le> w + len"

lemma window_snoc:
  assumes "length (filter (\<lambda>x. t - len \<le> x) A) \<le> m" "length (filter (in_window w len) A) \<le> Suc m"
  shows "length (filter (in_window w len) (A @ [t])) \<le> Suc m"
proof (cases "in_window w len t")
  case False
  with assms(2) show ?thesis by simp
next
  case True
  have "length (filter (in_window w len) A) \<le> length (filter (\<lambda>x. t - len \<le> x) A)"
  proof -
    have "filter (in_window w len) A = filter (in_window w len) (filter (\<lambda>x. t - len \<le> x) A)"
      using True by (auto simp: in_window_def intro!: filter_cong)
    then show ?thesis by (metis length_filter_le)
  qed
  with True assms(1) show ?thesis by simp
qed

lemma accept_run_bound:
  assumes "request_limits env = (mc, fc)" "unat mc < 2 ^ 31" "ce_alloc env" "0 \<le> sint fc"
  shows "sorted (p # ts) \<Longrightarrow> connection_timestamp_list st = filter (\<lambda>x. p - x \<le> sint fc) A \<Longrightarrow>
    \<forall>x\<in>set A. x \<le> p \<Longrightarrow> length (filter (in_window w (sint fc)) A) \<le> Suc (2 * unat mc) \<Longrightarrow>
    length (filter (in_window w (sint fc)) (A @ accept_run env st ts)) \<le> Suc (2 * unat mc)"
proof (induction ts arbitrary: p A st)
  case Nil
  then show ?case by simp
next
  case (Cons t ts)
  let ?L = "filter (\<lambda>x. \<not> expired t fc x) (connection_timestamp_list st)"
  have A: "\<forall>x\<in>set A. x \<le> t" "p \<le> t" using Cons.prems(1,3) by auto
  then have L: "?L = filter (\<lambda>x. t - x \<le> sint fc) A"
    using Cons.prems(2) by (auto simp: expired_iff [OF assms(4)] intro!: filter_cong)
  note step = check_availability_limits [OF assms(1,2,3) refl, of t st]
  show ?case
  proof (cases "length ?L > 2 * unat mc")
    case True
    with step have "accept_run env st (t # ts) = accept_run env (st\<lparr>connection_timestamp_list := ?L\<rparr>) ts"
      by simp
    with Cons.IH [of t "st\<lparr>connection_timestamp_list := ?L\<rparr>" A] Cons.prems A L show ?thesis by simp
  next
    case False
    with step have run: "accept_run env st (t # ts) =
        t # accept_run env (st\<lparr>connection_timestamp_list := ?L @ [t]\<rparr>) ts" by simp
    have "length (filter (\<lambda>x. t - sint fc \<le> x) A) \<le> 2 * unat mc"
      using False L by (simp add: algebra_simps)
    then have "length (filter (in_window w (sint fc)) (A @ [t])) \<le> Suc (2 * unat mc)"
      using Cons.prems(4) by (rule window_snoc)
    with Cons.IH [of t "st\<lparr>connection_timestamp_list := ?L @ [t]\<rparr>" "A @ [t]"] Cons.prems(1) A L assms(4)
    show ?thesis unfolding run by simp
  qed
qed

text \<open>Property C8. The rate limiter holds over every period: with limit \<open>mc\<close> and period \<open>fc\<close>, of
  any sequence of connection requests at non-decreasing times, at most \<open>2 mc + 1\<close> are accepted
  in any \<open>fc\<close> seconds, whatever the others do.\<close>

theorem rate_limit_every_window:
  assumes "request_limits env = (mc, fc)" "unat mc < 2 ^ 31" "ce_alloc env" "0 \<le> sint fc"
    and "sorted ts" "connection_timestamp_list st = []"
  shows "length (filter (in_window w (sint fc)) (accept_run env st ts)) \<le> 2 * unat mc + 1"
proof (cases ts)
  case Nil
  then show ?thesis by simp
next
  case (Cons t us)
  then have "sorted (t # ts)" using assms(5) by simp
  from accept_run_bound [OF assms(1-4) this, of st "[]"] assms(6) show ?thesis by simp
qed

definition example_cr_env :: cr_env where
  "example_cr_env =
     \<lparr>ce_now = 0, ce_alloc = True, ce_params = [''2'', ''60''], ce_default_mc = 10, ce_default_fc = 60,
      ce_value = (\<lambda>p. Some (Some (if p = DM_ENG_CONNECTIONREQUESTPATH then ''cpe''
        else if p = DM_ENG_LOCALIPADDRESS then ''10.0.0.2'' else ''7547''))),
      ce_stack = [], ce_auth_token = ''Authorization:'', ce_check_content = (\<lambda>m. True),
      ce_digest_ok = (\<lambda>m u p. True), ce_digest_msg = ''Digest'', ce_write_fails = (\<lambda>w. False),
      ce_completed = False, ce_request_connection = 0, ce_callback_dummy = 0,
      ce_new_ctx = Some 1, ce_new_vhost = Some 2\<rparr>"

definition stopped_server :: cr_server where
  "stopped_server =
     \<lparr>connection_timestamp_list = [], g_randomCpeUrl = None, vhost_name = None, lws_server_ctx = None,
      lws_server_vhost = None, live_ctx = [], live_vhost = [], cr_replies = [], session_requests = 0,
      leaked_messages = 0, null_deref = False\<rparr>"

lemma example_limits: "request_limits example_cr_env = (2, 60)"
  by code_simp

theorem rate_limit_every_window_witness:
  "length (filter (in_window 0 60) (accept_run example_cr_env stopped_server
     [0, 1, 1, 2, 3, 4, 50, 61, 100])) \<le> 5"
  using rate_limit_every_window [OF example_limits, of "[0, 1, 1, 2, 3, 4, 50, 61, 100]" stopped_server 0]
  by (simp add: example_cr_env_def stopped_server_def)

lemma accept_run_burst:
  assumes "request_limits env = (mc, fc)" "unat mc < 2 ^ 31" "ce_alloc env" "0 \<le> sint fc"
  shows "connection_timestamp_list st = replicate k t \<Longrightarrow>
    accept_run env st (replicate n t) = replicate (min n (2 * unat mc + 1 - k)) t"
proof (induction n arbitrary: st k)
  case 0
  then show ?case by simp
next
  case (Suc n)
  have L: "filter (\<lambda>x. \<not> expired t fc x) (connection_timestamp_list st) = replicate k t"
    using Suc.prems assms(4) by (simp add: expired_iff filter_replicate)
  note step = check_availability_limits [OF assms(1,2,3) L [symmetric]]
  show ?case
  proof (cases "k > 2 * unat mc")
    case True
    with Suc.IH [of "st\<lparr>connection_timestamp_list := replicate k t\<rparr>" k] step show ?thesis by simp
  next
    case False
    moreover have "replicate k t @ [t] = replicate (Suc k) t" by (simp add: replicate_append_same)
    ultimately have "accept_run env st (replicate (Suc n) t) =
        t # accept_run env (st\<lparr>connection_timestamp_list := replicate (Suc k) t\<rparr>) (replicate n t)"
      using step by simp
    also have "\<dots> = replicate (Suc (min n (2 * unat mc + 1 - Suc k))) t"
      using Suc.IH [of "st\<lparr>connection_timestamp_list := replicate (Suc k) t\<rparr>" "Suc k"]
      by (simp del: replicate_Suc) simp
    also have "Suc (min n (2 * unat mc + 1 - Suc k)) = min (Suc n) (2 * unat mc + 1 - k)"
      using False by (simp add: min_def Suc_diff_le)
    finally show ?thesis .
  qed
qed

text \<open>The limiter lets one request more through than the \<open>2 mc\<close> its comment announces:
  of a burst of requests in one second the first \<open>2 mc + 1\<close> are accepted and the others are not,
  because the size is compared before the request is added.\<close>

theorem rate_limit_burst:
  assumes "request_limits env = (mc, fc)" "unat mc < 2 ^ 31" "ce_alloc env" "0 \<le> sint fc"
    and "connection_timestamp_list st = []"
  shows "accept_run env st (replicate n t) = replicate (min n (2 * unat mc + 1)) t"
  using accept_run_burst [OF assms(1-4), of st 0] assms(5) by simp

theorem rate_limit_burst_witness:
  "accept_run example_cr_env stopped_server (replicate 9 7) = replicate 5 7"
  using rate_limit_burst [OF example_limits, of stopped_server 9 7]
  by (simp add: example_cr_env_def stopped_server_def)

subsection \<open>Authentication\<close>

text \<open>What a request must satisfy for the CPE to open a session because of it.\<close>

definition authorised :: "cr_env \<Rightarrow> request \<Rightarrow> cr_server \<Rightarrow> bool" where
  "authorised env rq st \<longleftrightarrow>
     rq_len rq \<ge> 1 \<and> \<not> fst (cwmp_server_maxConnectionsReached env st) \<and> rq_get rq \<and> rq_http rq \<and>
     (\<exists>c url. rq_uri rq = Some (c # url) \<and> g_randomCpeUrl st = Some url) \<and>
     rq_authorization rq \<noteq> [] \<and> ce_check_content env (digest_message env rq) \<and>
     (\<exists>user passwd. ce_value env DM_ENG_CONNECTIONREQUESTUSERNAME = Some user \<and>
        ce_value env DM_ENG_CONNECTIONREQUESTPASSWORD = Some passwd \<and>
        ce_digest_ok env (digest_message env rq) user passwd)"

lemma check_availability_frame:
  assumes "cwmp_server_check_availability env st = (r, st1)"
  shows "g_randomCpeUrl st1 = g_randomCpeUrl st" "session_requests st1 = session_requests st"
    "cr_replies st1 = cr_replies st" "r = cwmp_status_ok \<longleftrightarrow> \<not> fst (cwmp_server_maxConnectionsReached env st)"
    "lws_server_ctx st1 = lws_server_ctx st" "lws_server_vhost st1 = lws_server_vhost st"
    "live_ctx st1 = live_ctx st" "live_vhost st1 = live_vhost st" "vhost_name st1 = vhost_name st"
  using assms
  by (auto simp: cwmp_server_check_availability_def cwmp_server_maxConnectionsReached_def
      cwmp_server_maxConnectionsAdd_def Let_def split: prod.splits bool.splits if_splits)

lemma validate_uri_ok:
  "rq_uri rq \<noteq> Some [] \<Longrightarrow> cwmp_server_validate_uri rq st = cwmp_status_ok \<longleftrightarrow>
     rq_get rq \<and> rq_http rq \<and> (\<exists>c url. rq_uri rq = Some (c # url) \<and> g_randomCpeUrl st = Some url)"
  by (cases "rq_uri rq"; cases "the (rq_uri rq)"; cases "g_randomCpeUrl st")
    (auto simp: cwmp_server_validate_uri_def)

lemma validate_authentication_ok:
  "cwmp_server_validate_authentication env rq = cwmp_status_ok \<longleftrightarrow>
     rq_authorization rq \<noteq> [] \<and> ce_check_content env (digest_message env rq) \<and>
     (\<exists>user passwd. ce_value env DM_ENG_CONNECTIONREQUESTUSERNAME = Some user \<and>
        ce_value env DM_ENG_CONNECTIONREQUESTPASSWORD = Some passwd \<and>
        ce_digest_ok env (digest_message env rq) user passwd)"
  by (auto simp: cwmp_server_validate_authentication_def split: option.splits if_splits)

lemma reply_frame [simp]:
  "session_requests (snd (cwmp_server_reply_http_unauthorized env st)) = session_requests st"
  "session_requests (snd (cwmp_server_reply_http_no_content env st)) = session_requests st"
  "session_requests (lws_return_http_status code st) = session_requests st"
  "cr_replies (lws_return_http_status code st) = cr_replies st @ [code]"
  by (simp_all add: cwmp_server_reply_http_unauthorized_def cwmp_server_reply_http_no_content_def
      lws_return_http_status_def Let_def)

lemma not_ok_ko: "s \<noteq> cwmp_status_ok \<longleftrightarrow> s = cwmp_status_ko"
  by (cases s) simp_all

text \<open>Property C7. A connection request makes the engine open a session exactly when it is within
  the rate, is a GET of the secret path, and its Authorization header passes the digest check with
  the configured user and password; otherwise the engine is not called, and it is never called twice.\<close>

theorem session_iff_authorised:
  assumes "cwmp_server_handle_request env rq st = (rc, st')" "rq_uri rq \<noteq> Some []"
  shows "session_requests st' = (if authorised env rq st then Suc (session_requests st) else session_requests st)"
proof -
  obtain r st1 where c: "cwmp_server_check_availability env st = (r, st1)" by fastforce
  note f = check_availability_frame [OF c]
  have "cwmp_server_validate_uri rq st1 = cwmp_server_validate_uri rq st"
    by (simp add: cwmp_server_validate_uri_def f(1))
  with assms(1) show ?thesis
    unfolding authorised_def validate_authentication_ok [symmetric]
    using c f(2,4) validate_uri_ok [OF assms(2), of st]
    by (auto simp: cwmp_server_handle_request_def Let_def not_ok_ko split: if_splits)
qed

definition example_request :: request where
  "example_request = \<lparr>rq_uri = Some ''/cpe'', rq_len = 4, rq_get = True, rq_http = True,
     rq_authorization = ''Digest x''\<rparr>"

definition running_server :: cr_server where
  "running_server = snd (cwmp_server_start example_cr_env stopped_server)"

theorem session_iff_authorised_witness:
  "session_requests (snd (cwmp_server_handle_request example_cr_env example_request running_server)) = 1"
proof -
  have "\<not> fst (cwmp_server_maxConnectionsReached example_cr_env running_server)"
    "g_randomCpeUrl running_server = Some ''cpe''" "session_requests running_server = 0" by code_simp+
  then show ?thesis
    using session_iff_authorised [OF prod.collapse [symmetric], of example_request example_cr_env running_server]
    by (simp add: authorised_def example_request_def example_cr_env_def)
qed

text \<open>Every request gets exactly one reply, with the status that TR-069 asks for: 400 for an
  empty path, 503 above the rate, 404 for another path, 401 without valid digest, 204 when the
  session is accepted and 503 when the engine refuses it; only a failing write of the 401 or 204
  headers leaves it without one.\<close>

theorem request_reply:
  assumes "cwmp_server_handle_request env rq st = (rc, st')" "rq_uri rq \<noteq> Some []"
    and "\<forall>w. \<not> ce_write_fails env w"
  shows "cr_replies st' = cr_replies st @
    [if rq_len rq < 1 then 400
     else if fst (cwmp_server_maxConnectionsReached env st) then 503
     else if \<not> (rq_get rq \<and> rq_http rq \<and>
        (\<exists>c url. rq_uri rq = Some (c # url) \<and> g_randomCpeUrl st = Some url)) then 404
     else if \<not> authorised env rq st then 401
     else if ce_request_connection env = 0 then 204 else 503]"
proof -
  obtain r st1 where c: "cwmp_server_check_availability env st = (r, st1)" by fastforce
  note f = check_availability_frame [OF c]
  have u: "cwmp_server_validate_uri rq st1 = cwmp_server_validate_uri rq st"
    by (simp add: cwmp_server_validate_uri_def f(1))
  have n: "cr_replies (snd (cwmp_server_reply_http_unauthorized env s)) = cr_replies s @ [401]"
    "cr_replies (snd (cwmp_server_reply_http_no_content env s)) = cr_replies s @ [204]" for s
    using assms(3) by (simp_all add: cwmp_server_reply_http_unauthorized_def
        cwmp_server_reply_http_no_content_def)
  show ?thesis
    using assms(1) c f(3,4) u
    unfolding authorised_def validate_uri_ok [OF assms(2), symmetric] validate_authentication_ok [symmetric]
    using validate_uri_ok [OF assms(2), of st]
    by (auto simp: cwmp_server_handle_request_def Let_def not_ok_ko n split: if_splits)
qed

theorem request_reply_witness:
  "cr_replies (snd (cwmp_server_handle_request example_cr_env (example_request\<lparr>rq_uri := Some ''/x''\<rparr>)
     running_server)) = [404]"
proof -
  have "\<not> fst (cwmp_server_maxConnectionsReached example_cr_env running_server)"
    "g_randomCpeUrl running_server = Some ''cpe''" "cr_replies running_server = []" by code_simp+
  then show ?thesis
    using request_reply [OF prod.collapse [symmetric], of "example_request\<lparr>rq_uri := Some ''/x''\<rparr>"
        example_cr_env running_server]
    by (simp add: example_request_def example_cr_env_def)
qed

subsection \<open>The life of the server\<close>

text \<open>cwmpd\_main.c restarts the server by stopping and starting it.\<close>

definition cwmp_app_http_server_restart :: "cr_env \<Rightarrow> cr_server \<Rightarrow> cwmp_status \<times> cr_server" where
  "cwmp_app_http_server_restart env st = cwmp_server_start env (snd (cwmp_server_stop st))"

datatype cr_event =
    Cr_callback cr_env lws_reason request
  | Cr_stop
  | Cr_restart cr_env
  | Cr_start cr_env

fun cr_step :: "cr_server \<Rightarrow> cr_event \<Rightarrow> cr_server" where
  "cr_step st (Cr_callback env reason rq) = snd (cwmp_server_http_callback env reason rq st)"
| "cr_step st Cr_stop = snd (cwmp_server_stop st)"
| "cr_step st (Cr_restart env) = snd (cwmp_app_http_server_restart env st)"
| "cr_step st (Cr_start env) = snd (cwmp_server_start env st)"

definition not_started :: "cr_server \<Rightarrow> bool" where
  "not_started st \<longleftrightarrow> lws_server_ctx st = None \<and> lws_server_vhost st = None"

fun cr_ok :: "cr_server \<Rightarrow> cr_event \<Rightarrow> bool" where
  "cr_ok st (Cr_start env) = not_started st"
| "cr_ok st _ = True"

definition owned :: "cr_server \<Rightarrow> bool" where
  "owned st \<longleftrightarrow> live_ctx st = (case lws_server_ctx st of None \<Rightarrow> [] | Some c \<Rightarrow> [c]) \<and>
     live_vhost st = (case lws_server_vhost st of None \<Rightarrow> [] | Some v \<Rightarrow> [v])"

lemma owned_start: "owned st \<Longrightarrow> not_started st \<Longrightarrow> owned (snd (cwmp_server_start env st))"
  by (auto simp: owned_def not_started_def cwmp_server_start_def start_listening_def
      cwmp_server_init_lws_def cwmp_server_initConnectionTimestampList_def Let_def
      split: option.splits if_splits cwmp_status.splits prod.splits)

lemma owned_stop: "owned st \<Longrightarrow> owned (snd (cwmp_server_stop st)) \<and> not_started (snd (cwmp_server_stop st))"
  by (auto simp: owned_def not_started_def cwmp_server_stop_def cwmp_server_maxConnectionsCleanup_def
      split: option.splits)

lemma owned_frame:
  "lws_server_ctx st' = lws_server_ctx st \<Longrightarrow> lws_server_vhost st' = lws_server_vhost st \<Longrightarrow>
   live_ctx st' = live_ctx st \<Longrightarrow> live_vhost st' = live_vhost st \<Longrightarrow> owned st' = owned st"
  by (simp add: owned_def)

lemma owned_request: "owned st \<Longrightarrow> owned (snd (cwmp_server_handle_request env rq st))"
proof -
  obtain r st1 where c: "cwmp_server_check_availability env st = (r, st1)" by fastforce
  have 1: "owned st1 = owned st" using check_availability_frame [OF c] by (intro owned_frame) simp_all
  have 2: "owned (snd (cwmp_server_reply_http_unauthorized env s)) = owned s"
    "owned (snd (cwmp_server_reply_http_no_content env s)) = owned s"
    "owned (lws_return_http_status k s) = owned s" "owned (s\<lparr>session_requests := k\<rparr>) = owned s" for s k
    by (intro owned_frame; simp add: cwmp_server_reply_http_unauthorized_def
        cwmp_server_reply_http_no_content_def lws_return_http_status_def Let_def)+
  show "owned st \<Longrightarrow> owned (snd (cwmp_server_handle_request env rq st))"
    by (simp add: cwmp_server_handle_request_def c 1 2 Let_def)
qed

interpretation cr_system: event_system cr_step cr_ok owned
proof
  fix st e
  assume "owned st" "cr_ok st e"
  then show "owned (cr_step st e)"
  proof (cases e)
    case (Cr_callback env reason rq)
    moreover have "owned (lws_return_http_status k st) = owned st" for k
      by (rule owned_frame) (simp_all add: lws_return_http_status_def)
    ultimately show ?thesis
      using \<open>owned st\<close> by (cases reason) (simp_all add: cwmp_server_http_callback_def owned_request)
  qed (auto simp: cwmp_app_http_server_restart_def owned_start owned_stop)
qed

text \<open>No libwebsockets context or virtual host is leaked or destroyed twice: along any
  sequence of requests, stops, restarts and starts of a stopped server, the live ones are exactly
  those the server holds, so that after a final stop nothing is left.\<close>

theorem server_resources_balanced:
  assumes "enabled_run cr_ok cr_step stopped_server es"
  shows "owned (foldl cr_step stopped_server es) \<and>
    live_ctx (foldl cr_step stopped_server (es @ [Cr_stop])) = [] \<and>
    live_vhost (foldl cr_step stopped_server (es @ [Cr_stop])) = []"
proof -
  have "owned stopped_server" by (simp add: owned_def stopped_server_def)
  then have "owned (foldl cr_step stopped_server es)"
    by (rule cr_system.run_inv [OF _ assms])
  with owned_stop [OF this] show ?thesis by (simp add: owned_def not_started_def)
qed

theorem server_resources_balanced_witness:
  "live_ctx (foldl cr_step stopped_server
     ([Cr_start example_cr_env, Cr_callback example_cr_env LWS_CALLBACK_HTTP example_request,
       Cr_restart example_cr_env] @ [Cr_stop])) = []"
proof -
  have "enabled_run cr_ok cr_step stopped_server [Cr_start example_cr_env,
      Cr_callback example_cr_env LWS_CALLBACK_HTTP example_request, Cr_restart example_cr_env]"
    by (simp add: not_started_def stopped_server_def)
  then show ?thesis using server_resources_balanced by blast
qed

text \<open>Starting a running server (the engine event \<open>HTTP_SERVER_START\<close> does it without
  stopping first) loses the old context and virtual host: they stay alive after the server is stopped.\<close>

theorem double_start_leaks:
  "\<exists>env. live_ctx (foldl cr_step stopped_server [Cr_start env, Cr_start (env\<lparr>ce_new_ctx := Some 7\<rparr>), Cr_stop]) \<noteq> []"
proof
  show "live_ctx (foldl cr_step stopped_server
      [Cr_start example_cr_env, Cr_start (example_cr_env\<lparr>ce_new_ctx := Some 7\<rparr>), Cr_stop]) \<noteq> []"
    by code_simp
qed

end
