(* ===== verification/Dns_Resolver.thy ===== *)
theory Dns_Resolver
  imports Prelude
begin

section \<open>Resolution of the ACS address (cwmpd\_dns.c)\<close>

text \<open>
  The resolvers with their poll events and timers, the list of addresses written to the data model
  and the schedule of the next lookup. c-ares, libevent and the engine are fields of \<open>dns_env\<close>. A
  resolver keeps in \<open>r_pending\<close> whether c-ares still owes it its callback: \<open>ares_destroy\<close> calls the
  callback of a pending query with \<open>ARES_EDESTRUCTION\<close>, as its documentation says. An address that
  c-ares returns is a \<open>ai_node\<close> with what the two conversions to text write into the buffer.
\<close>

subsection \<open>Model\<close>

datatype ares_status = ARES_SUCCESS | ARES_EDESTRUCTION | ARES_error

datatype ai_family = AF_UNSPEC | AF_INET | AF_INET6

record ai_node =
  ai_inet_ntop :: cstr
  ai_ares_ntop :: cstr
  ai_ttl :: int

record event_pair =
  ep_fd :: int
  ep_read :: bool
  ep_write :: bool

record resolver =
  r_id :: addr
  r_host :: string
  r_dirty :: bool
  r_family :: ai_family
  r_events :: "event_pair list"
  r_clean_timer :: amxp_timer
  r_timeout_timer :: amxp_timer
  r_pending :: bool

record dns =
  dns_ttl_timer :: amxp_timer
  dns_ttl_val :: int
  ainfo_list :: "(string \<times> int) list"
  resolver_list :: "resolver list"
  send_bootstrap :: bool
  dm_acsiplist :: string
  bootstrap_informs :: nat

record dns_env =
  de_url :: "cstr option"
  de_parse_host :: "cstr \<Rightarrow> cstr"
  de_is_ipaddr :: "string \<Rightarrow> bool"
  de_interval :: "cstr option"
  de_family :: "cstr option"
  de_set_ok :: bool
  de_remaining :: u32
  de_alloc :: "addr option"
  de_alloc_event :: bool
  de_ares_init :: ares_status
  de_ares_library :: ares_status

definition INT_MAX :: int where "INT_MAX = 2147483647"

fun amxp_stop :: "amxp_timer \<Rightarrow> amxp_timer" where
  "amxp_stop No_timer = No_timer"
| "amxp_stop (Timer _) = Timer None"

subsubsection \<open>Poll events\<close>

fun event_list_findby_fd :: "event_pair list \<Rightarrow> int \<Rightarrow> event_pair option" where
  "event_list_findby_fd [] fd = None"
| "event_list_findby_fd (e # es) fd = (if ep_fd e = fd then Some e else event_list_findby_fd es fd)"

fun event_list_take :: "event_pair list \<Rightarrow> int \<Rightarrow> event_pair list" where
  "event_list_take [] fd = []"
| "event_list_take (e # es) fd = (if ep_fd e = fd then es else e # event_list_take es fd)"

definition event_list_append :: "event_pair list \<Rightarrow> event_pair \<Rightarrow> event_pair list" where
  "event_list_append es e = es @ [e]"

fun event_list_renew :: "event_pair list \<Rightarrow> event_pair \<Rightarrow> event_pair list" where
  "event_list_renew [] n = []"
| "event_list_renew (e # es) n = (if ep_fd e = ep_fd n then n # es else e # event_list_renew es n)"

definition cwmp_dns_fd_poll_stop :: "resolver \<Rightarrow> int \<Rightarrow> resolver" where
  "cwmp_dns_fd_poll_stop r fd =
     (case event_list_findby_fd (r_events r) fd of
        None \<Rightarrow> r
      | Some e \<Rightarrow> r\<lparr>r_events := event_list_take (r_events r) fd\<rparr>)"

definition cwmp_dns_fd_poll_start :: "dns_env \<Rightarrow> resolver \<Rightarrow> bool \<Rightarrow> bool \<Rightarrow> int \<Rightarrow> resolver" where
  "cwmp_dns_fd_poll_start env r rd wr fd =
     (let e = \<lparr>ep_fd = fd, ep_read = rd, ep_write = wr\<rparr> in
      case event_list_findby_fd (r_events r) fd of
        None \<Rightarrow>
          (if de_alloc_event env then r\<lparr>r_events := event_list_append (r_events r) e\<rparr> else r)
      | Some _ \<Rightarrow> r\<lparr>r_events := event_list_renew (r_events r) e\<rparr>)"

definition resolver_clean_timer_start :: "resolver \<Rightarrow> resolver" where
  "resolver_clean_timer_start r =
     (if r_clean_timer r = No_timer then r\<lparr>r_clean_timer := Timer (Some 2000)\<rparr> else r)"

definition cwmp_dns_ares_sock_cb :: "dns_env \<Rightarrow> resolver \<Rightarrow> int \<Rightarrow> bool \<Rightarrow> bool \<Rightarrow> resolver" where
  "cwmp_dns_ares_sock_cb env r fd rd wr =
     (if \<not> rd \<and> \<not> wr then
        (let r1 = cwmp_dns_fd_poll_stop r fd in
         if r_events r1 = []
         then resolver_clean_timer_start (r1\<lparr>r_timeout_timer := amxp_stop (r_timeout_timer r1)\<rparr>)
         else r1)
      else
        (let r1 = cwmp_dns_fd_poll_start env r rd wr fd in
         if r_timeout_timer r1 = No_timer then r1\<lparr>r_timeout_timer := Timer (Some 2000)\<rparr> else r1))"

text \<open>The sockets that the two event callbacks pass to \<open>ares_process_fd\<close>, for reading and for
  writing.\<close>

definition ARES_SOCKET_BAD :: int where "ARES_SOCKET_BAD = -1"

definition cwmp_dns_fd_event_cb :: "int \<Rightarrow> bool \<Rightarrow> bool \<Rightarrow> int \<times> int" where
  "cwmp_dns_fd_event_cb fd ev_read ev_write =
     ((if ev_read then fd else ARES_SOCKET_BAD), (if ev_write then fd else ARES_SOCKET_BAD))"

definition resolver_timeout_timer_cb :: "int \<times> int" where
  "resolver_timeout_timer_cb = (ARES_SOCKET_BAD, ARES_SOCKET_BAD)"

subsubsection \<open>Results\<close>

text \<open>The loop of \<open>cwmp_dns_update_dm\<close>.\<close>

fun addr_list_str :: "(string \<times> int) list \<Rightarrow> string" where
  "addr_list_str [] = []"
| "addr_list_str ((ip, ttl) # as) = ip @ (if as = [] then [] else '','') @ addr_list_str as"

definition set_acsiplist :: "dns_env \<Rightarrow> string \<Rightarrow> dns \<Rightarrow> dns" where
  "set_acsiplist env v st = (if de_set_ok env then st\<lparr>dm_acsiplist := v\<rparr> else st)"

definition cwmp_dns_update_dm :: "dns_env \<Rightarrow> dns \<Rightarrow> dns" where
  "cwmp_dns_update_dm env st =
     (set_acsiplist env (addr_list_str (ainfo_list st)) st)\<lparr>ainfo_list := []\<rparr>"

text \<open>The timer takes its milliseconds as \<open>unsigned int\<close>.\<close>

definition cwmp_dns_schedule :: "dns_env \<Rightarrow> dns \<Rightarrow> dns" where
  "cwmp_dns_schedule env st =
     (let v = (if dns_ttl_val st \<le> 0 \<or> dns_ttl_val st = INT_MAX then
                 (case de_interval env of
                    Some (Some s) \<Rightarrow> atoi s
                  | _ \<Rightarrow> 300)
               else dns_ttl_val st)
      in st\<lparr>dns_ttl_val := v, dns_ttl_timer := amxp_start (dns_ttl_timer st) (word_of_int (v * 1000))\<rparr>)"

text \<open>One round of the loop of \<open>cwmp_dns_read_ai\<close>; the text buffer \<open>ip\<close> keeps its content from
  round to round.\<close>

definition read_ai_node :: "string \<Rightarrow> ai_node \<Rightarrow> dns \<Rightarrow> string \<times> dns" where
  "read_ai_node ip n st =
     (let ip1 = (case ai_inet_ntop n of None \<Rightarrow> ip | Some s \<Rightarrow> s);
          ip2 = (case ai_ares_ntop n of None \<Rightarrow> ip1 | Some s \<Rightarrow> s)
      in if length ip2 = 0 then (ip2, st)
         else (ip2, st\<lparr>dns_ttl_val := (if dns_ttl_val st > ai_ttl n then ai_ttl n else dns_ttl_val st),
                       ainfo_list := ainfo_list st @ [(ip2, ai_ttl n)]\<rparr>))"

fun read_ai_nodes :: "string \<Rightarrow> ai_node list \<Rightarrow> dns \<Rightarrow> dns" where
  "read_ai_nodes ip [] st = st"
| "read_ai_nodes ip (n # ns) st = (case read_ai_node ip n st of (ip', st') \<Rightarrow> read_ai_nodes ip' ns st')"

definition cwmp_dns_read_ai :: "ai_node list \<Rightarrow> dns \<Rightarrow> dns" where
  "cwmp_dns_read_ai nodes st = read_ai_nodes [] nodes (st\<lparr>ainfo_list := [], dns_ttl_val := INT_MAX\<rparr>)"

definition send_pending_bootstrap :: "dns \<Rightarrow> dns" where
  "send_pending_bootstrap st =
     (if send_bootstrap st
      then st\<lparr>bootstrap_informs := Suc (bootstrap_informs st), send_bootstrap := False\<rparr> else st)"

text \<open>The callback works on a resolver that may have left the list; it returns both.\<close>

definition cwmp_dns_resolve_cb ::
  "dns_env \<Rightarrow> ares_status \<Rightarrow> ai_node list \<Rightarrow> resolver \<Rightarrow> dns \<Rightarrow> resolver \<times> dns" where
  "cwmp_dns_resolve_cb env status nodes r st =
     (let r1 = resolver_clean_timer_start
                 (r\<lparr>r_pending := False, r_timeout_timer := amxp_stop (r_timeout_timer r)\<rparr>)
      in if r_dirty r then (r1, st)
         else (r1, send_pending_bootstrap
                (if status = ARES_SUCCESS \<and> nodes \<noteq> []
                 then cwmp_dns_schedule env (cwmp_dns_update_dm env (cwmp_dns_read_ai nodes st))
                 else st\<lparr>dns_ttl_timer := amxp_start (dns_ttl_timer st) 5000\<rparr>)))"

definition resolver_clean :: "dns_env \<Rightarrow> resolver \<Rightarrow> dns \<Rightarrow> dns" where
  "resolver_clean env r st =
     (if r_pending r then snd (cwmp_dns_resolve_cb env ARES_EDESTRUCTION [] (r\<lparr>r_events := []\<rparr>) st) else st)"

definition find_resolver :: "dns \<Rightarrow> addr \<Rightarrow> resolver option" where
  "find_resolver st i = find (\<lambda>r. r_id r = i) (resolver_list st)"

definition resolver_clean_timer_cb :: "dns_env \<Rightarrow> addr \<Rightarrow> dns \<Rightarrow> dns" where
  "resolver_clean_timer_cb env i st =
     (case find_resolver st i of
        None \<Rightarrow> st
      | Some r \<Rightarrow>
          resolver_clean env r (st\<lparr>resolver_list := filter (\<lambda>r. r_id r \<noteq> i) (resolver_list st)\<rparr>))"

subsubsection \<open>Lookups\<close>

definition cwmp_dns_get_aifamily :: "dns_env \<Rightarrow> ai_family" where
  "cwmp_dns_get_aifamily env =
     (case de_family env of
        Some (Some s) \<Rightarrow> (if atoi s = 4 then AF_INET else if atoi s = 6 then AF_INET6 else AF_UNSPEC)
      | _ \<Rightarrow> AF_UNSPEC)"

definition resolver_create :: "dns_env \<Rightarrow> cstr \<Rightarrow> resolver option" where
  "resolver_create env host =
     (if str_empty host then None
      else (case de_alloc env of
              None \<Rightarrow> None
            | Some a \<Rightarrow>
                (if de_ares_init env \<noteq> ARES_SUCCESS then None
                 else Some \<lparr>r_id = a, r_host = the host, r_dirty = False,
                        r_family = cwmp_dns_get_aifamily env, r_events = [], r_clean_timer = No_timer,
                        r_timeout_timer = No_timer, r_pending = False\<rparr>)))"

definition cwmp_dns_get_host :: "dns_env \<Rightarrow> cstr \<Rightarrow> cstr" where
  "cwmp_dns_get_host env acsurl = de_parse_host env acsurl"

definition cwmp_dns_set_static_ip :: "dns_env \<Rightarrow> string \<Rightarrow> dns \<Rightarrow> dns" where
  "cwmp_dns_set_static_ip env host st = set_acsiplist env host (st\<lparr>ainfo_list := [(host, 0)]\<rparr>)"

definition mark_resolvers_as_dirty :: "dns \<Rightarrow> dns" where
  "mark_resolvers_as_dirty st =
     st\<lparr>resolver_list := map (\<lambda>r. r\<lparr>r_dirty := True\<rparr>) (resolver_list st)\<rparr>"

definition cwmp_dns_ares_resolution :: "dns_env \<Rightarrow> cstr \<Rightarrow> dns \<Rightarrow> cwmp_status \<times> dns" where
  "cwmp_dns_ares_resolution env host st =
     (case resolver_create env host of
        None \<Rightarrow> (cwmp_status_ko, st)
      | Some r \<Rightarrow> (cwmp_status_ok, st\<lparr>resolver_list := resolver_list st @ [r\<lparr>r_pending := True\<rparr>]\<rparr>))"

definition dns_retry :: "dns \<Rightarrow> dns" where
  "dns_retry st = st\<lparr>dns_ttl_timer := amxp_start (dns_ttl_timer st) 5000\<rparr>"

definition cwmp_dns_resolve :: "dns_env \<Rightarrow> bool \<Rightarrow> dns \<Rightarrow> cwmp_status \<times> dns" where
  "cwmp_dns_resolve env url_changed st =
     (case de_url env of
        None \<Rightarrow> (cwmp_status_ko, dns_retry st)
      | Some acsurl \<Rightarrow>
          (case cwmp_dns_get_host env acsurl of
             None \<Rightarrow> (cwmp_status_ko, dns_retry st)
           | Some host \<Rightarrow>
               (let st1 = (if url_changed
                           then (set_acsiplist env [] (st\<lparr>ainfo_list := []\<rparr>))\<lparr>send_bootstrap := True\<rparr>
                           else st);
                    st2 = mark_resolvers_as_dirty
                            (if de_remaining env > 0
                             then st1\<lparr>dns_ttl_timer := amxp_stop (dns_ttl_timer st1)\<rparr> else st1)
                in if host = [] then (cwmp_status_ok, st2)
                   else if de_is_ipaddr env host
                   then (cwmp_status_ok, send_pending_bootstrap (cwmp_dns_set_static_ip env host st2))
                   else (case cwmp_dns_ares_resolution env (Some host) st2 of
                           (cwmp_status_ko, st3) \<Rightarrow> (cwmp_status_ko, dns_retry st3)
                         | (cwmp_status_ok, st3) \<Rightarrow> (cwmp_status_ok, st3)))))"

text \<open>A single-shot timer is stopped when it expires.\<close>

definition dns_ttl_timer_cb :: "dns_env \<Rightarrow> dns \<Rightarrow> dns" where
  "dns_ttl_timer_cb env st =
     snd (cwmp_dns_resolve env False (st\<lparr>dns_ttl_timer := amxp_stop (dns_ttl_timer st)\<rparr>))"

definition cwmp_dns_init :: "dns_env \<Rightarrow> dns \<Rightarrow> cwmp_status \<times> dns" where
  "cwmp_dns_init env st =
     (if de_ares_library env \<noteq> ARES_SUCCESS then (cwmp_status_ko, st)
      else (cwmp_status_ok, st\<lparr>dns_ttl_timer := Timer None, ainfo_list := [], resolver_list := []\<rparr>))"

definition cwmp_dns_clean :: "dns_env \<Rightarrow> dns \<Rightarrow> cwmp_status \<times> dns" where
  "cwmp_dns_clean env st =
     (cwmp_status_ok,
      fold (resolver_clean env) (resolver_list st)
        (st\<lparr>dns_ttl_timer := No_timer, ainfo_list := [], resolver_list := []\<rparr>))"

subsection \<open>The poll events of a resolver\<close>

interpretation poll_events: keyed_list ep_fd event_list_findby_fd event_list_append event_list_take
  by unfold_locales (simp_all add: event_list_append_def)

lemma renew_fds: "map ep_fd (event_list_renew es n) = map ep_fd es"
  by (induction es) auto

definition fds_ok :: "resolver \<Rightarrow> bool" where
  "fds_ok r \<longleftrightarrow> distinct (map ep_fd (r_events r))"

lemma poll_stop_fds: "fds_ok r \<Longrightarrow> fds_ok (cwmp_dns_fd_poll_stop r fd)"
  by (auto simp: fds_ok_def cwmp_dns_fd_poll_stop_def poll_events.distinct_del split: option.splits)

lemma poll_start_fds: "fds_ok r \<Longrightarrow> fds_ok (cwmp_dns_fd_poll_start env r rd wr fd)"
  by (auto simp: fds_ok_def cwmp_dns_fd_poll_start_def renew_fds Let_def
      intro!: poll_events.distinct_add split: option.splits)

lemma clean_timer_start_frame [simp]:
  "r_events (resolver_clean_timer_start r) = r_events r"
  "r_dirty (resolver_clean_timer_start r) = r_dirty r"
  "r_pending (resolver_clean_timer_start r) = r_pending r"
  "r_id (resolver_clean_timer_start r) = r_id r"
  by (simp_all add: resolver_clean_timer_start_def)

lemma sock_cb_frame [simp]:
  "r_dirty (cwmp_dns_ares_sock_cb env r fd rd wr) = r_dirty r"
  "r_pending (cwmp_dns_ares_sock_cb env r fd rd wr) = r_pending r"
  "r_id (cwmp_dns_ares_sock_cb env r fd rd wr) = r_id r"
  by (auto simp: cwmp_dns_ares_sock_cb_def cwmp_dns_fd_poll_stop_def cwmp_dns_fd_poll_start_def Let_def
      split: option.splits)

lemma sock_cb_fds: "fds_ok r \<Longrightarrow> fds_ok (cwmp_dns_ares_sock_cb env r fd rd wr)"
  using poll_stop_fds [of r fd] poll_start_fds [of r env rd wr fd]
  by (auto simp: cwmp_dns_ares_sock_cb_def fds_ok_def Let_def)

text \<open>After c-ares reports the state of a socket, exactly the reported interest is polled:
  no event for a socket with no interest, one event with the reported flags otherwise (when memory
  suffices), and the events of the other sockets are untouched; a socket never has two events.\<close>

theorem sock_cb_polls:
  assumes "fds_ok r" "de_alloc_event env"
  shows "event_list_findby_fd (r_events (cwmp_dns_ares_sock_cb env r fd rd wr)) k =
      (if k = fd then (if rd \<or> wr then Some \<lparr>ep_fd = fd, ep_read = rd, ep_write = wr\<rparr> else None)
       else event_list_findby_fd (r_events r) k) \<and>
    fds_ok (cwmp_dns_ares_sock_cb env r fd rd wr)"
proof -
  have d: "distinct (map ep_fd (r_events r))" using assms(1) by (simp add: fds_ok_def)
  have renew: "event_list_findby_fd (event_list_renew es n) k =
      (if k = ep_fd n \<and> event_list_findby_fd es k \<noteq> None then Some n else event_list_findby_fd es k)" for es n
    by (induction es) auto
  have e: "r_events (cwmp_dns_ares_sock_cb env r fd rd wr) =
      (if rd \<or> wr then r_events (cwmp_dns_fd_poll_start env r rd wr fd)
       else r_events (cwmp_dns_fd_poll_stop r fd))"
    by (simp add: cwmp_dns_ares_sock_cb_def Let_def)
  have "event_list_findby_fd (r_events (cwmp_dns_fd_poll_stop r fd)) k =
      (if k = fd then None else event_list_findby_fd (r_events r) k)"
    using poll_events.find_del [OF d, of fd k] by (auto simp: cwmp_dns_fd_poll_stop_def split: option.splits)
  moreover have "event_list_findby_fd (r_events (cwmp_dns_fd_poll_start env r rd wr fd)) k =
      (if k = fd then Some \<lparr>ep_fd = fd, ep_read = rd, ep_write = wr\<rparr> else event_list_findby_fd (r_events r) k)"
    using assms(2)
    by (auto simp: cwmp_dns_fd_poll_start_def Let_def renew poll_events.find_add split: option.splits)
  ultimately show ?thesis
    using sock_cb_fds [OF assms(1)] unfolding e by (cases "k = fd"; cases rd; cases wr) simp_all
qed

definition example_dns_env :: "string \<Rightarrow> addr \<Rightarrow> dns_env" where
  "example_dns_env host a =
     \<lparr>de_url = Some (Some host), de_parse_host = (\<lambda>u. Some host),
      de_is_ipaddr = (\<lambda>h. h \<noteq> [] \<and> list_all (\<lambda>c. is_digit c \<or> c = CHR ''.'') h),
      de_interval = Some (Some ''600''), de_family = Some (Some ''4''), de_set_ok = True, de_remaining = 1,
      de_alloc = Some a, de_alloc_event = True, de_ares_init = ARES_SUCCESS, de_ares_library = ARES_SUCCESS\<rparr>"

definition example_resolver :: resolver where
  "example_resolver = the (resolver_create (example_dns_env ''acs'' 1) (Some ''acs''))"

theorem sock_cb_polls_witness:
  "event_list_findby_fd (r_events (cwmp_dns_ares_sock_cb (example_dns_env ''acs'' 1) example_resolver 5 True False)) 5 =
     Some \<lparr>ep_fd = 5, ep_read = True, ep_write = False\<rparr>"
proof -
  have "fds_ok example_resolver" by code_simp
  then show ?thesis
    using sock_cb_polls [of example_resolver "example_dns_env ''acs'' 1" 5 True False 5]
    by (simp add: example_dns_env_def)
qed

subsection \<open>What a result publishes\<close>

lemma addr_list_str_join: "addr_list_str as = join_with (CHR '','') (map fst as)"
proof (induction as)
  case (Cons a as)
  then show ?case by (cases a; cases as) auto
qed simp

definition node_text :: "ai_node \<Rightarrow> string" where
  "node_text n = (case ai_ares_ntop n of None \<Rightarrow> [] | Some s \<Rightarrow> s)"

lemma read_ai_nodes_result:
  assumes "\<forall>n\<in>set ns. node_text n \<noteq> []"
  shows "read_ai_nodes ip ns st = st\<lparr>dns_ttl_val := fold (\<lambda>n v. min (ai_ttl n) v) ns (dns_ttl_val st),
    ainfo_list := ainfo_list st @ map (\<lambda>n. (node_text n, ai_ttl n)) ns\<rparr>"
  using assms
proof (induction ns arbitrary: ip st)
  case (Cons n ns)
  then obtain s where "ai_ares_ntop n = Some s" "s \<noteq> []"
    by (auto simp: node_text_def split: option.splits)
  with Cons show ?case by (simp add: read_ai_node_def node_text_def min_def Let_def)
qed simp

lemma fold_min_le: "fold (\<lambda>n v. min (f n) v) ns (m :: int) = Min (insert m (f ` set ns))"
proof (induction ns arbitrary: m)
  case (Cons a ns)
  then show ?case by (cases "ns = []") (simp_all add: ac_simps)
qed simp

definition next_lookup :: "dns_env \<Rightarrow> int \<Rightarrow> int" where
  "next_lookup env ttl =
     (if 0 < ttl \<and> ttl \<noteq> INT_MAX then ttl
      else case de_interval env of Some (Some s) \<Rightarrow> atoi s | _ \<Rightarrow> 300)"

lemma send_pending_frame [simp]:
  "dns_ttl_timer (send_pending_bootstrap st) = dns_ttl_timer st"
  "dns_ttl_val (send_pending_bootstrap st) = dns_ttl_val st"
  "dm_acsiplist (send_pending_bootstrap st) = dm_acsiplist st"
  "resolver_list (send_pending_bootstrap st) = resolver_list st"
  "send_bootstrap (send_pending_bootstrap st) = False"
  by (simp_all add: send_pending_bootstrap_def)

lemma result_publishes:
  assumes "\<not> r_dirty r" "nodes \<noteq> []" "\<forall>n\<in>set nodes. node_text n \<noteq> [] \<and> ai_ttl n \<le> INT_MAX"
    and "de_set_ok env" "dns_ttl_timer st \<noteq> No_timer"
    and "cwmp_dns_resolve_cb env ARES_SUCCESS nodes r st = (r', st')"
  shows "dm_acsiplist st' = join_with (CHR '','') (map node_text nodes) \<and>
    dns_ttl_timer st' = Timer (Some (word_of_int (next_lookup env (Min (ai_ttl ` set nodes)) * 1000))) \<and>
    \<not> send_bootstrap st' \<and>
    bootstrap_informs st' = bootstrap_informs st + (if send_bootstrap st then 1 else 0)"
proof -
  let ?m = "Min (ai_ttl ` set nodes)"
  have "Min (insert INT_MAX (ai_ttl ` set nodes)) = min INT_MAX ?m"
    using assms(2) by simp
  also have "\<dots> = ?m"
  proof -
    from assms(2) obtain n where "n \<in> set nodes" by (cases nodes) auto
    then have "?m \<le> ai_ttl n" by (intro Min_le) simp_all
    also have "ai_ttl n \<le> INT_MAX" using assms(3) \<open>n \<in> set nodes\<close> by blast
    finally have "?m \<le> INT_MAX" .
    then show ?thesis by simp
  qed
  finally have read: "cwmp_dns_read_ai nodes st = st\<lparr>dns_ttl_val := ?m,
      ainfo_list := map (\<lambda>n. (node_text n, ai_ttl n)) nodes\<rparr>"
    using assms(3) by (simp add: cwmp_dns_read_ai_def read_ai_nodes_result fold_min_le)
  obtain x where x: "dns_ttl_timer st = Timer x" using assms(5) by (cases "dns_ttl_timer st") auto
  have st': "st' = send_pending_bootstrap (cwmp_dns_schedule env (cwmp_dns_update_dm env (cwmp_dns_read_ai nodes st)))"
    using assms(1,2,6) by (simp add: cwmp_dns_resolve_cb_def Let_def)
  show ?thesis
    using assms(4)
    by (simp add: st' read x cwmp_dns_schedule_def cwmp_dns_update_dm_def set_acsiplist_def
        addr_list_str_join comp_def next_lookup_def Let_def send_pending_bootstrap_def)
qed

text \<open>A successful lookup of the current resolver publishes the addresses, in the order of
  the answer and separated by commas, and schedules the next lookup after the lowest TTL of the
  answer, or after the periodic inform interval (300 s without one) when the lowest TTL is not
  positive; a pending bootstrap is sent.\<close>

theorem dns_result_published:
  assumes "\<not> r_dirty r" "nodes \<noteq> []" "\<forall>n\<in>set nodes. node_text n \<noteq> [] \<and> ai_ttl n \<le> INT_MAX"
    and "de_set_ok env" "dns_ttl_timer st \<noteq> No_timer"
    and "cwmp_dns_resolve_cb env ARES_SUCCESS nodes r st = (r', st')"
  shows "dm_acsiplist st' = join_with (CHR '','') (map node_text nodes) \<and>
    dns_ttl_timer st' = Timer (Some (word_of_int (next_lookup env (Min (ai_ttl ` set nodes)) * 1000))) \<and>
    \<not> send_bootstrap st' \<and>
    bootstrap_informs st' = bootstrap_informs st + (if send_bootstrap st then 1 else 0)"
  using assms by (rule result_publishes)

definition example_node :: "string \<Rightarrow> int \<Rightarrow> ai_node" where
  "example_node ip ttl = \<lparr>ai_inet_ntop = None, ai_ares_ntop = Some ip, ai_ttl = ttl\<rparr>"

definition dns_ready :: dns where
  "dns_ready = \<lparr>dns_ttl_timer = Timer None, dns_ttl_val = 0, ainfo_list = [], resolver_list = [],
     send_bootstrap = False, dm_acsiplist = [], bootstrap_informs = 0\<rparr>"

theorem dns_result_published_witness:
  "dm_acsiplist (snd (cwmp_dns_resolve_cb (example_dns_env ''acs'' 1) ARES_SUCCESS
     [example_node ''10.0.0.1'' 120, example_node ''10.0.0.2'' 60] example_resolver dns_ready)) =
     ''10.0.0.1,10.0.0.2''"
proof -
  have "\<not> r_dirty example_resolver" by code_simp
  then show ?thesis
    using dns_result_published [OF _ _ _ _ _ prod.collapse [symmetric], of example_resolver
        "[example_node ''10.0.0.1'' 120, example_node ''10.0.0.2'' 60]" "example_dns_env ''acs'' 1" dns_ready]
    by (simp add: example_node_def node_text_def INT_MAX_def example_dns_env_def dns_ready_def)
qed

subsection \<open>The resolver as an event system\<close>

datatype dns_event =
    Dn_resolve dns_env bool
  | Dn_ttl dns_env
  | Dn_result dns_env addr ares_status "ai_node list"
  | Dn_sock dns_env addr int bool bool
  | Dn_clean dns_env addr

definition put_resolver :: "resolver \<Rightarrow> dns \<Rightarrow> dns" where
  "put_resolver r st =
     st\<lparr>resolver_list := map (\<lambda>x. if r_id x = r_id r then r else x) (resolver_list st)\<rparr>"

fun dns_step :: "dns \<Rightarrow> dns_event \<Rightarrow> dns" where
  "dns_step st (Dn_resolve env b) = snd (cwmp_dns_resolve env b st)"
| "dns_step st (Dn_ttl env) = dns_ttl_timer_cb env st"
| "dns_step st (Dn_result env i status nodes) =
     (case find_resolver st i of
        None \<Rightarrow> st
      | Some r \<Rightarrow> (case cwmp_dns_resolve_cb env status nodes r st of (r', st') \<Rightarrow> put_resolver r' st'))"
| "dns_step st (Dn_sock env i fd rd wr) =
     (case find_resolver st i of
        None \<Rightarrow> st | Some r \<Rightarrow> put_resolver (cwmp_dns_ares_sock_cb env r fd rd wr) st)"
| "dns_step st (Dn_clean env i) = resolver_clean_timer_cb env i st"

definition fresh :: "dns_env \<Rightarrow> dns \<Rightarrow> bool" where
  "fresh env st \<longleftrightarrow> (\<forall>a. de_alloc env = Some a \<longrightarrow> a \<notin> r_id ` set (resolver_list st))"

fun dns_ok :: "dns \<Rightarrow> dns_event \<Rightarrow> bool" where
  "dns_ok st (Dn_resolve env b) = fresh env st"
| "dns_ok st (Dn_ttl env) = (fresh env st \<and> (\<exists>ms. dns_ttl_timer st = Timer (Some ms)))"
| "dns_ok st (Dn_result env i status nodes) = (\<exists>r. find_resolver st i = Some r \<and> r_pending r)"
| "dns_ok st (Dn_sock env i fd rd wr) = (find_resolver st i \<noteq> None)"
| "dns_ok st (Dn_clean env i) = (\<exists>r ms. find_resolver st i = Some r \<and> r_clean_timer r = Timer (Some ms))"

definition dns_inv :: "dns \<Rightarrow> bool" where
  "dns_inv st \<longleftrightarrow> dns_ttl_timer st \<noteq> No_timer \<and> distinct (map r_id (resolver_list st)) \<and>
     (\<forall>r\<in>set (butlast (resolver_list st)). r_dirty r) \<and> (\<forall>r\<in>set (resolver_list st). fds_ok r)"

lemma amxp_start_timer [simp]: "amxp_start t v = No_timer \<longleftrightarrow> t = No_timer"
  by (cases t) simp_all

lemma amxp_stop_timer [simp]: "amxp_stop t = No_timer \<longleftrightarrow> t = No_timer"
  by (cases t) simp_all

lemma find_resolver_Some: "find_resolver st i = Some r \<Longrightarrow> r \<in> set (resolver_list st) \<and> r_id r = i"
  by (auto simp: find_resolver_def find_Some_iff)

lemma resolve_cb_frame:
  assumes "cwmp_dns_resolve_cb env status nodes r st = (r', st')"
  shows "resolver_list st' = resolver_list st" "r_id r' = r_id r" "r_dirty r' = r_dirty r"
    "r_events r' = r_events r" "\<not> r_pending r'"
    "dns_ttl_timer st' = No_timer \<longleftrightarrow> dns_ttl_timer st = No_timer"
    "r_dirty r \<Longrightarrow> st' = st"
    "\<not> r_dirty r \<Longrightarrow> dns_ttl_timer st \<noteq> No_timer \<Longrightarrow> \<exists>ms. dns_ttl_timer st' = Timer (Some ms)"
proof -
  have ro: "resolver_list (read_ai_nodes ip ns s) = resolver_list s \<and>
      dns_ttl_timer (read_ai_nodes ip ns s) = dns_ttl_timer s" for ip ns s
    by (induction ip ns s rule: read_ai_nodes.induct) (auto simp: read_ai_node_def Let_def split: if_splits)
  have start: "t \<noteq> No_timer \<Longrightarrow> \<exists>ms. amxp_start t v = Timer (Some ms)" for t v by (cases t) auto
  note defs = cwmp_dns_resolve_cb_def cwmp_dns_schedule_def cwmp_dns_update_dm_def set_acsiplist_def
    cwmp_dns_read_ai_def ro Let_def
  show "resolver_list st' = resolver_list st" "r_id r' = r_id r" "r_dirty r' = r_dirty r"
    "r_events r' = r_events r" "\<not> r_pending r'"
    "dns_ttl_timer st' = No_timer \<longleftrightarrow> dns_ttl_timer st = No_timer"
    "r_dirty r \<Longrightarrow> st' = st"
    "\<not> r_dirty r \<Longrightarrow> dns_ttl_timer st \<noteq> No_timer \<Longrightarrow> \<exists>ms. dns_ttl_timer st' = Timer (Some ms)"
    using assms by (auto simp: defs start split: if_splits)
qed

lemma resolve_cases:
  obtains (failed) "cwmp_dns_resolve env b st = (cwmp_status_ko, dns_retry st)"
  | (started) st2 where "resolver_list st2 = map (\<lambda>r. r\<lparr>r_dirty := True\<rparr>) (resolver_list st)"
      "dns_ttl_timer st2 = No_timer \<longleftrightarrow> dns_ttl_timer st = No_timer"
      "cwmp_dns_resolve env b st =
         (case cwmp_dns_ares_resolution env (cwmp_dns_get_host env (the (de_url env))) st2 of
            (cwmp_status_ko, st3) \<Rightarrow> (cwmp_status_ko, dns_retry st3)
          | (cwmp_status_ok, st3) \<Rightarrow> (cwmp_status_ok, st3))"
  | (static) st2 where "resolver_list st2 = map (\<lambda>r. r\<lparr>r_dirty := True\<rparr>) (resolver_list st)"
      "dns_ttl_timer st2 = No_timer \<longleftrightarrow> dns_ttl_timer st = No_timer"
      "cwmp_dns_resolve env b st = (cwmp_status_ok, st2)"
      "\<exists>host. cwmp_dns_get_host env (the (de_url env)) = Some host \<and> (host = [] \<or> de_is_ipaddr env host)"
proof (cases "de_url env")
  case None
  then show ?thesis by (intro failed) (simp add: cwmp_dns_resolve_def)
next
  case (Some url)
  show ?thesis
  proof (cases "cwmp_dns_get_host env url")
    case None
    with Some show ?thesis by (intro failed) (simp add: cwmp_dns_resolve_def)
  next
    case host: (Some host)
    define st1 where "st1 = (if b then (set_acsiplist env [] (st\<lparr>ainfo_list := []\<rparr>))\<lparr>send_bootstrap := True\<rparr> else st)"
    define st2 where "st2 = mark_resolvers_as_dirty (if de_remaining env > 0
        then st1\<lparr>dns_ttl_timer := amxp_stop (dns_ttl_timer st1)\<rparr> else st1)"
    have r: "resolver_list st2 = map (\<lambda>r. r\<lparr>r_dirty := True\<rparr>) (resolver_list st)"
      "dns_ttl_timer st2 = No_timer \<longleftrightarrow> dns_ttl_timer st = No_timer"
      by (simp_all add: st2_def st1_def mark_resolvers_as_dirty_def set_acsiplist_def)
    have e: "cwmp_dns_resolve env b st =
        (if host = [] then (cwmp_status_ok, st2)
         else if de_is_ipaddr env host
         then (cwmp_status_ok, send_pending_bootstrap (cwmp_dns_set_static_ip env host st2))
         else (case cwmp_dns_ares_resolution env (Some host) st2 of
                 (cwmp_status_ko, st3) \<Rightarrow> (cwmp_status_ko, dns_retry st3)
               | (cwmp_status_ok, st3) \<Rightarrow> (cwmp_status_ok, st3)))"
      using Some host by (simp add: cwmp_dns_resolve_def st1_def st2_def Let_def)
    show ?thesis
    proof (cases "host = [] \<or> de_is_ipaddr env host")
      case True
      define st3 where "st3 = (if host = [] then st2
        else send_pending_bootstrap (cwmp_dns_set_static_ip env host st2))"
      have "resolver_list st3 = resolver_list st2" "dns_ttl_timer st3 = dns_ttl_timer st2"
        by (simp_all add: st3_def cwmp_dns_set_static_ip_def set_acsiplist_def)
      moreover have "cwmp_dns_resolve env b st = (cwmp_status_ok, st3)" using True e by (auto simp: st3_def)
      ultimately show ?thesis using True r Some host by (intro static [of st3]) simp_all
    next
      case False
      with r e Some host show ?thesis by (intro started [of st2]) simp_all
    qed
  qed
qed

lemma ares_resolution_cases:
  "cwmp_dns_ares_resolution env host st = (cwmp_status_ko, st) \<or>
   (\<exists>r. cwmp_dns_ares_resolution env host st = (cwmp_status_ok, st\<lparr>resolver_list := resolver_list st @ [r]\<rparr>) \<and>
      \<not> r_dirty r \<and> r_pending r \<and> r_events r = [] \<and> de_alloc env = Some (r_id r))"
  by (auto simp: cwmp_dns_ares_resolution_def resolver_create_def split: option.splits)

lemma retry_frame [simp]:
  "resolver_list (dns_retry st) = resolver_list st"
  "dns_ttl_timer (dns_retry st) = amxp_start (dns_ttl_timer st) 5000"
  by (simp_all add: dns_retry_def)

lemma inv_dirty_list:
  "dns_inv st \<Longrightarrow> resolver_list st2 = map (\<lambda>r. r\<lparr>r_dirty := True\<rparr>) (resolver_list st) \<Longrightarrow>
   dns_ttl_timer st2 \<noteq> No_timer \<Longrightarrow> dns_inv st2 \<and> (\<forall>r\<in>set (resolver_list st2). r_dirty r)"
  by (auto simp: dns_inv_def comp_def fds_ok_def map_butlast [symmetric])

lemma resolve_inv:
  assumes "dns_inv st" "fresh env st"
  shows "dns_inv (snd (cwmp_dns_resolve env b st))"
proof (cases env b st rule: resolve_cases)
  case failed
  with assms(1) show ?thesis by (simp add: dns_inv_def)
next
  case (static st2)
  with inv_dirty_list [OF assms(1)] assms(1) show ?thesis by (simp add: dns_inv_def)
next
  case (started st2)
  have i: "dns_inv st2" "\<forall>r\<in>set (resolver_list st2). r_dirty r"
    using inv_dirty_list [OF assms(1) started(1)] started(2) assms(1) by (auto simp: dns_inv_def)
  have f: "fresh env st2" using assms(2) started(1) by (auto simp: fresh_def)
  show ?thesis
    using ares_resolution_cases [of env "cwmp_dns_get_host env (the (de_url env))" st2]
  proof
    assume "cwmp_dns_ares_resolution env (cwmp_dns_get_host env (the (de_url env))) st2 = (cwmp_status_ko, st2)"
    with started(3) i(1) show ?thesis by (simp add: dns_inv_def)
  next
    assume "\<exists>r. cwmp_dns_ares_resolution env (cwmp_dns_get_host env (the (de_url env))) st2 =
        (cwmp_status_ok, st2\<lparr>resolver_list := resolver_list st2 @ [r]\<rparr>) \<and>
        \<not> r_dirty r \<and> r_pending r \<and> r_events r = [] \<and> de_alloc env = Some (r_id r)"
    with started(3) i f show ?thesis by (auto simp: dns_inv_def fresh_def fds_ok_def)
  qed
qed

lemma butlast_filter: "set (butlast (filter P xs)) \<subseteq> set (butlast xs)"
proof (induction xs rule: rev_induct)
  case (snoc x xs)
  then show ?case by (auto dest: in_set_butlastD)
qed simp

lemma put_resolver_inv:
  assumes "dns_inv st" "find_resolver st i = Some r" "r_id r' = r_id r" "r_dirty r' = r_dirty r" "fds_ok r'"
  shows "dns_inv (put_resolver r' st)"
proof -
  let ?f = "\<lambda>x. if r_id x = r_id r' then r' else x"
  have dirty: "r_dirty (?f x) = r_dirty x" if x: "x \<in> set (resolver_list st)" for x
  proof (cases "r_id x = r_id r'")
    case True
    with assms(1,3) find_resolver_Some [OF assms(2)] x have "x = r"
      by (auto simp: dns_inv_def distinct_map inj_on_def)
    with assms(4) show ?thesis by simp
  qed simp
  have "r_dirty y" if "y \<in> set (butlast (map ?f (resolver_list st)))" for y
  proof -
    from that obtain x where x: "x \<in> set (butlast (resolver_list st))" "y = ?f x"
      by (auto simp only: map_butlast [symmetric] set_map)
    then have "r_dirty x" using assms(1) unfolding dns_inv_def by blast
    with dirty [OF in_set_butlastD [OF x(1)]] x(2) show ?thesis by simp
  qed
  moreover have "map r_id (map ?f (resolver_list st)) = map r_id (resolver_list st)" by simp
  moreover have "fds_ok y" if "y \<in> set (map ?f (resolver_list st))" for y
    using that assms(1,5) by (auto simp: dns_inv_def)
  moreover have "resolver_list (put_resolver r' st) = map ?f (resolver_list st)"
    "dns_ttl_timer (put_resolver r' st) = dns_ttl_timer st"
    by (simp_all add: put_resolver_def)
  ultimately show ?thesis
    using assms(1) unfolding dns_inv_def by (simp del: map_map set_map)
qed

lemma clean_cb_frame:
  "resolver_list (resolver_clean env r st) = resolver_list st"
  "dns_ttl_timer (resolver_clean env r st) = No_timer \<longleftrightarrow> dns_ttl_timer st = No_timer"
  "r_dirty r \<Longrightarrow> resolver_clean env r st = st"
  "r_pending r \<Longrightarrow> \<not> r_dirty r \<Longrightarrow> dns_ttl_timer st \<noteq> No_timer \<Longrightarrow>
     \<exists>ms. dns_ttl_timer (resolver_clean env r st) = Timer (Some ms)"
  "\<exists>ms. dns_ttl_timer st = Timer (Some ms) \<Longrightarrow> \<exists>ms. dns_ttl_timer (resolver_clean env r st) = Timer (Some ms)"
proof -
  obtain r' st' where c: "cwmp_dns_resolve_cb env ARES_EDESTRUCTION [] (r\<lparr>r_events := []\<rparr>) st = (r', st')"
    by fastforce
  note f = resolve_cb_frame [OF c]
  show "resolver_list (resolver_clean env r st) = resolver_list st"
    "dns_ttl_timer (resolver_clean env r st) = No_timer \<longleftrightarrow> dns_ttl_timer st = No_timer"
    "r_dirty r \<Longrightarrow> resolver_clean env r st = st"
    "r_pending r \<Longrightarrow> \<not> r_dirty r \<Longrightarrow> dns_ttl_timer st \<noteq> No_timer \<Longrightarrow>
       \<exists>ms. dns_ttl_timer (resolver_clean env r st) = Timer (Some ms)"
    using f by (auto simp: resolver_clean_def c)
  show "\<exists>ms. dns_ttl_timer st = Timer (Some ms) \<Longrightarrow> \<exists>ms. dns_ttl_timer (resolver_clean env r st) = Timer (Some ms)"
    using f by (cases "r_dirty r") (auto simp: resolver_clean_def c)
qed

lemma dns_step_inv:
  assumes "dns_inv st" "dns_ok st e"
  shows "dns_inv (dns_step st e)"
proof (cases e)
  case (Dn_resolve env b)
  with assms show ?thesis by (simp add: resolve_inv)
next
  case (Dn_ttl env)
  have "dns_inv (st\<lparr>dns_ttl_timer := amxp_stop (dns_ttl_timer st)\<rparr>)" using assms(1) by (simp add: dns_inv_def)
  with assms(2) Dn_ttl show ?thesis by (simp add: dns_ttl_timer_cb_def resolve_inv fresh_def)
next
  case (Dn_result env i status nodes)
  with assms(2) obtain r where r: "find_resolver st i = Some r" by auto
  obtain r' st' where c: "cwmp_dns_resolve_cb env status nodes r st = (r', st')" by fastforce
  note f = resolve_cb_frame [OF c]
  have "dns_inv st'" using assms(1) f(1,6) by (simp add: dns_inv_def)
  moreover have "find_resolver st' i = Some r" using r f(1) by (simp add: find_resolver_def)
  moreover have "fds_ok r'"
    using assms(1) find_resolver_Some [OF r] f(4) by (auto simp: dns_inv_def fds_ok_def)
  ultimately have "dns_inv (put_resolver r' st')" using f(2,3) by (intro put_resolver_inv)
  with Dn_result r c show ?thesis by simp
next
  case (Dn_sock env i fd rd wr)
  with assms(2) obtain r where r: "find_resolver st i = Some r" by auto
  have "fds_ok r" using assms(1) find_resolver_Some [OF r] by (simp add: dns_inv_def)
  then have "dns_inv (put_resolver (cwmp_dns_ares_sock_cb env r fd rd wr) st)"
    by (intro put_resolver_inv [OF assms(1) r]) (simp_all add: sock_cb_fds)
  with Dn_sock r show ?thesis by simp
next
  case (Dn_clean env i)
  with assms(2) obtain r where r: "find_resolver st i = Some r" by auto
  have "dns_inv (st\<lparr>resolver_list := filter (\<lambda>r. r_id r \<noteq> i) (resolver_list st)\<rparr>)"
    using assms(1) butlast_filter [of _ "resolver_list st"] by (auto simp: dns_inv_def distinct_map_filter)
  then show ?thesis
    using Dn_clean r by (auto simp: resolver_clean_timer_cb_def dns_inv_def clean_cb_frame)
qed

interpretation dns_system: event_system dns_step dns_ok dns_inv
  by unfold_locales (rule dns_step_inv)

text \<open>Only the latest lookup counts: along any run, every resolver but the last one
  created is dirty, and the result of a dirty one, arriving late, changes neither the published
  addresses nor the schedule nor the pending bootstrap.\<close>

theorem stale_results_ignored:
  assumes "enabled_run dns_ok dns_step dns_ready es" "st = foldl dns_step dns_ready es"
    and "find_resolver st i = Some r" "r \<noteq> last (resolver_list st)"
  shows "r_dirty r \<and> dm_acsiplist (dns_step st (Dn_result env i status nodes)) = dm_acsiplist st \<and>
    dns_ttl_timer (dns_step st (Dn_result env i status nodes)) = dns_ttl_timer st \<and>
    send_bootstrap (dns_step st (Dn_result env i status nodes)) = send_bootstrap st"
proof -
  have "dns_inv dns_ready" by (simp add: dns_inv_def dns_ready_def)
  then have inv: "dns_inv st" unfolding assms(2) by (rule dns_system.run_inv [OF _ assms(1)])
  have r: "r \<in> set (resolver_list st)" using find_resolver_Some [OF assms(3)] by simp
  with assms(4) have "r \<in> set (butlast (resolver_list st))"
    by (cases "resolver_list st" rule: rev_cases) auto
  with inv have d: "r_dirty r" by (simp add: dns_inv_def)
  obtain r' st' where c: "cwmp_dns_resolve_cb env status nodes r st = (r', st')" by fastforce
  have "st' = st" using resolve_cb_frame(7) [OF c d] .
  with d c assms(3) show ?thesis by (simp add: put_resolver_def)
qed

theorem stale_results_ignored_witness:
  "r_dirty (the (find_resolver (foldl dns_step dns_ready
     [Dn_resolve (example_dns_env ''acs'' 1) False, Dn_resolve (example_dns_env ''acs2'' 2) True]) 1))"
proof -
  let ?es = "[Dn_resolve (example_dns_env ''acs'' 1) False, Dn_resolve (example_dns_env ''acs2'' 2) True]"
  let ?st = "foldl dns_step dns_ready ?es"
  have l: "map r_id (resolver_list ?st) = [1, 2]" "find_resolver ?st 1 \<noteq> None"
    "r_id (last (resolver_list ?st)) = 2" "map r_id (resolver_list (dns_step dns_ready (hd ?es))) = [1]"
    by code_simp+
  then obtain r where r: "find_resolver ?st 1 = Some r" by blast
  have "r \<noteq> last (resolver_list ?st)" using find_resolver_Some [OF r] l(3) by auto
  moreover have "enabled_run dns_ok dns_step dns_ready ?es"
    using l(4) by (auto simp: fresh_def dns_ready_def example_dns_env_def map_eq_Cons_conv)
  ultimately show ?thesis using stale_results_ignored [OF _ refl r] r by simp
qed

subsection \<open>The lookup never stalls\<close>

definition awake :: "dns \<Rightarrow> bool" where
  "awake st \<longleftrightarrow> (\<exists>ms. dns_ttl_timer st = Timer (Some ms)) \<or>
     (\<exists>r\<in>set (resolver_list st). \<not> r_dirty r \<and> r_pending r)"

text \<open>The ACS URL has a host name, so that a lookup is needed.\<close>

definition named_host :: "dns_env \<Rightarrow> bool" where
  "named_host env \<longleftrightarrow> (\<forall>url host. cwmp_dns_get_host env url = Some host \<longrightarrow> host \<noteq> [] \<and> \<not> de_is_ipaddr env host)"

fun event_env :: "dns_event \<Rightarrow> dns_env" where
  "event_env (Dn_resolve env b) = env"
| "event_env (Dn_ttl env) = env"
| "event_env (Dn_result env i s ns) = env"
| "event_env (Dn_sock env i fd rd wr) = env"
| "event_env (Dn_clean env i) = env"

definition named_ok :: "dns \<Rightarrow> dns_event \<Rightarrow> bool" where
  "named_ok st e \<longleftrightarrow> dns_ok st e \<and> named_host (event_env e)"

lemma amxp_start_armed: "t \<noteq> No_timer \<Longrightarrow> \<exists>ms. amxp_start t v = Timer (Some ms)"
  by (cases t) auto

lemma resolve_awake:
  assumes "dns_inv st" "named_host env"
  shows "awake (snd (cwmp_dns_resolve env b st))"
proof (cases env b st rule: resolve_cases)
  case failed
  with assms(1) show ?thesis by (auto simp: awake_def dns_inv_def amxp_start_armed)
next
  case (static st2)
  with assms(2) show ?thesis by (auto simp: named_host_def)
next
  case (started st2)
  have "dns_ttl_timer st2 \<noteq> No_timer" using started(2) assms(1) by (simp add: dns_inv_def)
  with ares_resolution_cases [of env "cwmp_dns_get_host env (the (de_url env))" st2] started(3)
  show ?thesis by (auto simp: awake_def amxp_start_armed)
qed

lemma put_resolver_awake:
  assumes "awake st" "dns_inv st" "find_resolver st i = Some r" "r_id r' = r_id r"
    "r_dirty r' = r_dirty r" "r_dirty r \<or> r_pending r' = r_pending r"
  shows "awake (put_resolver r' st)"
proof (cases "\<exists>ms. dns_ttl_timer st = Timer (Some ms)")
  case True
  then show ?thesis by (auto simp: awake_def put_resolver_def)
next
  case False
  with assms(1) obtain x where x: "x \<in> set (resolver_list st)" "\<not> r_dirty x" "r_pending x"
    by (auto simp: awake_def)
  have "x = r" if "r_id x = r_id r'"
    using assms(2,4) find_resolver_Some [OF assms(3)] x(1) that
    by (auto simp: dns_inv_def distinct_map inj_on_def)
  then have "\<not> r_dirty (if r_id x = r_id r' then r' else x)" "r_pending (if r_id x = r_id r' then r' else x)"
    using x assms(5,6) by auto
  moreover have "(if r_id x = r_id r' then r' else x) \<in> set (resolver_list (put_resolver r' st))"
  proof -
    have "resolver_list (put_resolver r' st) =
        map (\<lambda>x. if r_id x = r_id r' then r' else x) (resolver_list st)" by (simp add: put_resolver_def)
    then show ?thesis using x(1) by (simp only: set_map image_eqI)
  qed
  ultimately show ?thesis unfolding awake_def by blast
qed

lemma awake_step:
  assumes "dns_inv st" "awake st" "named_ok st e"
  shows "awake (dns_step st e)"
proof (cases e)
  case (Dn_resolve env b)
  with assms show ?thesis by (simp add: named_ok_def resolve_awake)
next
  case (Dn_ttl env)
  have "dns_inv (st\<lparr>dns_ttl_timer := amxp_stop (dns_ttl_timer st)\<rparr>)" using assms(1) by (simp add: dns_inv_def)
  with assms(3) Dn_ttl show ?thesis by (simp add: named_ok_def dns_ttl_timer_cb_def resolve_awake)
next
  case (Dn_result env i status nodes)
  with assms(3) obtain r where r: "find_resolver st i = Some r" by (auto simp: named_ok_def)
  obtain r' st' where c: "cwmp_dns_resolve_cb env status nodes r st = (r', st')" by fastforce
  note f = resolve_cb_frame [OF c]
  have "awake (put_resolver r' st')"
  proof (cases "r_dirty r")
    case True
    with f(2,3,7) show ?thesis using put_resolver_awake [OF assms(2,1) r] by simp
  next
    case False
    with f(8) assms(1) show ?thesis by (auto simp: awake_def dns_inv_def put_resolver_def)
  qed
  with Dn_result r c show ?thesis by simp
next
  case (Dn_sock env i fd rd wr)
  with assms(3) obtain r where r: "find_resolver st i = Some r" by (auto simp: named_ok_def)
  with Dn_sock show ?thesis using put_resolver_awake [OF assms(2,1) r] by simp
next
  case (Dn_clean env i)
  with assms(3) obtain r where r: "find_resolver st i = Some r" by (auto simp: named_ok_def)
  let ?st = "st\<lparr>resolver_list := filter (\<lambda>r. r_id r \<noteq> i) (resolver_list st)\<rparr>"
  have ttl: "dns_ttl_timer st \<noteq> No_timer" using assms(1) by (simp add: dns_inv_def)
  have "awake (resolver_clean env r ?st)"
  proof (cases "(\<exists>ms. dns_ttl_timer st = Timer (Some ms)) \<or> (r_pending r \<and> \<not> r_dirty r)")
    case True
    then show ?thesis using clean_cb_frame(4,5) [of _ ] ttl unfolding awake_def by fastforce
  next
    case False
    with assms(2) obtain x where x: "x \<in> set (resolver_list st)" "\<not> r_dirty x" "r_pending x" "x \<noteq> r"
      by (auto simp: awake_def)
    then have "r_id x \<noteq> i"
      using assms(1) find_resolver_Some [OF r] by (auto simp: dns_inv_def distinct_map inj_on_def)
    with x show ?thesis by (auto simp: awake_def clean_cb_frame)
  qed
  with Dn_clean r show ?thesis by (simp add: resolver_clean_timer_cb_def)
qed

interpretation dns_awake: event_system dns_step named_ok "\<lambda>st. dns_inv st \<and> awake st"
  by unfold_locales (auto simp: awake_step named_ok_def intro: dns_step_inv)

text \<open>Property C9. The lookup of the ACS never stalls: once the first lookup of a host name has been
  asked for, after any sequence of further lookups, answers, socket events, expirations and clean-ups,
  either the timer of the next lookup is armed or the current query still has its answer to come.\<close>

theorem dns_never_stalls:
  assumes "enabled_run named_ok dns_step dns_ready (Dn_resolve env b # es)"
  shows "awake (foldl dns_step dns_ready (Dn_resolve env b # es))"
proof -
  have inv: "dns_inv dns_ready" by (simp add: dns_inv_def dns_ready_def)
  from assms have "dns_inv (dns_step dns_ready (Dn_resolve env b)) \<and> awake (dns_step dns_ready (Dn_resolve env b))"
    using dns_step_inv [OF inv, of "Dn_resolve env b"] resolve_awake [OF inv, of env b]
    by (simp add: named_ok_def)
  then have "dns_inv (foldl dns_step dns_ready (Dn_resolve env b # es)) \<and>
      awake (foldl dns_step dns_ready (Dn_resolve env b # es))"
    using dns_awake.run_inv [of "dns_step dns_ready (Dn_resolve env b)" es] assms by simp
  then show ?thesis ..
qed

theorem dns_never_stalls_witness:
  "awake (foldl dns_step dns_ready
     [Dn_resolve (example_dns_env ''acs'' 1) False, Dn_result (example_dns_env ''acs'' 1) 1 ARES_error []])"
proof (rule dns_never_stalls)
  let ?st = "dns_step dns_ready (Dn_resolve (example_dns_env ''acs'' 1) False)"
  have f: "find_resolver ?st 1 \<noteq> None" "r_pending (the (find_resolver ?st 1))" by code_simp+
  have n: "named_host (example_dns_env ''acs'' 1)"
    by (simp add: named_host_def cwmp_dns_get_host_def example_dns_env_def is_digit_def)
  show "enabled_run named_ok dns_step dns_ready
      [Dn_resolve (example_dns_env ''acs'' 1) False, Dn_result (example_dns_env ''acs'' 1) 1 ARES_error []]"
    using f n by (auto simp: named_ok_def fresh_def dns_ready_def)
qed

subsection \<open>Bootstrap informs\<close>

definition bootstraps :: "dns \<Rightarrow> nat" where
  "bootstraps st = bootstrap_informs st + (if send_bootstrap st then 1 else 0)"

fun url_change :: "dns_event \<Rightarrow> nat" where
  "url_change (Dn_resolve env b) = (if b then 1 else 0)"
| "url_change _ = 0"

lemma bootstraps_pending [simp]: "bootstraps (send_pending_bootstrap st) = bootstraps st"
  by (simp add: bootstraps_def send_pending_bootstrap_def)

lemma bootstraps_frame [simp]:
  "bootstraps (st\<lparr>dns_ttl_timer := t\<rparr>) = bootstraps st"
  "bootstraps (st\<lparr>resolver_list := rs\<rparr>) = bootstraps st"
  "bootstraps (st\<lparr>ainfo_list := as\<rparr>) = bootstraps st"
  "bootstraps (st\<lparr>dns_ttl_val := v\<rparr>) = bootstraps st"
  "bootstraps (set_acsiplist env ips st) = bootstraps st"
  "bootstraps (dns_retry st) = bootstraps st"
  "bootstraps (put_resolver r st) = bootstraps st"
  by (simp_all add: bootstraps_def set_acsiplist_def dns_retry_def put_resolver_def)

lemma bootstraps_resolve_cb:
  assumes "cwmp_dns_resolve_cb env status nodes r st = (r', st')"
  shows "bootstraps st' = bootstraps st"
proof -
  have ai: "bootstraps (read_ai_nodes ip ns s) = bootstraps s" for ip ns s
    by (induction ip ns s rule: read_ai_nodes.induct) (auto simp: read_ai_node_def Let_def split: if_splits)
  have rd: "bootstraps (cwmp_dns_read_ai nodes st) = bootstraps st"
    by (simp add: cwmp_dns_read_ai_def ai)
  show ?thesis
    using assms rd
    by (auto simp: cwmp_dns_resolve_cb_def cwmp_dns_schedule_def cwmp_dns_update_dm_def Let_def
        split: if_splits)
qed

lemma bootstraps_resolve:
  "bootstraps (snd (cwmp_dns_resolve env b st)) \<le> bootstraps st + (if b then 1 else 0)"
  by (auto simp: cwmp_dns_resolve_def mark_resolvers_as_dirty_def cwmp_dns_set_static_ip_def
      cwmp_dns_ares_resolution_def Let_def split: option.splits)
    (auto simp: bootstraps_def set_acsiplist_def)

lemma bootstraps_step: "bootstraps (dns_step st e) \<le> bootstraps st + url_change e"
proof (cases e)
  case (Dn_resolve env b)
  then show ?thesis using bootstraps_resolve [of env b st] by simp
next
  case (Dn_ttl env)
  then show ?thesis
    using bootstraps_resolve [of env False "st\<lparr>dns_ttl_timer := amxp_stop (dns_ttl_timer st)\<rparr>"]
    by (simp add: dns_ttl_timer_cb_def)
next
  case (Dn_result env i status nodes)
  then show ?thesis
    by (auto simp: case_prod_unfold bootstraps_resolve_cb [OF prod.collapse [symmetric]] split: option.splits)
next
  case (Dn_sock env i fd rd wr)
  then show ?thesis by (auto split: option.splits)
next
  case (Dn_clean env i)
  then show ?thesis
    by (auto simp: resolver_clean_timer_cb_def resolver_clean_def
        bootstraps_resolve_cb [OF prod.collapse [symmetric]] split: option.splits)
qed

text \<open>The resolver sends at most one bootstrap inform for each change of the ACS URL,
  whatever lookups succeed, fail or are superseded in between.\<close>

theorem one_bootstrap_per_url:
  "bootstrap_informs (foldl dns_step dns_ready es) \<le> sum_list (map url_change es)"
proof -
  have "bootstraps (foldl dns_step st es) \<le> bootstraps st + sum_list (map url_change es)" for st
  proof (induction es arbitrary: st)
    case (Cons e es)
    show ?case using Cons.IH [of "dns_step st e"] bootstraps_step [of st e] by simp
  qed simp
  from this [of dns_ready] show ?thesis by (auto simp: bootstraps_def dns_ready_def split: if_splits)
qed

end
