(* ===== verification/Cookie_Jar.thy ===== *)
theory Cookie_Jar
  imports Prelude
begin

section \<open>The session cookie jar (src/dmmain/cwmpd\_cookie.c)\<close>

text \<open>
  The ACS session keeps the cookies of \<open>Set-Cookie\<close> headers in a linked list and sends them
  back in a \<open>Cookie\<close> header. A \<open>cookie_jar_t*\<close> is a \<open>cookie list option\<close> (\<open>None\<close> is
  the null pointer); the list is in append order. \<open>search_cookie\<close> returns the position of the
  node it points to, so that \<open>update_cookie\<close> changes that node in place. The parser's
  \<open>while(tok)\<close> loop contains a \<open>continue\<close> that would not advance the token, so the loop
  is a \<^theory_text>\<open>partial_function\<close> and its termination is proved.
\<close>

subsection \<open>Model\<close>

record cookie =
  ck_name :: string
  ck_value :: string

type_synonym cookie_jar = "cookie list"

fun search_from :: "cookie_jar \<Rightarrow> string \<Rightarrow> nat \<Rightarrow> nat option" where
  "search_from [] name i = None"
| "search_from (c # cs) name i = (if ck_name c = name then Some i else search_from cs name (Suc i))"

definition search_cookie :: "cookie_jar option \<Rightarrow> cstr \<Rightarrow> nat option" where
  "search_cookie jar name =
     (case jar of None \<Rightarrow> None
      | Some j \<Rightarrow> (if str_empty name then None else search_from j (the name) 0))"

definition add_cookie :: "cookie_jar option \<Rightarrow> cstr \<Rightarrow> cstr \<Rightarrow> cookie_jar option" where
  "add_cookie jar name val =
     (case jar of None \<Rightarrow> None
      | Some j \<Rightarrow>
          (if str_empty name then Some j
           else (case val of None \<Rightarrow> Some j
                 | Some v \<Rightarrow> Some (j @ [\<lparr>ck_name = the name, ck_value = v\<rparr>]))))"

definition update_cookie :: "cookie_jar \<Rightarrow> nat option \<Rightarrow> cstr \<Rightarrow> cookie_jar" where
  "update_cookie j pos val =
     (case pos of None \<Rightarrow> j
      | Some i \<Rightarrow> (case val of None \<Rightarrow> j | Some v \<Rightarrow> j[i := (j ! i)\<lparr>ck_value := v\<rparr>]))"

text \<open>\<open>amxc_llist_new\<close> allocates an empty list or fails; \<open>amxc_llist_delete\<close> frees every
  node (through \<open>delete_cookie\<close>) and nulls the caller's pointer.\<close>

definition cwmpd_cookie_cookiejar_init :: "bool \<Rightarrow> int \<times> cookie_jar option" where
  "cwmpd_cookie_cookiejar_init alloc_ok = (if alloc_ok then (0, Some []) else (-1, None))"

definition cwmpd_cookie_cookiejar_clean :: "cookie_jar option \<Rightarrow> cookie_jar option" where
  "cwmpd_cookie_cookiejar_clean jar = None"

text \<open>\<open>end\<close> starts at the \<open>=\<close> and moves back over spaces.\<close>

fun skip_back :: "string \<Rightarrow> nat \<Rightarrow> nat" where
  "skip_back s 0 = 0"
| "skip_back s (Suc i) = (if s ! Suc i = CHR '' '' then skip_back s i else Suc i)"

definition token_span :: "string \<Rightarrow> nat \<times> int" where
  "token_span tok =
     (case strchr tok (CHR ''='') of
        None \<Rightarrow> (0, 0)
      | Some p \<Rightarrow>
          (let start = length (takeWhile (\<lambda>c. c = CHR '' '') tok);
               fin = skip_back tok (length tok - length p)
           in (start, int fin - int start)))"

definition cookie_attributes :: "string list" where
  "cookie_attributes = [''Path'', ''Max-Age'', ''Expires'', ''SameSite'', ''Domain'']"

text \<open>One round of the loop body; \<open>None\<close> is the \<open>continue\<close> that keeps the token.\<close>

definition build_token :: "cookie_jar \<Rightarrow> string \<Rightarrow> cookie_jar option" where
  "build_token j tok =
     (case token_span tok of (st, len) \<Rightarrow>
        (let start = drop st tok in
         if len > 0 \<and> \<not> list_ex (\<lambda>a. strncaseeq start a (nat len)) cookie_attributes then
           (case strchr start (CHR ''='') of
              None \<Rightarrow> None
            | Some equals \<Rightarrow>
                (let name = take (length start - length equals) start;
                     val = tl equals
                 in (case search_cookie (Some j) (Some name) of
                       Some i \<Rightarrow> Some (update_cookie j (Some i) (Some val))
                     | None \<Rightarrow> add_cookie (Some j) (Some name) (Some val))))
         else Some j))"

partial_function (option) build_loop :: "cookie_jar \<Rightarrow> string list \<Rightarrow> cookie_jar option" where
  "build_loop j toks =
     (case toks of
        [] \<Rightarrow> Some j
      | tok # rest \<Rightarrow>
          (case build_token j tok of
             None \<Rightarrow> build_loop j (tok # rest)
           | Some j' \<Rightarrow> build_loop j' rest))"

definition cwmpd_cookie_cookiejar_build ::
  "cookie_jar option \<Rightarrow> cstr \<Rightarrow> (int \<times> cookie_jar option) option" where
  "cwmpd_cookie_cookiejar_build jar header =
     (case jar of
        None \<Rightarrow> Some (-1, None)
      | Some j \<Rightarrow>
          (if str_empty header then Some (-1, Some j)
           else map_option (\<lambda>j'. (0, Some j'))
                  (build_loop j (strtok_all (CHR '';'') (the header)))))"

definition append_cookie :: "string \<Rightarrow> cookie \<Rightarrow> string" where
  "append_cookie acc c =
     (if acc = [] then ck_name c @ CHR ''='' # ck_value c
      else acc @ CHR '';'' # ck_name c @ CHR ''='' # ck_value c)"

definition cwmpd_cookie_cookiejar_to_string :: "cookie_jar option \<Rightarrow> cstr" where
  "cwmpd_cookie_cookiejar_to_string jar =
     (case jar of
        None \<Rightarrow> None
      | Some j \<Rightarrow> (if j = [] then None else Some (foldl append_cookie [] j)))"

subsection \<open>Reference parser and invariant\<close>

text \<open>What a token means: the name between the leading spaces and the first \<open>=\<close>, unless it is
  empty or agrees up to case with the start of an attribute name.\<close>

definition attribute_prefix :: "string \<Rightarrow> bool" where
  "attribute_prefix name \<longleftrightarrow>
     list_ex (\<lambda>a. strncaseeq name a (length name)) cookie_attributes"

definition cookie_of_token :: "string \<Rightarrow> (string \<times> string) option" where
  "cookie_of_token tok =
     (let s = dropWhile (\<lambda>c. c = CHR '' '') tok;
          name = takeWhile (\<lambda>c. c \<noteq> CHR ''='') s
      in if CHR ''='' \<in> set tok \<and> name \<noteq> [] \<and> \<not> attribute_prefix name
         then Some (name, drop (Suc (length name)) s) else None)"

definition jar_map :: "cookie_jar \<Rightarrow> string \<Rightarrow> string option" where
  "jar_map j = map_of (map (\<lambda>c. (ck_name c, ck_value c)) j)"

definition cookie_ok :: "cookie \<Rightarrow> bool" where
  "cookie_ok c \<longleftrightarrow>
     ck_name c \<noteq> [] \<and> hd (ck_name c) \<noteq> CHR '' '' \<and> CHR ''='' \<notin> set (ck_name c) \<and>
     CHR '';'' \<notin> set (ck_name c) \<and> CHR '';'' \<notin> set (ck_value c) \<and> \<not> attribute_prefix (ck_name c)"

definition jar_inv :: "cookie_jar \<Rightarrow> bool" where
  "jar_inv j \<longleftrightarrow> distinct (map ck_name j) \<and> (\<forall>c\<in>set j. cookie_ok c)"

definition store_cookie :: "cookie_jar \<Rightarrow> string \<times> string \<Rightarrow> cookie_jar" where
  "store_cookie j nv =
     (case search_from j (fst nv) 0 of
        Some i \<Rightarrow> j[i := (j ! i)\<lparr>ck_value := snd nv\<rparr>]
      | None \<Rightarrow> j @ [\<lparr>ck_name = fst nv, ck_value = snd nv\<rparr>])"

lemma token_shape:
  assumes "CHR ''='' \<in> set tok"
  obtains a n v where "tok = a @ n @ CHR ''='' # v" "set a \<subseteq> {CHR '' ''}"
    "CHR ''='' \<notin> set n" "n \<noteq> [] \<longrightarrow> hd n \<noteq> CHR '' ''"
proof -
  let ?a = "takeWhile (\<lambda>c. c = CHR '' '') tok"
  let ?r = "dropWhile (\<lambda>c. c = CHR '' '') tok"
  have a: "set ?a \<subseteq> {CHR '' ''}" by (auto dest: set_takeWhileD)
  have "CHR ''='' \<in> set (?a @ ?r)" using assms by simp
  moreover have "CHR ''='' \<notin> set ?a" using a by auto
  ultimately have "CHR ''='' \<in> set ?r" unfolding set_append by blast
  then obtain n v where r: "?r = n @ CHR ''='' # v" "CHR ''='' \<notin> set n"
    by (meson split_list_first)
  have "tok = ?a @ n @ CHR ''='' # v"
    using r(1) by (metis takeWhile_dropWhile_id)
  moreover have "n \<noteq> [] \<longrightarrow> hd n \<noteq> CHR '' ''"
    using r(1) by (cases n) (auto simp: dropWhile_eq_Cons_conv)
  ultimately show thesis using a r(2) that by blast
qed

lemma skip_back_at: "s ! i \<noteq> CHR '' '' \<Longrightarrow> skip_back s i = i"
  by (cases i) auto

lemma takeWhile_spaces:
  assumes "set a \<subseteq> {CHR '' ''}" "r \<noteq> []" "hd r \<noteq> CHR '' ''"
  shows "takeWhile (\<lambda>c. c = CHR '' '') (a @ r) = a"
    and "dropWhile (\<lambda>c. c = CHR '' '') (a @ r) = r"
proof -
  have "takeWhile (\<lambda>c. c = CHR '' '') r = []" "dropWhile (\<lambda>c. c = CHR '' '') r = r"
    using assms(2,3) by (cases r; simp)+
  then show "takeWhile (\<lambda>c. c = CHR '' '') (a @ r) = a"
    and "dropWhile (\<lambda>c. c = CHR '' '') (a @ r) = r"
    using assms(1) by (auto simp: subset_iff takeWhile_append2 dropWhile_append2)
qed

lemma token_span_shape:
  assumes "tok = a @ n @ CHR ''='' # v" "set a \<subseteq> {CHR '' ''}"
    "CHR ''='' \<notin> set n" "n \<noteq> [] \<longrightarrow> hd n \<noteq> CHR '' ''"
  shows "token_span tok = (length a, int (length n))"
proof -
  have "CHR ''='' \<notin> set (a @ n)" using assms by auto
  then have p: "strchr tok (CHR ''='') = Some (CHR ''='' # v)"
    using strchr_skip [of _ "a @ n" v] assms(1) by simp
  have "takeWhile (\<lambda>c. c = CHR '' '') tok = a"
    using takeWhile_spaces(1) [of a "n @ CHR ''='' # v"] assms by (cases n) auto
  moreover have "skip_back tok (length a + length n) = length a + length n"
    by (rule skip_back_at) (simp add: assms(1) nth_append)
  ultimately show ?thesis using p assms(1) by (simp add: token_span_def)
qed

lemma cookie_of_token_shape:
  assumes "tok = a @ n @ CHR ''='' # v" "set a \<subseteq> {CHR '' ''}"
    "CHR ''='' \<notin> set n" "n \<noteq> [] \<longrightarrow> hd n \<noteq> CHR '' ''"
  shows "cookie_of_token tok = (if n \<noteq> [] \<and> \<not> attribute_prefix n then Some (n, v) else None)"
proof -
  have d: "dropWhile (\<lambda>c. c = CHR '' '') tok = n @ CHR ''='' # v"
    using takeWhile_spaces(2) [of a "n @ CHR ''='' # v"] assms by (cases n) auto
  have "takeWhile (\<lambda>c. c \<noteq> CHR ''='') (n @ CHR ''='' # v) = n"
    using assms(3) by (induction n) auto
  then show ?thesis using assms(1) by (simp add: cookie_of_token_def Let_def d [unfolded assms(1)])
qed

lemma build_token_spec:
  "build_token j tok =
     Some (case cookie_of_token tok of None \<Rightarrow> j | Some nv \<Rightarrow> store_cookie j nv)"
proof (cases "CHR ''='' \<in> set tok")
  case False
  then show ?thesis
    by (simp add: build_token_def token_span_def strchr_None_iff [THEN iffD2] cookie_of_token_def)
next
  case True
  then obtain a n v where t: "tok = a @ n @ CHR ''='' # v" "set a \<subseteq> {CHR '' ''}"
    "CHR ''='' \<notin> set n" "n \<noteq> [] \<longrightarrow> hd n \<noteq> CHR '' ''"
    by (rule token_shape)
  have "list_ex (\<lambda>x. strncaseeq (n @ CHR ''='' # v) x (length n)) cookie_attributes =
      attribute_prefix n"
    by (simp add: strncaseeq_def attribute_prefix_def)
  moreover have "strchr (n @ CHR ''='' # v) (CHR ''='') = Some (CHR ''='' # v)"
    using t(3) by (rule strchr_skip)
  ultimately show ?thesis
    using token_span_shape [OF t] cookie_of_token_shape [OF t] t(1)
    by (auto simp: build_token_def Let_def search_cookie_def add_cookie_def
        update_cookie_def store_cookie_def split: option.splits)
qed

lemma build_loop_spec:
  "build_loop j toks = Some (foldl store_cookie j (List.map_filter cookie_of_token toks))"
proof (induction toks arbitrary: j)
  case Nil
  then show ?case by (simp add: build_loop.simps List.map_filter_def)
next
  case (Cons t ts)
  then show ?case
    by (subst build_loop.simps) (simp add: build_token_spec List.map_filter_def split: option.splits)
qed

lemma search_from_shift: "search_from j n (Suc k) = map_option Suc (search_from j n k)"
  by (induction j arbitrary: k) auto

lemma search_from_Some:
  "search_from j n 0 = Some i \<Longrightarrow> i < length j \<and> ck_name (j ! i) = n"
  by (induction j arbitrary: i) (auto simp: search_from_shift split: if_splits)

lemma search_from_None: "search_from j n k = None \<longleftrightarrow> n \<notin> ck_name ` set j"
  by (induction j arbitrary: k) auto

lemma jar_map_store: "jar_map (store_cookie j nv) = (jar_map j)(fst nv \<mapsto> snd nv)"
proof (induction j)
  case Nil
  then show ?case by (auto simp: store_cookie_def jar_map_def)
next
  case (Cons c j)
  from Cons show ?case
    by (auto simp: store_cookie_def jar_map_def search_from_shift fun_eq_iff split: option.splits)
qed

lemma names_store: "map ck_name (store_cookie j nv) =
   (if fst nv \<in> ck_name ` set j then map ck_name j else map ck_name j @ [fst nv])"
proof (cases "search_from j (fst nv) 0")
  case None
  with search_from_None have "fst nv \<notin> ck_name ` set j" by blast
  with None show ?thesis by (simp add: store_cookie_def)
next
  case (Some i)
  then have i: "i < length j" "ck_name (j ! i) = fst nv" using search_from_Some by fastforce+
  then have "fst nv \<in> ck_name ` set j" by (metis image_eqI nth_mem)
  moreover have "map ck_name (j[i := (j ! i)\<lparr>ck_value := snd nv\<rparr>]) = map ck_name j"
    using i by (simp add: map_update list_update_same_conv)
  ultimately show ?thesis using Some by (simp add: store_cookie_def)
qed

lemma set_store: "c \<in> set (store_cookie j nv) \<Longrightarrow>
   c \<in> set j \<or> (ck_name c = fst nv \<and> ck_value c = snd nv)"
proof (cases "search_from j (fst nv) 0")
  case None
  then show "c \<in> set (store_cookie j nv) \<Longrightarrow> ?thesis" by (auto simp: store_cookie_def)
next
  case (Some i)
  then have "i < length j" "ck_name (j ! i) = fst nv" using search_from_Some by fastforce+
  then show "c \<in> set (store_cookie j nv) \<Longrightarrow> ?thesis"
    using Some set_update_subset_insert by (fastforce simp: store_cookie_def)
qed

lemma cookie_of_token_ok:
  assumes "cookie_of_token tok = Some (n, v)" "CHR '';'' \<notin> set tok"
  shows "cookie_ok \<lparr>ck_name = n, ck_value = v\<rparr>"
proof -
  from assms(1) have eq: "CHR ''='' \<in> set tok"
    by (auto simp: cookie_of_token_def Let_def split: if_splits)
  obtain a m w where t: "tok = a @ m @ CHR ''='' # w" "set a \<subseteq> {CHR '' ''}"
    "CHR ''='' \<notin> set m" "m \<noteq> [] \<longrightarrow> hd m \<noteq> CHR '' ''"
    using eq by (rule token_shape)
  have "n = m" "v = w" "m \<noteq> []" "\<not> attribute_prefix m"
    using assms(1) unfolding cookie_of_token_shape [OF t] by (auto split: if_splits)
  with assms(2) t show ?thesis by (simp add: cookie_ok_def)
qed

lemma jar_inv_store:
  assumes "jar_inv j" "cookie_ok \<lparr>ck_name = n, ck_value = v\<rparr>"
  shows "jar_inv (store_cookie j (n, v))"
proof -
  have "distinct (map ck_name (store_cookie j (n, v)))"
    using assms(1) by (auto simp: jar_inv_def names_store)
  moreover have "cookie_ok c" if "c \<in> set (store_cookie j (n, v))" for c
    using set_store [OF that] assms by (auto simp: jar_inv_def cookie_ok_def)
  ultimately show ?thesis by (simp add: jar_inv_def)
qed

lemma jar_inv_foldl:
  "jar_inv j \<Longrightarrow> \<forall>t\<in>set toks. CHR '';'' \<notin> set t \<Longrightarrow>
   jar_inv (foldl store_cookie j (List.map_filter cookie_of_token toks))"
proof (induction toks arbitrary: j)
  case Nil
  then show ?case by (simp add: List.map_filter_def)
next
  case (Cons t ts)
  show ?case
  proof (cases "cookie_of_token t")
    case None
    with Cons show ?thesis by (simp add: List.map_filter_def)
  next
    case (Some nv)
    with Cons.prems have "jar_inv (store_cookie j nv)"
      using jar_inv_store cookie_of_token_ok by (cases nv) auto
    with Cons Some show ?thesis by (simp add: List.map_filter_def)
  qed
qed

lemma foldl_append_cookie:
  "acc \<noteq> [] \<Longrightarrow> foldl append_cookie acc j =
     join_with (CHR '';'') (acc # map (\<lambda>c. ck_name c @ CHR ''='' # ck_value c) j)"
proof (induction j arbitrary: acc)
  case Nil
  then show ?case by simp
next
  case (Cons c j)
  have "join_with (CHR '';'') ((acc @ CHR '';'' # x) # zs) =
      acc @ CHR '';'' # join_with (CHR '';'') (x # zs)" for x zs
    by (cases zs) auto
  with Cons show ?case by (simp add: append_cookie_def)
qed

lemma to_string_join:
  "j \<noteq> [] \<Longrightarrow> cwmpd_cookie_cookiejar_to_string (Some j) =
     Some (join_with (CHR '';'') (map (\<lambda>c. ck_name c @ CHR ''='' # ck_value c) j))"
  by (cases j) (auto simp: cwmpd_cookie_cookiejar_to_string_def foldl_append_cookie append_cookie_def)

lemma cookie_of_pair:
  "cookie_ok c \<Longrightarrow> cookie_of_token (ck_name c @ CHR ''='' # ck_value c) = Some (ck_name c, ck_value c)"
  using cookie_of_token_shape [of _ "[]" "ck_name c" "ck_value c"] by (simp add: cookie_ok_def)

lemma foldl_store_fresh:
  "distinct (map ck_name (i @ j)) \<Longrightarrow>
   foldl store_cookie i (map (\<lambda>c. (ck_name c, ck_value c)) j) = i @ j"
proof (induction j arbitrary: i)
  case Nil
  then show ?case by simp
next
  case (Cons c j)
  then have "search_from i (ck_name c) 0 = None" by (auto simp: search_from_None)
  with Cons show ?case by (simp add: store_cookie_def)
qed

text \<open>Parsing keeps the jar well formed: the names are distinct, not empty, start with
  no space, contain neither \<open>=\<close> nor \<open>;\<close> and are no attribute names, and the values contain
  no \<open>;\<close>.\<close>

lemma build_keeps_inv:
  assumes "jar_inv j" "cwmpd_cookie_cookiejar_build (Some j) header = Some (rc, Some j')"
  shows "jar_inv j'"
proof (cases "str_empty header")
  case True
  with assms show ?thesis by (simp add: cwmpd_cookie_cookiejar_build_def)
next
  case False
  then obtain h where h: "header = Some h" by (cases header) auto
  have "\<forall>t\<in>set (strtok_all (CHR '';'') h). CHR '';'' \<notin> set t"
    using strtok_all_token by blast
  with assms False h show ?thesis
    by (auto simp: cwmpd_cookie_cookiejar_build_def build_loop_spec intro: jar_inv_foldl)
qed

lemma to_string_parses:
  assumes "jar_inv j" "j \<noteq> []"
  shows "cwmpd_cookie_cookiejar_build (Some []) (cwmpd_cookie_cookiejar_to_string (Some j)) =
     Some (0, Some j)"
proof -
  let ?pairs = "map (\<lambda>c. ck_name c @ CHR ''='' # ck_value c) j"
  have "strtok_all (CHR '';'') (join_with (CHR '';'') ?pairs) = ?pairs"
    using assms(1) by (intro strtok_all_join) (auto simp: jar_inv_def cookie_ok_def)
  moreover have "List.map_filter cookie_of_token ?pairs = map (\<lambda>c. (ck_name c, ck_value c)) j"
    using assms(1) by (auto simp: jar_inv_def List.map_filter_def comp_def cookie_of_pair)
  moreover have "join_with (CHR '';'') ?pairs \<noteq> []"
    using assms(2) by (cases j; cases "tl j") auto
  ultimately show ?thesis
    using assms foldl_store_fresh [of "[]" j]
    by (simp add: to_string_join cwmpd_cookie_cookiejar_build_def build_loop_spec jar_inv_def)
qed

subsection \<open>Properties\<close>

text \<open>Property C3. The header parser always returns (its \<open>continue\<close> is never reached), reports
  success, and the jar it leaves maps each name to the value of the last accepted token with that
  name, and every other name to its old value.\<close>

theorem cookiejar_build_refines:
  assumes "header \<noteq> []"
  shows "\<exists>j'. cwmpd_cookie_cookiejar_build (Some j) (Some header) = Some (0, Some j') \<and>
     jar_map j' = foldl (\<lambda>m nv. m(fst nv \<mapsto> snd nv)) (jar_map j)
       (List.map_filter cookie_of_token (strtok_all (CHR '';'') header))"
proof -
  have "jar_map (foldl store_cookie j ps) = foldl (\<lambda>m nv. m(fst nv \<mapsto> snd nv)) (jar_map j) ps" for ps
    by (induction ps arbitrary: j) (auto simp: jar_map_store)
  then show ?thesis
    using assms by (simp add: cwmpd_cookie_cookiejar_build_def build_loop_spec)
qed

theorem cookiejar_build_refines_witness:
  "\<exists>j'. cwmpd_cookie_cookiejar_build (Some []) (Some ''a=1; b=2;a=3'') = Some (0, Some j') \<and>
     jar_map j' = [''a'' \<mapsto> ''3'', ''b'' \<mapsto> ''2'']"
proof -
  have "List.map_filter cookie_of_token (strtok_all (CHR '';'') ''a=1; b=2;a=3'') =
      [(''a'', ''1''), (''b'', ''2''), (''a'', ''3'')]"
    by code_simp
  then show ?thesis
    using cookiejar_build_refines [of "''a=1; b=2;a=3''" "[]"]
    by (auto simp: jar_map_def fun_upd_twist)
qed

text \<open>Round trip: the \<open>Cookie\<close> header that is sent for a well-formed jar parses
  back to exactly that jar.\<close>

theorem cookiejar_roundtrip:
  assumes "jar_inv j" "j \<noteq> []"
  shows "cwmpd_cookie_cookiejar_build (Some []) (cwmpd_cookie_cookiejar_to_string (Some j)) =
     Some (0, Some j)"
  using assms by (rule to_string_parses)

theorem cookiejar_roundtrip_witness:
  "cwmpd_cookie_cookiejar_build (Some [])
     (cwmpd_cookie_cookiejar_to_string (Some [\<lparr>ck_name = ''JSESSIONID'', ck_value = ''42''\<rparr>])) =
   Some (0, Some [\<lparr>ck_name = ''JSESSIONID'', ck_value = ''42''\<rparr>])"
proof (rule cookiejar_roundtrip)
  have "\<not> attribute_prefix ''JSESSIONID''" by code_simp
  then show "jar_inv [\<lparr>ck_name = ''JSESSIONID'', ck_value = ''42''\<rparr>]"
    by (simp add: jar_inv_def cookie_ok_def)
qed simp

text \<open>A cookie whose name agrees up to case with the start of an attribute name is
  dropped: the comparison runs over the length of the cookie's name, not of the attribute, so the
  cookies \<open>s\<close>, \<open>d\<close> or \<open>Pa\<close> never reach the jar.\<close>

theorem cookiejar_drops_attribute_prefix:
  assumes "tok = spaces @ name @ CHR ''='' # val" "set spaces \<subseteq> {CHR '' ''}"
    "CHR ''='' \<notin> set name" "hd name \<noteq> CHR '' ''" "CHR '';'' \<notin> set tok"
    "attribute_prefix name"
  shows "cwmpd_cookie_cookiejar_build (Some j) (Some tok) = Some (0, Some j)"
proof -
  have "cookie_of_token tok = None"
    using cookie_of_token_shape [OF assms(1-3)] assms(4,6) by simp
  moreover have "strtok_all (CHR '';'') tok = [tok]" and "tok \<noteq> []"
    using assms(1,5) by (simp_all add: strtok_all_def split_fields_plain)
  ultimately show ?thesis
    by (simp add: cwmpd_cookie_cookiejar_build_def build_loop_spec List.map_filter_def)
qed

theorem cookiejar_drops_attribute_prefix_witness:
  "cwmpd_cookie_cookiejar_build (Some []) (Some ''s=1'') = Some (0, Some [])"
proof (rule cookiejar_drops_attribute_prefix [where spaces = "[]" and name = "''s''" and val = "''1''"])
  show "attribute_prefix ''s''" by code_simp
qed auto

end
