(* ===== verification/Acs_Client.thy ===== *)
theory Acs_Client
  imports Cookie_Jar
begin

section \<open>The HTTP client that talks to the ACS (cwmpd\_client.c)\<close>

text \<open>
  The session variables of cwmpd\_client.c are the fields of \<open>acs_client\<close>; every callback of
  libwebsockets and every entry point the engine calls is a function on them. What the libraries,
  the data model and the server answer is in \<open>client_env\<close>; the calls the client makes to them are
  appended to \<open>cl_log\<close>. \<open>cl_fault\<close> records a null pointer that is dereferenced or a buffer that
  overflows. \<open>_closeACSSession\<close> belongs to the engine, which calls \<open>DM_CloseHttpSession\<close> back, so
  closing is a logged call here and the callback a step of its own.
\<close>

subsection \<open>Data\<close>

datatype auth_t = auth_basic | auth_digest | auth_unsupported | auth_none

datatype cl_param =
    DM_ENG_USERNAME | DM_ENG_PASSWORD | DM_ENG_URL | DM_ENG_ACSIP | DM_ENG_ACSIPLIST
  | DM_ENG_SSLVERIFYHOSTNAME | DM_ENG_SSLACCEPTSELFSIGNED | DM_ENG_SSLACCEPTEXPIRED | DM_ENG_NTPSTATUS
  | DM_ENG_CONNECTIONREQUESTHOST | DM_ENG_SESSIONTIMEOUT

datatype http_hdr =
    H_user_agent | H_content_length nat | H_cookie string | H_authorization string
  | H_content_type | H_soap_action

datatype client_call =
    Close_session bool
  | Start_timer string int
  | Connect string
  | Store_acsip cstr
  | Update_qos bool cstr int int
  | Wsi_close
  | Header http_hdr
  | Body_pending bool
  | Write_body string
  | Parse_soap string
  | Update_retry_buffer string
  | Dns_resolve
  | Context_destroy

record connect_info =
  ci_port :: int
  ci_path :: cstr
  ci_use_ssl :: bool
  ci_skip_hostname_check :: bool
  ci_allow_selfsigned :: bool
  ci_allow_expired :: bool

record acs_client =
  auth_type :: auth_t
  acs_server_host :: cstr
  acs_server_ip :: cstr
  acs_server_port :: int
  acs_server_path :: cstr
  acs_server_scheme :: cstr
  http_status :: int
  rcv_buf :: cstr
  rcv_buf_len :: nat
  session_timeout :: int
  pending_msg :: cstr
  cookies :: "cookie_jar option"
  auth_hdr :: cstr
  connected :: bool
  lws_connect_info :: connect_info
  qos_info_dst_ip :: cstr
  qos_info_dst_port :: int
  ssl_ca_cert :: cstr
  ssl_client_cert :: cstr
  ssl_client_key :: cstr
  cl_log :: "client_call list"
  cl_fault :: bool

record client_env =
  cv_value :: "cl_param \<Rightarrow> cstr option"
  cv_alloc :: bool
  cv_b64 :: "string \<Rightarrow> nat \<Rightarrow> cstr"
  cv_digest :: "string \<Rightarrow> cstr \<Rightarrow> cstr \<Rightarrow> cstr \<Rightarrow> cstr"
  cv_parse_uri :: "cstr \<Rightarrow> (string \<times> string \<times> int \<times> cstr) option"
  cv_ip_type :: "string \<Rightarrow> int"
  cv_csv :: "string \<Rightarrow> string list"
  cv_rand :: nat
  cv_response :: int
  cv_www_authenticate :: string
  cv_set_cookie :: string
  cv_hdr_copy_ok :: bool
  cv_ready_to_close :: bool
  cv_connect_ok :: bool
  cv_header_fails :: "http_hdr \<Rightarrow> bool"
  cv_translate_in :: "string \<Rightarrow> string"
  cv_translate_out :: "string \<Rightarrow> string"
  cv_env_tag :: string
  cv_soap_ok :: "string \<Rightarrow> bool"
  cv_read :: int
  cv_dummy :: int
  cv_certificate :: "string \<Rightarrow> cstr \<times> cstr"
  cv_conf_certificate :: cstr
  cv_conf_client_cert :: cstr
  cv_conf_client_key :: cstr
  cv_conf_trusted_ca :: cstr
  cv_ssl_ctx_ok :: bool
  cv_context_ok :: bool

definition CWMP_HTTP_CALLBACK_CONTINUE :: int where "CWMP_HTTP_CALLBACK_CONTINUE = 1"
definition CWMP_HTTP_CALLBACK_ERROR :: int where "CWMP_HTTP_CALLBACK_ERROR = -1"
definition CWMP_HTTP_CALLBACK_SKIP :: int where "CWMP_HTTP_CALLBACK_SKIP = 0"
definition DEFAULT_SESSION_TIMEOUT :: int where "DEFAULT_SESSION_TIMEOUT = 45"

definition call :: "client_call \<Rightarrow> acs_client \<Rightarrow> acs_client" where
  "call c st = st\<lparr>cl_log := cl_log st @ [c]\<rparr>"

definition fault :: "acs_client \<Rightarrow> acs_client" where
  "fault st = st\<lparr>cl_fault := True\<rparr>"

definition is_ip :: "client_env \<Rightarrow> cstr \<Rightarrow> bool" where
  "is_ip env ip = (case ip of None \<Rightarrow> False | Some s \<Rightarrow> cv_ip_type env s \<noteq> -1)"

definition ip_type :: "client_env \<Rightarrow> cstr \<Rightarrow> int" where
  "ip_type env ip = (case ip of None \<Rightarrow> -1 | Some s \<Rightarrow> cv_ip_type env s)"

subsection \<open>Authentication\<close>

definition basic_len :: "string \<Rightarrow> string \<Rightarrow> nat" where
  "basic_len username passwd = length username + length passwd + 1"

definition basic_hdr_size :: "nat \<Rightarrow> nat" where
  "basic_hdr_size len = 6 + (4 * (len + 2)) div 3 + 2"

text \<open>The encoder gets the size of the rest of the buffer; the last byte of the buffer is then set to
  NUL.\<close>

definition cwmp_client_auth_basic :: "client_env \<Rightarrow> string \<Rightarrow> string \<Rightarrow> cstr" where
  "cwmp_client_auth_basic env username passwd =
     (let hdr_size = basic_hdr_size (basic_len username passwd);
          credentials = username @ '':'' @ passwd
      in if \<not> cv_alloc env then None
         else (case cv_b64 env credentials (hdr_size - 6) of
                 None \<Rightarrow> None
               | Some enc \<Rightarrow> Some (take (hdr_size - 1) (''Basic '' @ enc))))"

definition cwmp_client_gen_auth_hdr ::
  "client_env \<Rightarrow> auth_t \<Rightarrow> string \<Rightarrow> acs_client \<Rightarrow> cwmp_status \<times> acs_client" where
  "cwmp_client_gen_auth_hdr env type auth_d st =
     (case cv_value env DM_ENG_USERNAME of
        None \<Rightarrow> (cwmp_status_ko, st)
      | Some username \<Rightarrow>
          (case cv_value env DM_ENG_PASSWORD of
             None \<Rightarrow> (cwmp_status_ko, st)
           | Some passwd \<Rightarrow>
               (let hdr = (if type = auth_basic then
                             (case (username, passwd) of
                                (Some u, Some p) \<Rightarrow> cwmp_client_auth_basic env u p | _ \<Rightarrow> None)
                           else if type = auth_digest then cv_digest env auth_d (acs_server_path st) username passwd
                           else None);
                    st1 = st\<lparr>auth_hdr := hdr\<rparr>;
                    st2 = (if type = auth_basic \<and> (username = None \<or> passwd = None) then fault st1 else st1)
                in ((if hdr \<noteq> None then cwmp_status_ok else cwmp_status_ko), st2))))"

text \<open>The header is copied into a buffer of 512 bytes with its own length as the limit.\<close>

definition cwmp_client_get_authentication_hdr :: "client_env \<Rightarrow> acs_client \<Rightarrow> acs_client" where
  "cwmp_client_get_authentication_hdr env st =
     (let st0 = st\<lparr>auth_type := auth_unsupported\<rparr>; auth_d = cv_www_authenticate env in
      if \<not> cv_hdr_copy_ok env then st0
      else if length auth_d + 1 > 512 then fault st0
      else
        (let type = (if strstr auth_d ''Basic'' \<noteq> None then auth_basic
                     else if strstr auth_d ''Digest'' \<noteq> None then auth_digest else auth_unsupported)
         in snd (cwmp_client_gen_auth_hdr env type auth_d (st0\<lparr>auth_type := type\<rparr>))))"

subsection \<open>Callbacks of libwebsockets\<close>

definition cwmp_client_sessionTimedOut :: "acs_client \<Rightarrow> acs_client" where
  "cwmp_client_sessionTimedOut st = call (Close_session False) st"

definition cwmp_client_connection_error_cb :: "acs_client \<Rightarrow> int \<times> acs_client" where
  "cwmp_client_connection_error_cb st =
     (CWMP_HTTP_CALLBACK_CONTINUE, call (Close_session False) st)"

definition cwmp_client_new_wsi_cb :: "acs_client \<Rightarrow> int \<times> acs_client" where
  "cwmp_client_new_wsi_cb st = (CWMP_HTTP_CALLBACK_CONTINUE, st\<lparr>rcv_buf := None, rcv_buf_len := 0\<rparr>)"

definition cwmp_client_handle_cookies :: "client_env \<Rightarrow> acs_client \<Rightarrow> int \<times> acs_client" where
  "cwmp_client_handle_cookies env st =
     (if cv_set_cookie env = [] then (CWMP_HTTP_CALLBACK_CONTINUE, st)
      else if \<not> cv_alloc env then (CWMP_HTTP_CALLBACK_ERROR, st)
      else
        (let header = (if cv_hdr_copy_ok env then cv_set_cookie env else []);
             jar = (case cookies st of
                      None \<Rightarrow> snd (cwmpd_cookie_cookiejar_init (cv_alloc env)) | Some j \<Rightarrow> Some j)
         in case cwmpd_cookie_cookiejar_build jar (Some header) of
              None \<Rightarrow> (CWMP_HTTP_CALLBACK_ERROR, fault st)
            | Some (rc, jar') \<Rightarrow> (CWMP_HTTP_CALLBACK_CONTINUE, st\<lparr>cookies := jar'\<rparr>)))"

definition cwmp_client_connection_established_cb :: "client_env \<Rightarrow> acs_client \<Rightarrow> int \<times> acs_client" where
  "cwmp_client_connection_established_cb env st =
     (let status = cv_response env; st1 = st\<lparr>http_status := status\<rparr> in
      if status = 204 then
        (CWMP_HTTP_CALLBACK_CONTINUE,
         (if cv_ready_to_close env then call Wsi_close st1 else st1)\<lparr>pending_msg := None\<rparr>)
      else if status = 401 then
        (CWMP_HTTP_CALLBACK_CONTINUE, call Wsi_close (cwmp_client_get_authentication_hdr env st1))
      else if status = 200 then
        cwmp_client_handle_cookies env
          (if \<not> connected st1 then call (Store_acsip (acs_server_ip st1)) (st1\<lparr>connected := True\<rparr>) else st1)
      else (CWMP_HTTP_CALLBACK_CONTINUE, st1))"

definition cwmp_client_recieve_raw_cb :: "client_env \<Rightarrow> int" where
  "cwmp_client_recieve_raw_cb env =
     (if cv_read env < 0 then CWMP_HTTP_CALLBACK_ERROR else CWMP_HTTP_CALLBACK_SKIP)"

text \<open>A failing \<open>realloc\<close> loses the old buffer but keeps its length.\<close>

definition cwmp_client_receive_http_cb :: "client_env \<Rightarrow> string \<Rightarrow> acs_client \<Rightarrow> int \<times> acs_client" where
  "cwmp_client_receive_http_cb env msg st =
     (if \<not> cv_alloc env then (CWMP_HTTP_CALLBACK_ERROR, st\<lparr>rcv_buf := None\<rparr>)
      else (let old = (case rcv_buf st of None \<Rightarrow> [] | Some b \<Rightarrow> b) in
            if length old < rcv_buf_len st then (CWMP_HTTP_CALLBACK_SKIP, fault st)
            else (CWMP_HTTP_CALLBACK_SKIP,
                  st\<lparr>rcv_buf := Some (take (rcv_buf_len st) old @ msg),
                     rcv_buf_len := rcv_buf_len st + length msg\<rparr>)))"

definition cwmp_client_http_complete_cb :: "client_env \<Rightarrow> acs_client \<Rightarrow> int \<times> acs_client" where
  "cwmp_client_http_complete_cb env st =
     (CWMP_HTTP_CALLBACK_CONTINUE,
      (if http_status st = 200 then
         (case rcv_buf st of
            None \<Rightarrow> fault st
          | Some buf \<Rightarrow>
              (if strstr buf (cv_env_tag env) \<noteq> None then
                 (let soap = cv_translate_in env buf;
                      st1 = st\<lparr>rcv_buf := Some soap, rcv_buf_len := length soap\<rparr>
                  in if cv_soap_ok env soap then call (Parse_soap soap) st1
                     else call (Close_session False) st1)
               else st))
       else st))"

definition handshake_headers :: "acs_client \<Rightarrow> string \<Rightarrow> http_hdr list" where
  "handshake_headers st msg =
     [H_user_agent, H_content_length (length msg)] @
     (case cwmpd_cookie_cookiejar_to_string (cookies st) of None \<Rightarrow> [] | Some s \<Rightarrow> [H_cookie s]) @
     (case auth_hdr st of None \<Rightarrow> [] | Some a \<Rightarrow> [H_authorization a]) @
     (if length msg > 0 then [H_content_type, H_soap_action] else [])"

text \<open>The headers are written one by one; the first that fails ends the callback.\<close>

fun write_headers :: "client_env \<Rightarrow> http_hdr list \<Rightarrow> acs_client \<Rightarrow> bool \<times> acs_client" where
  "write_headers env [] st = (True, st)"
| "write_headers env (h # hs) st =
     (if cv_header_fails env h then (False, st) else write_headers env hs (call (Header h) st))"

definition cwmp_client_handshake_cb :: "client_env \<Rightarrow> acs_client \<Rightarrow> int \<times> acs_client" where
  "cwmp_client_handshake_cb env st =
     (case pending_msg st of
        None \<Rightarrow> (CWMP_HTTP_CALLBACK_ERROR, st)
      | Some msg \<Rightarrow>
          (case write_headers env (handshake_headers st msg) st of
             (False, st') \<Rightarrow> (CWMP_HTTP_CALLBACK_ERROR, st')
           | (True, st') \<Rightarrow> (CWMP_HTTP_CALLBACK_CONTINUE, call (Body_pending True) st')))"

definition cwmp_client_http_writable_cb :: "acs_client \<Rightarrow> int \<times> acs_client" where
  "cwmp_client_http_writable_cb st =
     (CWMP_HTTP_CALLBACK_CONTINUE,
      (case pending_msg st of
         None \<Rightarrow> st | Some msg \<Rightarrow> call (Body_pending False) (call (Write_body msg) st)))"

definition cwmp_client_connection_closed_cb :: "acs_client \<Rightarrow> int \<times> acs_client" where
  "cwmp_client_connection_closed_cb st =
     (CWMP_HTTP_CALLBACK_CONTINUE,
      (if http_status st = 204 then call (Close_session True) st
       else if http_status st = 401 then
         (if auth_type st \<noteq> auth_unsupported \<and> auth_hdr st \<noteq> None
          then call (Start_timer ''cwmp_client_auth_retry'' 0) st
          else call (Close_session False) st)
       else if http_status st \<noteq> 200 then call (Close_session False) st
       else st))"

datatype client_reason =
    LWS_CALLBACK_CLIENT_CONNECTION_ERROR | LWS_CALLBACK_SERVER_NEW_CLIENT_INSTANTIATED
  | LWS_CALLBACK_ESTABLISHED_CLIENT_HTTP | LWS_CALLBACK_RECEIVE_CLIENT_HTTP
  | LWS_CALLBACK_RECEIVE_CLIENT_HTTP_READ | LWS_CALLBACK_COMPLETED_CLIENT_HTTP
  | LWS_CALLBACK_CLIENT_APPEND_HANDSHAKE_HEADER | LWS_CALLBACK_CLIENT_HTTP_WRITEABLE
  | LWS_CALLBACK_CLOSED_CLIENT_HTTP | LWS_CALLBACK_client_other

definition cwmp_client_http_callback ::
  "client_env \<Rightarrow> client_reason \<Rightarrow> string \<Rightarrow> acs_client \<Rightarrow> int \<times> acs_client" where
  "cwmp_client_http_callback env reason data st =
     (case (case reason of
              LWS_CALLBACK_CLIENT_CONNECTION_ERROR \<Rightarrow> cwmp_client_connection_error_cb st
            | LWS_CALLBACK_SERVER_NEW_CLIENT_INSTANTIATED \<Rightarrow> cwmp_client_new_wsi_cb st
            | LWS_CALLBACK_ESTABLISHED_CLIENT_HTTP \<Rightarrow> cwmp_client_connection_established_cb env st
            | LWS_CALLBACK_RECEIVE_CLIENT_HTTP \<Rightarrow> (cwmp_client_recieve_raw_cb env, st)
            | LWS_CALLBACK_RECEIVE_CLIENT_HTTP_READ \<Rightarrow> cwmp_client_receive_http_cb env data st
            | LWS_CALLBACK_COMPLETED_CLIENT_HTTP \<Rightarrow> cwmp_client_http_complete_cb env st
            | LWS_CALLBACK_CLIENT_APPEND_HANDSHAKE_HEADER \<Rightarrow> cwmp_client_handshake_cb env st
            | LWS_CALLBACK_CLIENT_HTTP_WRITEABLE \<Rightarrow> cwmp_client_http_writable_cb st
            | LWS_CALLBACK_CLOSED_CLIENT_HTTP \<Rightarrow> cwmp_client_connection_closed_cb st
            | LWS_CALLBACK_client_other \<Rightarrow> (CWMP_HTTP_CALLBACK_CONTINUE, st)) of
        (ret, st') \<Rightarrow>
          ((if ret \<noteq> CWMP_HTTP_CALLBACK_CONTINUE then ret else cv_dummy env), st'))"

subsection \<open>Preparing a session\<close>

definition allow_expired :: "client_env \<Rightarrow> bool" where
  "allow_expired env =
     (case cv_value env DM_ENG_SSLACCEPTEXPIRED of
        Some (Some e) \<Rightarrow>
          e = ''Always'' \<or>
          (e = ''NTP'' \<and> (case cv_value env DM_ENG_NTPSTATUS of
                            Some (Some ntp) \<Rightarrow> ntp \<noteq> ''Synchronized'' | _ \<Rightarrow> False))
      | _ \<Rightarrow> False)"

text \<open>A flag that is fetched as a null pointer is dereferenced by \<open>atol\<close> or \<open>strcmp\<close>.\<close>

definition cwmp_client_https_session_init :: "client_env \<Rightarrow> acs_client \<Rightarrow> acs_client" where
  "cwmp_client_https_session_init env st =
     (let ci = (lws_connect_info st)\<lparr>
                 ci_use_ssl := True,
                 ci_skip_hostname_check :=
                   (case cv_value env DM_ENG_SSLVERIFYHOSTNAME of
                      Some (Some v) \<Rightarrow> atoi v = 0 | _ \<Rightarrow> ci_skip_hostname_check (lws_connect_info st)),
                 ci_allow_selfsigned :=
                   (case cv_value env DM_ENG_SSLACCEPTSELFSIGNED of
                      Some (Some v) \<Rightarrow> atoi v \<noteq> 0 | _ \<Rightarrow> ci_allow_selfsigned (lws_connect_info st)),
                 ci_allow_expired := (allow_expired env \<or> ci_allow_expired (lws_connect_info st))\<rparr>;
          st1 = (if Some None \<in> {cv_value env DM_ENG_SSLVERIFYHOSTNAME,
                     cv_value env DM_ENG_SSLACCEPTSELFSIGNED, cv_value env DM_ENG_SSLACCEPTEXPIRED}
                 then fault st else st)
      in snd (cwmp_client_gen_auth_hdr env auth_basic [] (st1\<lparr>lws_connect_info := ci\<rparr>)))"

definition cwmp_client_prepare_session :: "client_env \<Rightarrow> acs_client \<Rightarrow> acs_client" where
  "cwmp_client_prepare_session env st =
     (let st1 = st\<lparr>lws_connect_info := \<lparr>ci_port = acs_server_port st, ci_path = acs_server_path st,
                   ci_use_ssl = False, ci_skip_hostname_check = False, ci_allow_selfsigned = False,
                   ci_allow_expired = False\<rparr>\<rparr>
      in case acs_server_scheme st of
           None \<Rightarrow> fault st1
         | Some s \<Rightarrow> (if s = ''https'' then cwmp_client_https_session_init env st1 else st1))"

definition strip_file :: "cstr \<Rightarrow> cstr" where
  "strip_file s =
     map_option (\<lambda>u. if prefix ''file://'' u then drop 7 u else u) s"

text \<open>A file name that is not configured is passed to \<open>strdup\<close> all the same.\<close>

definition cwmp_prepare_ssl_data :: "client_env \<Rightarrow> acs_client \<Rightarrow> acs_client" where
  "cwmp_prepare_ssl_data env st =
     (let files = str_empty (cv_conf_certificate env);
          (cert, key) = (if files then (cv_conf_client_cert env, cv_conf_client_key env)
                         else (case cv_certificate env (the (cv_conf_certificate env)) of
                                 (c, k) \<Rightarrow> (strip_file c, strip_file k)));
          st1 = st\<lparr>ssl_client_cert := cert, ssl_client_key := key, ssl_ca_cert := cv_conf_trusted_ca env\<rparr>
      in if (files \<and> (cert = None \<or> key = None)) \<or> cv_conf_trusted_ca env = None then fault st1 else st1)"

definition update_qos_info :: "client_env \<Rightarrow> cstr \<Rightarrow> int \<Rightarrow> acs_client \<Rightarrow> acs_client" where
  "update_qos_info env dstIP dstPort st =
     (let changed = (qos_info_dst_ip st \<noteq> dstIP \<or> qos_info_dst_port st \<noteq> dstPort);
          st1 = st\<lparr>qos_info_dst_ip := dstIP, qos_info_dst_port := dstPort\<rparr>
      in if changed
         then call (Update_qos (is_ip env dstIP \<and> dstPort > 0) dstIP dstPort (ip_type env dstIP)) st1
         else st)"

definition cwmp_get_random_ip :: "client_env \<Rightarrow> cstr" where
  "cwmp_get_random_ip env =
     (case cv_value env DM_ENG_ACSIPLIST of
        Some (Some l) \<Rightarrow>
          (if length l > 1 then
             (let ips = cv_csv env l in
              if ips \<noteq> [] then Some (ips ! (cv_rand env mod length ips)) else None)
           else None)
      | _ \<Rightarrow> None)"

text \<open>The address of the last session is kept when the list contains it as a substring.\<close>

definition cwmp_client_get_acsip :: "client_env \<Rightarrow> acs_client \<Rightarrow> cwmp_status \<times> acs_client" where
  "cwmp_client_get_acsip env st =
     (let finish = (\<lambda>ip. ((if ip \<noteq> None then cwmp_status_ok else cwmp_status_ko),
                    update_qos_info env ip (acs_server_port st) (st\<lparr>acs_server_ip := ip\<rparr>)))
      in if is_ip env (acs_server_host st) then finish (acs_server_host st)
         else
           (let last = (case cv_value env DM_ENG_ACSIP of None \<Rightarrow> acs_server_ip st | Some v \<Rightarrow> v) in
            if str_empty last then finish (cwmp_get_random_ip env)
            else (case cv_value env DM_ENG_ACSIPLIST of
                    None \<Rightarrow> (cwmp_status_ko, st\<lparr>acs_server_ip := last\<rparr>)
                  | Some l \<Rightarrow>
                      (if l \<noteq> None \<and> strstr (the l) (the last) \<noteq> None then finish last
                       else finish (cwmp_get_random_ip env)))))"

definition cwmp_client_parse_url :: "client_env \<Rightarrow> acs_client \<Rightarrow> cwmp_status \<times> acs_client" where
  "cwmp_client_parse_url env st =
     (case cv_value env DM_ENG_URL of
        None \<Rightarrow> (cwmp_status_ko, st)
      | Some url \<Rightarrow>
          (case cv_parse_uri env url of
             None \<Rightarrow> (cwmp_status_ko, st)
           | Some (scheme, host, port, path) \<Rightarrow>
               (let port' = (if port \<le> 0 then 7547 else port);
                    path' = (case path of
                               None \<Rightarrow> acs_server_path st
                             | Some p \<Rightarrow> Some (if prefix ''/'' p then p else CHR ''/'' # p))
                in (cwmp_status_ok,
                    update_qos_info env (acs_server_ip st) port'
                      (st\<lparr>acs_server_host := Some host, acs_server_path := path',
                          acs_server_port := port', acs_server_scheme := Some scheme\<rparr>)))))"

text \<open>\<open>cwmp_client_init\<close>; \<open>cv_ssl_ctx_ok\<close> is the result of the OpenSSL set-up for a PKCS\#11 key.\<close>

definition cwmp_client_init :: "client_env \<Rightarrow> acs_client \<Rightarrow> cwmp_status \<times> acs_client" where
  "cwmp_client_init env st =
     (let st1 = cwmp_prepare_ssl_data env st in
      if (case ssl_client_key st1 of None \<Rightarrow> False | Some k \<Rightarrow> prefix ''pkcs11:'' k) \<and> \<not> cv_ssl_ctx_ok env
      then (cwmp_status_ko, st1)
      else ((if cv_context_ok env then cwmp_status_ok else cwmp_status_ko), st1))"

subsection \<open>Entry points of the engine\<close>

definition cwmp_client_clear_ACSIP :: "acs_client \<Rightarrow> acs_client" where
  "cwmp_client_clear_ACSIP st = st\<lparr>acs_server_ip := None\<rparr>"

definition DM_CloseHttpSession :: "bool \<Rightarrow> acs_client \<Rightarrow> int \<times> acs_client" where
  "DM_CloseHttpSession closeMode st =
     (0, st\<lparr>http_status := 0, auth_type := auth_none, connected := False, acs_server_host := None,
            acs_server_path := None, acs_server_scheme := None, acs_server_ip := None,
            pending_msg := None, cookies := cwmpd_cookie_cookiejar_clean (cookies st), rcv_buf := None,
            auth_hdr := None, rcv_buf_len := 0\<rparr>)"

definition cwmp_client_stop :: "acs_client \<Rightarrow> cwmp_status \<times> acs_client" where
  "cwmp_client_stop st =
     (cwmp_status_ok,
      snd (DM_CloseHttpSession True
        ((call Context_destroy (st\<lparr>qos_info_dst_ip := None\<rparr>))
           \<lparr>ssl_ca_cert := None, ssl_client_cert := None, ssl_client_key := None\<rparr>)))"

text \<open>The argument of \<open>DM_SendHttpMessage\<close>: a null pointer, a message of the engine, or the pointer
  \<open>pending_msg\<close> itself, which the retry passes.\<close>

datatype soap_arg = Null_msg | New_msg string | Pending_msg

definition DM_SendHttpMessage :: "client_env \<Rightarrow> soap_arg \<Rightarrow> acs_client \<Rightarrow> int \<times> acs_client" where
  "DM_SendHttpMessage env arg st =
     (if arg = Null_msg \<or> (arg = Pending_msg \<and> pending_msg st = None) then (-1, st)
      else
        (let st1 = (case arg of
                      New_msg m \<Rightarrow> call (Update_retry_buffer m)
                        (st\<lparr>pending_msg := Some (cv_translate_out env m)\<rparr>)
                    | _ \<Rightarrow> st)
         in case acs_server_host st1 of
              None \<Rightarrow> (-1, st1)
            | Some host \<Rightarrow>
                (let st2 = call (Connect host) st1 in
                 if \<not> cv_connect_ok env then (-1, st2\<lparr>pending_msg := None\<rparr>)
                 else (0, call (Start_timer ''Session-timer'' (session_timeout st2)) st2))))"

definition cwmp_client_auth_retry :: "client_env \<Rightarrow> acs_client \<Rightarrow> acs_client" where
  "cwmp_client_auth_retry env st = snd (DM_SendHttpMessage env Pending_msg st)"

text \<open>The configured timeout is read only when the variable already holds one.\<close>

definition new_session_timeout :: "client_env \<Rightarrow> int \<Rightarrow> int" where
  "new_session_timeout env old =
     (let v = (case cv_value env DM_ENG_SESSIONTIMEOUT of
                 Some (Some s) \<Rightarrow> (if old \<noteq> 0 then atoi s else old) | _ \<Rightarrow> old)
      in if v \<le> 0 then DEFAULT_SESSION_TIMEOUT else v)"

definition client_startSession :: "client_env \<Rightarrow> acs_client \<Rightarrow> int \<times> acs_client" where
  "client_startSession env st =
     (case cv_value env DM_ENG_CONNECTIONREQUESTHOST of
        None \<Rightarrow> (-1, st)
      | Some None \<Rightarrow> (-1, fault st)
      | Some (Some crhost) \<Rightarrow>
          (if crhost = [] \<or> crhost = ''0.0.0.0'' then (-1, st)
           else (case cwmp_client_parse_url env st of
             (cwmp_status_ko, st1) \<Rightarrow> (-1, st1)
           | (cwmp_status_ok, st1) \<Rightarrow>
               (case cwmp_client_get_acsip env st1 of
                  (cwmp_status_ko, st2) \<Rightarrow> (-1, call Dns_resolve st2)
                | (cwmp_status_ok, st2) \<Rightarrow>
                    (let st3 = cwmp_client_prepare_session env st2;
                         t = new_session_timeout env (session_timeout st3);
                         st4 = (if cv_value env DM_ENG_SESSIONTIMEOUT = Some None \<and> session_timeout st3 \<noteq> 0
                                then fault st3 else st3)
                     in (0, call (Start_timer ''Session-timer'' t)
                              (st4\<lparr>session_timeout := t\<rparr>)))))))"

subsection \<open>Authentication of the client\<close>

lemma call_frame [simp]:
  "auth_type (call c st) = auth_type st" "acs_server_host (call c st) = acs_server_host st"
  "acs_server_ip (call c st) = acs_server_ip st" "acs_server_port (call c st) = acs_server_port st"
  "acs_server_path (call c st) = acs_server_path st" "acs_server_scheme (call c st) = acs_server_scheme st"
  "http_status (call c st) = http_status st" "rcv_buf (call c st) = rcv_buf st"
  "rcv_buf_len (call c st) = rcv_buf_len st" "session_timeout (call c st) = session_timeout st"
  "pending_msg (call c st) = pending_msg st" "cookies (call c st) = cookies st"
  "auth_hdr (call c st) = auth_hdr st" "connected (call c st) = connected st"
  "lws_connect_info (call c st) = lws_connect_info st" "cl_fault (call c st) = cl_fault st"
  "cl_log (call c st) = cl_log st @ [c]"
  by (simp_all add: call_def)

lemma fault_frame [simp]:
  "auth_type (fault st) = auth_type st" "acs_server_host (fault st) = acs_server_host st"
  "acs_server_port (fault st) = acs_server_port st" "acs_server_ip (fault st) = acs_server_ip st"
  "acs_server_scheme (fault st) = acs_server_scheme st" "pending_msg (fault st) = pending_msg st"
  "cookies (fault st) = cookies st" "auth_hdr (fault st) = auth_hdr st"
  "lws_connect_info (fault st) = lws_connect_info st" "session_timeout (fault st) = session_timeout st"
  "cl_log (fault st) = cl_log st" "cl_fault (fault st) = True"
  by (simp_all add: fault_def)

text \<open>The contract of \<open>lws_b64_encode_string\<close>: \<open>enc\<close> is the encoding, of the length that base 64 has,
  and the call succeeds when it fits with its terminator.\<close>

definition b64_contract :: "client_env \<Rightarrow> (string \<Rightarrow> string) \<Rightarrow> bool" where
  "b64_contract env enc \<longleftrightarrow> (\<forall>s n. length (enc s) = 4 * ((length s + 2) div 3) \<and>
     cv_b64 env s n = (if length (enc s) + 1 \<le> n then Some (enc s) else None))"

lemma basic_size: "4 * ((len + 2) div 3) + 1 \<le> basic_hdr_size len - 6" "6 + 4 * ((len + 2) div 3) \<le> basic_hdr_size len - 1"
proof -
  have "4 * ((len + 2) div 3) \<le> (4 * (len + 2)) div 3"
    by presburger
  then show "4 * ((len + 2) div 3) + 1 \<le> basic_hdr_size len - 6" "6 + 4 * ((len + 2) div 3) \<le> basic_hdr_size len - 1"
    by (simp_all add: basic_hdr_size_def)
qed

text \<open>The buffer computed for a Basic authorization header always suffices: the encoding
  never fails for lack of room, and the byte that is overwritten by the final NUL is never part of it.\<close>

theorem basic_header_fits:
  assumes "b64_contract env enc" "cv_alloc env"
  shows "cwmp_client_auth_basic env username passwd = Some (''Basic '' @ enc (username @ '':'' @ passwd))"
proof -
  let ?c = "username @ '':'' @ passwd" and ?len = "basic_len username passwd"
  have len: "length ?c = ?len" by (simp add: basic_len_def)
  then have e: "length (enc ?c) = 4 * ((?len + 2) div 3)"
    "cv_b64 env ?c n = (if length (enc ?c) + 1 \<le> n then Some (enc ?c) else None)" for n
    using assms(1) unfolding b64_contract_def by metis+
  have "length (''Basic '' @ enc ?c) \<le> basic_hdr_size ?len - 1" using basic_size(2) [of ?len] e(1) by simp
  then show ?thesis
    using basic_size(1) [of ?len] e assms(2)
    by (simp add: cwmp_client_auth_basic_def Let_def)
qed

definition toy_b64 :: "string \<Rightarrow> string" where
  "toy_b64 s = replicate (4 * ((length s + 2) div 3)) (CHR ''A'')"

definition example_client_env :: client_env where
  "example_client_env =
     \<lparr>cv_value = (\<lambda>p. Some (Some (case p of DM_ENG_USERNAME \<Rightarrow> ''cpe'' | DM_ENG_PASSWORD \<Rightarrow> ''secret''
          | DM_ENG_ACSIP \<Rightarrow> ''10.0.0.1'' | DM_ENG_ACSIPLIST \<Rightarrow> ''10.0.0.12''
          | DM_ENG_CONNECTIONREQUESTHOST \<Rightarrow> ''192.0.2.1'' | DM_ENG_SESSIONTIMEOUT \<Rightarrow> ''90'' | _ \<Rightarrow> ''1''))),
      cv_alloc = True, cv_b64 = (\<lambda>s n. if length (toy_b64 s) + 1 \<le> n then Some (toy_b64 s) else None),
      cv_digest = (\<lambda>a p u w. Some ''Digest''), cv_parse_uri = (\<lambda>u. Some (''http'', ''acs'', 0, Some ''cwmp'')),
      cv_ip_type = (\<lambda>s. -1), cv_csv = split_fields (CHR '',''), cv_rand = 0, cv_response = 401,
      cv_www_authenticate = ''Basic realm'', cv_set_cookie = [], cv_hdr_copy_ok = True,
      cv_ready_to_close = True, cv_connect_ok = True, cv_header_fails = (\<lambda>h. False),
      cv_translate_in = id, cv_translate_out = id, cv_env_tag = ''Envelope'', cv_soap_ok = (\<lambda>m. True),
      cv_read = 0, cv_dummy = 0, cv_certificate = (\<lambda>c. (None, None)), cv_conf_certificate = None,
      cv_conf_client_cert = Some [], cv_conf_client_key = Some [], cv_conf_trusted_ca = Some [], cv_ssl_ctx_ok = True,
      cv_context_ok = True\<rparr>"

definition idle_client :: acs_client where
  "idle_client = \<lparr>auth_type = auth_none, acs_server_host = None, acs_server_ip = None, acs_server_port = -1,
     acs_server_path = None, acs_server_scheme = None, http_status = 0, rcv_buf = None, rcv_buf_len = 0,
     session_timeout = 0, pending_msg = None, cookies = None, auth_hdr = None, connected = False,
     lws_connect_info = \<lparr>ci_port = 0, ci_path = None, ci_use_ssl = False, ci_skip_hostname_check = False,
       ci_allow_selfsigned = False, ci_allow_expired = False\<rparr>,
     qos_info_dst_ip = None, qos_info_dst_port = -1, ssl_ca_cert = None, ssl_client_cert = None,
     ssl_client_key = None, cl_log = [], cl_fault = False\<rparr>"

theorem basic_header_fits_witness:
  "cwmp_client_auth_basic example_client_env ''u'' ''pw'' = Some (''Basic '' @ toy_b64 ''u:pw'')"
  using basic_header_fits [of example_client_env toy_b64 "''u''" "''pw''"]
  by (simp add: b64_contract_def example_client_env_def toy_b64_def)

text \<open>One round of the retry: the message is sent again, the server answers 401, the connection closes.\<close>

definition unauthorized_round :: "client_env \<Rightarrow> acs_client \<Rightarrow> acs_client" where
  "unauthorized_round env st =
     snd (cwmp_client_connection_closed_cb
       (snd (cwmp_client_connection_established_cb env (cwmp_client_auth_retry env st))))"

definition basic_challenge :: "client_env \<Rightarrow> bool" where
  "basic_challenge env \<longleftrightarrow> cv_response env = 401 \<and> cv_hdr_copy_ok env \<and>
     length (cv_www_authenticate env) < 512 \<and> strstr (cv_www_authenticate env) ''Basic'' \<noteq> None \<and>
     cv_connect_ok env \<and>
     (\<exists>u p. cv_value env DM_ENG_USERNAME = Some (Some u) \<and> cv_value env DM_ENG_PASSWORD = Some (Some p) \<and>
        cwmp_client_auth_basic env u p \<noteq> None)"

definition round_calls :: "string \<Rightarrow> int \<Rightarrow> client_call list" where
  "round_calls host t = [Connect host, Start_timer ''Session-timer'' t, Wsi_close,
     Start_timer ''cwmp_client_auth_retry'' 0]"

lemma unauthorized_round_calls:
  assumes "basic_challenge env" "acs_server_host st = Some host" "pending_msg st = Some m"
  shows "cl_log (unauthorized_round env st) = cl_log st @ round_calls host (session_timeout st) \<and>
    acs_server_host (unauthorized_round env st) = Some host \<and> pending_msg (unauthorized_round env st) = Some m \<and>
    session_timeout (unauthorized_round env st) = session_timeout st"
  using assms
  by (auto simp: basic_challenge_def unauthorized_round_def cwmp_client_auth_retry_def DM_SendHttpMessage_def
      cwmp_client_connection_established_cb_def cwmp_client_connection_closed_cb_def
      cwmp_client_get_authentication_hdr_def cwmp_client_gen_auth_hdr_def round_calls_def Let_def)

text \<open>A server that keeps answering 401 to a Basic header is contacted for ever: however
  many rounds are played, each one reconnects at once with the same message and restarts the session
  timer before it can expire, and the session is never closed.\<close>

theorem unauthorized_retried_forever:
  assumes "basic_challenge env" "acs_server_host st = Some host" "pending_msg st = Some m"
  shows "cl_log ((unauthorized_round env ^^ n) st) =
      cl_log st @ concat (replicate n (round_calls host (session_timeout st))) \<and>
    pending_msg ((unauthorized_round env ^^ n) st) = Some m"
proof -
  have "cl_log ((unauthorized_round env ^^ n) st) =
      cl_log st @ concat (replicate n (round_calls host (session_timeout st))) \<and>
    acs_server_host ((unauthorized_round env ^^ n) st) = Some host \<and>
    pending_msg ((unauthorized_round env ^^ n) st) = Some m \<and>
    session_timeout ((unauthorized_round env ^^ n) st) = session_timeout st"
  proof (induction n)
    case (Suc n)
    have "concat (replicate (Suc n) xs) = concat (replicate n xs) @ xs" for xs :: "client_call list"
      by (induction n) auto
    with Suc unauthorized_round_calls [OF assms(1), of "(unauthorized_round env ^^ n) st" host m]
    show ?case by (simp del: replicate_Suc)
  qed (use assms in simp_all)
  then show ?thesis by simp
qed

theorem unauthorized_retried_forever_witness:
  "length (filter (\<lambda>c. c = Connect ''acs'') (cl_log ((unauthorized_round example_client_env ^^ 3)
     (idle_client\<lparr>acs_server_host := Some ''acs'', pending_msg := Some ''Inform''\<rparr>)))) = 3"
proof -
  have "basic_challenge example_client_env"
    by (simp add: basic_challenge_def example_client_env_def cwmp_client_auth_basic_def toy_b64_def
        basic_hdr_size_def basic_len_def prefix_def Let_def)
  then show ?thesis
    using unauthorized_retried_forever [of example_client_env
        "idle_client\<lparr>acs_server_host := Some ''acs'', pending_msg := Some ''Inform''\<rparr>" "''acs''" "''Inform''" 3]
    by (simp add: idle_client_def round_calls_def numeral_3_eq_3)
qed

subsection \<open>Sessions\<close>

lemma update_qos_frame [simp]:
  "cookies (update_qos_info env ip p st) = cookies st" "auth_hdr (update_qos_info env ip p st) = auth_hdr st"
  "acs_server_scheme (update_qos_info env ip p st) = acs_server_scheme st"
  "acs_server_ip (update_qos_info env ip p st) = acs_server_ip st"
  "acs_server_host (update_qos_info env ip p st) = acs_server_host st"
  "session_timeout (update_qos_info env ip p st) = session_timeout st"
  by (simp_all add: update_qos_info_def Let_def)

lemma parse_url_frame:
  "cwmp_client_parse_url env st = (r, st') \<Longrightarrow>
   cookies st' = cookies st \<and> auth_hdr st' = auth_hdr st \<and> session_timeout st' = session_timeout st"
  by (auto simp: cwmp_client_parse_url_def Let_def split: option.splits)

lemma get_acsip_frame:
  "cwmp_client_get_acsip env st = (r, st') \<Longrightarrow>
   cookies st' = cookies st \<and> auth_hdr st' = auth_hdr st \<and> session_timeout st' = session_timeout st \<and>
   acs_server_scheme st' = acs_server_scheme st"
  by (auto simp: cwmp_client_get_acsip_def Let_def split: option.splits if_splits)

lemma gen_auth_frame:
  "cwmp_client_gen_auth_hdr env ty d st = (r, st') \<Longrightarrow>
   cookies st' = cookies st \<and> session_timeout st' = session_timeout st \<and>
   acs_server_scheme st' = acs_server_scheme st \<and> lws_connect_info st' = lws_connect_info st"
  by (auto simp: cwmp_client_gen_auth_hdr_def Let_def split: option.splits if_splits)

lemma prepare_frame:
  "cookies (cwmp_client_prepare_session env st) = cookies st"
  "session_timeout (cwmp_client_prepare_session env st) = session_timeout st"
  "acs_server_scheme (cwmp_client_prepare_session env st) = acs_server_scheme st"
  "acs_server_scheme st \<noteq> Some ''https'' \<Longrightarrow> auth_hdr (cwmp_client_prepare_session env st) = auth_hdr st"
  using gen_auth_frame [OF prod.collapse [symmetric]]
  by (auto simp: cwmp_client_prepare_session_def cwmp_client_https_session_init_def Let_def split: option.splits)

lemma startSession_ok:
  assumes "client_startSession env st = (0, st')"
  obtains st2 where "cookies st2 = cookies st" "auth_hdr st2 = auth_hdr st"
    "session_timeout st2 = session_timeout st" "cookies st' = cookies st2"
    "auth_hdr st' = auth_hdr (cwmp_client_prepare_session env st2)"
    "acs_server_scheme st' = acs_server_scheme st2"
    "session_timeout st' = new_session_timeout env (session_timeout st2)"
    "lws_connect_info st' = lws_connect_info (cwmp_client_prepare_session env st2)"
proof -
  obtain r1 st1 where 1: "cwmp_client_parse_url env st = (r1, st1)" by fastforce
  obtain r2 st2 where 2: "cwmp_client_get_acsip env st1 = (r2, st2)" by fastforce
  from assms 1 2 have "r1 = cwmp_status_ok" "r2 = cwmp_status_ok"
    by (cases r1; cases r2; auto simp: client_startSession_def split: option.splits if_splits)+
  with assms 1 2 have st': "\<exists>st4. (st4 = cwmp_client_prepare_session env st2 \<or>
        st4 = fault (cwmp_client_prepare_session env st2)) \<and>
      st' = call (Start_timer ''Session-timer'' (new_session_timeout env (session_timeout (cwmp_client_prepare_session env st2))))
         (st4\<lparr>session_timeout := new_session_timeout env (session_timeout (cwmp_client_prepare_session env st2))\<rparr>)"
    by (auto simp: client_startSession_def Let_def split: option.splits if_splits)
  show ?thesis
    by (rule that [of st2]) (use st' parse_url_frame [OF 1] get_acsip_frame [OF 2] prepare_frame in auto)
qed



text \<open>The first session after the start of the daemon ignores the configured session timeout:
  it is tested (\<open>if(session_timeout)\<close>) instead of the value that was read, so the default of 45 seconds is
  used whatever the data model says.\<close>

theorem first_session_timeout_ignored:
  assumes "session_timeout st = 0" "client_startSession env st = (0, st')"
  shows "session_timeout st' = DEFAULT_SESSION_TIMEOUT"
proof (rule startSession_ok [OF assms(2)])
  fix st2
  assume "session_timeout st2 = session_timeout st"
    "session_timeout st' = new_session_timeout env (session_timeout st2)"
  with assms(1) show ?thesis by (simp add: new_session_timeout_def split: option.splits)
qed

theorem first_session_timeout_ignored_witness:
  "cv_value example_client_env DM_ENG_SESSIONTIMEOUT = Some (Some ''90'') \<and>
   session_timeout (snd (client_startSession example_client_env idle_client)) = 45"
proof -
  have "fst (client_startSession example_client_env idle_client) = 0" by code_simp
  then have "client_startSession example_client_env idle_client =
      (0, snd (client_startSession example_client_env idle_client))" by (intro prod_eqI) simp_all
  from first_session_timeout_ignored [OF _ this] show ?thesis
    by (simp add: idle_client_def DEFAULT_SESSION_TIMEOUT_def example_client_env_def)
qed

text \<open>The checks of the server's certificate are relaxed only by explicit configuration: over
  https TLS is always used; the host name check is skipped exactly when its parameter is fetched and is 0,
  self-signed certificates are accepted exactly when theirs is fetched and is not 0, and expired ones
  exactly for Always, or for NTP with a fetched status other than Synchronized. A failing fetch leaves
  every check on.\<close>

theorem tls_checks_configured:
  assumes "acs_server_scheme st = Some ''https''"
  shows "let ci = lws_connect_info (cwmp_client_prepare_session env st) in
    ci_use_ssl ci \<and>
    (ci_skip_hostname_check ci \<longleftrightarrow> (\<exists>v. cv_value env DM_ENG_SSLVERIFYHOSTNAME = Some (Some v) \<and> atoi v = 0)) \<and>
    (ci_allow_selfsigned ci \<longleftrightarrow> (\<exists>v. cv_value env DM_ENG_SSLACCEPTSELFSIGNED = Some (Some v) \<and> atoi v \<noteq> 0)) \<and>
    (ci_allow_expired ci \<longleftrightarrow> cv_value env DM_ENG_SSLACCEPTEXPIRED = Some (Some ''Always'') \<or>
       (cv_value env DM_ENG_SSLACCEPTEXPIRED = Some (Some ''NTP'') \<and>
        (\<exists>s. cv_value env DM_ENG_NTPSTATUS = Some (Some s) \<and> s \<noteq> ''Synchronized'')))"
  using assms gen_auth_frame [OF prod.collapse [symmetric]]
  by (auto simp: cwmp_client_prepare_session_def cwmp_client_https_session_init_def allow_expired_def Let_def
      split: option.splits)

theorem tls_checks_configured_witness:
  "\<not> ci_skip_hostname_check (lws_connect_info (cwmp_client_prepare_session example_client_env
     (idle_client\<lparr>acs_server_scheme := Some ''https''\<rparr>)))"
proof -
  have "atoi ''1'' = 1" by code_simp
  then show ?thesis
    using tls_checks_configured [of "idle_client\<lparr>acs_server_scheme := Some ''https''\<rparr>" example_client_env]
    by (auto simp: Let_def example_client_env_def)
qed

subsection \<open>Receiving an answer\<close>

definition receive_all :: "client_env \<Rightarrow> string list \<Rightarrow> acs_client \<Rightarrow> acs_client" where
  "receive_all env chunks st = fold (\<lambda>c st. snd (cwmp_client_receive_http_cb env c st)) chunks st"

lemma receive_all_append:
  assumes "cv_alloc env" "rcv_buf_len st = length (case_option [] id (rcv_buf st))"
  shows "receive_all env chunks st = (if chunks = [] then st else
    st\<lparr>rcv_buf := Some (case_option [] id (rcv_buf st) @ concat chunks),
       rcv_buf_len := rcv_buf_len st + length (concat chunks)\<rparr>)"
  using assms(2)
proof (induction chunks arbitrary: st)
  case Nil
  then show ?case by (simp add: receive_all_def)
next
  case (Cons c chunks)
  let ?st = "snd (cwmp_client_receive_http_cb env c st)"
  have "?st = st\<lparr>rcv_buf := Some (case_option [] id (rcv_buf st) @ c), rcv_buf_len := rcv_buf_len st + length c\<rparr>"
    using assms(1) Cons.prems by (cases "rcv_buf st") (simp_all add: cwmp_client_receive_http_cb_def)
  with Cons.IH [of ?st] Cons.prems show ?case by (simp add: receive_all_def)
qed

text \<open>Reassembly: the chunks of an answer that arrive on a new connection are delivered to the
  SOAP parser as one message, their concatenation, after the translation of aliases.\<close>

theorem answer_reassembled:
  assumes "cv_alloc env" "chunks \<noteq> []" "http_status st = 200" "\<not> cl_fault st"
    and "strstr (concat chunks) (cv_env_tag env) \<noteq> None" "cv_soap_ok env (cv_translate_in env (concat chunks))"
    and "st' = snd (cwmp_client_http_complete_cb env (receive_all env chunks (snd (cwmp_client_new_wsi_cb st))))"
  shows "cl_log st' = cl_log st @ [Parse_soap (cv_translate_in env (concat chunks))] \<and> \<not> cl_fault st'"
proof -
  let ?st = "snd (cwmp_client_new_wsi_cb st)"
  have "receive_all env chunks ?st = ?st\<lparr>rcv_buf := Some (concat chunks), rcv_buf_len := length (concat chunks)\<rparr>"
    using receive_all_append [OF assms(1), of ?st chunks] assms(2) by (simp add: cwmp_client_new_wsi_cb_def)
  with assms show ?thesis
    by (simp add: cwmp_client_http_complete_cb_def cwmp_client_new_wsi_cb_def Let_def)
qed

theorem answer_reassembled_witness:
  "cl_log (snd (cwmp_client_http_complete_cb example_client_env (receive_all example_client_env
     [''<Enve'', ''lope>''] (snd (cwmp_client_new_wsi_cb (idle_client\<lparr>http_status := 200\<rparr>)))))) =
     [Parse_soap ''<Envelope>'']"
  using answer_reassembled [of example_client_env "[''<Enve'', ''lope>'']" "idle_client\<lparr>http_status := 200\<rparr>", OF _ _ _ _ _ _ refl]
  by (simp add: example_client_env_def idle_client_def prefix_def)

text \<open>A 200 answer with an empty body crashes the client: no chunk arrives, the receive buffer is
  null, and it is searched for the SOAP envelope.\<close>

theorem empty_answer_faults:
  assumes "cv_response env = 200" "cv_set_cookie env = []" "rcv_buf st = None"
  shows "cl_fault (snd (cwmp_client_http_complete_cb env (snd (cwmp_client_connection_established_cb env st))))"
  using assms
  by (simp add: cwmp_client_http_complete_cb_def cwmp_client_connection_established_cb_def
      cwmp_client_handle_cookies_def Let_def)

theorem empty_answer_faults_witness:
  "cl_fault (snd (cwmp_client_http_complete_cb (example_client_env\<lparr>cv_response := 200\<rparr>)
     (snd (cwmp_client_connection_established_cb (example_client_env\<lparr>cv_response := 200\<rparr>) idle_client))))"
  using empty_answer_faults [of "example_client_env\<lparr>cv_response := 200\<rparr>" idle_client]
  by (simp add: example_client_env_def idle_client_def)

subsection \<open>The address of the ACS\<close>

text \<open>When the ACS is given by name, the address chosen for a session is in the published list:
  it is one of its entries, or the address of the last session if that occurs in the text of the list.\<close>

theorem acsip_from_list:
  assumes "cwmp_client_get_acsip env st = (cwmp_status_ok, st')" "\<not> is_ip env (acs_server_host st)"
  shows "\<exists>ip l. acs_server_ip st' = Some ip \<and> cv_value env DM_ENG_ACSIPLIST = Some (Some l) \<and>
    (ip \<in> set (cv_csv env l) \<or> sublist ip l)"
proof -
  have random: "\<exists>l. cv_value env DM_ENG_ACSIPLIST = Some (Some l) \<and> ip \<in> set (cv_csv env l)"
    if "cwmp_get_random_ip env = Some ip" for ip
    using that by (auto simp: cwmp_get_random_ip_def Let_def intro!: nth_mem split: option.splits if_splits)
  define last where "last = (case cv_value env DM_ENG_ACSIP of None \<Rightarrow> acs_server_ip st | Some v \<Rightarrow> v)"
  have kept: "sublist (the last) l" if "strstr l (the last) \<noteq> None" for l
    using that strstr_Some_iff [of l "the last"] by auto
  show ?thesis
    using assms random kept
    by (auto simp: cwmp_client_get_acsip_def last_def [symmetric] Let_def not_None_eq str_empty_def
        split: if_splits option.splits)
qed

theorem acsip_from_list_witness:
  "\<exists>ip l. acs_server_ip (snd (cwmp_client_get_acsip example_client_env (idle_client\<lparr>acs_server_host := Some ''acs''\<rparr>))) = Some ip \<and>
     cv_value example_client_env DM_ENG_ACSIPLIST = Some (Some l) \<and>
     (ip \<in> set (cv_csv example_client_env l) \<or> sublist ip l)"
proof (rule acsip_from_list)
  have "fst (cwmp_client_get_acsip example_client_env (idle_client\<lparr>acs_server_host := Some ''acs''\<rparr>)) = cwmp_status_ok"
    by code_simp
  then show "cwmp_client_get_acsip example_client_env (idle_client\<lparr>acs_server_host := Some ''acs''\<rparr>) =
      (cwmp_status_ok, snd (cwmp_client_get_acsip example_client_env (idle_client\<lparr>acs_server_host := Some ''acs''\<rparr>)))"
    by (intro prod_eqI) simp_all
  show "\<not> is_ip example_client_env (acs_server_host (idle_client\<lparr>acs_server_host := Some ''acs''\<rparr>))"
    by (simp add: is_ip_def example_client_env_def)
qed

text \<open>The check that the last address is still in the DNS pool accepts addresses that are not:
  with the pool \<open>10.0.0.12\<close>, the last address \<open>10.0.0.1\<close> is kept although no entry equals it.\<close>

theorem acsip_outside_pool_kept:
  "\<exists>env st l ip. cv_value env DM_ENG_ACSIPLIST = Some (Some l) \<and> cv_csv env l = split_fields (CHR '','') l \<and>
     fst (cwmp_client_get_acsip env st) = cwmp_status_ok \<and>
     acs_server_ip (snd (cwmp_client_get_acsip env st)) = Some ip \<and> ip \<notin> set (cv_csv env l)"
proof (intro exI conjI)
  let ?env = example_client_env and ?st = "idle_client\<lparr>acs_server_host := Some ''acs''\<rparr>"
  show "cv_value ?env DM_ENG_ACSIPLIST = Some (Some ''10.0.0.12'')"
    "cv_csv ?env ''10.0.0.12'' = split_fields (CHR '','') ''10.0.0.12''"
    by (simp_all add: example_client_env_def)
  show "fst (cwmp_client_get_acsip ?env ?st) = cwmp_status_ok"
    "acs_server_ip (snd (cwmp_client_get_acsip ?env ?st)) = Some ''10.0.0.1''"
    "''10.0.0.1'' \<notin> set (cv_csv ?env ''10.0.0.12'')" by code_simp+
qed

subsection \<open>Cookies over a session\<close>

datatype client_event =
    Cl_callback client_env client_reason string
  | Cl_send client_env soap_arg
  | Cl_start client_env
  | Cl_close bool
  | Cl_retry client_env
  | Cl_timeout
  | Cl_clear_ip
  | Cl_stop

fun client_step :: "acs_client \<Rightarrow> client_event \<Rightarrow> acs_client" where
  "client_step st (Cl_callback env reason data) = snd (cwmp_client_http_callback env reason data st)"
| "client_step st (Cl_send env m) = snd (DM_SendHttpMessage env m st)"
| "client_step st (Cl_start env) = snd (client_startSession env st)"
| "client_step st (Cl_close m) = snd (DM_CloseHttpSession m st)"
| "client_step st (Cl_retry env) = cwmp_client_auth_retry env st"
| "client_step st Cl_timeout = cwmp_client_sessionTimedOut st"
| "client_step st Cl_clear_ip = cwmp_client_clear_ACSIP st"
| "client_step st Cl_stop = snd (cwmp_client_stop st)"

definition cookies_ok :: "acs_client \<Rightarrow> bool" where
  "cookies_ok st = (case cookies st of None \<Rightarrow> True | Some j \<Rightarrow> jar_inv j)"

lemma cookies_ok_cong: "cookies st' = cookies st \<Longrightarrow> cookies_ok st \<Longrightarrow> cookies_ok st'"
  by (simp add: cookies_ok_def)

lemma handle_cookies_ok:
  assumes "cookies_ok st" "cwmp_client_handle_cookies env st = (r, st')"
  shows "cookies_ok st'"
proof -
  let ?jar = "case cookies st of None \<Rightarrow> snd (cwmpd_cookie_cookiejar_init (cv_alloc env)) | Some j \<Rightarrow> Some j"
  have j: "\<exists>j. ?jar = Some j \<and> jar_inv j" if "cv_alloc env"
    using assms(1) that by (auto simp: cookies_ok_def cwmpd_cookie_cookiejar_init_def jar_inv_def split: option.splits)
  have "jar_inv j'" if "cv_alloc env" "cwmpd_cookie_cookiejar_build ?jar h = Some (rc, Some j')" for h rc j'
    using j [OF that(1)] that(2) build_keeps_inv by fastforce
  with assms show ?thesis
    by (auto simp: cwmp_client_handle_cookies_def cookies_ok_def Let_def split: if_splits option.splits)
qed

lemma get_auth_cookies: "cookies (cwmp_client_get_authentication_hdr env st) = cookies st"
  using gen_auth_frame [OF prod.collapse [symmetric]]
  by (simp add: cwmp_client_get_authentication_hdr_def Let_def)

lemma established_cookies_ok:
  "cookies_ok st \<Longrightarrow> cookies_ok (snd (cwmp_client_connection_established_cb env st))"
  using handle_cookies_ok [OF _ prod.collapse [symmetric]]
  by (auto simp: cwmp_client_connection_established_cb_def Let_def get_auth_cookies cookies_ok_def)

lemma write_headers_cookies: "cookies (snd (write_headers env hs st)) = cookies st"
  by (induction env hs st rule: write_headers.induct) auto

lemma callback_cookies_ok:
  assumes "cookies_ok st"
  shows "cookies_ok (snd (cwmp_client_http_callback env reason data st))"
proof -
  have "cookies_ok (snd (cwmp_client_handshake_cb env st))"
    using assms write_headers_cookies
    by (auto simp: cwmp_client_handshake_cb_def cookies_ok_def case_prod_unfold split: option.splits bool.splits)
  then show ?thesis
    using assms established_cookies_ok [OF assms, of env]
    by (cases reason) (auto simp: cwmp_client_http_callback_def case_prod_unfold cookies_ok_def
        cwmp_client_connection_error_cb_def cwmp_client_new_wsi_cb_def cwmp_client_receive_http_cb_def
        cwmp_client_http_complete_cb_def cwmp_client_http_writable_cb_def cwmp_client_connection_closed_cb_def
        Let_def split: option.splits)
qed

lemma start_cookies: "cookies (snd (client_startSession env st)) = cookies st"
proof -
  obtain r1 st1 where 1: "cwmp_client_parse_url env st = (r1, st1)" by fastforce
  obtain r2 st2 where 2: "cwmp_client_get_acsip env st1 = (r2, st2)" by fastforce
  show ?thesis
    using 1 2 parse_url_frame [OF 1] get_acsip_frame [OF 2] prepare_frame(1) [of env st2]
    by (auto simp: client_startSession_def Let_def split: option.splits cwmp_status.splits)
qed

lemma send_cookies: "cookies (snd (DM_SendHttpMessage env m st)) = cookies st"
  by (cases m) (auto simp: DM_SendHttpMessage_def Let_def split: option.splits)

interpretation client_system: event_system client_step "\<lambda>st e. True" cookies_ok
proof
  fix st e
  assume ok: "cookies_ok st"
  then show "cookies_ok (client_step st e)"
    using callback_cookies_ok [OF ok] start_cookies send_cookies
    by (cases e) (auto simp: cookies_ok_def DM_CloseHttpSession_def cwmpd_cookie_cookiejar_clean_def
        cwmp_client_auth_retry_def cwmp_client_sessionTimedOut_def cwmp_client_clear_ACSIP_def cwmp_client_stop_def)
qed

text \<open>The Cookie header is faithful: whatever callbacks, messages, sessions and Set-Cookie headers
  came before, the cookie header the client sends parses back to exactly the cookies it holds, whose names are
  distinct.\<close>

theorem cookie_header_faithful:
  assumes "st = foldl client_step idle_client es" "H_cookie s \<in> set (handshake_headers st msg)"
  shows "\<exists>j. cookies st = Some j \<and> distinct (map ck_name j) \<and>
    cwmpd_cookie_cookiejar_build (Some []) (Some s) = Some (0, Some j)"
proof -
  have "enabled_run (\<lambda>st e. True) client_step s es" for s by (induction es arbitrary: s) simp_all
  then have "cookies_ok st"
    unfolding assms(1) by (intro client_system.run_inv) (simp_all add: cookies_ok_def idle_client_def)
  moreover from assms(2) have s: "cwmpd_cookie_cookiejar_to_string (cookies st) = Some s"
    by (auto simp: handshake_headers_def split: option.splits if_splits)
  then obtain j where "cookies st = Some j" "j \<noteq> []"
    by (auto simp: cwmpd_cookie_cookiejar_to_string_def split: option.splits if_splits)
  ultimately show ?thesis using to_string_parses [of j] s by (auto simp: cookies_ok_def jar_inv_def)
qed

definition cookie_env :: client_env where
  "cookie_env = example_client_env\<lparr>cv_response := 200, cv_set_cookie := ''JSESSIONID=42; Path=/''\<rparr>"

theorem cookie_header_faithful_witness:
  "cwmpd_cookie_cookiejar_build (Some []) (Some ''JSESSIONID=42'') =
     Some (0, cookies (foldl client_step idle_client
       [Cl_callback cookie_env LWS_CALLBACK_ESTABLISHED_CLIENT_HTTP []]))"
proof -
  let ?st = "foldl client_step idle_client [Cl_callback cookie_env LWS_CALLBACK_ESTABLISHED_CLIENT_HTTP []]"
  have t: "strtok_all (CHR '';'') ''JSESSIONID=42; Path=/'' = [''JSESSIONID=42'', '' Path=/'']"
    "cookie_of_token ''JSESSIONID=42'' = Some (''JSESSIONID'', ''42'')" "cookie_of_token '' Path=/'' = None"
    by code_simp+
  have "cookies ?st = Some [\<lparr>ck_name = ''JSESSIONID'', ck_value = ''42''\<rparr>]"
    by (simp add: cookie_env_def example_client_env_def idle_client_def cwmp_client_http_callback_def
        cwmp_client_connection_established_cb_def cwmp_client_handle_cookies_def Let_def
        cwmpd_cookie_cookiejar_init_def cwmpd_cookie_cookiejar_build_def build_loop_spec t
        List.map_filter_def store_cookie_def)
  then have "H_cookie ''JSESSIONID=42'' \<in> set (handshake_headers ?st [])"
    by (simp add: handshake_headers_def cwmpd_cookie_cookiejar_to_string_def append_cookie_def)
  from cookie_header_faithful [OF refl this] show ?thesis by auto
qed

end
