(* ===== verification/Daemon.thy ===== *)
theory Daemon
  imports Timers Conn_Requests Dns_Resolver Acs_Client
begin

section \<open>The daemon (cwmpd\_main.c, cwmpd\_evlp.c)\<close>

text \<open>
  The process that holds the HTTP server, the ACS client, the resolver, the named timers and the
  event loop: reading its configuration, starting the services, dispatching events, the events of
  the engine and the clean-up. What the operating system and the libraries answer is in \<open>main_env\<close>.
  The pointers of cwmpd\_evlp.c are booleans (non-null); \<open>loopbreak\<close> is libevent's request to leave
  the running loop, which the start of a loop clears.
\<close>

subsection \<open>Data\<close>

datatype server_state = INIT | RUN | EXIT | ERROR

datatype trace_type = TRACE_TYPE_SYSLOG | TRACE_TYPE_STDOUT

record application =
  app_name :: cstr
  odl_config :: cstr
  daemonize :: bool
  traceLevel :: int
  traceType :: trace_type
  app_state :: server_state
  app_prefix :: cstr
  trustedCA :: cstr
  ssl_client_priv_key :: cstr
  app_client_cert :: cstr
  ssl_certificate :: cstr
  pidFile :: cstr
  persistent_rpc_path :: cstr
  backend :: cstr
  app_uri :: cstr
  da_path :: cstr
  aclfile :: cstr

record evlp =
  main_loop :: bool
  sig_alarm :: bool
  amxp_sig :: bool
  acs_bus_ev :: bool
  sys_bus_ev :: bool
  loopbreak :: bool
  ev_fault :: bool

datatype evlp_event = Ev_sig_alarm | Ev_amxp_sig | Ev_acs_bus | Ev_sys_bus

record 'h daemon =
  app :: application
  server :: cr_server
  client :: acs_client
  dns_module :: dns
  app_timers :: "'h timers"
  event_loop :: evlp

text \<open>The parsed ODL configuration: its keys, those under \<open>tr069-service\<close> and the trace level.\<close>

record odl =
  odl_key :: "string \<Rightarrow> cstr"
  odl_service :: "string \<Rightarrow> cstr"
  odl_trace_level :: int

datatype cli_option = Opt_f | Opt_h | Opt_c string | Opt_D | Opt_other

record main_env =
  me_pid_file :: cstr
  me_amxrt_prefix :: cstr
  me_options :: "cli_option list"
  me_parse :: "cstr \<Rightarrow> odl \<Rightarrow> odl option"
  me_odl :: odl
  me_daemon :: bool
  me_load :: bool
  me_dmconnect :: bool
  me_event_base :: bool
  me_event :: "evlp_event \<Rightarrow> bool"
  me_server :: cr_env
  me_dns :: dns_env
  me_client :: client_env
  me_com_init :: bool
  me_early_signals :: "int list"
  me_dispatch :: bool

datatype main_stop = Usage_exit | Null_deref

definition SIGINT :: int where "SIGINT = 2"
definition SIGTERM :: int where "SIGTERM = 15"

subsection \<open>The event loop (cwmpd\_evlp.c)\<close>

definition cwmp_evlp_create :: "main_env \<Rightarrow> evlp \<Rightarrow> cwmp_status \<times> evlp" where
  "cwmp_evlp_create env ev =
     (if \<not> me_event_base env then (cwmp_status_ko, ev\<lparr>main_loop := False\<rparr>)
      else (cwmp_status_ok,
        ev\<lparr>main_loop := True, sig_alarm := me_event env Ev_sig_alarm, amxp_sig := me_event env Ev_amxp_sig,
           acs_bus_ev := me_event env Ev_acs_bus, sys_bus_ev := me_event env Ev_sys_bus, loopbreak := False,
           ev_fault := (ev_fault ev \<or> (\<exists>e\<in>{Ev_sig_alarm, Ev_amxp_sig, Ev_acs_bus, Ev_sys_bus}. \<not> me_event env e))\<rparr>))"

definition cwmp_evlp_stop :: "evlp \<Rightarrow> cwmp_status \<times> evlp" where
  "cwmp_evlp_stop ev =
     (if main_loop ev then (cwmp_status_ok, ev\<lparr>loopbreak := True\<rparr>) else (cwmp_status_ko, ev))"

definition cwmp_evlp_clean :: "evlp \<Rightarrow> cwmp_status \<times> evlp" where
  "cwmp_evlp_clean ev =
     (cwmp_status_ok, ev\<lparr>amxp_sig := False, acs_bus_ev := False, sys_bus_ev := False, sig_alarm := False,
        main_loop := False\<rparr>)"

subsection \<open>Signals and engine events\<close>

definition cwmp_app_handleSignal :: "int \<Rightarrow> 'h daemon \<Rightarrow> 'h daemon" where
  "cwmp_app_handleSignal sig d =
     (if sig = SIGINT \<or> sig = SIGTERM
      then d\<lparr>app := (app d)\<lparr>app_state := EXIT\<rparr>, event_loop := snd (cwmp_evlp_stop (event_loop d))\<rparr>
      else d)"

definition EVENT_ENG_SRV_RESTART :: string where "EVENT_ENG_SRV_RESTART = ''HTTP_SERVER_RESTART''"
definition EVENT_ENG_SRV_STOP :: string where "EVENT_ENG_SRV_STOP = ''HTTP_SERVER_STOP''"
definition EVENT_ENG_SRV_START :: string where "EVENT_ENG_SRV_START = ''HTTP_SERVER_START''"
definition EVENT_ENG_URL_CHANGED :: string where "EVENT_ENG_URL_CHANGED = ''ACS_URL_CHANGED''"

lemmas event_names = EVENT_ENG_SRV_RESTART_def EVENT_ENG_SRV_STOP_def EVENT_ENG_SRV_START_def
  EVENT_ENG_URL_CHANGED_def

definition die_on_failure :: "cwmp_status \<times> cr_server \<Rightarrow> 'h daemon \<Rightarrow> 'h daemon" where
  "die_on_failure r d =
     (let d1 = d\<lparr>server := snd r\<rparr> in
      if fst r \<noteq> cwmp_status_ok then cwmp_app_handleSignal SIGTERM d1 else d1)"

definition cwmp_app_engineEventHandler :: "cr_env \<Rightarrow> dns_env \<Rightarrow> string \<Rightarrow> 'h daemon \<Rightarrow> 'h daemon" where
  "cwmp_app_engineEventHandler cenv denv eventType d =
     (if eventType = EVENT_ENG_SRV_RESTART then
        die_on_failure (cwmp_app_http_server_restart cenv (server d)) d
      else if eventType = EVENT_ENG_SRV_STOP then d\<lparr>server := snd (cwmp_server_stop (server d))\<rparr>
      else if eventType = EVENT_ENG_SRV_START then
        die_on_failure (cwmp_server_start cenv (server d)) d
      else if eventType = EVENT_ENG_URL_CHANGED then
        d\<lparr>client := cwmp_client_clear_ACSIP (client d),
          dns_module := snd (cwmp_dns_resolve denv True (dns_module d))\<rparr>
      else d)"

subsection \<open>The loop\<close>

datatype 'h daemon_event =
    D_engine cr_env dns_env string
  | D_request cr_env lws_reason request
  | D_client dns_env client_event
  | D_dns dns_event
  | D_timer "'h timer_event"
  | D_signal int

text \<open>The client asks for a lookup (\<open>cwmp_dns_resolve(false, \<dots>)\<close> in \<open>client_startSession\<close>) when it has
  no address.\<close>

definition asks_lookup :: "acs_client \<Rightarrow> acs_client \<Rightarrow> bool" where
  "asks_lookup c c' \<longleftrightarrow> Dns_resolve \<in> set (drop (length (cl_log c)) (cl_log c'))"

fun daemon_step :: "'h daemon \<Rightarrow> 'h daemon_event \<Rightarrow> 'h daemon" where
  "daemon_step d (D_engine cenv denv s) = cwmp_app_engineEventHandler cenv denv s d"
| "daemon_step d (D_request cenv reason rq) =
     d\<lparr>server := snd (cwmp_server_http_callback cenv reason rq (server d))\<rparr>"
| "daemon_step d (D_client denv e) =
     (let c = client_step (client d) e; d1 = d\<lparr>client := c\<rparr> in
      if asks_lookup (client d) c
      then d1\<lparr>dns_module := snd (cwmp_dns_resolve denv False (dns_module d))\<rparr> else d1)"
| "daemon_step d (D_dns e) = d\<lparr>dns_module := dns_step (dns_module d) e\<rparr>"
| "daemon_step d (D_timer e) = d\<lparr>app_timers := timer_step (app_timers d) e\<rparr>"
| "daemon_step d (D_signal sig) = cwmp_app_handleSignal sig d"

fun event_base_loop :: "'h daemon_event list \<Rightarrow> 'h daemon \<Rightarrow> 'h daemon" where
  "event_base_loop [] d = d"
| "event_base_loop (e # es) d =
     (if loopbreak (event_loop d) then d else event_base_loop es (daemon_step d e))"

definition cwmp_evlp_start ::
  "main_env \<Rightarrow> 'h daemon_event list \<Rightarrow> 'h daemon \<Rightarrow> cwmp_status \<times> 'h daemon" where
  "cwmp_evlp_start env es d =
     (if main_loop (event_loop d)
      then ((if me_dispatch env then cwmp_status_ok else cwmp_status_ko),
            event_base_loop es (d\<lparr>event_loop := (event_loop d)\<lparr>loopbreak := False\<rparr>\<rparr>))
      else (cwmp_status_ko, d))"

subsection \<open>Configuration\<close>

definition cwmp_app_configureDefaults :: "main_env \<Rightarrow> application \<Rightarrow> application" where
  "cwmp_app_configureDefaults env a =
     a\<lparr>app_name := Some ''cwmpd'', daemonize := True,
       pidFile := (case me_pid_file env of None \<Rightarrow> Some ''/var/run/cwmpd.pid'' | f \<Rightarrow> f),
       traceLevel := 200, traceType := TRACE_TYPE_SYSLOG, persistent_rpc_path := Some ''/tmp/'',
       trustedCA := Some ''/etc/ca.pem'', ssl_client_priv_key := None, app_client_cert := None\<rparr>"

text \<open>The options that \<open>getopt_long\<close> recognised, in order; \<open>-h\<close> ends the process.\<close>

fun cwmp_app_configureOptions :: "cli_option list \<Rightarrow> application \<Rightarrow> main_stop + application" where
  "cwmp_app_configureOptions [] a = Inr a"
| "cwmp_app_configureOptions (Opt_f # os) a =
     cwmp_app_configureOptions os (a\<lparr>traceType := TRACE_TYPE_STDOUT, daemonize := False\<rparr>)"
| "cwmp_app_configureOptions (Opt_h # os) a = Inl Usage_exit"
| "cwmp_app_configureOptions (Opt_c f # os) a = cwmp_app_configureOptions os (a\<lparr>odl_config := Some f\<rparr>)"
| "cwmp_app_configureOptions (Opt_D # os) a =
     cwmp_app_configureOptions os (a\<lparr>traceType := TRACE_TYPE_SYSLOG, daemonize := False\<rparr>)"
| "cwmp_app_configureOptions (Opt_other # os) a = cwmp_app_configureOptions os a"

text \<open>A file name of the configuration under the prefix of the environment; a missing one is passed
  to \<open>strdup\<close> or to a \<open>%s\<close>.\<close>

definition with_amxrt_prefix :: "main_env \<Rightarrow> cstr \<Rightarrow> cstr" where
  "with_amxrt_prefix env f =
     (case f of
        None \<Rightarrow> None
      | Some s \<Rightarrow> (if str_empty (me_amxrt_prefix env) then Some s else Some (the (me_amxrt_prefix env) @ s)))"

definition cwmp_app_parse_config ::
  "main_env \<Rightarrow> odl \<Rightarrow> application \<Rightarrow> main_stop + cwmp_status \<times> application" where
  "cwmp_app_parse_config env config a =
     (case with_amxrt_prefix env (odl_service config ''cwmpd_adapter_path'') of
        None \<Rightarrow> Inl Null_deref
      | Some da \<Rightarrow>
          (case with_amxrt_prefix env (odl_key config ''prefix_file'') of
             None \<Rightarrow> Inl Null_deref
           | Some prefix_file \<Rightarrow>
               (let a1 = a\<lparr>da_path := Some da,
                    persistent_rpc_path := odl_service config ''cwmpd_persistent_rpc_path'',
                    trustedCA := odl_service config ''cwmpd_certs_file'',
                    ssl_certificate := odl_service config ''cwmpd_certificate'',
                    app_client_cert := odl_service config ''cwmpd_client_certs'',
                    ssl_client_priv_key := odl_service config ''cwmpd_client_privatekey'',
                    pidFile := odl_service config ''cwmpd_pid_file'',
                    aclfile := odl_service config ''cwmpd_acl_file''\<rparr>
                in case me_parse env (Some prefix_file) config of
                     None \<Rightarrow> Inr (cwmp_status_ko, a1)
                   | Some config' \<Rightarrow> Inr (cwmp_status_ok,
                       a1\<lparr>app_prefix := odl_key config' ''vendor_prefix'',
                          backend := odl_key config' ''cwmpd_backend'',
                          app_uri := odl_key config' ''cwmpd_uri''\<rparr>))))"

definition cwmp_app_settings :: "main_env \<Rightarrow> application \<Rightarrow> main_stop + cwmp_status \<times> application" where
  "cwmp_app_settings env a =
     (case cwmp_app_configureOptions (me_options env) (cwmp_app_configureDefaults env a) of
        Inl s \<Rightarrow> Inl s
      | Inr a1 \<Rightarrow>
          (case me_parse env (odl_config a1) (me_odl env) of
             None \<Rightarrow> Inr (cwmp_status_ko, a1)
           | Some config \<Rightarrow>
               (case cwmp_app_parse_config env config (a1\<lparr>traceLevel := odl_trace_level config\<rparr>) of
                  Inl s \<Rightarrow> Inl s
                | Inr (cwmp_status_ko, a2) \<Rightarrow> Inr (cwmp_status_ko, a2)
                | Inr (cwmp_status_ok, a2) \<Rightarrow>
                    Inr ((if daemonize a2 \<and> \<not> me_daemon env then cwmp_status_ko else cwmp_status_ok), a2))))"

subsection \<open>Start and end\<close>

definition cwmp_app_init_dmengine :: "main_env \<Rightarrow> 'h daemon \<Rightarrow> cwmp_status \<times> 'h daemon" where
  "cwmp_app_init_dmengine env d =
     (if \<not> me_load env \<or> \<not> me_dmconnect env then (cwmp_status_ko, d)
      else (case cwmp_evlp_create env (event_loop d) of (rc, ev) \<Rightarrow> (rc, d\<lparr>event_loop := ev\<rparr>)))"

text \<open>The client reads the names of its certificate files with \<open>cwmp_app_getconf\<close>.\<close>

definition with_app_conf :: "application \<Rightarrow> client_env \<Rightarrow> client_env" where
  "with_app_conf a env =
     env\<lparr>cv_conf_certificate := ssl_certificate a, cv_conf_client_cert := app_client_cert a,
         cv_conf_client_key := ssl_client_priv_key a, cv_conf_trusted_ca := trustedCA a\<rparr>"

definition cwmp_app_init_services :: "main_env \<Rightarrow> 'h daemon \<Rightarrow> cwmp_status \<times> 'h daemon" where
  "cwmp_app_init_services env d =
     (case cwmp_server_start (me_server env) (server d) of
        (cwmp_status_ko, s) \<Rightarrow> (cwmp_status_ko, d\<lparr>server := s\<rparr>)
      | (cwmp_status_ok, s) \<Rightarrow>
          (case cwmp_dns_init (me_dns env) (dns_module d) of
             (cwmp_status_ko, n) \<Rightarrow> (cwmp_status_ko, d\<lparr>server := s, dns_module := n\<rparr>)
           | (cwmp_status_ok, n) \<Rightarrow>
               (case cwmp_dns_resolve (me_dns env) False n of
                  (cwmp_status_ko, n') \<Rightarrow> (cwmp_status_ko, d\<lparr>server := s, dns_module := n'\<rparr>)
                | (cwmp_status_ok, n') \<Rightarrow>
                    (case cwmp_client_init (with_app_conf (app d) (me_client env)) (client d) of
                       (rc, c) \<Rightarrow> (rc, d\<lparr>server := s, dns_module := n', client := c\<rparr>)))))"

text \<open>A failing \<open>DM_COM_INIT\<close> is reported, but the loop is entered all the same.\<close>

definition cwmp_app_enable_notifications ::
  "main_env \<Rightarrow> 'h daemon_event list \<Rightarrow> 'h daemon \<Rightarrow> cwmp_status \<times> 'h daemon" where
  "cwmp_app_enable_notifications env es d =
     (case cwmp_evlp_start env es d of
        (rc, d') \<Rightarrow> ((if me_com_init env \<and> rc = cwmp_status_ok then cwmp_status_ok else cwmp_status_ko), d'))"

definition cwmp_app_clean :: "main_env \<Rightarrow> 'h daemon \<Rightarrow> cwmp_status \<times> 'h daemon" where
  "cwmp_app_clean env d =
     (case cwmp_client_stop (client d) of
        (r1, c) \<Rightarrow> (case cwmp_server_stop (server d) of
        (r2, s) \<Rightarrow> (case cwmp_dns_clean (me_dns env) (dns_module d) of
        (r3, n) \<Rightarrow> (case cwmp_evlp_clean (event_loop d) of
        (r4, ev) \<Rightarrow>
          ((if r1 \<noteq> cwmp_status_ok \<or> r2 \<noteq> cwmp_status_ok \<or> r3 \<noteq> cwmp_status_ok \<or> r4 \<noteq> cwmp_status_ok
            then cwmp_status_ko else cwmp_status_ok),
           d\<lparr>client := c, server := s, dns_module := n, event_loop := ev\<rparr>)))))"

text \<open>The end of \<open>main\<close>, from its label \<open>error\<close>.\<close>

definition main_end :: "main_env \<Rightarrow> 'h daemon \<Rightarrow> int \<times> 'h daemon" where
  "main_end env d =
     (case cwmp_app_clean env d of
        (rc, d1) \<Rightarrow>
          (let a = (if rc \<noteq> cwmp_status_ok then (app d1)\<lparr>app_state := ERROR\<rparr> else app d1)
           in ((if app_state a = ERROR then 1 else 0),
               d1\<lparr>app := a\<lparr>da_path := None\<rparr>, app_timers := cwmp_timer_remove_all (app_timers d1)\<rparr>)))"

text \<open>\<open>main\<close> with the events its loop is given; the signals that arrive while the services start are
  handled before the loop.\<close>

definition cwmpd_main ::
  "main_env \<Rightarrow> 'h daemon_event list \<Rightarrow> 'h daemon \<Rightarrow> main_stop + int \<times> 'h daemon" where
  "cwmpd_main env es d =
     (case cwmp_app_settings env (app d) of
        Inl s \<Rightarrow> Inl s
      | Inr (cwmp_status_ko, a) \<Rightarrow> Inr (1, d\<lparr>app := a\<rparr>)
      | Inr (cwmp_status_ok, a) \<Rightarrow>
          (case cwmp_app_init_dmengine env (d\<lparr>app := a\<rparr>) of
             (cwmp_status_ko, d1) \<Rightarrow> Inr (1, d1)
           | (cwmp_status_ok, d1) \<Rightarrow>
               (case cwmp_app_init_services env d1 of
                  (cwmp_status_ko, d2) \<Rightarrow> Inr (main_end env d2)
                | (cwmp_status_ok, d2) \<Rightarrow>
                    Inr (main_end env (snd (cwmp_app_enable_notifications env es
                      (fold cwmp_app_handleSignal (me_early_signals env) d2)))))))"

subsection \<open>What the daemon owns\<close>

fun daemon_ok :: "'h daemon \<Rightarrow> 'h daemon_event \<Rightarrow> bool" where
  "daemon_ok d (D_engine cenv denv s) \<longleftrightarrow> (s = EVENT_ENG_SRV_START \<longrightarrow> not_started (server d))"
| "daemon_ok d (D_timer e) \<longleftrightarrow> timer_ok (app_timers d) e"
| "daemon_ok d _ \<longleftrightarrow> True"

definition daemon_inv :: "'h daemon \<Rightarrow> bool" where
  "daemon_inv d \<longleftrightarrow> owned (server d) \<and> timers_inv (app_timers d)"

lemma handleSignal_frame [simp]:
  "server (cwmp_app_handleSignal sig d) = server d"
  "client (cwmp_app_handleSignal sig d) = client d"
  "dns_module (cwmp_app_handleSignal sig d) = dns_module d"
  "app_timers (cwmp_app_handleSignal sig d) = app_timers d"
  by (simp_all add: cwmp_app_handleSignal_def)

lemma die_frame [simp]:
  "server (die_on_failure r d) = snd r" "app_timers (die_on_failure r d) = app_timers d"
  by (simp_all add: die_on_failure_def Let_def)

lemma engine_event_inv [inv_intros]:
  assumes "daemon_inv d" "daemon_ok d (D_engine cenv denv s)"
  shows "daemon_inv (cwmp_app_engineEventHandler cenv denv s d)"
  using assms
  by (auto simp: cwmp_app_engineEventHandler_def daemon_inv_def cwmp_app_http_server_restart_def
      owned_stop intro!: owned_start)

lemma callback_owned [inv_intros]:
  "owned st \<Longrightarrow> owned (snd (cwmp_server_http_callback env reason rq st))"
  using cr_system.step_inv [of st "Cr_callback env reason rq"] by simp

interpretation daemon_system: event_system daemon_step daemon_ok daemon_inv
proof
  fix d :: "'a daemon" and e
  assume d: "daemon_inv d" "daemon_ok d e"
  then show "daemon_inv (daemon_step d e)"
  proof (cases e)
    case (D_engine cenv denv s)
    with d show ?thesis by (simp add: engine_event_inv)
  qed (auto simp: daemon_inv_def Let_def intro!: inv_intros timer_system.step_inv)
qed

lemma loop_inv:
  "daemon_inv d \<Longrightarrow> enabled_run daemon_ok daemon_step d es \<Longrightarrow> daemon_inv (event_base_loop es d)"
proof (induction es arbitrary: d)
  case (Cons e es)
  then show ?case by (auto intro: daemon_system.step_inv)
qed simp

text \<open>The state in which the loop starts, when it does.\<close>

definition loop_entry :: "main_env \<Rightarrow> 'h daemon \<Rightarrow> 'h daemon option" where
  "loop_entry env d =
     (case cwmp_app_settings env (app d) of
        Inr (cwmp_status_ok, a) \<Rightarrow>
          (case cwmp_app_init_dmengine env (d\<lparr>app := a\<rparr>) of
             (cwmp_status_ok, d1) \<Rightarrow>
               (case cwmp_app_init_services env d1 of
                  (cwmp_status_ok, d2) \<Rightarrow>
                    (let d3 = fold cwmp_app_handleSignal (me_early_signals env) d2
                     in Some (d3\<lparr>event_loop := (event_loop d3)\<lparr>loopbreak := False\<rparr>\<rparr>))
                | _ \<Rightarrow> None)
           | _ \<Rightarrow> None)
      | _ \<Rightarrow> None)"

definition nothing_held :: "'h daemon \<Rightarrow> bool" where
  "nothing_held d \<longleftrightarrow>
     live_ctx (server d) = [] \<and> live_vhost (server d) = [] \<and>
     resolver_list (dns_module d) = [] \<and> dns_ttl_timer (dns_module d) = No_timer \<and>
     timer_list (app_timers d) = [] \<and> run_calls {} (amxp_calls (app_timers d)) = Some {} \<and>
     pending_msg (client d) = None \<and> auth_hdr (client d) = None \<and> cookies (client d) = None \<and>
     ssl_client_key (client d) = None \<and>
     \<not> main_loop (event_loop d) \<and> \<not> sig_alarm (event_loop d) \<and> \<not> amxp_sig (event_loop d) \<and>
     \<not> acs_bus_ev (event_loop d) \<and> \<not> sys_bus_ev (event_loop d)"

lemma dns_clean_frame:
  "resolver_list (snd (cwmp_dns_clean env st)) = []"
  "dns_ttl_timer (snd (cwmp_dns_clean env st)) = No_timer"
proof -
  have step: "resolver_list (resolver_clean env r s) = resolver_list s \<and>
      (dns_ttl_timer s = No_timer \<longrightarrow> dns_ttl_timer (resolver_clean env r s) = No_timer)" for r s
    by (auto simp: resolver_clean_def cwmp_dns_resolve_cb_def Let_def)
  have "resolver_list (fold (resolver_clean env) rs s) = resolver_list s \<and>
      (dns_ttl_timer s = No_timer \<longrightarrow> dns_ttl_timer (fold (resolver_clean env) rs s) = No_timer)" for rs s
    by (induction rs arbitrary: s) (simp_all add: step)
  then show "resolver_list (snd (cwmp_dns_clean env st)) = []"
    "dns_ttl_timer (snd (cwmp_dns_clean env st)) = No_timer"
    by (simp_all add: cwmp_dns_clean_def)
qed

lemma main_end_releases: "daemon_inv d \<Longrightarrow> nothing_held (snd (main_end env d))"
proof -
  assume d: "daemon_inv d"
  have "owned (snd (cwmp_server_stop (server d))) \<and> not_started (snd (cwmp_server_stop (server d)))"
    using d by (simp add: daemon_inv_def owned_stop)
  moreover have "timers_inv (cwmp_timer_remove_all (app_timers d))"
    using d timer_system.step_inv [of "app_timers d" Ev_remove_all] by (simp add: daemon_inv_def)
  ultimately show ?thesis
    by (simp add: main_end_def cwmp_app_clean_def nothing_held_def case_prod_unfold Let_def
        dns_clean_frame owned_def not_started_def timers_inv_def live_timers_def cwmp_timer_remove_all_def
        cwmp_client_stop_def DM_CloseHttpSession_def cwmpd_cookie_cookiejar_clean_def cwmp_evlp_clean_def)
qed

lemma fold_signals [simp]:
  "server (fold cwmp_app_handleSignal sigs d) = server d"
  "app_timers (fold cwmp_app_handleSignal sigs d) = app_timers d"
  by (induction sigs arbitrary: d) simp_all

lemma services_inv:
  assumes "daemon_inv d" "not_started (server d)" "cwmp_app_init_services env d = (rc, d')"
  shows "daemon_inv d'"
proof -
  have "owned (snd (cwmp_server_start (me_server env) (server d)))"
    using assms by (simp add: daemon_inv_def owned_start)
  with assms show ?thesis
    by (auto simp: cwmp_app_init_services_def daemon_inv_def split: prod.splits cwmp_status.splits)
qed

lemma dmengine_frame:
  "cwmp_app_init_dmengine env d = (rc, d') \<Longrightarrow> server d' = server d \<and> app_timers d' = app_timers d \<and>
     dns_module d' = dns_module d \<and> client d' = client d \<and>
     (rc = cwmp_status_ko \<longrightarrow> event_loop d' = event_loop d \<or> event_loop d' = (event_loop d)\<lparr>main_loop := False\<rparr>) \<and>
     (rc = cwmp_status_ok \<longrightarrow> main_loop (event_loop d'))"
  by (auto simp: cwmp_app_init_dmengine_def cwmp_evlp_create_def split: if_splits)

text \<open>The static variables at the start of the process.\<close>

definition boot_daemon :: "'h daemon" where
  "boot_daemon =
     \<lparr>app = \<lparr>app_name = None, odl_config = None, daemonize = False, traceLevel = 0,
        traceType = TRACE_TYPE_SYSLOG, app_state = INIT, app_prefix = None, trustedCA = None,
        ssl_client_priv_key = None, app_client_cert = None, ssl_certificate = None, pidFile = None,
        persistent_rpc_path = None, backend = None, app_uri = None, da_path = None, aclfile = None\<rparr>,
      server = stopped_server, client = idle_client, dns_module = dns_ready\<lparr>dns_ttl_timer := No_timer\<rparr>,
      app_timers = \<lparr>timer_list = [], amxp_calls = []\<rparr>,
      event_loop = \<lparr>main_loop = False, sig_alarm = False, amxp_sig = False, acs_bus_ev = False,
        sys_bus_ev = False, loopbreak = False, ev_fault = False\<rparr>\<rparr>"

lemma boot_inv:
  "daemon_inv (boot_daemon :: 'a daemon)" "not_started (server (boot_daemon :: 'a daemon))"
  "nothing_held (boot_daemon :: 'a daemon)"
  by (simp_all add: boot_daemon_def daemon_inv_def not_started_def nothing_held_def stopped_server_def
      owned_def timers_inv_def live_timers_def idle_client_def dns_ready_def)

lemma main_cases:
  assumes "cwmpd_main env es d = Inr (rc, d')"
  obtains (settings) a where "rc = 1" "d' = d\<lparr>app := a\<rparr>" "loop_entry env d = None"
  | (dmengine) a where "rc = 1" "cwmp_app_init_dmengine env (d\<lparr>app := a\<rparr>) = (cwmp_status_ko, d')"
      "loop_entry env d = None"
  | (services) a d1 d2 where "cwmp_app_init_dmengine env (d\<lparr>app := a\<rparr>) = (cwmp_status_ok, d1)"
      "cwmp_app_init_services env d1 = (cwmp_status_ko, d2)" "(rc, d') = main_end env d2" "loop_entry env d = None"
  | (loop) a d1 d2 l where "cwmp_app_init_dmengine env (d\<lparr>app := a\<rparr>) = (cwmp_status_ok, d1)"
      "cwmp_app_init_services env d1 = (cwmp_status_ok, d2)" "loop_entry env d = Some l"
      "l = (fold cwmp_app_handleSignal (me_early_signals env) d2)\<lparr>event_loop := event_loop l\<rparr>"
      "(rc, d') = main_end env (event_base_loop es l)"
proof (cases "cwmp_app_settings env (app d)")
  case (Inl s)
  with assms show ?thesis by (simp add: cwmpd_main_def)
next
  case (Inr p)
  obtain st a where p: "p = (st, a)" by fastforce
  obtain r1 d1 where e1: "cwmp_app_init_dmengine env (d\<lparr>app := a\<rparr>) = (r1, d1)" by fastforce
  obtain r2 d2 where e2: "cwmp_app_init_services env d1 = (r2, d2)" by fastforce
  note [simp] = cwmpd_main_def Inr p e1 e2 cwmp_app_enable_notifications_def case_prod_unfold loop_entry_def
  show ?thesis
  proof (cases "st = cwmp_status_ok \<and> r1 = cwmp_status_ok")
    case False
    with assms show ?thesis
      by (cases st; cases r1) (auto intro: settings dmengine [of a] simp: e1)
  next
    case ok: True
    show ?thesis
    proof (cases r2)
      case cwmp_status_ko
      with ok assms show ?thesis by (intro services [of a d1 d2]) simp_all
    next
      case cwmp_status_ok
      define d3 where "d3 = fold cwmp_app_handleSignal (me_early_signals env) d2"
      have "main_loop (event_loop (cwmp_app_handleSignal sig x)) = main_loop (event_loop x)" for sig and x :: "'a daemon"
        by (simp add: cwmp_app_handleSignal_def cwmp_evlp_stop_def)
      then have sig: "main_loop (event_loop (fold cwmp_app_handleSignal sigs x)) = main_loop (event_loop x)"
        for sigs and x :: "'a daemon"
        by (induction sigs arbitrary: x) simp_all
      have "event_loop d2 = event_loop d1"
        using e2 by (auto simp: cwmp_app_init_services_def split: prod.splits cwmp_status.splits)
      then have "main_loop (event_loop d3)" using dmengine_frame [OF e1] ok by (simp add: d3_def sig)
      with cwmp_status_ok ok assms show ?thesis
        by (intro loop [of a d1 d2 "d3\<lparr>event_loop := (event_loop d3)\<lparr>loopbreak := False\<rparr>\<rparr>"])
          (simp_all add: d3_def cwmp_evlp_start_def Let_def)
    qed
  qed
qed

lemma main_releases:
  fixes d :: "'h daemon"
  assumes "cwmpd_main env es boot_daemon = Inr (rc, d)"
    and "\<And>l. loop_entry env boot_daemon = Some l \<Longrightarrow> enabled_run daemon_ok daemon_step l es"
  shows "nothing_held d"
  using assms(1)
proof (cases rule: main_cases)
  case (settings a)
  then show ?thesis using boot_inv(3) [where 'a = 'h] by (simp add: nothing_held_def)
next
  case (dmengine a)
  then show ?thesis using dmengine_frame [OF dmengine(2)] boot_inv(3) [where 'a = 'h] by (auto simp: nothing_held_def)
next
  case (services a d1 d2)
  have "daemon_inv d1 \<and> not_started (server d1)"
    using dmengine_frame [OF services(1)] boot_inv [where 'a = 'h] by (simp add: daemon_inv_def)
  then have "daemon_inv d2" using services_inv [OF _ _ services(2)] by blast
  with services(3) show ?thesis using main_end_releases [of d2 env] by (metis snd_conv)
next
  case (loop a d1 d2 l)
  have "daemon_inv d1 \<and> not_started (server d1)"
    using dmengine_frame [OF loop(1)] boot_inv [where 'a = 'h] by (simp add: daemon_inv_def)
  then have "daemon_inv d2" using services_inv [OF _ _ loop(2)] by blast
  then have "daemon_inv l" by (subst loop(4)) (simp add: daemon_inv_def)
  from loop_inv [OF this assms(2) [OF loop(3)]] loop(5) show ?thesis
    using main_end_releases [of "event_base_loop es l" env] by (metis snd_conv)
qed

lemma main_end_code: "fst (main_end env d) = (if app_state (app d) = ERROR then 1 else 0)"
  by (simp add: main_end_def cwmp_app_clean_def cwmp_client_stop_def cwmp_server_stop_def
      cwmp_dns_clean_def cwmp_evlp_clean_def)

definition example_main_env :: main_env where
  "example_main_env =
     \<lparr>me_pid_file = None, me_amxrt_prefix = None, me_options = [Opt_D, Opt_c ''cwmpd.odl''],
      me_parse = (\<lambda>f config. Some config),
      me_odl = \<lparr>odl_key = (\<lambda>k. Some k), odl_service = (\<lambda>k. Some k), odl_trace_level = 200\<rparr>,
      me_daemon = True, me_load = True, me_dmconnect = True, me_event_base = True, me_event = (\<lambda>e. True),
      me_server = example_cr_env, me_dns = example_dns_env ''acs'' 1, me_client = example_client_env,
      me_com_init = True, me_early_signals = [SIGTERM], me_dispatch = True\<rparr>"

lemma entry_no_break: "loop_entry env d = Some l \<Longrightarrow> \<not> loopbreak (event_loop l)"
  by (auto simp: loop_entry_def Let_def split: sum.splits prod.splits cwmp_status.splits)

lemma main_from_entry:
  assumes "loop_entry env d = Some l"
  shows "cwmpd_main env es d = Inr (main_end env (event_base_loop es l))"
proof -
  obtain p where "cwmpd_main env es d = Inr p"
    using assms
    by (auto simp: loop_entry_def cwmpd_main_def Let_def split: sum.splits prod.splits cwmp_status.splits)
  then obtain rc d' where m: "cwmpd_main env es d = Inr (rc, d')" by (cases p) simp
  then show ?thesis by (cases rule: main_cases) (use assms m in simp_all)
qed

lemma timer_events_run:
  "\<not> loopbreak (event_loop d) \<Longrightarrow> event_base_loop (map D_timer ts) d = foldl daemon_step d (map D_timer ts)"
  by (induction ts arbitrary: d) simp_all

lemma early_exit_state:
  assumes "loop_entry env d = Some l" "SIGTERM \<in> set (me_early_signals env)"
  shows "app_state (app l) = EXIT"
proof -
  have keep: "app_state (app x) = EXIT \<Longrightarrow> app_state (app (fold cwmp_app_handleSignal sigs x)) = EXIT"
    for sigs and x :: "'a daemon"
    by (induction sigs arbitrary: x) (simp_all add: cwmp_app_handleSignal_def)
  have "SIGTERM \<in> set sigs \<Longrightarrow> app_state (app (fold cwmp_app_handleSignal sigs x)) = EXIT"
    for sigs and x :: "'a daemon"
    by (induction sigs arbitrary: x) (auto simp: cwmp_app_handleSignal_def intro: keep)
  with assms show ?thesis
    by (auto simp: loop_entry_def Let_def split: sum.splits prod.splits cwmp_status.splits)
qed


end
