(* ===== verification/Client_Tls.thy ===== *)
theory Client_Tls
  imports Acs_Client
begin

section \<open>TLS with a key in a PKCS\#11 token (cwmpd\_client.c, cwmpd\_get\_certificate\_uri.c)\<close>

text \<open>
  When the private key of the client is a PKCS\#11 address, OpenSSL is set up by hand. The functions of OpenSSL that
  can fail are fields of \<open>tls_env\<close>. \<open>tls\<close> counts the references as the documentation of OpenSSL does: an engine has
  structural references (from \<open>ENGINE_by_id\<close>, dropped by \<open>ENGINE_free\<close>) and functional ones (from \<open>ENGINE_init\<close>,
  dropped by \<open>ENGINE_finish\<close>, each with a structural one of its own); a key that a context uses has a reference
  from it. The names of certificate and key come from the table of certificates.
\<close>

subsection \<open>Model\<close>

record tls_env =
  te_engine :: bool
  te_init :: bool
  te_use_certificate :: "cstr \<Rightarrow> bool"
  te_load_ca :: "cstr \<Rightarrow> bool"
  te_load_key :: "cstr \<Rightarrow> bool"
  te_use_key :: bool
  te_check_key :: bool

record tls =
  engine_structural :: int
  engine_functional :: int
  pkey_refs :: int
  ctx_certificate :: cstr
  ctx_ca :: cstr
  ctx_key :: cstr
  ctx_live :: nat

definition ENGINE_by_id :: "tls \<Rightarrow> tls" where
  "ENGINE_by_id st = st\<lparr>engine_structural := engine_structural st + 1\<rparr>"

definition ENGINE_free :: "tls \<Rightarrow> tls" where
  "ENGINE_free st = st\<lparr>engine_structural := engine_structural st - 1\<rparr>"

definition ENGINE_init :: "tls \<Rightarrow> tls" where
  "ENGINE_init st = st\<lparr>engine_functional := engine_functional st + 1, engine_structural := engine_structural st + 1\<rparr>"

definition ENGINE_finish :: "tls \<Rightarrow> tls" where
  "ENGINE_finish st = st\<lparr>engine_functional := engine_functional st - 1, engine_structural := engine_structural st - 1\<rparr>"

text \<open>The label \<open>cleanup\<close>.\<close>

definition ssl_cleanup :: "int \<Rightarrow> bool \<Rightarrow> bool \<Rightarrow> tls \<Rightarrow> int \<times> tls" where
  "ssl_cleanup ret pkey engine st =
     (let st1 = (if pkey then st\<lparr>pkey_refs := pkey_refs st - 1\<rparr> else st);
          st2 = (if engine then ENGINE_free (ENGINE_finish st1) else st1)
      in (ret, st2))"

definition cwmp_client_ssl_ctx :: "tls_env \<Rightarrow> acs_client \<Rightarrow> tls \<Rightarrow> int \<times> tls" where
  "cwmp_client_ssl_ctx env c st =
     (if \<not> te_engine env then ssl_cleanup 1 False False st
      else
        (let st1 = ENGINE_by_id st in
         if \<not> te_init env then ssl_cleanup 1 False True st1
         else
           (let st2 = ENGINE_init st1 in
            if \<not> te_use_certificate env (ssl_client_cert c) then ssl_cleanup 1 False True st2
            else
              (let st3 = st2\<lparr>ctx_certificate := ssl_client_cert c\<rparr> in
               if \<not> te_load_ca env (ssl_ca_cert c) then ssl_cleanup 1 False True st3
               else
                 (let st4 = st3\<lparr>ctx_ca := ssl_ca_cert c\<rparr> in
                  if \<not> te_load_key env (ssl_client_key c) then ssl_cleanup 1 False True st4
                  else
                    (let st5 = st4\<lparr>pkey_refs := pkey_refs st4 + 1\<rparr> in
                     if \<not> te_use_key env then ssl_cleanup 1 True True st5
                     else
                       (let st6 = st5\<lparr>ctx_key := ssl_client_key c, pkey_refs := pkey_refs st5 + 1\<rparr> in
                        if \<not> te_check_key env then ssl_cleanup 1 True True st6
                        else ssl_cleanup 0 True True st6)))))))"

text \<open>The branch of \<open>cwmp_client_init\<close> for such a key: the context that is made first is not freed when the set-up
  fails.\<close>

definition provided_ctx :: "tls_env \<Rightarrow> acs_client \<Rightarrow> tls \<Rightarrow> cwmp_status \<times> tls" where
  "provided_ctx env c st =
     (case cwmp_client_ssl_ctx env c
             (st\<lparr>ctx_live := ctx_live st + 1, ctx_certificate := None, ctx_ca := None, ctx_key := None\<rparr>) of
        (rc, st1) \<Rightarrow> (if rc \<noteq> 0 then cwmp_status_ko else cwmp_status_ok, st1))"

text \<open>\<open>uri_call\<close> is the answer of the bus to \<open>GetCertificateURI\<close>: its status and the table it returns.\<close>

type_synonym uri_call = "string \<Rightarrow> int \<times> (string \<Rightarrow> cstr)"

definition cwmp_get_certificate_uri :: "uri_call \<Rightarrow> string \<Rightarrow> cstr \<times> cstr \<Rightarrow> int \<times> cstr \<times> cstr" where
  "cwmp_get_certificate_uri uri_call fullpath uris =
     (case (uris, uri_call fullpath) of
        ((certuri, keyuri), (ret, outputs)) \<Rightarrow>
          if ret = 0 then
            (let cert = outputs ''CertificateURI''; key = outputs ''PrivateKeyURI'' in
             (0, if cert \<noteq> None then cert else certuri, if key \<noteq> None then key else keyuri))
          else (ret, certuri, keyuri))"

subsection \<open>Properties\<close>

lemmas ssl_steps = ssl_cleanup_def ENGINE_by_id_def ENGINE_free_def ENGINE_init_def ENGINE_finish_def Let_def

definition tls_ready :: "tls_env \<Rightarrow> acs_client \<Rightarrow> bool" where
  "tls_ready env c \<longleftrightarrow> te_engine env \<and> te_init env \<and> te_use_certificate env (ssl_client_cert c) \<and>
     te_load_ca env (ssl_ca_cert c) \<and> te_load_key env (ssl_client_key c) \<and> te_use_key env \<and> te_check_key env"

text \<open>A context is provided exactly when every step works; then it has the certificate, the authority and the key of the
  configuration, and the key is one that matches.\<close>

theorem ssl_ctx_complete_or_refused:
  assumes "provided_ctx env c st = (rc, st')"
  shows "(rc = cwmp_status_ok \<longleftrightarrow> tls_ready env c) \<and>
    (rc = cwmp_status_ok \<longrightarrow>
       ctx_certificate st' = ssl_client_cert c \<and> ctx_ca st' = ssl_ca_cert c \<and> ctx_key st' = ssl_client_key c)"
  using assms by (auto simp: provided_ctx_def cwmp_client_ssl_ctx_def tls_ready_def ssl_steps split: if_splits)

text \<open>The references balance on every path on which the engine can be initialised: none of the engine is kept, and the
  only one of the key that is left is that of the context that uses it.\<close>

theorem ssl_ctx_references_balance:
  assumes "te_init env" "cwmp_client_ssl_ctx env c st = (rc, st')" "ctx_key st = None" "pkey_refs st = 0"
    and "ssl_client_key c \<noteq> None"
  shows "engine_structural st' = engine_structural st \<and> engine_functional st' = engine_functional st \<and>
    pkey_refs st' = (if ctx_key st' = None then 0 else 1)"
  using assms by (auto simp: cwmp_client_ssl_ctx_def ssl_steps split: if_splits)

text \<open>When \<open>ENGINE_init\<close> fails, \<open>ENGINE_finish\<close> is called all the same: a functional reference is dropped that was never
  taken.\<close>

theorem engine_finished_without_init:
  assumes "te_engine env" "\<not> te_init env"
  shows "engine_functional (snd (cwmp_client_ssl_ctx env c st)) = engine_functional st - 1 \<and>
    engine_structural (snd (cwmp_client_ssl_ctx env c st)) = engine_structural st - 1"
  using assms by (simp add: cwmp_client_ssl_ctx_def ssl_steps)

text \<open>Each failed set-up leaves a context behind.\<close>

theorem refused_ctx_leaked:
  "ctx_live (snd (provided_ctx env c st)) = ctx_live st + 1"
  by (simp add: provided_ctx_def cwmp_client_ssl_ctx_def ssl_steps)

text \<open>With the set-up of this file in the place of its result, \<open>cwmp_client_init\<close> succeeds for a PKCS\#11 key only with
  a context that is ready.\<close>

theorem client_init_needs_ready_ctx:
  assumes "cv_ssl_ctx_ok cenv \<longleftrightarrow> fst (provided_ctx env c' st) = cwmp_status_ok"
    and "cwmp_client_init cenv c = (cwmp_status_ok, c')" "ssl_client_key c' = Some k" "prefix ''pkcs11:'' k"
  shows "tls_ready env c'"
proof -
  have "cv_ssl_ctx_ok cenv" using assms(2-4) by (auto simp: cwmp_client_init_def Let_def split: if_splits)
  with assms(1) have "fst (provided_ctx env c' st) = cwmp_status_ok" by simp
  with ssl_ctx_complete_or_refused [of env c' st] show ?thesis by (metis prod.collapse)
qed

end
