(* ===== verification/Time_Windows.thy ===== *)
theory Time_Windows
  imports Prelude
begin

section \<open>Scheduled downloads: data model and time windows (transfers\_timewindow.c)\<close>

text \<open>
  The \<open>ManagementServer.Transfers.ScheduleDownload.\<close> instances of the plugin and the time
  windows in which a transfer may run. The objects are records with the parameters of
  odl/cwmp\_plugin-definition.odl; \<open>obj->priv\<close> is a \<open>cptr\<close>, so that memory released without
  resetting the pointer stays visible as \<open>Freed\<close>. The Ambiorix libraries are arguments of the
  model: \<open>env_apply\<close> says whether \<open>amxd_trans_apply\<close> accepts a transaction (a refused one
  changes nothing), \<open>env_download\<close> what the \<open>Download()\<close> call on the bus returns,
  \<open>env_fw_status\<close> the status of the active firmware image, \<open>env_remaining\<close> the time left
  on a window timer. A write that the ODL subscribes to (a window's \<open>Status\<close> becoming
  Started or Ended, a transfer's becoming Failed, a new instance) appends an event to
  \<open>pending\<close>; the bus delivers them one by one later.
\<close>

subsection \<open>Data\<close>

datatype 'a cptr = Null | Valid 'a | Freed

datatype timewindow_status =
    timewindow_status_undefined | timewindow_status_idle
  | timewindow_status_started | timewindow_status_ended

datatype timewindow_mode =
    timewindow_mode_undefined | timewindow_mode_at_any_time | timewindow_mode_immediately
  | timewindow_mode_when_idle | timewindow_mode_confirmation_needed

record timewindow_info =
  twi_start :: amxp_timer
  twi_end :: amxp_timer

record timewindow =
  tw_Status :: string
  tw_WindowStart :: u32
  tw_WindowEnd :: u32
  tw_WindowMode :: string
  tw_UserMessage :: string
  tw_MaxRetries :: int
  tw_priv :: "timewindow_info cptr"

record transfer_info =
  ti_numberOfTimeWindow :: nat
  ti_lastTimeWindow :: nat
  ti_withinTimeWindow :: bool

record transfer =
  tr_CommandKey :: cstr
  tr_FileType :: string
  tr_URL :: cstr
  tr_Username :: cstr
  tr_Password :: cstr
  tr_FileSize :: u32
  tr_TargetFileName :: cstr
  tr_windows :: "(nat \<times> timewindow) list"
  tc_Status :: string
  tc_TransferType :: string
  tc_CommandKey :: cstr
  tc_Initiator :: cstr
  tc_FaultCode :: u32
  tc_FaultString :: string
  tc_StartTime :: int
  tc_CompleteTime :: int
  tr_priv :: "transfer_info cptr"

datatype dm_event = Tw_started nat nat | Tw_ended nat nat | Tc_failed nat | Sd_added nat

datatype dm_write =
    Wr_tw_status nat nat string
  | Wr_tw_retries nat nat int
  | Wr_tw_offset nat nat string u32
  | Wr_tc_status nat string
  | Wr_tc_update nat
  | Wr_add_inst nat

datatype tw_side = Win_start | Win_end

record plugin =
  downloads :: "(nat \<times> transfer) list"
  transfer_in_progress :: "nat option"
  pending :: "dm_event list"
  download_calls :: "(nat \<times> string) list"
  mem_error :: bool

record env =
  env_apply :: "dm_write \<Rightarrow> bool"
  env_download :: "string \<Rightarrow> string \<Rightarrow> string \<Rightarrow> int"
  env_fw_status :: cstr
  env_remaining :: "nat \<Rightarrow> nat \<Rightarrow> tw_side \<Rightarrow> u32"

subsection \<open>Access to the object tree\<close>

definition get_transfer :: "plugin \<Rightarrow> nat \<Rightarrow> transfer option" where
  "get_transfer st i = map_of (downloads st) i"

definition upd_transfer :: "nat \<Rightarrow> (transfer \<Rightarrow> transfer) \<Rightarrow> plugin \<Rightarrow> plugin" where
  "upd_transfer i f st =
     st\<lparr>downloads := map (\<lambda>(k, t). (k, if k = i then f t else t)) (downloads st)\<rparr>"

definition find_window :: "transfer \<Rightarrow> nat \<Rightarrow> timewindow option" where
  "find_window t j = map_of (tr_windows t) j"

definition upd_window :: "nat \<Rightarrow> (timewindow \<Rightarrow> timewindow) \<Rightarrow> transfer \<Rightarrow> transfer" where
  "upd_window j f t =
     t\<lparr>tr_windows := map (\<lambda>(k, w). (k, if k = j then f w else w)) (tr_windows t)\<rparr>"

definition get_window :: "plugin \<Rightarrow> nat \<Rightarrow> nat \<Rightarrow> timewindow option" where
  "get_window st i j = Option.bind (get_transfer st i) (\<lambda>t. find_window t j)"

definition upd_win :: "nat \<Rightarrow> nat \<Rightarrow> (timewindow \<Rightarrow> timewindow) \<Rightarrow> plugin \<Rightarrow> plugin" where
  "upd_win i j f = upd_transfer i (upd_window j f)"

definition raise_event :: "dm_event list \<Rightarrow> plugin \<Rightarrow> plugin" where
  "raise_event evs st = st\<lparr>pending := pending st @ evs\<rparr>"

lemma map_of_map_upd:
  "map_of (map (\<lambda>(k, t). (k, if k = i then f t else t)) xs) k =
     (if k = i then map_option f (map_of xs k) else map_of xs k)"
  by (induction xs) auto

lemma get_upd_transfer [simp]:
  "get_transfer (upd_transfer i f st) k =
     (if k = i then map_option f (get_transfer st k) else get_transfer st k)"
  by (simp add: get_transfer_def upd_transfer_def map_of_map_upd)

lemma find_upd_window [simp]:
  "find_window (upd_window j f t) k =
     (if k = j then map_option f (find_window t k) else find_window t k)"
  by (simp add: find_window_def upd_window_def map_of_map_upd)

lemma get_upd_win [simp]:
  "get_window (upd_win i j f st) a b =
     (if a = i \<and> b = j then map_option f (get_window st a b) else get_window st a b)"
  by (auto simp: get_window_def upd_win_def split: Option.bind_split)

lemma upd_window_frame [simp]:
  "tc_Status (upd_window j f t) = tc_Status t"
  "tr_FileType (upd_window j f t) = tr_FileType t"
  "tr_priv (upd_window j f t) = tr_priv t"
  "tc_FaultCode (upd_window j f t) = tc_FaultCode t"
  "tc_FaultString (upd_window j f t) = tc_FaultString t"
  "map fst (tr_windows (upd_window j f t)) = map fst (tr_windows t)"
  "length (tr_windows (upd_window j f t)) = length (tr_windows t)"
  by (auto simp: upd_window_def case_prod_unfold)

lemma upd_transfer_frame [simp]:
  "transfer_in_progress (upd_transfer i f st) = transfer_in_progress st"
  "pending (upd_transfer i f st) = pending st"
  "download_calls (upd_transfer i f st) = download_calls st"
  "mem_error (upd_transfer i f st) = mem_error st"
  "map fst (downloads (upd_transfer i f st)) = map fst (downloads st)"
  by (auto simp: upd_transfer_def case_prod_unfold)

lemma upd_win_frame [simp]:
  "transfer_in_progress (upd_win i j f st) = transfer_in_progress st"
  "pending (upd_win i j f st) = pending st"
  "download_calls (upd_win i j f st) = download_calls st"
  "mem_error (upd_win i j f st) = mem_error st"
  "map fst (downloads (upd_win i j f st)) = map fst (downloads st)"
  "get_transfer (upd_win i j f st) k =
     (if k = i then map_option (upd_window j f) (get_transfer st k) else get_transfer st k)"
  by (auto simp: upd_win_def)

lemma raise_event_frame [simp]:
  "downloads (raise_event evs st) = downloads st"
  "get_transfer (raise_event evs st) k = get_transfer st k"
  "get_window (raise_event evs st) k j = get_window st k j"
  "transfer_in_progress (raise_event evs st) = transfer_in_progress st"
  "pending (raise_event evs st) = pending st @ evs"
  "download_calls (raise_event evs st) = download_calls st"
  "mem_error (raise_event evs st) = mem_error st"
  by (auto simp: raise_event_def get_transfer_def get_window_def)

subsection \<open>Window parameters\<close>

fun timewindow_status_value :: "timewindow_status \<Rightarrow> string option" where
  "timewindow_status_value timewindow_status_idle = Some ''Idle''"
| "timewindow_status_value timewindow_status_started = Some ''Started''"
| "timewindow_status_value timewindow_status_ended = Some ''Ended''"
| "timewindow_status_value timewindow_status_undefined = None"

definition timewindow_events :: "nat \<Rightarrow> nat \<Rightarrow> string \<Rightarrow> dm_event list" where
  "timewindow_events i j v =
     (if v = ''Started'' then [Tw_started i j] else if v = ''Ended'' then [Tw_ended i j] else [])"

definition timewindow_set_status ::
  "env \<Rightarrow> nat \<Rightarrow> nat \<Rightarrow> timewindow_status \<Rightarrow> plugin \<Rightarrow> plugin" where
  "timewindow_set_status env i j status st =
     (case get_window st i j of
        None \<Rightarrow> st
      | Some w \<Rightarrow>
          (case timewindow_status_value status of
             None \<Rightarrow> st
           | Some v \<Rightarrow>
               (if env_apply env (Wr_tw_status i j v)
                then raise_event (timewindow_events i j v) (upd_win i j (\<lambda>w. w\<lparr>tw_Status := v\<rparr>) st)
                else st)))"

definition transfers_timewindow_set_maxretries ::
  "env \<Rightarrow> nat \<Rightarrow> nat \<Rightarrow> int \<Rightarrow> plugin \<Rightarrow> plugin" where
  "transfers_timewindow_set_maxretries env i j v st =
     (case get_window st i j of
        None \<Rightarrow> st
      | Some w \<Rightarrow>
          (if env_apply env (Wr_tw_retries i j v)
           then upd_win i j (\<lambda>w. w\<lparr>tw_MaxRetries := v\<rparr>) st else st))"

definition transfers_timewindow_get_maxretries :: "timewindow option \<Rightarrow> int" where
  "transfers_timewindow_get_maxretries w = (case w of None \<Rightarrow> -1 | Some w \<Rightarrow> tw_MaxRetries w)"

definition transfers_timewindow_get_mode :: "timewindow option \<Rightarrow> timewindow_mode" where
  "transfers_timewindow_get_mode w =
     (case w of
        None \<Rightarrow> timewindow_mode_undefined
      | Some w \<Rightarrow>
          (if tw_WindowMode w = '''' then timewindow_mode_undefined
           else if tw_WindowMode w = ''1 At Any Time'' then timewindow_mode_at_any_time
           else if tw_WindowMode w = ''2 Immediately'' then timewindow_mode_immediately
           else if tw_WindowMode w = ''3 When Idle'' then timewindow_mode_when_idle
           else if tw_WindowMode w = ''4 Confirmation Needed'' then timewindow_mode_confirmation_needed
           else timewindow_mode_undefined))"

definition timewindow_status_of :: "string \<Rightarrow> timewindow_status" where
  "timewindow_status_of v =
     (if v = '''' then timewindow_status_undefined
      else if v = ''Idle'' then timewindow_status_idle
      else if v = ''Started'' then timewindow_status_started
      else if v = ''Ended'' then timewindow_status_ended
      else timewindow_status_undefined)"

definition transfers_timewindow_get_status :: "timewindow option \<Rightarrow> timewindow_status" where
  "transfers_timewindow_get_status w =
     (case w of None \<Rightarrow> timewindow_status_undefined | Some w \<Rightarrow> timewindow_status_of (tw_Status w))"

subsection \<open>Window timers\<close>

text \<open>The callbacks get the window's info as \<open>priv\<close>; a null one is ignored.\<close>

definition timewindow_start_timer_cb :: "env \<Rightarrow> nat \<Rightarrow> nat \<Rightarrow> plugin \<Rightarrow> plugin" where
  "timewindow_start_timer_cb env i j st =
     timewindow_set_status env i j timewindow_status_started st"

definition timewindow_end_timer_cb :: "env \<Rightarrow> nat \<Rightarrow> nat \<Rightarrow> plugin \<Rightarrow> plugin" where
  "timewindow_end_timer_cb env i j st =
     timewindow_set_status env i j timewindow_status_ended st"

definition timewindow_internal_del_info :: "nat \<Rightarrow> nat \<Rightarrow> plugin \<Rightarrow> plugin" where
  "timewindow_internal_del_info i j st =
     (case get_window st i j of
        None \<Rightarrow> st
      | Some w \<Rightarrow>
          (case tw_priv w of
             Null \<Rightarrow> st
           | Freed \<Rightarrow> st\<lparr>mem_error := True\<rparr>
           | Valid info \<Rightarrow> upd_win i j (\<lambda>w. w\<lparr>tw_priv := Null\<rparr>) st))"

definition timewindow_new_info :: "timewindow_status \<Rightarrow> timewindow_info" where
  "timewindow_new_info status =
     (case status of
        timewindow_status_idle \<Rightarrow> \<lparr>twi_start = Timer None, twi_end = Timer None\<rparr>
      | timewindow_status_started \<Rightarrow> \<lparr>twi_start = No_timer, twi_end = Timer None\<rparr>
      | timewindow_status_ended \<Rightarrow> \<lparr>twi_start = No_timer, twi_end = No_timer\<rparr>
      | timewindow_status_undefined \<Rightarrow> \<lparr>twi_start = No_timer, twi_end = No_timer\<rparr>)"

definition timewindow_internal_add_info :: "nat \<Rightarrow> nat \<Rightarrow> plugin \<Rightarrow> plugin" where
  "timewindow_internal_add_info i j st =
     (case get_window st i j of
        None \<Rightarrow> st
      | Some w \<Rightarrow>
          (if tw_priv w \<noteq> Null then st
           else upd_win i j (\<lambda>w. w\<lparr>tw_priv :=
                  Valid (timewindow_new_info (transfers_timewindow_get_status (Some w)))\<rparr>) st))"

text \<open>Each walk over the windows requires the first one and takes the second if it exists.\<close>

definition both_windows :: "(nat \<Rightarrow> nat \<Rightarrow> plugin \<Rightarrow> plugin) \<Rightarrow> nat \<Rightarrow> plugin \<Rightarrow> plugin" where
  "both_windows f i st =
     (case get_transfer st i of
        None \<Rightarrow> st
      | Some t \<Rightarrow>
          (case find_window t 1 of
             None \<Rightarrow> st
           | Some w \<Rightarrow>
               (let st1 = f i 1 st in
                case get_window st1 i 2 of None \<Rightarrow> st1 | Some w2 \<Rightarrow> f i 2 st1)))"

definition transfers_timewindow_add_info :: "nat \<Rightarrow> plugin \<Rightarrow> plugin" where
  "transfers_timewindow_add_info i st = both_windows timewindow_internal_add_info i st"

definition transfers_timewindow_del_info :: "nat \<Rightarrow> plugin \<Rightarrow> plugin" where
  "transfers_timewindow_del_info i st = both_windows timewindow_internal_del_info i st"

definition timewindow_set_time_offset ::
  "env \<Rightarrow> nat \<Rightarrow> nat \<Rightarrow> string \<Rightarrow> u32 \<Rightarrow> plugin \<Rightarrow> plugin" where
  "timewindow_set_time_offset env i j name v st =
     (case get_window st i j of
        None \<Rightarrow> st
      | Some w \<Rightarrow>
          (if name = '''' then st
           else if env_apply env (Wr_tw_offset i j name v)
           then upd_win i j
                  (\<lambda>w. if name = ''WindowStart'' then w\<lparr>tw_WindowStart := v\<rparr>
                       else if name = ''WindowEnd'' then w\<lparr>tw_WindowEnd := v\<rparr> else w) st
           else st))"

definition timewindow_get_time_offset :: "timewindow option \<Rightarrow> string \<Rightarrow> u32" where
  "timewindow_get_time_offset w name =
     (let v = (case w of
                 None \<Rightarrow> 0
               | Some w \<Rightarrow>
                   (if name = ''WindowStart'' then tw_WindowStart w
                    else if name = ''WindowEnd'' then tw_WindowEnd w else 0))
      in v * 1000)"

definition timewindow_internal_start :: "nat \<Rightarrow> nat \<Rightarrow> plugin \<Rightarrow> plugin" where
  "timewindow_internal_start i j st =
     (case get_window st i j of
        None \<Rightarrow> st
      | Some w \<Rightarrow>
          (case tw_priv w of
             Null \<Rightarrow> st
           | Freed \<Rightarrow> st\<lparr>mem_error := True\<rparr>
           | Valid info \<Rightarrow>
               (case transfers_timewindow_get_status (Some w) of
                  timewindow_status_idle \<Rightarrow>
                    upd_win i j (\<lambda>w. w\<lparr>tw_priv := Valid
                      \<lparr>twi_start = amxp_start (twi_start info) (timewindow_get_time_offset (Some w) ''WindowStart''),
                       twi_end = amxp_start (twi_end info) (timewindow_get_time_offset (Some w) ''WindowEnd'')\<rparr>\<rparr>) st
                | timewindow_status_started \<Rightarrow>
                    upd_win i j (\<lambda>w. w\<lparr>tw_priv := Valid
                      (info\<lparr>twi_end := amxp_start (twi_end info) (timewindow_get_time_offset (Some w) ''WindowEnd'')\<rparr>)\<rparr>) st
                | _ \<Rightarrow> st)))"

definition transfers_timewindow_start :: "nat \<Rightarrow> plugin \<Rightarrow> plugin" where
  "transfers_timewindow_start i st = both_windows timewindow_internal_start i st"

definition timewindow_internal_save :: "env \<Rightarrow> nat \<Rightarrow> nat \<Rightarrow> plugin \<Rightarrow> plugin" where
  "timewindow_internal_save env i j st =
     (case get_window st i j of
        None \<Rightarrow> st
      | Some w \<Rightarrow>
          (case tw_priv w of
             Null \<Rightarrow> st
           | Freed \<Rightarrow> st\<lparr>mem_error := True\<rparr>
           | Valid info \<Rightarrow>
               (case transfers_timewindow_get_status (Some w) of
                  timewindow_status_idle \<Rightarrow>
                    timewindow_set_time_offset env i j ''WindowEnd'' (env_remaining env i j Win_end div 1000)
                      (timewindow_set_time_offset env i j ''WindowStart''
                         (env_remaining env i j Win_start div 1000) st)
                | timewindow_status_started \<Rightarrow>
                    timewindow_set_time_offset env i j ''WindowEnd'' (env_remaining env i j Win_end div 1000)
                      (timewindow_set_time_offset env i j ''WindowStart'' 0 st)
                | _ \<Rightarrow> st)))"

definition transfers_timewindow_save :: "env \<Rightarrow> nat \<Rightarrow> plugin \<Rightarrow> plugin" where
  "transfers_timewindow_save env i st = both_windows (timewindow_internal_save env) i st"

subsection \<open>Status strings as codes\<close>

text \<open>The contract of a \<open>Status\<close> parameter: the string that is written for a status reads back
  as that status, and a string that reads as a status other than \<open>undef\<close> is the one that is
  written for it.\<close>

locale status_codec =
  fixes encode :: "'s \<Rightarrow> string option"
    and decode :: "string \<Rightarrow> 's"
    and undef :: 's
  assumes decode_encode: "encode s = Some v \<Longrightarrow> decode v = s"
    and encode_decode: "decode v \<noteq> undef \<Longrightarrow> encode (decode v) = Some v"
    and encode_undef: "encode undef = None"
begin

lemma encode_inj: "encode s = Some v \<Longrightarrow> encode s' = Some v \<Longrightarrow> s = s'"
  using decode_encode by metis

lemma decode_eq_iff: "encode s = Some v \<Longrightarrow> decode x = s \<longleftrightarrow> x = v"
  using decode_encode encode_decode encode_undef by (metis option.inject option.simps(3))

end

interpretation tw_codec: status_codec timewindow_status_value timewindow_status_of
  timewindow_status_undefined
proof unfold_locales
  fix s v
  show "timewindow_status_value s = Some v \<Longrightarrow> timewindow_status_of v = s"
    by (cases s) (auto simp: timewindow_status_of_def)
next
  fix v
  show "timewindow_status_of v \<noteq> timewindow_status_undefined \<Longrightarrow>
      timewindow_status_value (timewindow_status_of v) = Some v"
    by (auto simp: timewindow_status_of_def split: if_splits)
qed simp

subsection \<open>Example states for the witnesses\<close>

definition example_window :: "string \<Rightarrow> u32 \<Rightarrow> u32 \<Rightarrow> int \<Rightarrow> timewindow" where
  "example_window status ws we retries =
     \<lparr>tw_Status = status, tw_WindowStart = ws, tw_WindowEnd = we, tw_WindowMode = ''2 Immediately'',
      tw_UserMessage = '''', tw_MaxRetries = retries,
      tw_priv = Valid \<lparr>twi_start = Timer None, twi_end = Timer None\<rparr>\<rparr>"

definition example_transfer :: "string \<Rightarrow> (nat \<times> timewindow) list \<Rightarrow> transfer_info cptr \<Rightarrow> transfer" where
  "example_transfer status ws info =
     \<lparr>tr_CommandKey = Some ''key'', tr_FileType = ''1 Firmware Upgrade Image'',
      tr_URL = Some ''http://acs/fw'', tr_Username = Some '''', tr_Password = Some '''',
      tr_FileSize = 0, tr_TargetFileName = Some '''', tr_windows = ws,
      tc_Status = status, tc_TransferType = ''ScheduleDownload'', tc_CommandKey = Some ''key'',
      tc_Initiator = Some ''ACS'', tc_FaultCode = 0, tc_FaultString = '''',
      tc_StartTime = 0, tc_CompleteTime = 0, tr_priv = info\<rparr>"

definition example_plugin :: "transfer \<Rightarrow> plugin" where
  "example_plugin t =
     \<lparr>downloads = [(1, t)], transfer_in_progress = None, pending = [], download_calls = [],
      mem_error = False\<rparr>"

definition example_env :: "int \<Rightarrow> env" where
  "example_env rc =
     \<lparr>env_apply = (\<lambda>_. True), env_download = (\<lambda>_ _ _. rc), env_fw_status = Some ''Active'',
      env_remaining = (\<lambda>_ _ _. 65500)\<rparr>"

lemmas example_defs = example_window_def example_transfer_def example_plugin_def example_env_def

subsection \<open>Properties\<close>

text \<open>Writing a window's status and reading it back: an accepted write of idle, started
  or ended is read back as that status, and no other window is changed.\<close>

theorem timewindow_status_roundtrip:
  assumes "get_window st i j = Some w" "timewindow_status_value s = Some v"
    and "env_apply env (Wr_tw_status i j v)"
  shows "transfers_timewindow_get_status (get_window (timewindow_set_status env i j s st) i j) = s \<and>
     (\<forall>a b. (a, b) \<noteq> (i, j) \<longrightarrow>
        get_window (timewindow_set_status env i j s st) a b = get_window st a b)"
  using assms
  by (auto simp: timewindow_set_status_def transfers_timewindow_get_status_def
      dest: tw_codec.decode_encode)

theorem timewindow_status_roundtrip_witness:
  "transfers_timewindow_get_status (get_window (timewindow_set_status (example_env 0) 1 1
     timewindow_status_started
     (example_plugin (example_transfer ''Idle'' [(1, example_window ''Idle'' 60 120 3)] Null))) 1 1) =
   timewindow_status_started"
proof -
  let ?st = "example_plugin (example_transfer ''Idle'' [(1, example_window ''Idle'' 60 120 3)] Null)"
  have "get_window ?st 1 1 = Some (example_window ''Idle'' 60 120 3)"
    by (simp add: example_defs get_window_def get_transfer_def find_window_def)
  moreover have "env_apply (example_env 0) (Wr_tw_status 1 1 ''Started'')"
    by (simp add: example_env_def)
  ultimately show ?thesis
    using timewindow_status_roundtrip [of ?st 1 1 _ timewindow_status_started "''Started''" "example_env 0"]
    by simp
qed

text \<open>The conversion of a window offset from seconds to the timer's milliseconds is
  exact up to 4294967 seconds (about 49 days and 17 hours) and wraps around beyond: the timer of
  a window that starts later fires early.\<close>

theorem timewindow_offset_exact_iff:
  "unat (timewindow_get_time_offset (Some w) ''WindowStart'') = 1000 * unat (tw_WindowStart w)
     \<longleftrightarrow> unat (tw_WindowStart w) \<le> 4294967"
proof -
  have "unat (timewindow_get_time_offset (Some w) ''WindowStart'') =
      1000 * unat (tw_WindowStart w) mod 4294967296"
    by (simp add: timewindow_get_time_offset_def unat_word_ariths mult.commute)
  moreover have "m mod 4294967296 = m \<longleftrightarrow> m < 4294967296" for m :: nat
    by (metis mod_less mod_less_divisor zero_less_numeral)
  moreover have "1000 * n < 4294967296 \<longleftrightarrow> n \<le> 4294967" for n :: nat by arith
  ultimately show ?thesis by simp
qed

text \<open>Saving and restarting: when the plugin stops, an idle window stores the time left
  on its timers in seconds, and the timers that are armed from those offsets after the restart
  run for the time left rounded down to a second, without wrap-around.\<close>

theorem timewindow_save_restart:
  assumes "get_window st i j = Some w" "timewindow_status_of (tw_Status w) = timewindow_status_idle"
    and "tw_priv w = Valid info" "\<forall>wr. env_apply env wr"
  shows "\<exists>w'. get_window (timewindow_internal_save env i j st) i j = Some w' \<and>
     unat (timewindow_get_time_offset (Some w') ''WindowStart'') =
       unat (env_remaining env i j Win_start) - unat (env_remaining env i j Win_start) mod 1000 \<and>
     unat (timewindow_get_time_offset (Some w') ''WindowEnd'') =
       unat (env_remaining env i j Win_end) - unat (env_remaining env i j Win_end) mod 1000"
proof -
  have round: "unat (r div 1000 * 1000) = unat r - unat r mod 1000" for r :: u32
  proof -
    have "unat (r div 1000) * 1000 = unat r - unat r mod 1000"
      by (simp add: unat_div minus_mod_eq_div_mult)
    moreover have "unat r < 2 ^ LENGTH(32)" by (rule unsigned_less)
    ultimately show ?thesis by (simp add: unat_word_ariths)
  qed
  from assms show ?thesis
    by (auto simp: timewindow_internal_save_def transfers_timewindow_get_status_def
        timewindow_set_time_offset_def timewindow_get_time_offset_def round)
qed

theorem timewindow_save_restart_witness:
  "\<exists>w'. get_window (timewindow_internal_save (example_env 0) 1 1
      (example_plugin (example_transfer ''Idle'' [(1, example_window ''Idle'' 60 120 3)] Null))) 1 1 = Some w' \<and>
     unat (timewindow_get_time_offset (Some w') ''WindowStart'') = 65000"
proof -
  let ?w = "example_window ''Idle'' 60 120 3"
  let ?st = "example_plugin (example_transfer ''Idle'' [(1, ?w)] Null)"
  have "get_window ?st 1 1 = Some ?w" "timewindow_status_of (tw_Status ?w) = timewindow_status_idle"
    "tw_priv ?w = Valid \<lparr>twi_start = Timer None, twi_end = Timer None\<rparr>" "\<forall>wr. env_apply (example_env 0) wr"
    by (simp_all add: example_defs get_window_def get_transfer_def find_window_def timewindow_status_of_def)
  from timewindow_save_restart [OF this] show ?thesis by (auto simp: example_env_def)
qed

end
