(* ===== verification/Transfers.thy ===== *)
theory Transfers
  imports Time_Windows
begin

section \<open>Scheduled downloads: transfers, firmware upgrades, events\<close>

text \<open>
  src/.../cwmp\_plugin/transfers.c, transfers\_firmware.c and transfers\_dm.c. An object pointer
  is the index of its instance; a null one is an index with no instance. The handlers are total
  functions on \<open>plugin\<close>; \<open>mem_error\<close> records the use of a freed or null pointer. The step
  relation \<open>plugin_step\<close> interleaves them the way the event loop does: calls of
  \<open>addScheduleDownload\<close>, window timers, firmware notifications, saving, restarts, and the
  delivery of pending events. Ambiorix raises no event for a write that leaves the value as it
  was, so a pending event may also be dropped.
\<close>

subsection \<open>Model: transfers.c and transfers\_firmware.c\<close>

datatype transfer_status =
    transfer_status_undefined | transfer_status_idle | transfer_status_in_progress
  | transfer_status_failed | transfer_status_done

definition fw_image :: string where
  "fw_image = ''1 Firmware Upgrade Image''"

definition FAULT_CODE_INTERNAL_ERROR :: u32 where "FAULT_CODE_INTERNAL_ERROR = 9002"
definition FAULT_CODE_FILE_TRANSFER_FAILURE :: u32 where "FAULT_CODE_FILE_TRANSFER_FAILURE = 9010"
definition FAULT_CODE_UNSUPPORTED_PROTOCOL :: u32 where "FAULT_CODE_UNSUPPORTED_PROTOCOL = 9013"

definition transfer_status_of :: "string \<Rightarrow> transfer_status" where
  "transfer_status_of v =
     (if v = '''' then transfer_status_undefined
      else if v = ''Idle'' then transfer_status_idle
      else if v = ''In Progress'' then transfer_status_in_progress
      else if v = ''Failed'' then transfer_status_failed
      else if v = ''Done'' then transfer_status_done
      else transfer_status_undefined)"

definition transfers_get_status :: "transfer option \<Rightarrow> transfer_status" where
  "transfers_get_status t =
     (case t of None \<Rightarrow> transfer_status_undefined | Some t \<Rightarrow> transfer_status_of (tc_Status t))"

fun transfer_status_value :: "transfer_status \<Rightarrow> string option" where
  "transfer_status_value transfer_status_idle = Some ''Idle''"
| "transfer_status_value transfer_status_in_progress = Some ''In Progress''"
| "transfer_status_value transfer_status_failed = Some ''Failed''"
| "transfer_status_value transfer_status_done = Some ''Done''"
| "transfer_status_value transfer_status_undefined = None"

definition transfers_set_status :: "env \<Rightarrow> nat \<Rightarrow> transfer_status \<Rightarrow> plugin \<Rightarrow> plugin" where
  "transfers_set_status env i status st =
     (case get_transfer st i of
        None \<Rightarrow> st
      | Some t \<Rightarrow>
          (case transfer_status_value status of
             None \<Rightarrow> st
           | Some v \<Rightarrow>
               (if env_apply env (Wr_tc_status i v)
                then raise_event (if v = ''Failed'' then [Tc_failed i] else [])
                       (upd_transfer i (\<lambda>t. t\<lparr>tc_Status := v\<rparr>) st)
                else st)))"

definition transfer_is_done :: "transfer option \<Rightarrow> bool" where
  "transfer_is_done t \<longleftrightarrow> transfers_get_status t = transfer_status_done"

definition transfers_update_transfercomplete ::
  "env \<Rightarrow> nat \<Rightarrow> int option \<Rightarrow> int option \<Rightarrow> u32 option \<Rightarrow> cstr \<Rightarrow> plugin \<Rightarrow> plugin" where
  "transfers_update_transfercomplete env i start_time complete_time fault_code fault_string st =
     (case get_transfer st i of
        None \<Rightarrow> st
      | Some t \<Rightarrow>
          (if env_apply env (Wr_tc_update i) then
             upd_transfer i (\<lambda>t. t\<lparr>
               tc_StartTime := case_option (tc_StartTime t) id start_time,
               tc_CompleteTime := case_option (tc_CompleteTime t) id complete_time,
               tc_FaultCode := case_option (tc_FaultCode t) id fault_code,
               tc_FaultString := case_option (tc_FaultString t) id fault_string\<rparr>) st
           else st))"

text \<open>\<open>transfers_firmware_do_firmwareupgrade\<close> with \<open>upgrade_firmware\<close>: the \<open>Download()\<close> call
  on the bus is logged with the instance and the URL.\<close>

definition upgrade_firmware ::
  "env \<Rightarrow> nat \<Rightarrow> string \<Rightarrow> string \<Rightarrow> string \<Rightarrow> plugin \<Rightarrow> int \<times> plugin" where
  "upgrade_firmware env i url username password st =
     (env_download env url username password,
      st\<lparr>download_calls := download_calls st @ [(i, url)]\<rparr>)"

definition transfers_firmware_do_firmwareupgrade :: "env \<Rightarrow> nat \<Rightarrow> plugin \<Rightarrow> int \<times> plugin" where
  "transfers_firmware_do_firmwareupgrade env i st =
     (case get_transfer st i of
        None \<Rightarrow> (-1, st)
      | Some t \<Rightarrow>
          (case transfer_in_progress st of
             Some k \<Rightarrow> (-1, st)
           | None \<Rightarrow>
               (case (tr_URL t, tr_Username t, tr_Password t) of
                  (Some url, Some username, Some password) \<Rightarrow>
                    (case upgrade_firmware env i url username password
                            (st\<lparr>transfer_in_progress := Some i\<rparr>) of
                       (rc, st') \<Rightarrow>
                         (if rc = 0 then (0, st') else (-1, st'\<lparr>transfer_in_progress := None\<rparr>)))
                | _ \<Rightarrow> (-1, st\<lparr>transfer_in_progress := None\<rparr>))))"

definition transfers_firmware_transfer_done :: "nat \<Rightarrow> plugin \<Rightarrow> plugin" where
  "transfers_firmware_transfer_done i st =
     (if get_transfer st i = None \<or> transfer_in_progress st \<noteq> Some i then st
      else st\<lparr>transfer_in_progress := None\<rparr>)"

definition transfers_start_transfer :: "env \<Rightarrow> nat \<Rightarrow> plugin \<Rightarrow> plugin" where
  "transfers_start_transfer env i st =
     (case get_transfer st i of
        None \<Rightarrow> st
      | Some t \<Rightarrow>
          (if tr_FileType t = '''' then st
           else if tr_FileType t = fw_image then
             (case transfers_firmware_do_firmwareupgrade env i
                     (transfers_set_status env i transfer_status_in_progress st) of
                (rc, st') \<Rightarrow>
                  (if rc \<noteq> 0 then
                     transfers_set_status env i transfer_status_failed
                       (transfers_update_transfercomplete env i None None
                          (Some FAULT_CODE_INTERNAL_ERROR) (Some ''Failed to perform upgrade'') st')
                   else st'))
           else st))"

definition transfers_transfer_done :: "env \<Rightarrow> nat \<Rightarrow> plugin \<Rightarrow> plugin" where
  "transfers_transfer_done env i st =
     (case get_transfer st i of
        None \<Rightarrow> st
      | Some t \<Rightarrow>
          (if tr_FileType t = '''' then st
           else transfers_set_status env i transfer_status_done
                  (if tr_FileType t = fw_image then transfers_firmware_transfer_done i st else st)))"

definition runs_unattended :: "timewindow_mode \<Rightarrow> bool" where
  "runs_unattended m \<longleftrightarrow> m = timewindow_mode_immediately \<or> m = timewindow_mode_at_any_time"

definition transfers_firmwareupgrade_done :: "env \<Rightarrow> nat \<Rightarrow> u32 \<Rightarrow> string \<Rightarrow> plugin \<Rightarrow> plugin" where
  "transfers_firmwareupgrade_done env i fault_code fault_string st =
     (case get_transfer st i of
        None \<Rightarrow> st
      | Some t \<Rightarrow>
          (case tr_priv t of
             Null \<Rightarrow> st
           | Freed \<Rightarrow> st\<lparr>mem_error := True\<rparr>
           | Valid info \<Rightarrow>
               (if ti_lastTimeWindow info = 0 then st
                else if runs_unattended
                          (transfers_timewindow_get_mode (find_window t (ti_lastTimeWindow info))) then
                  (if ti_withinTimeWindow info then
                     (let st1 = transfers_update_transfercomplete env i None None
                                  (Some fault_code) (Some fault_string) st
                      in if fault_code = 0 then transfers_transfer_done env i st1
                         else transfers_set_status env i transfer_status_failed st1)
                   else st)
                else st)))"

definition transfers_handle_transfer :: "env \<Rightarrow> nat \<Rightarrow> plugin \<Rightarrow> plugin" where
  "transfers_handle_transfer env i st =
     (case get_transfer st i of
        None \<Rightarrow> st
      | Some t \<Rightarrow>
          (if transfer_is_done (Some t) then st
           else (case tr_priv t of
             Null \<Rightarrow> st
           | Freed \<Rightarrow> st\<lparr>mem_error := True\<rparr>
           | Valid info \<Rightarrow>
               (if ti_lastTimeWindow info = 0 then st
                else if runs_unattended
                          (transfers_timewindow_get_mode (find_window t (ti_lastTimeWindow info))) then
                  (if ti_withinTimeWindow info then transfers_start_transfer env i st
                   else if ti_numberOfTimeWindow info = ti_lastTimeWindow info then
                     transfers_transfer_done env i
                       (transfers_update_transfercomplete env i None None
                          (Some FAULT_CODE_INTERNAL_ERROR) (Some ''TimeWindow(s) ended'') st)
                   else st)
                else st))))"

text \<open>The loop of \<open>transfers_transfer_add_info\<close> over the windows \<open>1..n\<close>; it stops at a
  missing window (the flag is then false).\<close>

fun scan_windows :: "transfer \<Rightarrow> nat list \<Rightarrow> transfer_info \<Rightarrow> transfer_info \<times> bool" where
  "scan_windows t [] info = (info, True)"
| "scan_windows t (i # is) info =
     (case find_window t i of
        None \<Rightarrow> (info, False)
      | Some w \<Rightarrow>
          scan_windows t is
            (case transfers_timewindow_get_status (Some w) of
               timewindow_status_started \<Rightarrow> info\<lparr>ti_lastTimeWindow := i, ti_withinTimeWindow := True\<rparr>
             | timewindow_status_ended \<Rightarrow> info\<lparr>ti_lastTimeWindow := i, ti_withinTimeWindow := False\<rparr>
             | _ \<Rightarrow> info))"

definition transfers_transfer_add_info :: "nat \<Rightarrow> plugin \<Rightarrow> plugin" where
  "transfers_transfer_add_info i st =
     (case get_transfer st i of
        None \<Rightarrow> st
      | Some t \<Rightarrow>
          (if tr_priv t \<noteq> Null then st
           else
             (let n = length (tr_windows t);
                  info = \<lparr>ti_numberOfTimeWindow = n, ti_lastTimeWindow = 0, ti_withinTimeWindow = False\<rparr>
              in if n = 0 then upd_transfer i (\<lambda>t. t\<lparr>tr_priv := Valid info\<rparr>) st
                 else (case scan_windows t [1..<Suc n] info of
                   (info', complete) \<Rightarrow>
                     (let st' = upd_transfer i (\<lambda>t. t\<lparr>tr_priv := Valid info'\<rparr>) st
                      in if complete then transfers_timewindow_add_info i st' else st')))))"

text \<open>The info is freed but the object keeps its pointer.\<close>

definition transfers_transfer_del_info :: "nat \<Rightarrow> plugin \<Rightarrow> plugin" where
  "transfers_transfer_del_info i st =
     (case get_transfer st i of
        None \<Rightarrow> st
      | Some t \<Rightarrow>
          (case tr_priv t of
             Null \<Rightarrow> st
           | Freed \<Rightarrow> st\<lparr>mem_error := True\<rparr>
           | Valid info \<Rightarrow>
               transfers_timewindow_del_info i (upd_transfer i (\<lambda>t. t\<lparr>tr_priv := Freed\<rparr>) st)))"

definition handle_pending_upgrade :: "env \<Rightarrow> nat \<Rightarrow> plugin \<Rightarrow> plugin" where
  "handle_pending_upgrade env i st =
     (case env_fw_status env of
        None \<Rightarrow> transfers_firmwareupgrade_done env i FAULT_CODE_INTERNAL_ERROR ''Internal failure'' st
      | Some status \<Rightarrow>
          (if status \<noteq> ''Active''
           then transfers_firmwareupgrade_done env i FAULT_CODE_INTERNAL_ERROR ''Failed to apply firmware'' st
           else transfers_firmwareupgrade_done env i 0 '''' st))"

definition transfers_handle_in_progress_transfer :: "env \<Rightarrow> nat \<Rightarrow> plugin \<Rightarrow> plugin" where
  "transfers_handle_in_progress_transfer env i st =
     (case get_transfer st i of
        None \<Rightarrow> st
      | Some t \<Rightarrow>
          (if tr_FileType t = '''' \<or> tc_Status t = '''' then st
           else if tc_Status t = ''In Progress'' \<and> tr_FileType t = fw_image
           then handle_pending_upgrade env i st else st))"

definition for_each_download :: "(nat \<Rightarrow> plugin \<Rightarrow> plugin) \<Rightarrow> plugin \<Rightarrow> plugin" where
  "for_each_download f st = fold f (map fst (downloads st)) st"

definition transfers_save :: "env \<Rightarrow> plugin \<Rightarrow> plugin" where
  "transfers_save env = for_each_download (transfers_timewindow_save env)"

definition deferred_init_timer_cb :: "env \<Rightarrow> plugin \<Rightarrow> plugin" where
  "deferred_init_timer_cb env =
     for_each_download (\<lambda>i st. transfers_timewindow_start i
       (transfers_handle_in_progress_transfer env i (transfers_transfer_add_info i st)))"

definition transfers_firmware_init :: "plugin \<Rightarrow> plugin" where
  "transfers_firmware_init st = st\<lparr>transfer_in_progress := None\<rparr>"

definition transfers_firmware_clean :: "plugin \<Rightarrow> plugin" where
  "transfers_firmware_clean st = st\<lparr>transfer_in_progress := None\<rparr>"

definition transfers_clean :: "plugin \<Rightarrow> plugin" where
  "transfers_clean st = transfers_firmware_clean (for_each_download transfers_transfer_del_info st)"

definition firmware_fault :: "string \<Rightarrow> string \<Rightarrow> u32 option" where
  "firmware_fault status bootFailureLog =
     (if status \<in> {''DownloadFailed'', ''ValidationFailed'', ''InstallationFailed'', ''ActivationFailed''}
      then Some (if bootFailureLog = ''Protocol not supported'' then FAULT_CODE_UNSUPPORTED_PROTOCOL
                 else FAULT_CODE_FILE_TRANSFER_FAILURE)
      else None)"

definition firmwareimage_notification :: "env \<Rightarrow> cstr \<Rightarrow> cstr \<Rightarrow> plugin \<Rightarrow> plugin" where
  "firmwareimage_notification env status bootFailureLog st =
     (case transfer_in_progress st of
        None \<Rightarrow> st
      | Some i \<Rightarrow>
          (case status of
             None \<Rightarrow> st
           | Some s \<Rightarrow>
               (let log = (case bootFailureLog of None \<Rightarrow> '''' | Some l \<Rightarrow> l) in
                case firmware_fault s log of
                  Some fault_code \<Rightarrow>
                    (transfers_firmwareupgrade_done env i fault_code log st)\<lparr>transfer_in_progress := None\<rparr>
                | None \<Rightarrow> (if s = ''Validating'' then transfers_save env st else st))))"

subsection \<open>Model: transfers\_dm.c\<close>

datatype amxd_status = amxd_status_ok | amxd_status_invalid_arg | amxd_status_refused

record window_args =
  wa_WindowStart :: u32
  wa_WindowEnd :: u32
  wa_WindowMode :: string
  wa_UserMessage :: string
  wa_MaxRetries :: int

record download_args =
  da_Initiator :: cstr
  da_CommandKey :: cstr
  da_FileType :: string
  da_URL :: cstr
  da_Username :: cstr
  da_Password :: cstr
  da_FileSize :: u32
  da_TargetFileName :: cstr
  da_TimeWindowList :: "window_args list"

definition new_window :: "window_args \<Rightarrow> timewindow" where
  "new_window a =
     \<lparr>tw_Status = ''Idle'', tw_WindowStart = wa_WindowStart a, tw_WindowEnd = wa_WindowEnd a,
      tw_WindowMode = wa_WindowMode a, tw_UserMessage = wa_UserMessage a,
      tw_MaxRetries = wa_MaxRetries a, tw_priv = Null\<rparr>"

definition new_transfer :: "download_args \<Rightarrow> window_args \<Rightarrow> window_args list \<Rightarrow> transfer" where
  "new_transfer a w1 ws =
     \<lparr>tr_CommandKey = da_CommandKey a, tr_FileType = da_FileType a, tr_URL = da_URL a,
      tr_Username = da_Username a, tr_Password = da_Password a,
      tr_FileSize = da_FileSize a, tr_TargetFileName = da_TargetFileName a,
      tr_windows = (1, new_window w1) #
        (case ws of [] \<Rightarrow> [] | w2 # rest \<Rightarrow> [(2, new_window w2)]),
      tc_Status = ''Idle'', tc_TransferType = ''ScheduleDownload'',
      tc_CommandKey = da_CommandKey a, tc_Initiator = da_Initiator a,
      tc_FaultCode = 0, tc_FaultString = '''', tc_StartTime = 0, tc_CompleteTime = 0,
      tr_priv = Null\<rparr>"

text \<open>\<open>idx\<close> is the index the data model gives to the new instance. At most two windows are
  read.\<close>

definition addScheduleDownload ::
  "env \<Rightarrow> nat \<Rightarrow> download_args \<Rightarrow> plugin \<Rightarrow> amxd_status \<times> plugin" where
  "addScheduleDownload env idx a st =
     (case da_TimeWindowList a of
        [] \<Rightarrow> (amxd_status_invalid_arg, st)
      | w1 # ws \<Rightarrow>
          (if env_apply env (Wr_add_inst idx)
           then (amxd_status_ok, raise_event [Sd_added idx]
                   (st\<lparr>downloads := downloads st @ [(idx, new_transfer a w1 ws)]\<rparr>))
           else (amxd_status_refused, st)))"

definition scheduleDownload_added :: "nat \<Rightarrow> plugin \<Rightarrow> plugin" where
  "scheduleDownload_added idx st = transfers_timewindow_start idx (transfers_transfer_add_info idx st)"

text \<open>The window and completion handlers dereference the transfer object without a null check.\<close>

definition timewindow_started :: "env \<Rightarrow> nat \<Rightarrow> nat \<Rightarrow> plugin \<Rightarrow> plugin" where
  "timewindow_started env i j st =
     (case get_transfer st i of
        None \<Rightarrow> st\<lparr>mem_error := True\<rparr>
      | Some t \<Rightarrow>
          (case tr_priv t of
             Null \<Rightarrow> st
           | Freed \<Rightarrow> st\<lparr>mem_error := True\<rparr>
           | Valid info \<Rightarrow>
               transfers_handle_transfer env i
                 (upd_transfer i (\<lambda>t. t\<lparr>tr_priv := Valid
                    (info\<lparr>ti_withinTimeWindow := True, ti_lastTimeWindow := j\<rparr>)\<rparr>) st)))"

definition timewindow_ended :: "env \<Rightarrow> nat \<Rightarrow> nat \<Rightarrow> plugin \<Rightarrow> plugin" where
  "timewindow_ended env i j st =
     (case get_transfer st i of
        None \<Rightarrow> st\<lparr>mem_error := True\<rparr>
      | Some t \<Rightarrow>
          (case tr_priv t of
             Null \<Rightarrow> st
           | Freed \<Rightarrow> st\<lparr>mem_error := True\<rparr>
           | Valid info \<Rightarrow>
               transfers_handle_transfer env i
                 (upd_transfer i (\<lambda>t. t\<lparr>tr_priv := Valid (info\<lparr>ti_withinTimeWindow := False\<rparr>)\<rparr>) st)))"

definition schedule_download_transfer_failed :: "env \<Rightarrow> nat \<Rightarrow> plugin \<Rightarrow> plugin" where
  "schedule_download_transfer_failed env i st =
     (case get_transfer st i of
        None \<Rightarrow> st\<lparr>mem_error := True\<rparr>
      | Some t \<Rightarrow>
          (case tr_priv t of
             Null \<Rightarrow> st
           | Freed \<Rightarrow> st\<lparr>mem_error := True\<rparr>
           | Valid info \<Rightarrow>
               (case find_window t (ti_lastTimeWindow info) of
                  None \<Rightarrow> st
                | Some w \<Rightarrow>
                    (if runs_unattended (transfers_timewindow_get_mode (Some w)) then
                       (if ti_withinTimeWindow info then
                          (let retries = transfers_timewindow_get_maxretries (Some w) in
                           if retries \<le> 0 then
                             (if ti_numberOfTimeWindow info = ti_lastTimeWindow info
                              then transfers_transfer_done env i st else st)
                           else transfers_start_transfer env i
                                  (transfers_timewindow_set_maxretries env i (ti_lastTimeWindow info)
                                     (retries - 1) st))
                        else st)
                     else st))))"

definition app_stopped :: "env \<Rightarrow> plugin \<Rightarrow> plugin" where
  "app_stopped env st = transfers_save env st"

definition scheduleDownload_del_inst :: "nat \<Rightarrow> plugin \<Rightarrow> amxd_status \<times> plugin" where
  "scheduleDownload_del_inst idx st = (amxd_status_ok, transfers_transfer_del_info idx st)"

fun handle_event :: "env \<Rightarrow> dm_event \<Rightarrow> plugin \<Rightarrow> plugin" where
  "handle_event env (Tw_started i j) st = timewindow_started env i j st"
| "handle_event env (Tw_ended i j) st = timewindow_ended env i j st"
| "handle_event env (Tc_failed i) st = schedule_download_transfer_failed env i st"
| "handle_event env (Sd_added i) st = scheduleDownload_added i st"

text \<open>A restart: the parameters are persistent, the infos, timers and undelivered events are lost,
  then \<open>transfers_init\<close> runs its deferred initialisation.\<close>

definition forget_infos :: "plugin \<Rightarrow> plugin" where
  "forget_infos st =
     transfers_firmware_init
       (st\<lparr>downloads := map (\<lambda>(k, t). (k, t\<lparr>tr_priv := Null,
              tr_windows := map (\<lambda>(j, w). (j, w\<lparr>tw_priv := Null\<rparr>)) (tr_windows t)\<rparr>)) (downloads st),
           pending := []\<rparr>)"

definition plugin_restart :: "env \<Rightarrow> plugin \<Rightarrow> plugin" where
  "plugin_restart env st = deferred_init_timer_cb env (forget_infos st)"

definition window_timer :: "plugin \<Rightarrow> nat \<Rightarrow> nat \<Rightarrow> tw_side \<Rightarrow> amxp_timer" where
  "window_timer st i j side =
     (case get_window st i j of
        None \<Rightarrow> No_timer
      | Some w \<Rightarrow>
          (case tw_priv w of
             Valid info \<Rightarrow> (case side of Win_start \<Rightarrow> twi_start info | Win_end \<Rightarrow> twi_end info)
           | _ \<Rightarrow> No_timer))"

inductive plugin_step :: "(env \<Rightarrow> bool) \<Rightarrow> plugin \<Rightarrow> plugin \<Rightarrow> bool" for E where
  add: "E env \<Longrightarrow> idx \<notin> set (map fst (downloads st)) \<Longrightarrow>
     plugin_step E st (snd (addScheduleDownload env idx a st))"
| deliver: "E env \<Longrightarrow> pending st = e # es \<Longrightarrow>
     plugin_step E st (handle_event env e (st\<lparr>pending := es\<rparr>))"
| drop_event: "pending st = e # es \<Longrightarrow> plugin_step E st (st\<lparr>pending := es\<rparr>)"
| window_start: "E env \<Longrightarrow> window_timer st i j Win_start = Timer (Some ms) \<Longrightarrow>
     plugin_step E st (timewindow_start_timer_cb env i j st)"
| window_end: "E env \<Longrightarrow> window_timer st i j Win_end = Timer (Some ms) \<Longrightarrow>
     plugin_step E st (timewindow_end_timer_cb env i j st)"
| notification: "E env \<Longrightarrow> plugin_step E st (firmwareimage_notification env status log st)"
| save: "E env \<Longrightarrow> plugin_step E st (app_stopped env st)"
| restart: "E env \<Longrightarrow> plugin_step E st (plugin_restart env st)"

definition plugin_start :: plugin where
  "plugin_start = \<lparr>downloads = [], transfer_in_progress = None, pending = [], download_calls = [],
     mem_error = False\<rparr>"

inductive plugin_reachable :: "(env \<Rightarrow> bool) \<Rightarrow> plugin \<Rightarrow> bool" for E where
  start: "plugin_reachable E plugin_start"
| step: "plugin_reachable E st \<Longrightarrow> plugin_step E st st' \<Longrightarrow> plugin_reachable E st'"

subsection \<open>Well-formed states\<close>

definition info_ok :: "transfer \<Rightarrow> transfer_info \<Rightarrow> bool" where
  "info_ok t info \<longleftrightarrow> ti_numberOfTimeWindow info = length (tr_windows t) \<and>
     (ti_lastTimeWindow info = 0 \<or> ti_lastTimeWindow info \<in> set (map fst (tr_windows t)))"

lemma info_ok_frame [simp]:
  "info_ok (t\<lparr>tc_Status := a\<rparr>) = info_ok t"
  "info_ok (t\<lparr>tc_StartTime := b, tc_CompleteTime := c, tc_FaultCode := d, tc_FaultString := e\<rparr>) = info_ok t"
  "info_ok (t\<lparr>tr_priv := f\<rparr>) = info_ok t"
  "info_ok (upd_window j g t) = info_ok t"
  by (simp_all add: fun_eq_iff info_ok_def)

definition transfer_ok :: "transfer \<Rightarrow> bool" where
  "transfer_ok t \<longleftrightarrow>
     tr_priv t \<noteq> Freed \<and> (\<forall>info. tr_priv t = Valid info \<longrightarrow> info_ok t info) \<and>
     (\<forall>w\<in>snd ` set (tr_windows t). tw_priv w \<noteq> Freed) \<and>
     tc_Status t \<in> {''Idle'', ''In Progress'', ''Failed'', ''Done''}"

fun event_ok :: "plugin \<Rightarrow> dm_event \<Rightarrow> bool" where
  "event_ok st (Tw_started i j) = (get_window st i j \<noteq> None)"
| "event_ok st (Tw_ended i j) = (get_window st i j \<noteq> None)"
| "event_ok st (Tc_failed i) = (get_transfer st i \<noteq> None)"
| "event_ok st (Sd_added i) = (get_transfer st i \<noteq> None)"

definition plugin_ok :: "plugin \<Rightarrow> bool" where
  "plugin_ok st \<longleftrightarrow>
     distinct (map fst (downloads st)) \<and> \<not> mem_error st \<and>
     (\<forall>t\<in>snd ` set (downloads st). transfer_ok t) \<and> (\<forall>e\<in>set (pending st). event_ok st e)"

lemma plugin_ok_transfer: "plugin_ok st \<Longrightarrow> get_transfer st i = Some t \<Longrightarrow> transfer_ok t"
  by (auto simp: plugin_ok_def get_transfer_def dest!: map_of_SomeD)

lemma find_window_None_iff: "find_window t j = None \<longleftrightarrow> j \<notin> set (map fst (tr_windows t))"
  by (auto simp: find_window_def map_of_eq_None_iff)

lemma event_ok_shape:
  assumes "\<And>i. map_option (\<lambda>t. map fst (tr_windows t)) (get_transfer st' i) =
                map_option (\<lambda>t. map fst (tr_windows t)) (get_transfer st i)"
  shows "event_ok st' e = event_ok st e"
proof -
  have "(get_transfer st' i = None) = (get_transfer st i = None)" for i
    using assms [of i] by (metis option.map_disc_iff)
  moreover have "(get_window st' i j = None) = (get_window st i j = None)" for i j
  proof (cases "get_transfer st i")
    case None
    with assms [of i] show ?thesis by (simp add: get_window_def)
  next
    case (Some t)
    with assms [of i] obtain u where "get_transfer st' i = Some u"
      "map fst (tr_windows u) = map fst (tr_windows t)" by auto
    with Some show ?thesis by (simp only: get_window_def find_window_None_iff Option.bind.simps)
  qed
  ultimately show ?thesis by (cases e) simp_all
qed

lemma plugin_ok_upd:
  assumes "plugin_ok st"
    and "\<And>t. get_transfer st i = Some t \<Longrightarrow> transfer_ok t \<Longrightarrow>
           transfer_ok (f t) \<and> map fst (tr_windows (f t)) = map fst (tr_windows t)"
  shows "plugin_ok (upd_transfer i f st)"
proof -
  have "event_ok (upd_transfer i f st) e = event_ok st e" for e
  proof (rule event_ok_shape)
    fix k
    show "map_option (\<lambda>t. map fst (tr_windows t)) (get_transfer (upd_transfer i f st) k) =
        map_option (\<lambda>t. map fst (tr_windows t)) (get_transfer st k)"
      using assms plugin_ok_transfer [OF assms(1)] by (cases "get_transfer st k") auto
  qed
  moreover have "transfer_ok t" if "t \<in> snd ` set (downloads (upd_transfer i f st))" for t
  proof -
    from that obtain k u where ku: "(k, u) \<in> set (downloads st)" "t = (if k = i then f u else u)"
      by (auto simp: upd_transfer_def)
    with assms(1) have "transfer_ok u" "get_transfer st k = Some u"
      by (auto simp: plugin_ok_def get_transfer_def)
    with ku assms(2) show ?thesis by auto
  qed
  ultimately show ?thesis using assms(1) by (simp add: plugin_ok_def)
qed

lemma plugin_ok_raise [inv_intros]:
  "plugin_ok st \<Longrightarrow> \<forall>e\<in>set evs. event_ok st e \<Longrightarrow> plugin_ok (raise_event evs st)"
proof -
  have "event_ok (raise_event evs st) e = event_ok st e" for e by (cases e) simp_all
  then show "plugin_ok st \<Longrightarrow> \<forall>e\<in>set evs. event_ok st e \<Longrightarrow> plugin_ok (raise_event evs st)"
    by (auto simp: plugin_ok_def)
qed

lemma plugin_ok_frame [simp]:
  "plugin_ok (st\<lparr>transfer_in_progress := x\<rparr>) = plugin_ok st"
  "plugin_ok (st\<lparr>download_calls := y\<rparr>) = plugin_ok st"
proof -
  have "event_ok (st\<lparr>transfer_in_progress := x\<rparr>) e = event_ok st e"
    "event_ok (st\<lparr>download_calls := y\<rparr>) e = event_ok st e" for e
    by (cases e; simp add: get_window_def get_transfer_def)+
  then show "plugin_ok (st\<lparr>transfer_in_progress := x\<rparr>) = plugin_ok st"
    "plugin_ok (st\<lparr>download_calls := y\<rparr>) = plugin_ok st"
    by (simp_all add: plugin_ok_def)
qed

lemma transfer_ok_window:
  "transfer_ok t \<Longrightarrow> (\<And>w. tw_priv w \<noteq> Freed \<Longrightarrow> tw_priv (f w) \<noteq> Freed) \<Longrightarrow> transfer_ok (upd_window j f t)"
  by (auto simp: transfer_ok_def info_ok_def upd_window_def case_prod_unfold comp_def
      split: cptr.splits)

lemma plugin_ok_win:
  "plugin_ok st \<Longrightarrow> (\<And>w. tw_priv w \<noteq> Freed \<Longrightarrow> tw_priv (f w) \<noteq> Freed) \<Longrightarrow> plugin_ok (upd_win i j f st)"
  unfolding upd_win_def by (rule plugin_ok_upd) (auto intro: transfer_ok_window)

lemma plugin_ok_window: "plugin_ok st \<Longrightarrow> get_window st i j = Some w \<Longrightarrow> tw_priv w \<noteq> Freed"
proof -
  assume ok: "plugin_ok st" and "get_window st i j = Some w"
  then obtain t where t: "get_transfer st i = Some t" "(j, w) \<in> set (tr_windows t)"
    by (auto simp: get_window_def find_window_def dest: map_of_SomeD split: Option.bind_splits)
  with plugin_ok_transfer [OF ok] show "tw_priv w \<noteq> Freed"
    by (fastforce simp: transfer_ok_def)
qed

subsection \<open>Every handler keeps the state well formed\<close>

lemma set_status_ok [inv_intros]: "plugin_ok st \<Longrightarrow> plugin_ok (transfers_set_status env i s st)"
  by (cases s) (auto simp: transfers_set_status_def transfer_ok_def info_ok_def
      intro!: plugin_ok_raise plugin_ok_upd split: option.splits)

lemma update_tc_ok [inv_intros]:
  "plugin_ok st \<Longrightarrow> plugin_ok (transfers_update_transfercomplete env i a b c d st)"
  by (auto simp: transfers_update_transfercomplete_def transfer_ok_def info_ok_def
      intro!: plugin_ok_upd split: option.splits)

lemma tw_set_status_ok [inv_intros]: "plugin_ok st \<Longrightarrow> plugin_ok (timewindow_set_status env i j s st)"
  by (auto simp: timewindow_set_status_def timewindow_events_def
      intro!: plugin_ok_raise plugin_ok_win split: option.splits)

lemma set_maxretries_ok [inv_intros]:
  "plugin_ok st \<Longrightarrow> plugin_ok (transfers_timewindow_set_maxretries env i j v st)"
  by (auto simp: transfers_timewindow_set_maxretries_def intro!: plugin_ok_win split: option.splits)

lemma set_offset_ok [inv_intros]:
  "plugin_ok st \<Longrightarrow> plugin_ok (timewindow_set_time_offset env i j n v st)"
  by (auto simp: timewindow_set_time_offset_def intro!: plugin_ok_win split: option.splits if_splits)

text \<open>The walks over the windows of a transfer and over all transfers keep what each visit keeps.\<close>

lemma both_windows_keeps:
  "P st \<Longrightarrow> (\<And>j st. P st \<Longrightarrow> P (f i j st)) \<Longrightarrow> P (both_windows f i st)"
  by (auto simp: both_windows_def Let_def split: option.splits)

lemma for_each_keeps:
  assumes "P st" "\<And>i st. P st \<Longrightarrow> P (f i st)"
  shows "P (for_each_download f st)"
proof -
  have "P st \<Longrightarrow> P (fold f ks st)" for ks st
    by (induction ks arbitrary: st) (auto intro: assms(2))
  with assms(1) show ?thesis by (simp add: for_each_download_def)
qed

lemma tw_add_info_ok [inv_intros]: "plugin_ok st \<Longrightarrow> plugin_ok (transfers_timewindow_add_info i st)"
  unfolding transfers_timewindow_add_info_def
  by (erule both_windows_keeps)
    (auto simp: timewindow_internal_add_info_def intro!: plugin_ok_win split: option.splits)

lemma tw_start_ok [inv_intros]: "plugin_ok st \<Longrightarrow> plugin_ok (transfers_timewindow_start i st)"
  unfolding transfers_timewindow_start_def
  by (erule both_windows_keeps)
    (auto simp: timewindow_internal_start_def intro!: plugin_ok_win dest: plugin_ok_window
      split: option.splits cptr.splits timewindow_status.splits)

lemma tw_save_ok [inv_intros]: "plugin_ok st \<Longrightarrow> plugin_ok (transfers_timewindow_save env i st)"
  unfolding transfers_timewindow_save_def
  by (erule both_windows_keeps)
    (auto simp: timewindow_internal_save_def inv_intros dest: plugin_ok_window
      split: option.splits cptr.splits timewindow_status.splits)

lemma do_firmwareupgrade_ok [inv_intros]:
  "plugin_ok st \<Longrightarrow> plugin_ok (snd (transfers_firmware_do_firmwareupgrade env i st))"
  by (auto simp: transfers_firmware_do_firmwareupgrade_def upgrade_firmware_def split: option.splits)

lemma firmware_transfer_done_ok [inv_intros]:
  "plugin_ok st \<Longrightarrow> plugin_ok (transfers_firmware_transfer_done i st)"
  by (auto simp: transfers_firmware_transfer_done_def)

lemma start_transfer_ok [inv_intros]: "plugin_ok st \<Longrightarrow> plugin_ok (transfers_start_transfer env i st)"
  using do_firmwareupgrade_ok [OF set_status_ok, of st env i env i transfer_status_in_progress]
  by (auto simp: transfers_start_transfer_def case_prod_unfold inv_intros split: option.splits)

lemma transfer_done_ok [inv_intros]: "plugin_ok st \<Longrightarrow> plugin_ok (transfers_transfer_done env i st)"
  by (auto simp: transfers_transfer_done_def inv_intros split: option.splits)

lemma firmwareupgrade_done_ok [inv_intros]:
  "plugin_ok st \<Longrightarrow> plugin_ok (transfers_firmwareupgrade_done env i c s st)"
  by (auto simp: transfers_firmwareupgrade_done_def Let_def transfer_ok_def inv_intros
      dest: plugin_ok_transfer split: option.splits cptr.splits)

lemma handle_transfer_ok [inv_intros]: "plugin_ok st \<Longrightarrow> plugin_ok (transfers_handle_transfer env i st)"
  by (auto simp: transfers_handle_transfer_def transfer_ok_def inv_intros
      dest: plugin_ok_transfer split: option.splits cptr.splits)

lemma scan_windows_ok:
  "info_ok t info \<Longrightarrow> info_ok t (fst (scan_windows t js info))"
proof (induction t js info rule: scan_windows.induct)
  case (2 t i js info)
  show ?case
  proof (cases "find_window t i")
    case None
    with 2 show ?thesis by simp
  next
    case (Some w)
    then have "i \<in> set (map fst (tr_windows t))" using find_window_None_iff [of t i] by simp
    with 2 Some show ?thesis
      by (cases "transfers_timewindow_get_status (Some w)") (simp_all add: info_ok_def)
  qed
qed simp

lemma transfer_ok_set_priv:
  "transfer_ok t \<Longrightarrow> info_ok t info \<Longrightarrow> transfer_ok (t\<lparr>tr_priv := Valid info\<rparr>)"
  by (simp add: transfer_ok_def info_ok_def)

lemma add_info_ok [inv_intros]:
  assumes "plugin_ok st"
  shows "plugin_ok (transfers_transfer_add_info i st)"
proof (cases "get_transfer st i")
  case None
  with assms show ?thesis by (simp add: transfers_transfer_add_info_def)
next
  case (Some t)
  let ?info = "\<lparr>ti_numberOfTimeWindow = length (tr_windows t), ti_lastTimeWindow = 0, ti_withinTimeWindow = False\<rparr>"
  have "info_ok t ?info" by (simp add: info_ok_def)
  then have "plugin_ok (upd_transfer i (\<lambda>t. t\<lparr>tr_priv := Valid x\<rparr>) st)"
    if "x = ?info \<or> x = fst (scan_windows t js ?info)" for x js
    using that Some assms scan_windows_ok
    by (intro plugin_ok_upd) (auto intro!: transfer_ok_set_priv)
  with Some assms show ?thesis
    by (auto simp: transfers_transfer_add_info_def Let_def case_prod_unfold intro!: tw_add_info_ok)
qed

lemma in_progress_ok [inv_intros]:
  "plugin_ok st \<Longrightarrow> plugin_ok (transfers_handle_in_progress_transfer env i st)"
  by (auto simp: transfers_handle_in_progress_transfer_def handle_pending_upgrade_def inv_intros
      split: option.splits)

lemma save_ok [inv_intros]: "plugin_ok st \<Longrightarrow> plugin_ok (transfers_save env st)"
  unfolding transfers_save_def by (erule for_each_keeps) (rule inv_intros)

lemma notification_ok [inv_intros]:
  "plugin_ok st \<Longrightarrow> plugin_ok (firmwareimage_notification env s l st)"
  by (auto simp: firmwareimage_notification_def Let_def inv_intros split: option.splits)

lemma plugin_ok_info:
  assumes "plugin_ok st" "get_transfer st i = Some t" "info_ok t info"
  shows "plugin_ok (upd_transfer i (\<lambda>t. t\<lparr>tr_priv := Valid info\<rparr>) st)"
  using assms by (intro plugin_ok_upd) (auto intro: transfer_ok_set_priv)

lemma handle_with_info_ok:
  assumes "plugin_ok st" "get_transfer st i = Some t" "tr_priv t = Valid info"
    and "info_ok t info \<Longrightarrow> info_ok t info'"
  shows "plugin_ok (transfers_handle_transfer env i (upd_transfer i (\<lambda>t. t\<lparr>tr_priv := Valid info'\<rparr>) st))"
proof -
  have "info_ok t info" using plugin_ok_transfer [OF assms(1,2)] assms(3) by (simp add: transfer_ok_def)
  with assms(1,2,4) show ?thesis by (auto intro: handle_transfer_ok plugin_ok_info)
qed

lemma handle_event_ok:
  assumes "plugin_ok st" "event_ok st e"
  shows "plugin_ok (handle_event env e st)"
proof (cases e)
  case (Tw_started i j)
  with assms(2) obtain t where t: "get_transfer st i = Some t" "find_window t j \<noteq> None"
    by (auto simp: get_window_def split: Option.bind_splits)
  then have "j \<in> set (map fst (tr_windows t))" using find_window_None_iff [of t j] by simp
  then have "info_ok t info \<Longrightarrow>
      info_ok t (info\<lparr>ti_withinTimeWindow := True, ti_lastTimeWindow := j\<rparr>)" for info
    by (simp add: info_ok_def)
  moreover have "tr_priv t \<noteq> Freed"
    using plugin_ok_transfer [OF assms(1) t(1)] by (simp add: transfer_ok_def)
  ultimately have "plugin_ok (timewindow_started env i j st)"
    using assms(1) t(1) handle_with_info_ok [OF assms(1) t(1)]
    by (cases "tr_priv t") (simp_all add: timewindow_started_def)
  with Tw_started show ?thesis by simp
next
  case (Tw_ended i j)
  with assms(2) obtain t where t: "get_transfer st i = Some t"
    by (auto simp: get_window_def split: Option.bind_splits)
  have "info_ok t info \<Longrightarrow> info_ok t (info\<lparr>ti_withinTimeWindow := False\<rparr>)" for info
    by (simp add: info_ok_def)
  moreover have "tr_priv t \<noteq> Freed"
    using plugin_ok_transfer [OF assms(1) t] by (simp add: transfer_ok_def)
  ultimately have "plugin_ok (timewindow_ended env i j st)"
    using assms(1) t handle_with_info_ok [OF assms(1) t]
    by (cases "tr_priv t") (simp_all add: timewindow_ended_def)
  with Tw_ended show ?thesis by simp
next
  case (Tc_failed i)
  with assms obtain t where t: "get_transfer st i = Some t" by auto
  with Tc_failed plugin_ok_transfer [OF assms(1) t] assms(1) show ?thesis
    by (cases "tr_priv t")
      (auto simp: schedule_download_transfer_failed_def transfer_ok_def Let_def inv_intros
        split: option.splits)
next
  case (Sd_added i)
  with assms(1) show ?thesis by (simp add: scheduleDownload_added_def inv_intros)
qed

lemma plugin_ok_pop: "plugin_ok st \<Longrightarrow> pending st = e # es \<Longrightarrow> plugin_ok (st\<lparr>pending := es\<rparr>) \<and> event_ok (st\<lparr>pending := es\<rparr>) e"
proof -
  have "event_ok (st\<lparr>pending := es\<rparr>) x = event_ok st x" for x
    by (cases x) (simp_all add: get_window_def get_transfer_def)
  then show "plugin_ok st \<Longrightarrow> pending st = e # es \<Longrightarrow> plugin_ok (st\<lparr>pending := es\<rparr>) \<and> event_ok (st\<lparr>pending := es\<rparr>) e"
    by (simp add: plugin_ok_def)
qed

lemma append_ok:
  assumes "plugin_ok st" "idx \<notin> set (map fst (downloads st))" "transfer_ok t"
  shows "plugin_ok (st\<lparr>downloads := downloads st @ [(idx, t)]\<rparr>) \<and>
    event_ok (st\<lparr>downloads := downloads st @ [(idx, t)]\<rparr>) (Sd_added idx)"
proof -
  have "event_ok (st\<lparr>downloads := downloads st @ [(idx, t)]\<rparr>) e" if "event_ok st e" for e
    using that assms(2)
    by (cases e) (auto simp: get_window_def get_transfer_def map_add_def split: Option.bind_splits option.splits)
  with assms show ?thesis
    by (auto simp: plugin_ok_def get_transfer_def map_add_def split: option.splits)
qed

lemma new_transfer_ok: "transfer_ok (new_transfer a w1 ws)"
  by (auto simp: transfer_ok_def new_transfer_def new_window_def split: list.splits)

lemma add_ok:
  assumes "plugin_ok st" "idx \<notin> set (map fst (downloads st))"
  shows "plugin_ok (snd (addScheduleDownload env idx a st))"
  using assms append_ok [OF assms new_transfer_ok]
  by (auto simp: addScheduleDownload_def intro!: plugin_ok_raise split: list.splits)

lemma restart_keeps:
  assumes "P (forget_infos st)"
    and "\<And>i st. P st \<Longrightarrow> P (transfers_transfer_add_info i st)"
    and "\<And>i st. P st \<Longrightarrow> P (transfers_handle_in_progress_transfer env i st)"
    and "\<And>i st. P st \<Longrightarrow> P (transfers_timewindow_start i st)"
  shows "P (plugin_restart env st)"
  unfolding plugin_restart_def deferred_init_timer_cb_def
  using assms(1) by (rule for_each_keeps) (intro assms)

lemma restart_ok: "plugin_ok st \<Longrightarrow> plugin_ok (plugin_restart env st)"
proof (rule restart_keeps [where P = plugin_ok])
  show "plugin_ok st \<Longrightarrow> plugin_ok (forget_infos st)"
    by (auto simp: plugin_ok_def transfer_ok_def forget_infos_def transfers_firmware_init_def
        case_prod_unfold comp_def)
qed (rule inv_intros, assumption)+

lemma plugin_step_ok: "plugin_step E st st' \<Longrightarrow> plugin_ok st \<Longrightarrow> plugin_ok st'"
  by (induction rule: plugin_step.induct)
    (auto simp: timewindow_start_timer_cb_def timewindow_end_timer_cb_def app_stopped_def inv_intros
      add_ok restart_ok handle_event_ok dest: plugin_ok_pop)

lemma plugin_start_ok: "plugin_ok plugin_start"
  by (simp add: plugin_ok_def plugin_start_def)

lemma plugin_reachable_ok: "plugin_reachable E st \<Longrightarrow> plugin_ok st"
  by (induction rule: plugin_reachable.induct) (auto intro: plugin_start_ok plugin_step_ok)

end
