(* ===== verification/Transfer_Props.thy ===== *)
theory Transfer_Props
  imports Transfers
begin

section \<open>Properties of the scheduled downloads\<close>

text \<open>
  The safety and progress properties of the transfer state machine of \<^theory_text>\<open>Transfers\<close>. Two
  invariants carry them: \<open>plugin_ok\<close> (memory and shape, proved there for every environment)
  and \<open>tip_ok\<close> below (the transfer whose upgrade is running is a firmware transfer in status
  In Progress or Failed), which needs a data model that accepts the writes.
\<close>

definition accepting :: "(env \<Rightarrow> bool) \<Rightarrow> bool" where
  "accepting E \<longleftrightarrow> (\<forall>env wr. E env \<longrightarrow> env_apply env wr)"

definition active_status :: "string \<Rightarrow> bool" where
  "active_status v \<longleftrightarrow> v = ''In Progress'' \<or> v = ''Failed''"

definition tip_ok :: "plugin \<Rightarrow> bool" where
  "tip_ok st \<longleftrightarrow> (\<forall>i. transfer_in_progress st = Some i \<longrightarrow>
     (\<exists>t. get_transfer st i = Some t \<and> tr_FileType t = fw_image \<and> active_status (tc_Status t)))"

interpretation tc_codec: status_codec transfer_status_value transfer_status_of
  transfer_status_undefined
proof unfold_locales
  fix s v
  show "transfer_status_value s = Some v \<Longrightarrow> transfer_status_of v = s"
    by (cases s) (auto simp: transfer_status_of_def)
next
  fix v
  show "transfer_status_of v \<noteq> transfer_status_undefined \<Longrightarrow>
      transfer_status_value (transfer_status_of v) = Some v"
    by (auto simp: transfer_status_of_def split: if_splits)
qed simp

lemma transfer_is_done_iff: "transfer_is_done (Some t) \<longleftrightarrow> tc_Status t = ''Done''"
  using tc_codec.decode_eq_iff [of transfer_status_done "''Done''"]
  by (simp add: transfer_is_done_def transfers_get_status_def)

subsection \<open>Frames: what an operation on one instance leaves alone\<close>

lemma update_tc_get:
  "get_transfer (transfers_update_transfercomplete env i a b c d st) k =
     (if k = i \<and> env_apply env (Wr_tc_update i) then
        map_option (\<lambda>t. t\<lparr>tc_StartTime := case_option (tc_StartTime t) id a,
               tc_CompleteTime := case_option (tc_CompleteTime t) id b,
               tc_FaultCode := case_option (tc_FaultCode t) id c,
               tc_FaultString := case_option (tc_FaultString t) id d\<rparr>) (get_transfer st k)
      else get_transfer st k)"
  by (auto simp: transfers_update_transfercomplete_def split: option.splits)

lemma update_tc_frame [simp]:
  "transfer_in_progress (transfers_update_transfercomplete env i a b c d st) = transfer_in_progress st"
  "pending (transfers_update_transfercomplete env i a b c d st) = pending st"
  "download_calls (transfers_update_transfercomplete env i a b c d st) = download_calls st"
  by (auto simp: transfers_update_transfercomplete_def split: option.splits)

lemma set_status_frame [simp]:
  "transfer_in_progress (transfers_set_status env i s st) = transfer_in_progress st"
  "download_calls (transfers_set_status env i s st) = download_calls st"
  by (auto simp: transfers_set_status_def split: option.splits)

lemma set_status_get:
  "get_transfer (transfers_set_status env i s st) k =
     (case transfer_status_value s of
        None \<Rightarrow> get_transfer st k
      | Some v \<Rightarrow> if k = i \<and> env_apply env (Wr_tc_status i v)
                  then map_option (\<lambda>t. t\<lparr>tc_Status := v\<rparr>) (get_transfer st k) else get_transfer st k)"
  by (auto simp: transfers_set_status_def split: option.splits)

lemma set_status_pending:
  "set (pending (transfers_set_status env i s st)) \<subseteq>
     set (pending st) \<union> (if s = transfer_status_failed then {Tc_failed i} else {})"
  by (cases s) (auto simp: transfers_set_status_def split: option.splits)

lemma firmware_transfer_done_frame [simp]:
  "get_transfer (transfers_firmware_transfer_done i st) k = get_transfer st k"
  "pending (transfers_firmware_transfer_done i st) = pending st"
  "download_calls (transfers_firmware_transfer_done i st) = download_calls st"
  by (auto simp: transfers_firmware_transfer_done_def get_transfer_def)

lemma do_firmwareupgrade_frame [simp]:
  "get_transfer (snd (transfers_firmware_do_firmwareupgrade env i st)) k = get_transfer st k"
  "pending (snd (transfers_firmware_do_firmwareupgrade env i st)) = pending st"
  by (auto simp: transfers_firmware_do_firmwareupgrade_def upgrade_firmware_def get_transfer_def
      split: option.splits)

lemma do_firmwareupgrade_tip:
  "transfer_in_progress (snd (transfers_firmware_do_firmwareupgrade env i st)) \<in>
     {transfer_in_progress st, None, Some i}"
  by (auto simp: transfers_firmware_do_firmwareupgrade_def upgrade_firmware_def split: option.splits)

lemma get_transfer_tip [simp]:
  "get_transfer (st\<lparr>transfer_in_progress := x\<rparr>) k = get_transfer st k"
  "get_transfer (st\<lparr>pending := p\<rparr>) k = get_transfer st k"
  "get_transfer (st\<lparr>mem_error := b\<rparr>) k = get_transfer st k"
  "get_transfer (st\<lparr>download_calls := c\<rparr>) k = get_transfer st k"
  by (simp_all add: get_transfer_def)

subsection \<open>The running upgrade\<close>

lemma tip_ok_upd:
  assumes "tip_ok st"
    and "\<And>t. get_transfer st i = Some t \<Longrightarrow> tr_FileType (f t) = tr_FileType t \<and>
           (active_status (tc_Status t) \<longrightarrow> active_status (tc_Status (f t)))"
  shows "tip_ok (upd_transfer i f st)"
  using assms by (fastforce simp: tip_ok_def)

lemma tip_ok_cong:
  "tip_ok st \<Longrightarrow> transfer_in_progress st' = transfer_in_progress st \<Longrightarrow>
   (\<And>k t. get_transfer st k = Some t \<Longrightarrow>
      \<exists>u. get_transfer st' k = Some u \<and> tr_FileType u = tr_FileType t \<and> tc_Status u = tc_Status t) \<Longrightarrow>
   tip_ok st'"
  by (fastforce simp: tip_ok_def)

lemma tip_ok_set_status [inv_intros]:
  assumes "tip_ok st" "s \<in> {transfer_status_in_progress, transfer_status_failed} \<or> transfer_in_progress st \<noteq> Some i"
  shows "tip_ok (transfers_set_status env i s st)"
  using assms by (cases s) (auto simp: tip_ok_def set_status_get active_status_def)

lemma tip_ok_update_tc [inv_intros]:
  "tip_ok st \<Longrightarrow> tip_ok (transfers_update_transfercomplete env i a b c d st)"
  by (rule tip_ok_cong) (auto simp: update_tc_get)

lemma tip_ok_start_transfer [inv_intros]:
  assumes "\<forall>wr. env_apply env wr" "tip_ok st"
  shows "tip_ok (transfers_start_transfer env i st)"
proof (cases "\<exists>t. get_transfer st i = Some t \<and> tr_FileType t = fw_image")
  case False
  with assms(2) show ?thesis by (auto simp: transfers_start_transfer_def split: option.splits)
next
  case True
  then obtain t where t: "get_transfer st i = Some t" "tr_FileType t = fw_image" by blast
  let ?st1 = "transfers_set_status env i transfer_status_in_progress st"
  let ?st2 = "snd (transfers_firmware_do_firmwareupgrade env i ?st1)"
  have 1: "tip_ok ?st1" using assms(2) by (simp add: inv_intros)
  have g: "get_transfer ?st1 i = Some (t\<lparr>tc_Status := ''In Progress''\<rparr>)"
    using t assms(1) by (simp add: set_status_get)
  have "tip_ok ?st2"
    using 1 g t(2) do_firmwareupgrade_tip [of env i ?st1]
    by (auto simp: tip_ok_def active_status_def)
  then show ?thesis
    using t assms(2) by (auto simp: transfers_start_transfer_def case_prod_unfold inv_intros)
qed

lemma tip_ok_transfer_done [inv_intros]:
  assumes "tip_ok st"
  shows "tip_ok (transfers_transfer_done env i st)"
proof (cases "get_transfer st i")
  case None
  with assms show ?thesis by (simp add: transfers_transfer_done_def)
next
  case (Some t)
  have "tip_ok (transfers_firmware_transfer_done i st)"
    using assms by (auto simp: transfers_firmware_transfer_done_def tip_ok_def)
  moreover have "transfer_in_progress (transfers_firmware_transfer_done i st) \<noteq> Some i"
    using Some by (auto simp: transfers_firmware_transfer_done_def)
  moreover have "transfer_in_progress st \<noteq> Some i" if "tr_FileType t \<noteq> fw_image"
    using that assms Some by (auto simp: tip_ok_def)
  ultimately show ?thesis
    using assms Some by (auto simp: transfers_transfer_done_def intro!: tip_ok_set_status)
qed

lemma tip_ok_mem_error [simp]: "tip_ok (st\<lparr>mem_error := b\<rparr>) = tip_ok st"
  by (simp add: tip_ok_def)

lemma tip_ok_firmwareupgrade_done [inv_intros]:
  "tip_ok st \<Longrightarrow> tip_ok (transfers_firmwareupgrade_done env i c s st)"
  by (auto simp: transfers_firmwareupgrade_done_def Let_def inv_intros
      split: option.splits cptr.splits)

lemma tip_ok_handle_transfer [inv_intros]:
  "\<forall>wr. env_apply env wr \<Longrightarrow> tip_ok st \<Longrightarrow> tip_ok (transfers_handle_transfer env i st)"
  by (auto simp: transfers_handle_transfer_def inv_intros split: option.splits cptr.splits)

lemma tip_ok_win [inv_intros]: "tip_ok st \<Longrightarrow> tip_ok (upd_win i j f st)"
  unfolding upd_win_def by (rule tip_ok_upd) simp_all

lemma tip_ok_raise [simp]: "tip_ok (raise_event evs st) = tip_ok st"
  by (simp add: tip_ok_def)

lemma tip_ok_offset [inv_intros]: "tip_ok st \<Longrightarrow> tip_ok (timewindow_set_time_offset env i j n v st)"
  by (auto simp: timewindow_set_time_offset_def inv_intros split: option.splits)

lemma tip_ok_windows [inv_intros]:
  "tip_ok st \<Longrightarrow> tip_ok (transfers_timewindow_add_info i st)"
  "tip_ok st \<Longrightarrow> tip_ok (transfers_timewindow_start i st)"
  "tip_ok st \<Longrightarrow> tip_ok (transfers_timewindow_save env i st)"
  unfolding transfers_timewindow_add_info_def transfers_timewindow_start_def
    transfers_timewindow_save_def
  by (erule both_windows_keeps; auto simp: timewindow_internal_add_info_def
      timewindow_internal_start_def timewindow_internal_save_def inv_intros
      split: option.splits cptr.splits timewindow_status.splits)+

lemma tip_ok_priv [inv_intros]: "tip_ok st \<Longrightarrow> tip_ok (upd_transfer i (\<lambda>t. t\<lparr>tr_priv := p\<rparr>) st)"
  by (rule tip_ok_upd) simp_all

lemma tip_ok_add_info [inv_intros]: "tip_ok st \<Longrightarrow> tip_ok (transfers_transfer_add_info i st)"
  by (auto simp: transfers_transfer_add_info_def Let_def case_prod_unfold intro!: inv_intros
      split: option.splits)

lemma tip_ok_in_progress [inv_intros]:
  "tip_ok st \<Longrightarrow> tip_ok (transfers_handle_in_progress_transfer env i st)"
  by (auto simp: transfers_handle_in_progress_transfer_def handle_pending_upgrade_def inv_intros
      split: option.splits)

lemma tip_ok_save [inv_intros]: "tip_ok st \<Longrightarrow> tip_ok (transfers_save env st)"
  unfolding transfers_save_def by (erule for_each_keeps) (rule inv_intros)

lemma tip_ok_notification: "tip_ok st \<Longrightarrow> tip_ok (firmwareimage_notification env s l st)"
  by (auto simp: firmwareimage_notification_def Let_def inv_intros split: option.splits)
    (simp_all add: tip_ok_def)

lemma tip_ok_retries [inv_intros]:
  "tip_ok st \<Longrightarrow> tip_ok (transfers_timewindow_set_maxretries env i j v st)"
  by (auto simp: transfers_timewindow_set_maxretries_def inv_intros split: option.splits)

lemma tip_ok_event:
  assumes "\<forall>wr. env_apply env wr" "tip_ok st"
  shows "tip_ok (handle_event env e st)"
  using assms
  by (cases e) (auto simp: timewindow_started_def timewindow_ended_def
      schedule_download_transfer_failed_def scheduleDownload_added_def Let_def inv_intros
      split: option.splits cptr.splits)

lemma tip_ok_restart: "tip_ok (plugin_restart env st)"
proof (rule restart_keeps [where P = tip_ok])
  show "tip_ok (forget_infos st)"
    by (simp add: tip_ok_def forget_infos_def transfers_firmware_init_def)
qed (rule inv_intros, assumption)+

lemma tip_ok_step:
  assumes "accepting E" "plugin_step E st st'" "tip_ok st"
  shows "tip_ok st'"
  using assms(2,3)
proof (induction rule: plugin_step.induct)
  case (add env idx st a)
  then show ?case
    by (fastforce simp: addScheduleDownload_def tip_ok_def get_transfer_def map_add_def
        split: list.splits option.splits)
next
  case (deliver env st e es)
  then show ?case
    using assms(1) by (auto simp: accepting_def intro!: tip_ok_event) (simp add: tip_ok_def)
next
  case (drop_event st e es)
  then show ?case by (simp add: tip_ok_def)
next
  case (restart env st)
  show ?case by (rule tip_ok_restart)
qed (auto simp: timewindow_start_timer_cb_def timewindow_end_timer_cb_def timewindow_set_status_def
      app_stopped_def tip_ok_notification inv_intros split: option.splits)

lemma tip_ok_reachable:
  assumes "plugin_reachable E st" "accepting E"
  shows "tip_ok st"
  using assms(1)
proof (induction rule: plugin_reachable.induct)
  case start
  show ?case by (simp add: tip_ok_def plugin_start_def)
next
  case (step st st')
  then show ?case by (blast intro: tip_ok_step [OF assms(2)])
qed

subsection \<open>Finished transfers\<close>

definition settled :: "nat \<Rightarrow> plugin \<Rightarrow> bool" where
  "settled i st \<longleftrightarrow> (\<exists>t. get_transfer st i = Some t \<and> tc_Status t = ''Done'') \<and>
     Tc_failed i \<notin> set (pending st)"

lemma settled_upd:
  "settled i st \<Longrightarrow> (\<And>t. tc_Status t = ''Done'' \<Longrightarrow> tc_Status (f t) = ''Done'') \<Longrightarrow>
   settled i (upd_transfer k f st)"
  by (auto simp: settled_def)

lemma settled_win [inv_intros]: "settled i st \<Longrightarrow> settled i (upd_win k j f st)"
  unfolding upd_win_def by (rule settled_upd) auto

lemma settled_frame [simp]:
  "settled i (st\<lparr>transfer_in_progress := x\<rparr>) = settled i st"
  "settled i (st\<lparr>mem_error := b\<rparr>) = settled i st"
  by (simp_all add: settled_def)

lemma settled_set_status [inv_intros]:
  "settled i st \<Longrightarrow> k \<noteq> i \<or> s = transfer_status_done \<Longrightarrow> settled i (transfers_set_status env k s st)"
  using set_status_pending [of env k s st]
  by (auto simp: settled_def set_status_get split: option.splits if_splits)

lemma settled_update_tc [inv_intros]:
  "settled i st \<Longrightarrow> settled i (transfers_update_transfercomplete env k a b c d st)"
  by (auto simp: settled_def update_tc_get)

lemma settled_start_transfer [inv_intros]:
  assumes "settled i st" "k \<noteq> i"
  shows "settled i (transfers_start_transfer env k st)"
proof -
  have "settled i (transfers_set_status env k transfer_status_in_progress st)"
    using assms by (simp add: inv_intros)
  then have "settled i (snd (transfers_firmware_do_firmwareupgrade env k
      (transfers_set_status env k transfer_status_in_progress st)))"
    by (simp add: settled_def)
  with assms show ?thesis
    by (auto simp: transfers_start_transfer_def case_prod_unfold inv_intros split: option.splits)
qed

lemma settled_transfer_done [inv_intros]: "settled i st \<Longrightarrow> settled i (transfers_transfer_done env k st)"
  by (auto simp: transfers_transfer_done_def transfers_firmware_transfer_done_def
      intro!: settled_set_status split: option.splits)

lemma settled_firmwareupgrade_done [inv_intros]:
  "settled i st \<Longrightarrow> k \<noteq> i \<Longrightarrow> settled i (transfers_firmwareupgrade_done env k c s st)"
  by (auto simp: transfers_firmwareupgrade_done_def Let_def inv_intros split: option.splits cptr.splits)

lemma settled_handle_transfer [inv_intros]:
  assumes "settled i st"
  shows "settled i (transfers_handle_transfer env k st)"
proof (cases "k = i")
  case True
  with assms show ?thesis
    by (auto simp: transfers_handle_transfer_def settled_def transfer_is_done_iff)
next
  case False
  with assms show ?thesis
    by (auto simp: transfers_handle_transfer_def inv_intros split: option.splits cptr.splits)
qed

lemma settled_offset [inv_intros]:
  "settled i st \<Longrightarrow> settled i (timewindow_set_time_offset env k j n v st)"
  by (auto simp: timewindow_set_time_offset_def inv_intros split: option.splits)

lemma settled_windows [inv_intros]:
  "settled i st \<Longrightarrow> settled i (transfers_timewindow_add_info k st)"
  "settled i st \<Longrightarrow> settled i (transfers_timewindow_start k st)"
  "settled i st \<Longrightarrow> settled i (transfers_timewindow_save env k st)"
  unfolding transfers_timewindow_add_info_def transfers_timewindow_start_def
    transfers_timewindow_save_def
  by (erule both_windows_keeps; auto simp: timewindow_internal_add_info_def
      timewindow_internal_start_def timewindow_internal_save_def inv_intros
      split: option.splits cptr.splits timewindow_status.splits)+

lemma settled_priv [inv_intros]: "settled i st \<Longrightarrow> settled i (upd_transfer k (\<lambda>t. t\<lparr>tr_priv := p\<rparr>) st)"
  by (rule settled_upd) auto

lemma settled_add_info [inv_intros]: "settled i st \<Longrightarrow> settled i (transfers_transfer_add_info k st)"
  by (auto simp: transfers_transfer_add_info_def Let_def case_prod_unfold intro!: inv_intros
      split: option.splits)

lemma settled_in_progress [inv_intros]:
  assumes "settled i st"
  shows "settled i (transfers_handle_in_progress_transfer env k st)"
proof (cases "k = i")
  case True
  with assms have "transfers_handle_in_progress_transfer env k st = st"
    by (auto simp: transfers_handle_in_progress_transfer_def settled_def)
  with assms show ?thesis by simp
next
  case False
  with assms show ?thesis
    by (auto simp: transfers_handle_in_progress_transfer_def handle_pending_upgrade_def inv_intros
        split: option.splits)
qed

lemma settled_save [inv_intros]: "settled i st \<Longrightarrow> settled i (transfers_save env st)"
  unfolding transfers_save_def by (erule for_each_keeps) (rule inv_intros)

lemma settled_retries [inv_intros]:
  "settled i st \<Longrightarrow> settled i (transfers_timewindow_set_maxretries env k j v st)"
  by (auto simp: transfers_timewindow_set_maxretries_def inv_intros split: option.splits)

lemma settled_event:
  assumes "settled i st" "e \<noteq> Tc_failed i"
  shows "settled i (handle_event env e st)"
  using assms
  by (cases e) (auto simp: timewindow_started_def timewindow_ended_def
      schedule_download_transfer_failed_def scheduleDownload_added_def Let_def inv_intros
      split: option.splits cptr.splits)

lemma settled_notification:
  assumes "settled i st" "tip_ok st"
  shows "settled i (firmwareimage_notification env s l st)"
proof -
  have "transfer_in_progress st \<noteq> Some i"
    using assms by (auto simp: settled_def tip_ok_def active_status_def)
  with assms(1) show ?thesis
    by (auto simp: firmwareimage_notification_def Let_def inv_intros split: option.splits)
qed

lemma settled_restart: "settled i st \<Longrightarrow> settled i (plugin_restart env st)"
proof (rule restart_keeps [where P = "settled i"])
  show "settled i st \<Longrightarrow> settled i (forget_infos st)"
    by (auto simp: settled_def forget_infos_def transfers_firmware_init_def get_transfer_def map_of_map)
qed (rule inv_intros, assumption)+

lemma settled_step:
  assumes "plugin_step E st st'" "settled i st" "tip_ok st"
  shows "settled i st'"
  using assms
proof (induction rule: plugin_step.induct)
  case (add env idx st a)
  then show ?case
    by (fastforce simp: addScheduleDownload_def settled_def get_transfer_def map_add_def
        split: list.splits option.splits)
next
  case (deliver env st e es)
  then have "settled i (st\<lparr>pending := es\<rparr>)" "e \<noteq> Tc_failed i" by (auto simp: settled_def)
  then show ?case by (rule settled_event)
next
  case (drop_event st e es)
  then show ?case by (auto simp: settled_def)
next
  case (window_start env st k j ms)
  then show ?case
    by (auto simp: timewindow_start_timer_cb_def timewindow_set_status_def timewindow_events_def
        settled_def split: option.splits)
next
  case (window_end env st k j ms)
  then show ?case
    by (auto simp: timewindow_end_timer_cb_def timewindow_set_status_def timewindow_events_def
        settled_def split: option.splits)
qed (auto simp: app_stopped_def settled_notification settled_restart inv_intros)

subsection \<open>Calls of Download()\<close>

lemma transfer_done_calls [simp]:
  "download_calls (transfers_transfer_done env i st) = download_calls st"
  by (auto simp: transfers_transfer_done_def split: option.splits)

lemma firmwareupgrade_done_calls [simp]:
  "download_calls (transfers_firmwareupgrade_done env i c s st) = download_calls st"
  by (auto simp: transfers_firmwareupgrade_done_def Let_def split: option.splits cptr.splits)

lemma offset_calls [simp]:
  "download_calls (timewindow_set_time_offset env i j n v st) = download_calls st"
  by (auto simp: timewindow_set_time_offset_def split: option.splits)

lemma windows_calls [simp]:
  "download_calls (transfers_timewindow_add_info i st) = download_calls st"
  "download_calls (transfers_timewindow_start i st) = download_calls st"
  "download_calls (transfers_timewindow_save env i st) = download_calls st"
  unfolding transfers_timewindow_add_info_def transfers_timewindow_start_def
    transfers_timewindow_save_def
  by (rule both_windows_keeps [where P = "\<lambda>x. download_calls x = download_calls st"]; auto simp: timewindow_internal_add_info_def
      timewindow_internal_start_def timewindow_internal_save_def
      split: option.splits cptr.splits timewindow_status.splits)+

lemma add_info_calls [simp]: "download_calls (transfers_transfer_add_info i st) = download_calls st"
  by (auto simp: transfers_transfer_add_info_def Let_def case_prod_unfold split: option.splits)

lemma in_progress_calls [simp]:
  "download_calls (transfers_handle_in_progress_transfer env i st) = download_calls st"
  by (auto simp: transfers_handle_in_progress_transfer_def handle_pending_upgrade_def
      split: option.splits)

lemma save_calls [simp]: "download_calls (transfers_save env st) = download_calls st"
  unfolding transfers_save_def
  by (rule for_each_keeps [where P = "\<lambda>x. download_calls x = download_calls st"]) simp_all

lemma retries_frame [simp]:
  "download_calls (transfers_timewindow_set_maxretries env i j v st) = download_calls st"
  "transfer_in_progress (transfers_timewindow_set_maxretries env i j v st) = transfer_in_progress st"
  by (auto simp: transfers_timewindow_set_maxretries_def split: option.splits)

definition at_most_one_call :: "plugin \<Rightarrow> plugin \<Rightarrow> bool" where
  "at_most_one_call st st' \<longleftrightarrow> download_calls st' = download_calls st \<or>
     (transfer_in_progress st = None \<and> (\<exists>c. download_calls st' = download_calls st @ [c]))"

lemma start_transfer_calls: "at_most_one_call st (transfers_start_transfer env i st)"
  by (auto simp: at_most_one_call_def transfers_start_transfer_def
      transfers_firmware_do_firmwareupgrade_def upgrade_firmware_def split: option.splits)

lemma handle_transfer_calls: "at_most_one_call st (transfers_handle_transfer env i st)"
  using start_transfer_calls [of st env i]
  by (auto simp: transfers_handle_transfer_def at_most_one_call_def split: option.splits cptr.splits)

lemma event_calls: "at_most_one_call st (handle_event env e st)"
proof -
  have s: "at_most_one_call st (transfers_start_transfer env i
      (transfers_timewindow_set_maxretries env i j v st))" for i j v
    using start_transfer_calls [of "transfers_timewindow_set_maxretries env i j v st" env i]
    by (simp add: at_most_one_call_def)
  have h: "at_most_one_call st (transfers_handle_transfer env i (upd_transfer i f st))" for i f
    using handle_transfer_calls [of "upd_transfer i f st" env i] by (simp add: at_most_one_call_def)
  have r: "at_most_one_call st x" if "download_calls x = download_calls st" for x
    using that by (simp add: at_most_one_call_def)
  show ?thesis
    by (cases e) (auto simp: timewindow_started_def timewindow_ended_def Let_def r s h
        schedule_download_transfer_failed_def scheduleDownload_added_def split: option.splits cptr.splits)
qed

subsection \<open>Retries\<close>

definition retry_ready :: "nat \<Rightarrow> nat \<Rightarrow> transfer \<Rightarrow> bool" where
  "retry_ready j n t \<longleftrightarrow>
     tr_FileType t = fw_image \<and> tr_URL t \<noteq> None \<and> tr_Username t \<noteq> None \<and> tr_Password t \<noteq> None \<and>
     (\<exists>info w. tr_priv t = Valid info \<and> ti_lastTimeWindow info = j \<and> ti_withinTimeWindow info \<and>
        ti_numberOfTimeWindow info = j \<and> find_window t j = Some w \<and>
        runs_unattended (transfers_timewindow_get_mode (Some w)) \<and> tw_MaxRetries w = int n)"

lemma fw_image_not_Nil [simp]: "fw_image \<noteq> []"
  by (simp add: fw_image_def)

lemma get_mode_retries [simp]:
  "transfers_timewindow_get_mode (Some (w\<lparr>tw_MaxRetries := v\<rparr>)) = transfers_timewindow_get_mode (Some w)"
  by (simp add: transfers_timewindow_get_mode_def)

lemma retry_ready_frame:
  "retry_ready j n t \<Longrightarrow>
   retry_ready j n (t\<lparr>tc_Status := a, tc_FaultCode := d, tc_FaultString := e\<rparr>)"
  "retry_ready j n t \<Longrightarrow> retry_ready j n (t\<lparr>tc_Status := a\<rparr>)"
  "retry_ready j n t \<Longrightarrow> retry_ready j n (t\<lparr>tc_FaultCode := d, tc_FaultString := e\<rparr>)"
  by (auto simp: retry_ready_def find_window_def)

lemma retry_ready_spend:
  "retry_ready j (Suc n) t \<Longrightarrow> retry_ready j n (upd_window j (\<lambda>w. w\<lparr>tw_MaxRetries := int n\<rparr>) t)"
  by (auto simp: retry_ready_def) (auto simp: upd_window_def)

lemma start_transfer_refused:
  assumes "get_transfer st i = Some t" "retry_ready j n t" "\<forall>wr. env_apply env wr"
    and "\<forall>u a p. env_download env u a p \<noteq> 0" "transfer_in_progress st = None"
  shows "\<exists>t'. get_transfer (transfers_start_transfer env i st) i = Some t' \<and> retry_ready j n t' \<and>
     tc_Status t' = ''Failed'' \<and> tc_FaultCode t' = FAULT_CODE_INTERNAL_ERROR \<and>
     transfer_in_progress (transfers_start_transfer env i st) = None \<and>
     length (download_calls (transfers_start_transfer env i st)) = Suc (length (download_calls st))"
proof -
  from assms(2) obtain u a p where "tr_FileType t = fw_image" "tr_URL t = Some u"
    "tr_Username t = Some a" "tr_Password t = Some p" by (auto simp: retry_ready_def)
  moreover have "retry_ready j n (t\<lparr>tc_Status := ''In Progress''\<rparr>)"
    using assms(2) by (rule retry_ready_frame)
  ultimately show ?thesis
    using assms
    by (auto simp: transfers_start_transfer_def transfers_firmware_do_firmwareupgrade_def
        upgrade_firmware_def set_status_get update_tc_get intro!: retry_ready_frame)
qed

lemma failed_handler_retries:
  assumes "get_transfer st i = Some t" "retry_ready j (Suc n) t"
  shows "schedule_download_transfer_failed env i st =
     transfers_start_transfer env i (transfers_timewindow_set_maxretries env i j (int n) st)"
  using assms
  by (auto simp: schedule_download_transfer_failed_def retry_ready_def Let_def
      transfers_timewindow_get_maxretries_def)

lemma failed_handler_gives_up:
  assumes "get_transfer st i = Some t" "retry_ready j 0 t" "\<forall>wr. env_apply env wr"
  shows "\<exists>t'. get_transfer (schedule_download_transfer_failed env i st) i = Some t' \<and>
     tc_Status t' = ''Done'' \<and> tc_FaultCode t' = tc_FaultCode t \<and>
     download_calls (schedule_download_transfer_failed env i st) = download_calls st"
  using assms
  by (auto simp: schedule_download_transfer_failed_def retry_ready_def Let_def
      transfers_timewindow_get_maxretries_def transfers_transfer_done_def set_status_get)

lemma retries_get:
  "get_transfer st i = Some t \<Longrightarrow> find_window t j \<noteq> None \<Longrightarrow> env_apply env (Wr_tw_retries i j v) \<Longrightarrow>
   get_transfer (transfers_timewindow_set_maxretries env i j v st) i =
     Some (upd_window j (\<lambda>w. w\<lparr>tw_MaxRetries := v\<rparr>) t)"
  by (auto simp: transfers_timewindow_set_maxretries_def get_window_def)

subsection \<open>Example runs\<close>

definition example_args :: "window_args list \<Rightarrow> download_args" where
  "example_args ws =
     \<lparr>da_Initiator = Some ''ACS'', da_CommandKey = Some ''key'', da_FileType = fw_image,
      da_URL = Some ''http://acs/fw'', da_Username = Some '''', da_Password = Some '''',
      da_FileSize = 0, da_TargetFileName = Some '''', da_TimeWindowList = ws\<rparr>"

definition example_window_args :: "u32 \<Rightarrow> u32 \<Rightarrow> window_args" where
  "example_window_args a b =
     \<lparr>wa_WindowStart = a, wa_WindowEnd = b, wa_WindowMode = ''2 Immediately'',
      wa_UserMessage = '''', wa_MaxRetries = 1\<rparr>"

definition run_added :: plugin where
  "run_added = snd (addScheduleDownload (example_env 0) 1
     (example_args [example_window_args 60 120, example_window_args 180 240]) plugin_start)"

definition run_armed :: plugin where
  "run_armed = handle_event (example_env 0) (Sd_added 1) (run_added\<lparr>pending := []\<rparr>)"

definition run_open :: plugin where
  "run_open = timewindow_start_timer_cb (example_env 0) 1 1 run_armed"

definition run_upgrading :: plugin where
  "run_upgrading = handle_event (example_env 0) (Tw_started 1 1) (run_open\<lparr>pending := []\<rparr>)"

definition run_closed :: plugin where
  "run_closed = timewindow_end_timer_cb (example_env 0) 1 1 run_upgrading"

definition run_waiting :: plugin where
  "run_waiting = handle_event (example_env 0) (Tw_ended 1 1) (run_closed\<lparr>pending := []\<rparr>)"

definition run_reopened :: plugin where
  "run_reopened = timewindow_start_timer_cb (example_env 0) 1 2 run_waiting"

definition run_failed :: plugin where
  "run_failed = handle_event (example_env 0) (Tw_started 1 2) (run_reopened\<lparr>pending := []\<rparr>)"

definition only_env :: "int \<Rightarrow> env \<Rightarrow> bool" where
  "only_env rc env \<longleftrightarrow> env = example_env rc"

lemma only_env_accepting: "accepting (only_env rc)"
  by (simp add: accepting_def only_env_def example_env_def)

lemma reach_upgrading: "plugin_reachable (only_env 0) run_upgrading"
proof -
  have E: "only_env 0 (example_env 0)" by (simp add: only_env_def)
  have "1 \<notin> set (map fst (downloads plugin_start))" by (simp add: plugin_start_def)
  then have "plugin_reachable (only_env 0) run_added"
    unfolding run_added_def
    using plugin_reachable.step [OF plugin_reachable.start] plugin_step.add [where E = "only_env 0", OF E]
    by blast
  moreover have "pending run_added = [Sd_added 1]" by code_simp
  ultimately have "plugin_reachable (only_env 0) run_armed"
    unfolding run_armed_def using plugin_step.deliver [where E = "only_env 0", OF E] plugin_reachable.step by blast
  moreover have "window_timer run_armed 1 1 Win_start = Timer (Some 60000)" by code_simp
  ultimately have "plugin_reachable (only_env 0) run_open"
    unfolding run_open_def using plugin_step.window_start [where E = "only_env 0", OF E] plugin_reachable.step by blast
  moreover have "pending run_open = [Tw_started 1 1]" by code_simp
  ultimately show ?thesis
    unfolding run_upgrading_def using plugin_step.deliver [where E = "only_env 0", OF E] plugin_reachable.step by blast
qed

lemma reach_failed: "plugin_reachable (only_env 0) run_failed"
proof -
  have E: "only_env 0 (example_env 0)" by (simp add: only_env_def)
  have "window_timer run_upgrading 1 1 Win_end = Timer (Some 120000)" by code_simp
  with reach_upgrading have "plugin_reachable (only_env 0) run_closed"
    unfolding run_closed_def using plugin_step.window_end [where E = "only_env 0", OF E] plugin_reachable.step by blast
  moreover have "pending run_closed = [Tw_ended 1 1]" by code_simp
  ultimately have "plugin_reachable (only_env 0) run_waiting"
    unfolding run_waiting_def using plugin_step.deliver [where E = "only_env 0", OF E] plugin_reachable.step by blast
  moreover have "window_timer run_waiting 1 2 Win_start = Timer (Some 180000)" by code_simp
  ultimately have "plugin_reachable (only_env 0) run_reopened"
    unfolding run_reopened_def using plugin_step.window_start [where E = "only_env 0", OF E] plugin_reachable.step by blast
  moreover have "pending run_reopened = [Tw_started 1 2]" by code_simp
  ultimately show ?thesis
    unfolding run_failed_def using plugin_step.deliver [where E = "only_env 0", OF E] plugin_reachable.step by blast
qed

subsection \<open>Safety\<close>



text \<open>When the data model accepts the writes of the plugin, the transfer whose
  firmware upgrade is running is always an existing instance, for a firmware image, and its status
  is In Progress or Failed; so a finished transfer never has an upgrade running.\<close>

theorem upgrade_in_progress_sound:
  assumes "plugin_reachable E st" "accepting E" "transfer_in_progress st = Some i"
  shows "\<exists>t. get_transfer st i = Some t \<and> tr_FileType t = fw_image \<and>
    tc_Status t \<in> {''In Progress'', ''Failed''}"
  using tip_ok_reachable [OF assms(1,2)] assms(3) by (auto simp: tip_ok_def active_status_def)

theorem upgrade_in_progress_sound_witness:
  "\<exists>t. get_transfer run_upgrading 1 = Some t \<and> tr_FileType t = fw_image \<and>
    tc_Status t \<in> {''In Progress'', ''Failed''}"
proof -
  have "transfer_in_progress run_upgrading = Some 1" by code_simp
  then show ?thesis
    by (rule upgrade_in_progress_sound [OF reach_upgrading only_env_accepting])
qed

text \<open>Once a transfer is Done and no failure of it waits to be handled, every further
  step of the plugin (events, window timers, firmware notifications, restarts, other transfers)
  leaves it Done: it is never started again.\<close>

theorem done_is_final:
  assumes "plugin_reachable E st" "accepting E" "plugin_step E st st'"
    and "get_transfer st i = Some t" "tc_Status t = ''Done''" "Tc_failed i \<notin> set (pending st)"
  shows "\<exists>t'. get_transfer st' i = Some t' \<and> tc_Status t' = ''Done'' \<and> Tc_failed i \<notin> set (pending st')"
proof -
  have "settled i st" using assms(4-6) by (simp add: settled_def)
  then have "settled i st'"
    by (rule settled_step [OF assms(3)]) (rule tip_ok_reachable [OF assms(1,2)])
  then show ?thesis by (auto simp: settled_def)
qed

text \<open>The upgrade of \<open>run_upgrading\<close> reboots into the new image; the restart finds it active.\<close>

definition run_finished :: plugin where
  "run_finished = plugin_restart (example_env 0) run_upgrading"

lemma reach_finished: "plugin_reachable (only_env 0) run_finished"
  unfolding run_finished_def
  using plugin_reachable.step [OF reach_upgrading]
    plugin_step.restart [where E = "only_env 0" and env = "example_env 0"]
  by (simp add: only_env_def)

theorem done_is_final_witness:
  "\<exists>t'. get_transfer (timewindow_end_timer_cb (example_env 0) 1 1 run_finished) 1 = Some t' \<and>
     tc_Status t' = ''Done'' \<and>
     Tc_failed 1 \<notin> set (pending (timewindow_end_timer_cb (example_env 0) 1 1 run_finished))"
proof -
  have "window_timer run_finished 1 1 Win_end = Timer (Some 120000)" by code_simp
  then have s: "plugin_step (only_env 0) run_finished
      (timewindow_end_timer_cb (example_env 0) 1 1 run_finished)"
    by (auto simp: only_env_def intro: plugin_step.window_end)
  have g: "get_transfer run_finished 1 \<noteq> None" "tc_Status (the (get_transfer run_finished 1)) = ''Done''"
    "Tc_failed 1 \<notin> set (pending run_finished)" by code_simp+
  from g(1) obtain t where t: "get_transfer run_finished 1 = Some t" by blast
  from g(2) t have "tc_Status t = ''Done''" by simp
  with g(3) t show ?thesis
    using done_is_final [OF reach_finished only_env_accepting s] by blast
qed

lemma step_call:
  assumes "plugin_step E st st'"
  shows "at_most_one_call st st'"
  using assms
proof (induction rule: plugin_step.induct)
  case (add env idx st a)
  then show ?case by (auto simp: at_most_one_call_def addScheduleDownload_def split: list.splits)
next
  case (deliver env st e es)
  show ?case using event_calls [of "st\<lparr>pending := es\<rparr>" env e] by (simp add: at_most_one_call_def)
next
  case (window_start env st i j ms)
  then show ?case
    by (auto simp: at_most_one_call_def timewindow_start_timer_cb_def timewindow_set_status_def
        split: option.splits)
next
  case (window_end env st i j ms)
  then show ?case
    by (auto simp: at_most_one_call_def timewindow_end_timer_cb_def timewindow_set_status_def
        split: option.splits)
next
  case (notification env st status log)
  then show ?case
    by (auto simp: at_most_one_call_def firmwareimage_notification_def Let_def split: option.splits)
next
  case (restart env st)
  have "download_calls (forget_infos st) = download_calls st"
    by (simp add: forget_infos_def transfers_firmware_init_def)
  then have "download_calls (plugin_restart env st) = download_calls st"
    by (rule restart_keeps [where P = "\<lambda>x. download_calls x = download_calls st"]) simp_all
  then show ?case by (simp add: at_most_one_call_def)
qed (auto simp: at_most_one_call_def app_stopped_def)

text \<open>Property C2. One upgrade at a time: a step of the plugin calls \<open>Download()\<close> at most once, and
  not at all while an upgrade is in progress.\<close>

theorem one_download_at_a_time:
  assumes "plugin_step E st st'"
  shows "download_calls st' = download_calls st \<or>
    (transfer_in_progress st = None \<and> (\<exists>c. download_calls st' = download_calls st @ [c]))"
  using step_call [OF assms] by (simp add: at_most_one_call_def)

theorem one_download_at_a_time_witness:
  "download_calls run_failed = download_calls run_reopened"
proof -
  have "pending run_reopened = [Tw_started 1 2]" by code_simp
  then have "plugin_step (only_env 0) run_reopened run_failed"
    unfolding run_failed_def
    by (intro plugin_step.deliver) (simp add: only_env_def)
  moreover have "transfer_in_progress run_reopened = Some 1" by code_simp
  ultimately show ?thesis using one_download_at_a_time by fastforce
qed

subsection \<open>Progress\<close>

lemma retries_end:
  assumes "\<forall>wr. env_apply env wr" "\<forall>u a p. env_download env u a p \<noteq> 0"
  shows "get_transfer st i = Some t \<Longrightarrow> retry_ready j n t \<Longrightarrow> transfer_in_progress st = None \<Longrightarrow>
     \<exists>t'. get_transfer ((schedule_download_transfer_failed env i ^^ Suc n) st) i = Some t' \<and>
       tc_Status t' = ''Done'' \<and>
       length (download_calls ((schedule_download_transfer_failed env i ^^ Suc n) st)) =
         length (download_calls st) + n"
proof (induction n arbitrary: st t)
  case 0
  then show ?case using failed_handler_gives_up [OF 0(1,2) assms(1)] by auto
next
  case (Suc n)
  let ?f = "schedule_download_transfer_failed env i"
  let ?st0 = "transfers_timewindow_set_maxretries env i j (int n) st"
  let ?t0 = "upd_window j (\<lambda>w. w\<lparr>tw_MaxRetries := int n\<rparr>) t"
  have step: "?f st = transfers_start_transfer env i ?st0"
    by (rule failed_handler_retries [OF Suc.prems(1,2)])
  have "find_window t j \<noteq> None" using Suc.prems(2) by (auto simp: retry_ready_def)
  then have g: "get_transfer ?st0 i = Some ?t0"
    using retries_get [OF Suc.prems(1)] assms(1) by simp
  from start_transfer_refused [OF g retry_ready_spend [OF Suc.prems(2)] assms] Suc.prems(3)
  obtain t1 where t1: "get_transfer (?f st) i = Some t1" "retry_ready j n t1"
    "transfer_in_progress (?f st) = None"
    "length (download_calls (?f st)) = Suc (length (download_calls st))"
    unfolding step by auto
  show ?case
    using Suc.IH [OF t1(1,2,3)] t1(4)
    by (simp only: funpow_Suc_right [of "Suc n"] comp_apply) auto
qed

text \<open>A firmware transfer that keeps failing ends: if every \<open>Download()\<close> is refused
  while its last window is open with \<open>n\<close> retries left, then \<open>n + 1\<close> deliveries of its failure
  event make exactly \<open>n\<close> more download attempts and set the transfer to Done.\<close>

theorem failed_transfer_gives_up:
  assumes "\<forall>wr. env_apply env wr" "\<forall>u a p. env_download env u a p \<noteq> 0"
    and "get_transfer st i = Some t" "retry_ready j n t" "transfer_in_progress st = None"
  shows "\<exists>t'. get_transfer ((schedule_download_transfer_failed env i ^^ Suc n) st) i = Some t' \<and>
     tc_Status t' = ''Done'' \<and>
     length (download_calls ((schedule_download_transfer_failed env i ^^ Suc n) st)) =
       length (download_calls st) + n"
  using assms by (rule retries_end)

definition refused_transfer :: transfer where
  "refused_transfer = example_transfer ''Failed'' [(1, example_window ''Started'' 0 60 2)]
     (Valid \<lparr>ti_numberOfTimeWindow = 1, ti_lastTimeWindow = 1, ti_withinTimeWindow = True\<rparr>)"

theorem failed_transfer_gives_up_witness:
  "\<exists>t'. get_transfer ((schedule_download_transfer_failed (example_env 1) 7 ^^ Suc 2)
       (plugin_start\<lparr>downloads := [(7, refused_transfer)]\<rparr>)) 7 = Some t' \<and> tc_Status t' = ''Done'' \<and>
     length (download_calls ((schedule_download_transfer_failed (example_env 1) 7 ^^ Suc 2)
       (plugin_start\<lparr>downloads := [(7, refused_transfer)]\<rparr>))) = 2"
proof -
  let ?st = "plugin_start\<lparr>downloads := [(7, refused_transfer)]\<rparr>"
  have r: "retry_ready 1 2 refused_transfer"
    by (simp add: retry_ready_def refused_transfer_def example_transfer_def example_window_def
        fw_image_def find_window_def runs_unattended_def transfers_timewindow_get_mode_def)
  have g: "get_transfer ?st 7 = Some refused_transfer" "transfer_in_progress ?st = None"
    "length (download_calls ?st) = 0"
    by (simp_all add: get_transfer_def plugin_start_def)
  have e: "\<forall>wr. env_apply (example_env 1) wr" "\<forall>u a p. env_download (example_env 1) u a p \<noteq> 0"
    by (simp_all add: example_env_def)
  show ?thesis using failed_transfer_gives_up [OF e g(1) r g(2)] g(3) by auto
qed

subsection \<open>The transfer info after a restart\<close>

definition active_windows :: "transfer \<Rightarrow> nat list \<Rightarrow> nat list" where
  "active_windows t js = filter (\<lambda>j. transfers_timewindow_get_status (find_window t j) \<in>
     {timewindow_status_started, timewindow_status_ended}) js"

lemma scan_windows_last:
  assumes "\<And>j. j \<in> set js \<Longrightarrow> find_window t j \<noteq> None"
  shows "scan_windows t js info =
     (if active_windows t js = [] then info
      else info\<lparr>ti_lastTimeWindow := last (active_windows t js),
        ti_withinTimeWindow := transfers_timewindow_get_status
          (find_window t (last (active_windows t js))) = timewindow_status_started\<rparr>, True)"
  using assms
proof (induction js arbitrary: info)
  case Nil
  then show ?case by (simp add: active_windows_def)
next
  case (Cons j js)
  then obtain w where w: "find_window t j = Some w" by fastforce
  have ih: "scan_windows t js info' = (if active_windows t js = [] then info'
      else info'\<lparr>ti_lastTimeWindow := last (active_windows t js),
        ti_withinTimeWindow := transfers_timewindow_get_status
          (find_window t (last (active_windows t js))) = timewindow_status_started\<rparr>, True)" for info'
    using Cons by simp
  show ?case
    by (cases "transfers_timewindow_get_status (Some w)")
      (simp_all add: w ih active_windows_def)
qed

text \<open>The info of a transfer is rebuilt from the persistent window statuses: after a
  restart the last window is the highest-numbered one that has started or ended (0 when there is
  none), the transfer counts as within its window exactly when that window is Started, and every
  window of the transfer counts.\<close>

theorem transfer_info_rebuilt:
  assumes "get_transfer st i = Some t" "tr_priv t = Null"
    and "map fst (tr_windows t) = [1..<Suc (length (tr_windows t))]" "tr_windows t \<noteq> []"
  shows "\<exists>t' info. get_transfer (transfers_transfer_add_info i st) i = Some t' \<and>
     tr_priv t' = Valid info \<and> ti_numberOfTimeWindow info = length (tr_windows t) \<and>
     (let act = active_windows t [1..<Suc (length (tr_windows t))] in
        ti_lastTimeWindow info = (if act = [] then 0 else last act) \<and>
        ti_withinTimeWindow info = (act \<noteq> [] \<and>
          transfers_timewindow_get_status (find_window t (last act)) = timewindow_status_started))"
proof -
  let ?n = "length (tr_windows t)"
  let ?info = "\<lparr>ti_numberOfTimeWindow = ?n, ti_lastTimeWindow = 0, ti_withinTimeWindow = False\<rparr>"
  obtain info where info: "scan_windows t [1..<Suc ?n] ?info = (info, True)"
    "ti_numberOfTimeWindow info = ?n"
    "let act = active_windows t [1..<Suc ?n] in
        ti_lastTimeWindow info = (if act = [] then 0 else last act) \<and>
        ti_withinTimeWindow info = (act \<noteq> [] \<and>
          transfers_timewindow_get_status (find_window t (last act)) = timewindow_status_started)"
  proof
    let ?act = "active_windows t [1..<Suc ?n]"
    let ?new = "if ?act = [] then ?info else ?info\<lparr>ti_lastTimeWindow := last ?act,
      ti_withinTimeWindow := transfers_timewindow_get_status (find_window t (last ?act)) =
        timewindow_status_started\<rparr>"
    have "find_window t j \<noteq> None" if "j \<in> set [1..<Suc ?n]" for j
      unfolding find_window_None_iff using that assms(3) by (simp del: upt_Suc)
    then show "scan_windows t [1..<Suc ?n] ?info = (?new, True)" by (rule scan_windows_last)
  qed (auto simp: Let_def simp del: upt_Suc)
  have k: "\<exists>t'. get_transfer (transfers_timewindow_add_info i st') i = Some t' \<and> tr_priv t' = p"
    if "get_transfer st' i = Some u" "tr_priv u = p" for st' u p
    unfolding transfers_timewindow_add_info_def
    using that
    by (intro both_windows_keeps [where P = "\<lambda>s. \<exists>t'. get_transfer s i = Some t' \<and> tr_priv t' = p"])
      (auto simp: timewindow_internal_add_info_def split: option.splits)
  have "transfers_transfer_add_info i st = transfers_timewindow_add_info i
      (upd_transfer i (\<lambda>t. t\<lparr>tr_priv := Valid info\<rparr>) st)"
    using assms(1,2,4) info(1) by (simp add: transfers_transfer_add_info_def del: upt_Suc)
  moreover have "get_transfer (upd_transfer i (\<lambda>t. t\<lparr>tr_priv := Valid info\<rparr>) st) i =
      Some (t\<lparr>tr_priv := Valid info\<rparr>)" using assms(1) by simp
  ultimately show ?thesis using k info(2,3) by fastforce
qed

theorem transfer_info_rebuilt_witness:
  "\<exists>t' info. get_transfer (transfers_transfer_add_info 1 (forget_infos run_failed)) 1 = Some t' \<and>
     tr_priv t' = Valid info \<and> ti_lastTimeWindow info = 2 \<and> ti_withinTimeWindow info"
proof -
  obtain t where t: "get_transfer (forget_infos run_failed) 1 = Some t"
    "t = the (get_transfer (forget_infos run_failed) 1)"
  proof -
    have "get_transfer (forget_infos run_failed) 1 \<noteq> None" by code_simp
    then show ?thesis using that by auto
  qed
  have h: "tr_priv t = Null" "map fst (tr_windows t) = [1..<Suc (length (tr_windows t))]"
    "tr_windows t \<noteq> []" "active_windows t [1..<Suc (length (tr_windows t))] = [1, 2]"
    "transfers_timewindow_get_status (find_window t 2) = timewindow_status_started"
    unfolding t(2) by code_simp+
  show ?thesis using transfer_info_rebuilt [OF t(1) h(1,2,3)] h(4,5) by (auto simp: Let_def)
qed

subsection \<open>From the RPC to the armed timers\<close>

definition armed_after :: "env \<Rightarrow> nat \<Rightarrow> download_args \<Rightarrow> plugin \<Rightarrow> plugin" where
  "armed_after env idx a st = scheduleDownload_added idx (snd (addScheduleDownload env idx a st))"

lemma added_get:
  assumes "idx \<notin> set (map fst (downloads st))" "da_TimeWindowList a = w # ws"
    and "env_apply env (Wr_add_inst idx)"
  shows "get_transfer (snd (addScheduleDownload env idx a st)) k =
    (if k = idx then Some (new_transfer a w ws) else get_transfer st k)"
proof -
  have "map_of (downloads st) idx = None" using assms(1) by (simp add: map_of_eq_None_iff)
  with assms show ?thesis
    by (auto simp: addScheduleDownload_def raise_event_def get_transfer_def map_add_def
        split: option.splits)
qed

lemma timewindow_status_Idle: "transfers_timewindow_get_status (Some (new_window w)) = timewindow_status_idle"
  by (simp add: transfers_timewindow_get_status_def timewindow_status_of_def new_window_def)

definition armed_window :: "window_args \<Rightarrow> timewindow" where
  "armed_window w = (new_window w)\<lparr>tw_priv := Valid
     \<lparr>twi_start = Timer (Some (wa_WindowStart w * 1000)), twi_end = Timer (Some (wa_WindowEnd w * 1000))\<rparr>\<rparr>"

lemma arm_window:
  assumes "get_window st i j = Some (new_window w)"
  shows "get_window (timewindow_internal_add_info i j st) i j =
      Some ((new_window w)\<lparr>tw_priv := Valid \<lparr>twi_start = Timer None, twi_end = Timer None\<rparr>\<rparr>)"
  using assms
  by (simp add: timewindow_internal_add_info_def timewindow_status_Idle timewindow_new_info_def)
    (simp add: new_window_def)

lemma start_window:
  assumes "get_window st i j =
      Some ((new_window w)\<lparr>tw_priv := Valid \<lparr>twi_start = Timer None, twi_end = Timer None\<rparr>\<rparr>)"
  shows "get_window (timewindow_internal_start i j st) i j = Some (armed_window w)"
proof -
  have "transfers_timewindow_get_status (Some ((new_window w)\<lparr>tw_priv := p\<rparr>)) = timewindow_status_idle" for p
    using timewindow_status_Idle [of w] by (simp add: transfers_timewindow_get_status_def)
  with assms show ?thesis
    by (simp add: timewindow_internal_start_def armed_window_def timewindow_get_time_offset_def Let_def)
      (simp add: new_window_def)
qed

lemma get_window_mem_error [simp]: "get_window (st\<lparr>mem_error := b\<rparr>) i k = get_window st i k"
  by (simp add: get_window_def)

lemma internal_other:
  "j \<noteq> k \<Longrightarrow> get_window (timewindow_internal_add_info i j st) i k = get_window st i k"
  "j \<noteq> k \<Longrightarrow> get_window (timewindow_internal_start i j st) i k = get_window st i k"
  by (auto simp: timewindow_internal_add_info_def timewindow_internal_start_def
      split: option.splits cptr.splits timewindow_status.splits)

lemma both_windows_two:
  assumes "get_window st i 1 = Some v1" "get_window st i 2 = w2"
    and "\<And>j st. get_window st i j = Some (x j) \<Longrightarrow> get_window (f i j st) i j = Some (y j)"
    and "\<And>j k st. j \<noteq> k \<Longrightarrow> get_window (f i j st) i k = get_window st i k"
    and "v1 = x 1" "w2 = None \<or> w2 = Some (x 2)"
  shows "get_window (both_windows f i st) i 1 = Some (y 1) \<and>
    get_window (both_windows f i st) i 2 = (case w2 of None \<Rightarrow> None | Some _ \<Rightarrow> Some (y 2))"
proof -
  obtain t where t: "get_transfer st i = Some t" "find_window t 1 = Some v1"
    using assms(1) by (auto simp: get_window_def split: Option.bind_splits)
  have 1: "get_window (f i 1 st) i 1 = Some (y 1)" using assms(1,3,5) by simp
  have 2: "get_window (f i 1 st) i 2 = w2" using assms(2,4) by simp
  show ?thesis
  proof (cases w2)
    case None
    with t 1 2 show ?thesis by (simp add: both_windows_def)
  next
    case (Some v)
    with t 1 2 assms(3) [of "f i 1 st" 2] assms(4,6) show ?thesis by (simp add: both_windows_def)
  qed
qed

definition nth_args :: "window_args \<Rightarrow> window_args list \<Rightarrow> nat \<Rightarrow> window_args" where
  "nth_args w ws j = (if j = 1 then w else case ws of [] \<Rightarrow> w | w2 # _ \<Rightarrow> w2)"

lemma new_transfer_windows:
  assumes "get_transfer st i = Some (new_transfer a w ws)"
  shows "get_window st i 1 = Some (new_window (nth_args w ws 1))"
    "get_window st i 2 = (if ws = [] then None else Some (new_window (nth_args w ws 2)))"
  using assms
  by (auto simp: get_window_def find_window_def new_transfer_def nth_args_def split: list.splits)

lemma start_both:
  fixes u :: "nat \<Rightarrow> window_args"
  defines "y \<equiv> \<lambda>j. (new_window (u j))\<lparr>tw_priv := Valid \<lparr>twi_start = Timer None, twi_end = Timer None\<rparr>\<rparr>"
  assumes "get_window st i 1 = Some (y 1)" "get_window st i 2 = None \<or> get_window st i 2 = Some (y 2)"
  shows "get_window (transfers_timewindow_start i st) i 1 = Some (armed_window (u 1)) \<and>
    get_window (transfers_timewindow_start i st) i 2 =
      (case get_window st i 2 of None \<Rightarrow> None | Some _ \<Rightarrow> Some (armed_window (u 2)))"
  unfolding transfers_timewindow_start_def
proof (rule both_windows_two [where x = y and y = "\<lambda>j. armed_window (u j)"])
  show "get_window (timewindow_internal_start i j s) i j = Some (armed_window (u j))"
    if "get_window s i j = Some (y j)" for j s
    using that unfolding y_def by (rule start_window)
qed (use assms internal_other in auto)

lemma add_info_new:
  assumes "get_transfer st i = Some (new_transfer a w ws)"
  obtains info where "transfers_transfer_add_info i st =
      transfers_timewindow_add_info i (upd_transfer i (\<lambda>t. t\<lparr>tr_priv := Valid info\<rparr>) st)"
    "ti_lastTimeWindow info = 0"
proof
  let ?t = "new_transfer a w ws"
  have "scan_windows ?t [1..<Suc (length (tr_windows ?t))] info = (info, True)" for info
    by (auto simp: new_transfer_def find_window_def timewindow_status_Idle split: list.splits)
  moreover have "tr_priv ?t = Null" "tr_windows ?t \<noteq> []" by (simp_all add: new_transfer_def)
  ultimately show "transfers_transfer_add_info i st = transfers_timewindow_add_info i
      (upd_transfer i (\<lambda>t. t\<lparr>tr_priv := Valid \<lparr>ti_numberOfTimeWindow = length (tr_windows ?t),
         ti_lastTimeWindow = 0, ti_withinTimeWindow = False\<rparr>\<rparr>) st)"
    using assms by (simp add: transfers_transfer_add_info_def del: upt_Suc)
qed simp

text \<open>\<open>addScheduleDownload\<close> followed by the event it raises arms the timers the ACS
  asked for: the new instance's first window (and its second one, if the request has one; further
  ones are not read) is Idle with a start and an end timer set to the requested offsets in
  milliseconds, as 32-bit values.\<close>

theorem schedule_arms_timers:
  assumes "idx \<notin> set (map fst (downloads st))" "da_TimeWindowList a = w # ws"
    and "env_apply env (Wr_add_inst idx)"
  shows "fst (addScheduleDownload env idx a st) = amxd_status_ok \<and>
    get_window (armed_after env idx a st) idx 1 = Some (armed_window w) \<and>
    get_window (armed_after env idx a st) idx 2 =
      (case ws of [] \<Rightarrow> None | w2 # _ \<Rightarrow> Some (armed_window w2))"
proof -
  let ?st = "snd (addScheduleDownload env idx a st)"
  have "get_transfer ?st idx = Some (new_transfer a w ws)" by (simp add: added_get [OF assms])
  then obtain info where add: "transfers_transfer_add_info idx ?st =
      transfers_timewindow_add_info idx (upd_transfer idx (\<lambda>t. t\<lparr>tr_priv := Valid info\<rparr>) ?st)"
    (is "_ = transfers_timewindow_add_info idx ?st1")
    by (rule add_info_new)
  have "get_window ?st1 idx j = get_window ?st idx j" for j
    by (auto simp: get_window_def find_window_def split: Option.bind_splits)
  note win = this [of 1] this [of 2]
    new_transfer_windows [OF \<open>get_transfer ?st idx = Some (new_transfer a w ws)\<close>]
  let ?x = "\<lambda>j. new_window (nth_args w ws j)"
  let ?y = "\<lambda>j. (?x j)\<lparr>tw_priv := Valid \<lparr>twi_start = Timer None, twi_end = Timer None\<rparr>\<rparr>"
  let ?z = "\<lambda>j. armed_window (nth_args w ws j)"
  let ?st2 = "transfers_timewindow_add_info idx ?st1"
  have "get_window ?st2 idx 1 = Some (?y 1) \<and>
      get_window ?st2 idx 2 = (case get_window ?st1 idx 2 of None \<Rightarrow> None | Some _ \<Rightarrow> Some (?y 2))"
    unfolding transfers_timewindow_add_info_def
    by (rule both_windows_two [where x = ?x and y = ?y]) (auto simp: win arm_window internal_other simp del: One_nat_def)
  then have 2: "get_window ?st2 idx 1 = Some (?y 1)"
      "get_window ?st2 idx 2 = (if ws = [] then None else Some (?y 2))"
    by (simp_all add: win)
  have "get_window (transfers_timewindow_start idx ?st2) idx 1 = Some (?z 1) \<and>
      get_window (transfers_timewindow_start idx ?st2) idx 2 =
        (case get_window ?st2 idx 2 of None \<Rightarrow> None | Some _ \<Rightarrow> Some (?z 2))"
    by (rule start_both [where u = "nth_args w ws"]) (use 2 in auto)
  moreover have "fst (addScheduleDownload env idx a st) = amxd_status_ok"
    using assms(2,3) by (simp add: addScheduleDownload_def)
  ultimately show ?thesis
    by (simp add: armed_after_def scheduleDownload_added_def add 2 nth_args_def split: list.splits)
qed

theorem schedule_arms_timers_witness:
  "get_window (armed_after (example_env 0) 1 (example_args [example_window_args 60 120]) plugin_start) 1 1 =
     Some (armed_window (example_window_args 60 120))"
  using schedule_arms_timers [of 1 plugin_start "example_args [example_window_args 60 120]"
      "example_window_args 60 120" "[]" "example_env 0"]
  by (simp add: plugin_start_def example_args_def example_env_def)

subsection \<open>Two defects\<close>

text \<open>A transfer can be reported Failed while its upgrade is still running: when the
  second window opens before the upgrade started in the first one has finished,
  \<open>transfers_start_transfer\<close> is refused by the upgrade in progress (its own), and the transfer is
  set to Failed with fault 9002. Such a state is reachable with a bus that accepts everything.\<close>

theorem running_upgrade_reported_failed:
  "\<exists>st t. plugin_reachable (only_env 0) st \<and> transfer_in_progress st = Some 1 \<and>
     get_transfer st 1 = Some t \<and> tc_Status t = ''Failed'' \<and> tc_FaultCode t = FAULT_CODE_INTERNAL_ERROR"
proof -
  have c: "get_transfer run_failed 1 \<noteq> None" "transfer_in_progress run_failed = Some 1"
    "tc_Status (the (get_transfer run_failed 1)) = ''Failed''"
    "tc_FaultCode (the (get_transfer run_failed 1)) = FAULT_CODE_INTERNAL_ERROR"
    by code_simp+
  then obtain t where "get_transfer run_failed 1 = Some t" by blast
  with c reach_failed show ?thesis by (intro exI [of _ run_failed] exI [of _ t]) simp
qed

text \<open>\<open>transfers_transfer_del_info\<close> frees the info but leaves \<open>obj->priv\<close> pointing at
  it: a second deletion request for the same instance, or one of its window events delivered after
  the deletion action, uses freed memory.\<close>

theorem del_info_leaves_dangling:
  assumes "get_transfer st i = Some t" "tr_priv t = Valid info"
  shows "mem_error (snd (scheduleDownload_del_inst i (snd (scheduleDownload_del_inst i st)))) \<and>
    mem_error (handle_event env (Tw_ended i j) (snd (scheduleDownload_del_inst i st)))"
proof -
  have k: "\<exists>u. get_transfer (transfers_timewindow_del_info i s) i = Some u \<and> tr_priv u = Freed"
    if "get_transfer s i = Some v" "tr_priv v = Freed" for s v
    unfolding transfers_timewindow_del_info_def using that
    by (intro both_windows_keeps [where P = "\<lambda>s. \<exists>u. get_transfer s i = Some u \<and> tr_priv u = Freed"])
      (auto simp: timewindow_internal_del_info_def split: option.splits cptr.splits)
  have "get_transfer (upd_transfer i (\<lambda>t. t\<lparr>tr_priv := Freed\<rparr>) st) i = Some (t\<lparr>tr_priv := Freed\<rparr>)"
    using assms(1) by simp
  from k [OF this] obtain u
    where "get_transfer (snd (scheduleDownload_del_inst i st)) i = Some u" "tr_priv u = Freed"
    using assms by (auto simp: scheduleDownload_del_inst_def transfers_transfer_del_info_def)
  then show ?thesis
    by (simp add: scheduleDownload_del_inst_def transfers_transfer_del_info_def timewindow_ended_def)
qed

theorem del_info_leaves_dangling_witness:
  "mem_error (snd (scheduleDownload_del_inst 7 (snd (scheduleDownload_del_inst 7
     (plugin_start\<lparr>downloads := [(7, refused_transfer)]\<rparr>)))))"
  using del_info_leaves_dangling [of "plugin_start\<lparr>downloads := [(7, refused_transfer)]\<rparr>" 7
      refused_transfer]
  by (simp add: get_transfer_def refused_transfer_def example_transfer_def)

end
