(* ===== verification/Amx_Paths.thy ===== *)
theory Amx_Paths
  imports Prelude
begin

section \<open>Data-model paths of the device adapter (DM\_AmxCommon.c)\<close>

text \<open>
  The functions on TR-069 paths that the adapter shares: validity, wildcards, the translation of
  instance numbers to aliases and back. Paths are \<open>string\<close>s; \<open>strtok\<close> on dots is \<open>strtok_all\<close> of the
  prelude. The configuration, the bus and the Ambiorix path and string functions are fields of
  \<open>amx_env\<close>.
\<close>

subsection \<open>Model\<close>

abbreviation dot :: char where "dot \<equiv> CHR ''.''"

record amx_env =
  ae_wildcards :: "cstr option"
  ae_is_search_path :: "string \<Rightarrow> bool"
  ae_resolve :: "string \<Rightarrow> string list option"
  ae_param :: "string \<Rightarrow> string"
  ae_prefix :: string
  ae_split :: "string \<Rightarrow> string list"
  ae_fixed_part :: "string \<Rightarrow> cstr"
  ae_numeric :: "string \<Rightarrow> bool"
  ae_alias :: "string \<Rightarrow> cstr"

datatype amxc_var_id =
    AMXC_VAR_ID_INT8 | AMXC_VAR_ID_INT16 | AMXC_VAR_ID_INT32 | AMXC_VAR_ID_INT64
  | AMXC_VAR_ID_UINT8 | AMXC_VAR_ID_UINT16 | AMXC_VAR_ID_UINT32 | AMXC_VAR_ID_UINT64
  | AMXC_VAR_ID_CSTRING | AMXC_VAR_ID_CSV_STRING | AMXC_VAR_ID_SSV_STRING
  | AMXC_VAR_ID_BOOL | AMXC_VAR_ID_TIMESTAMP | AMXC_VAR_ID_ANY | AMXC_VAR_ID_other

datatype DM_ENG_ParameterType =
    DM_ENG_ParameterType_INT | DM_ENG_ParameterType_LONG | DM_ENG_ParameterType_UINT
  | DM_ENG_ParameterType_ULONG | DM_ENG_ParameterType_STRING | DM_ENG_ParameterType_BOOLEAN
  | DM_ENG_ParameterType_DATE | DM_ENG_ParameterType_ANY | DM_ENG_ParameterType_UNDEFINED

definition DM_ENG_Device_Common_ConvertParameterType :: "amxc_var_id \<Rightarrow> DM_ENG_ParameterType" where
  "DM_ENG_Device_Common_ConvertParameterType type =
     (if type \<in> {AMXC_VAR_ID_INT8, AMXC_VAR_ID_INT16, AMXC_VAR_ID_INT32} then DM_ENG_ParameterType_INT
      else if type = AMXC_VAR_ID_INT64 then DM_ENG_ParameterType_LONG
      else if type \<in> {AMXC_VAR_ID_UINT8, AMXC_VAR_ID_UINT16, AMXC_VAR_ID_UINT32} then DM_ENG_ParameterType_UINT
      else if type = AMXC_VAR_ID_UINT64 then DM_ENG_ParameterType_ULONG
      else if type \<in> {AMXC_VAR_ID_CSTRING, AMXC_VAR_ID_CSV_STRING, AMXC_VAR_ID_SSV_STRING}
      then DM_ENG_ParameterType_STRING
      else if type = AMXC_VAR_ID_BOOL then DM_ENG_ParameterType_BOOLEAN
      else if type = AMXC_VAR_ID_TIMESTAMP then DM_ENG_ParameterType_DATE
      else if type = AMXC_VAR_ID_ANY then DM_ENG_ParameterType_ANY
      else DM_ENG_ParameterType_UNDEFINED)"

definition DM_ENG_Device_Common_IsValidPath :: "cstr \<Rightarrow> bool" where
  "DM_ENG_Device_Common_IsValidPath path =
     (case path of
        None \<Rightarrow> False
      | Some p \<Rightarrow> p = [] \<or> (prefix ''Device.'' p \<and> hd p \<noteq> dot \<and> hd p \<noteq> CHR ''*''))"

definition DM_ENG_Device_Common_IsWildcardPath :: "cstr \<Rightarrow> bool" where
  "DM_ENG_Device_Common_IsWildcardPath path =
     (case path of None \<Rightarrow> False | Some p \<Rightarrow> strchr p (CHR ''*'') \<noteq> None)"

text \<open>The loop over the stars of a path whose first character is \<open>prev\<close>.\<close>

fun stars_ok :: "char \<Rightarrow> string \<Rightarrow> bool" where
  "stars_ok prev [] = True"
| "stars_ok prev (c # s) =
     ((if c = CHR ''*'' then prev = dot \<and> (s = [] \<or> hd s = dot) else True) \<and> stars_ok c s)"

definition DM_ENG_Device_Common_IsWildcardPathValid :: "amx_env \<Rightarrow> cstr \<Rightarrow> bool" where
  "DM_ENG_Device_Common_IsWildcardPathValid env path =
     (if \<not> DM_ENG_Device_Common_IsWildcardPath path then True
      else (case ae_wildcards env of
              Some (Some iwcs) \<Rightarrow>
                (if iwcs = ''0'' then False
                 else (case the path of
                         [] \<Rightarrow> True
                       | c # s \<Rightarrow> (if c = CHR ''*'' then False else stars_ok c s)))
            | _ \<Rightarrow> False))"

text \<open>The loop of \<open>DM_ENG_Device_Common_IndexToAlias\<close> over the parts of the path; \<open>orig\<close> are the parts
  of the path of the ACS that are taken over as they are.\<close>

definition alias_text :: "amx_env \<Rightarrow> string \<Rightarrow> string \<Rightarrow> string" where
  "alias_text env acc val =
     (let alias = (if ae_numeric env val then ae_alias env (acc @ val @ ''.Alias'') else None)
      in if str_empty alias then val else ''['' @ the alias @ '']'')"

fun index_to_alias_loop :: "amx_env \<Rightarrow> string list \<Rightarrow> string list \<Rightarrow> string \<Rightarrow> string" where
  "index_to_alias_loop env [] orig acc = acc"
| "index_to_alias_loop env (val # vals) orig acc =
     (if orig \<noteq> [] \<and> hd orig \<noteq> []
      then index_to_alias_loop env vals (tl orig) (acc @ hd orig @ [dot])
      else index_to_alias_loop env vals orig (acc @ alias_text env acc val @ [dot]))"

definition DM_ENG_Device_Common_IndexToAlias :: "amx_env \<Rightarrow> string \<Rightarrow> cstr \<Rightarrow> string option" where
  "DM_ENG_Device_Common_IndexToAlias env acspath path =
     (if str_empty path then None
      else (let orig = (case ae_fixed_part env acspath of None \<Rightarrow> [] | Some f \<Rightarrow> ae_split env f)
            in Some (butlast (index_to_alias_loop env (ae_split env (the path)) orig []))))"

definition DM_ENG_Device_Common_Resolve_Path :: "amx_env \<Rightarrow> string \<Rightarrow> string list option" where
  "DM_ENG_Device_Common_Resolve_Path env path =
     (if DM_ENG_Device_Common_IsWildcardPath (Some path) then
        (if \<not> DM_ENG_Device_Common_IsWildcardPathValid env (Some path) \<or> \<not> ae_is_search_path env path then None
         else (case ae_resolve env path of
                 None \<Rightarrow> None
               | Some ps \<Rightarrow> Some (map (\<lambda>p. if last path \<noteq> dot then p @ ae_param env path else p) ps)))
      else if path = [] \<or> ae_prefix env = path then Some [''Device.'']
      else Some [path])"

definition DM_ENG_Device_Common_EndsWithDot :: "string \<Rightarrow> bool" where
  "DM_ENG_Device_Common_EndsWithDot s \<longleftrightarrow> length s > 0 \<and> last s = dot"

definition DM_ENG_Device_Common_IsParameterPath :: "cstr \<Rightarrow> bool" where
  "DM_ENG_Device_Common_IsParameterPath path =
     (if str_empty path then False
      else if DM_ENG_Device_Common_EndsWithDot (the path) then False
      else if DM_ENG_Device_Common_IsWildcardPath path then False else True)"

subsubsection \<open>Aliases\<close>

definition is_alpha :: "char \<Rightarrow> bool" where
  "is_alpha c \<longleftrightarrow> (let n = of_char c :: nat in (65 \<le> n \<and> n \<le> 90) \<or> (97 \<le> n \<and> n \<le> 122))"

definition is_valid_alias :: "cstr \<Rightarrow> bool" where
  "is_valid_alias alias =
     (case alias of
        Some (c # s) \<Rightarrow>
          (is_alpha c \<or> c = CHR ''_'') \<and>
          list_all (\<lambda>x. is_alpha x \<or> is_digit x \<or> x = CHR ''_'' \<or> x = CHR ''-'') s
      | _ \<Rightarrow> False)"

lemma strstr_length: "strstr s n = Some t \<Longrightarrow> length t \<le> length s"
  by (induction s n rule: strstr.induct) (auto split: if_splits)

text \<open>The loop looks for \<open>.[\<close>, then for the first \<open>]\<close> from there; an alias of 256 characters or more
  does not fit the buffer and is not looked at.\<close>

function valid_alias_loop :: "string \<Rightarrow> bool" where
  "valid_alias_loop p =
     (case strstr p ''.['' of
        None \<Rightarrow> True
      | Some start \<Rightarrow>
          (case strstr start '']'' of
             None \<Rightarrow> True
           | Some fin \<Rightarrow>
               (let alias = take (length start - length fin - 2) (drop 2 start) in
                if length alias < 256 \<and> \<not> is_valid_alias (Some alias) then False
                else valid_alias_loop (drop 1 fin))))"
  by pat_completeness auto

termination
proof (relation "measure length")
  fix p start fin x
  assume "strstr p ''.['' = Some start" "strstr start '']'' = Some fin"
  moreover from this have "prefix '']'' fin" using strstr_Some_prefix by blast
  ultimately show "(drop 1 fin, p) \<in> measure length"
    using strstr_length [of p "''.[''" start] strstr_length [of start "'']''" fin] by (cases fin) auto
qed simp

definition DM_ENG_Device_Common_Is_Valid_Alias_Path :: "cstr \<Rightarrow> bool" where
  "DM_ENG_Device_Common_Is_Valid_Alias_Path path =
     (if str_empty path then False
      else if strstr (the path) ''*'' \<noteq> None then False else valid_alias_loop (the path))"

fun DM_ENG_Device_Common_Is_Alias_Based :: "string \<Rightarrow> bool" where
  "DM_ENG_Device_Common_Is_Alias_Based [] = False"
| "DM_ENG_Device_Common_Is_Alias_Based (c # s) =
     (if c = CHR ''['' \<and> (case strchr (c # s) (CHR '']'') of None \<Rightarrow> False | Some e \<Rightarrow> length e < length s)
      then True else DM_ENG_Device_Common_Is_Alias_Based s)"

record alias_entry =
  al_index :: nat
  al_alias :: string

record alias_list =
  al_entries :: "alias_entry list"
  al_total :: nat

definition alias_token :: "string \<Rightarrow> bool" where
  "alias_token t \<longleftrightarrow> length t \<ge> 3 \<and> hd t = CHR ''['' \<and> last t = CHR '']''"

fun extract_loop :: "nat \<Rightarrow> string list \<Rightarrow> alias_list \<Rightarrow> alias_list" where
  "extract_loop i [] r = r"
| "extract_loop i (t # ts) r =
     extract_loop (Suc i) ts
       (if alias_token t
        then \<lparr>al_entries = al_entries r @ [\<lparr>al_index = i, al_alias = t\<rparr>], al_total = al_total r + length t\<rparr>
        else r)"

definition DM_ENG_Device_Common_Extract_Aliases :: "string \<Rightarrow> alias_list" where
  "DM_ENG_Device_Common_Extract_Aliases path =
     extract_loop 0 (strtok_all dot path) \<lparr>al_entries = [], al_total = 0\<rparr>"

definition replacement :: "alias_entry list \<Rightarrow> nat \<Rightarrow> string \<Rightarrow> string" where
  "replacement es i token = (case find (\<lambda>e. al_index e = i) es of None \<Rightarrow> token | Some e \<Rightarrow> al_alias e)"

fun modify_loop :: "alias_entry list \<Rightarrow> bool \<Rightarrow> nat \<Rightarrow> string list \<Rightarrow> string \<Rightarrow> string" where
  "modify_loop es partial i [] acc = acc"
| "modify_loop es partial i (t # ts) acc =
     modify_loop es partial (Suc i) ts
       (acc @ replacement es i t @ (if ts \<noteq> [] \<or> partial then [dot] else []))"

definition modify_buf_size :: "string \<Rightarrow> alias_list \<Rightarrow> nat" where
  "modify_buf_size path aliases = length path + al_total aliases + 1"

definition DM_ENG_Device_Common_Modify_Path_With_Aliases :: "string \<Rightarrow> alias_list \<Rightarrow> string" where
  "DM_ENG_Device_Common_Modify_Path_With_Aliases path aliases =
     modify_loop (al_entries aliases) (last path = dot) 0 (strtok_all dot path) []"

subsection \<open>Aliases are restored\<close>

lemma split_fields_snoc: "split_fields d (s @ [d]) = split_fields d s @ [[]]"
  by (induction s) (auto split: list.splits)

lemma strtok_all_snoc: "strtok_all d (s @ [d]) = strtok_all d s"
  by (simp add: strtok_all_def split_fields_snoc)

lemma last_field:
  assumes "s \<noteq> []" "last s = d"
  shows "\<exists>fs. split_fields d s = fs @ [[]]"
proof -
  have "s = butlast s @ [d]" using assms append_butlast_last_id [of s] by simp
  then show ?thesis using split_fields_snoc by metis
qed

lemma sum_length_filter: "sum_list (map length (filter (\<lambda>t. t \<noteq> []) xs)) = sum_list (map length xs)"
  by (induction xs) auto

lemma strtok_length:
  assumes "strtok_all d s \<noteq> []"
  shows "sum_list (map length (strtok_all d s)) + (length (strtok_all d s) - 1) + (if last s = d then 1 else 0) \<le> length s"
proof -
  let ?f = "split_fields d s"
  have len: "length s = sum_list (map length ?f) + (length ?f - 1)"
    using length_join_with [of d ?f] by simp
  have "length (strtok_all d s) + (if last s = d then 1 else 0) \<le> length ?f"
  proof (cases "last s = d")
    case True
    have "s \<noteq> []" using assms by (auto simp: strtok_all_def)
    with True last_field obtain fs where "?f = fs @ [[]]" by blast
    then show ?thesis using True by (simp add: strtok_all_def)
  qed (simp add: strtok_all_def)
  moreover have "sum_list (map length (strtok_all d s)) = sum_list (map length ?f)"
    by (simp add: strtok_all_def sum_length_filter)
  moreover have "length (strtok_all d s) > 0" using assms by simp
  ultimately show ?thesis using len by linarith
qed

lemma find_extract:
  "find (\<lambda>e. al_index e = k) (al_entries (extract_loop i ts r)) =
     (case find (\<lambda>e. al_index e = k) (al_entries r) of
        Some e \<Rightarrow> Some e
      | None \<Rightarrow> if i \<le> k \<and> k < i + length ts \<and> alias_token (ts ! (k - i))
                then Some \<lparr>al_index = k, al_alias = ts ! (k - i)\<rparr> else None)"
proof (induction i ts r rule: extract_loop.induct)
  case (1 i r)
  then show ?case by (simp split: option.splits)
next
  case (2 i t ts r)
  have app: "find P (xs @ ys) = (case find P xs of None \<Rightarrow> find P ys | Some e \<Rightarrow> Some e)" for P and xs ys :: "alias_entry list"
    by (induction xs) auto
  show ?case
  proof (cases "k = i")
    case True
    then show ?thesis using 2 by (auto simp: app split: option.splits)
  next
    case False
    then have "i \<le> k \<and> k < i + length (t # ts) \<and> alias_token ((t # ts) ! (k - i)) \<longleftrightarrow>
        Suc i \<le> k \<and> k < Suc i + length ts \<and> alias_token (ts ! (k - Suc i))"
      "i < k \<Longrightarrow> (t # ts) ! (k - i) = ts ! (k - Suc i)"
      by (auto simp: nth_Cons' less_eq_Suc_le)
    with 2 False show ?thesis by (auto simp: app split: option.splits)
  qed
qed

lemma find_aliases:
  "find (\<lambda>e. al_index e = k) (al_entries (DM_ENG_Device_Common_Extract_Aliases p)) =
     (if k < length (strtok_all dot p) \<and> alias_token (strtok_all dot p ! k)
      then Some \<lparr>al_index = k, al_alias = strtok_all dot p ! k\<rparr> else None)"
  by (simp add: DM_ENG_Device_Common_Extract_Aliases_def find_extract)

lemma extract_total: "al_total (extract_loop i ts r) + sum_list (map (length \<circ> al_alias) (al_entries r)) =
    sum_list (map (length \<circ> al_alias) (al_entries (extract_loop i ts r))) + al_total r"
  by (induction i ts r rule: extract_loop.induct) auto

fun replaced :: "alias_entry list \<Rightarrow> nat \<Rightarrow> string list \<Rightarrow> string list" where
  "replaced es i [] = []"
| "replaced es i (t # ts) = replacement es i t # replaced es (Suc i) ts"

lemma replaced_nth: "k < length ts \<Longrightarrow> replaced es i ts ! k = replacement es (i + k) (ts ! k)"
  by (induction ts arbitrary: i k) (auto simp: nth_Cons split: nat.splits)

lemma length_replaced [simp]: "length (replaced es i ts) = length ts"
  by (induction es i ts rule: replaced.induct) auto

lemma modify_loop_join:
  "modify_loop es partial i ts acc =
     acc @ join_with dot (replaced es i ts) @ (if partial \<and> ts \<noteq> [] then [dot] else [])"
proof (induction es partial i ts acc rule: modify_loop.induct)
  case (2 es partial i t ts acc)
  then show ?case by (cases ts) auto
qed simp

lemma find_sum:
  assumes "finite K"
  shows "(\<Sum>k\<in>K. case find (\<lambda>e. al_index e = k) es of None \<Rightarrow> 0 | Some e \<Rightarrow> length (al_alias e)) \<le>
    sum_list (map (length \<circ> al_alias) es)" (is "(\<Sum>k\<in>K. ?h es k) \<le> _")
proof (induction es)
  case (Cons e es)
  have "(\<Sum>k\<in>K. ?h (e # es) k) \<le> (\<Sum>k\<in>K. (if al_index e = k then length (al_alias e) else 0) + ?h es k)"
    by (rule sum_mono) auto
  also have "\<dots> \<le> length (al_alias e) + (\<Sum>k\<in>K. ?h es k)"
    using assms by (simp add: sum.distrib)
  finally show ?case using Cons by simp
qed simp

text \<open>The buffer in which an alias path is rebuilt always suffices: for the aliases of any
  path, the rebuilt path and its terminator fit into the allocated \<open>strlen(path) + total_alias_length + 1\<close>
  bytes.\<close>

theorem modify_path_fits:
  "length (DM_ENG_Device_Common_Modify_Path_With_Aliases path (DM_ENG_Device_Common_Extract_Aliases acspath)) + 1 \<le>
    modify_buf_size path (DM_ENG_Device_Common_Extract_Aliases acspath)"
proof (cases "strtok_all dot path = []")
  case True
  then show ?thesis by (simp add: DM_ENG_Device_Common_Modify_Path_With_Aliases_def modify_buf_size_def)
next
  case False
  let ?al = "DM_ENG_Device_Common_Extract_Aliases acspath" and ?ts = "strtok_all dot path"
  let ?es = "al_entries ?al" and ?n = "length (strtok_all dot path)"
  have "sum_list (map length (replaced ?es 0 ?ts)) = (\<Sum>k<?n. length (replacement ?es k (?ts ! k)))"
    by (simp add: sum_list_sum_nth replaced_nth atLeast0LessThan)
  also have "\<dots> \<le> (\<Sum>k<?n. length (?ts ! k) +
      (case find (\<lambda>e. al_index e = k) ?es of None \<Rightarrow> 0 | Some e \<Rightarrow> length (al_alias e)))"
    by (rule sum_mono) (auto simp: replacement_def split: option.splits)
  also have "\<dots> = sum_list (map length ?ts) +
      (\<Sum>k<?n. case find (\<lambda>e. al_index e = k) ?es of None \<Rightarrow> 0 | Some e \<Rightarrow> length (al_alias e))"
    by (simp add: sum.distrib sum_list_sum_nth atLeast0LessThan)
  also have "\<dots> \<le> sum_list (map length ?ts) + al_total ?al"
    using find_sum [of "{..<?n}" ?es] extract_total [of 0 "strtok_all dot acspath" "\<lparr>al_entries = [], al_total = 0\<rparr>"]
    by (simp add: DM_ENG_Device_Common_Extract_Aliases_def)
  finally show ?thesis
    using strtok_length [OF False] False
    by (auto simp: DM_ENG_Device_Common_Modify_Path_With_Aliases_def modify_loop_join length_join_with
        modify_buf_size_def split: if_splits)
qed

text \<open>Aliases survive the translation: a path the ACS addressed with aliases, resolved to instance
  numbers at the alias positions and equal elsewhere, is turned back into the ACS's own elements, and ends
  with a dot exactly when the resolved path does.\<close>

theorem aliases_restored:
  assumes "length (strtok_all dot path) = length (strtok_all dot acspath)" "strtok_all dot path \<noteq> []"
    and "\<forall>k<length (strtok_all dot path).
           \<not> alias_token (strtok_all dot acspath ! k) \<longrightarrow> strtok_all dot path ! k = strtok_all dot acspath ! k"
  shows "DM_ENG_Device_Common_Modify_Path_With_Aliases path (DM_ENG_Device_Common_Extract_Aliases acspath) =
    join_with dot (strtok_all dot acspath) @ (if last path = dot then [dot] else [])"
proof -
  have "replaced (al_entries (DM_ENG_Device_Common_Extract_Aliases acspath)) 0 (strtok_all dot path) =
      strtok_all dot acspath"
    using assms(1,3) by (intro nth_equalityI) (auto simp: replaced_nth replacement_def find_aliases)
  with assms(2) show ?thesis
    by (simp add: DM_ENG_Device_Common_Modify_Path_With_Aliases_def modify_loop_join)
qed

theorem aliases_restored_witness:
  "DM_ENG_Device_Common_Modify_Path_With_Aliases ''Device.IP.Interface.3.''
     (DM_ENG_Device_Common_Extract_Aliases ''Device.IP.Interface.[lan].'') = ''Device.IP.Interface.[lan].''"
proof -
  have t: "strtok_all dot ''Device.IP.Interface.3.'' = [''Device'', ''IP'', ''Interface'', ''3'']"
    "strtok_all dot ''Device.IP.Interface.[lan].'' = [''Device'', ''IP'', ''Interface'', ''[lan]'']"
    by code_simp+
  have "\<forall>k<length (strtok_all dot ''Device.IP.Interface.3.'').
      \<not> alias_token (strtok_all dot ''Device.IP.Interface.[lan].'' ! k) \<longrightarrow>
      strtok_all dot ''Device.IP.Interface.3.'' ! k = strtok_all dot ''Device.IP.Interface.[lan].'' ! k"
    by (simp add: t alias_token_def less_Suc_eq)
  then show ?thesis
    using aliases_restored [of "''Device.IP.Interface.3.''" "''Device.IP.Interface.[lan].''"] by (simp add: t)
qed

subsection \<open>Wildcards\<close>

lemma stars_ok_fields:
  "c \<noteq> CHR ''*'' \<Longrightarrow> stars_ok c s \<longleftrightarrow>
     (case split_fields dot s of
        f # fs \<Rightarrow> (if c = dot then CHR ''*'' \<in> set f \<longrightarrow> f = ''*'' else CHR ''*'' \<notin> set f) \<and>
          (\<forall>g\<in>set fs. CHR ''*'' \<in> set g \<longrightarrow> g = ''*''))"
proof (induction s arbitrary: c)
  case Nil
  then show ?case by simp
next
  case (Cons a s)
  obtain f fs where f: "split_fields dot s = f # fs" by (cases "split_fields dot s") auto
  show ?case
  proof (cases "a = CHR ''*''")
    case False
    with Cons f show ?thesis by auto
  next
    case True
    have nil: "s = [] \<longleftrightarrow> f = [] \<and> fs = []" using f by (cases s) (auto split: if_splits list.splits)
    have hd: "s \<noteq> [] \<Longrightarrow> hd s = dot \<longleftrightarrow> f = []" using f by (cases s) (auto split: if_splits list.splits)
    show ?thesis
    proof (cases "f = []")
      case empty: True
      have "stars_ok (CHR ''*'') s \<longleftrightarrow> (\<forall>g\<in>set fs. CHR ''*'' \<in> set g \<longrightarrow> g = ''*'')"
      proof (cases s)
        case Nil
        with f empty show ?thesis by simp
      next
        case (Cons b t)
        with hd empty have b: "b = dot" by simp
        with Cons f empty have "split_fields dot t = fs" by simp
        moreover have "stars_ok (CHR ''*'') s = stars_ok dot t" using Cons b by simp
        moreover have "stars_ok dot t \<longleftrightarrow> stars_ok dot s" using Cons b by simp
        ultimately show ?thesis using Cons.IH [of dot] f empty by simp
      qed
      with True f empty nil hd Cons.prems show ?thesis by auto
    next
      case nonempty: False
      then have "s \<noteq> []" "hd s \<noteq> dot" using nil hd by auto
      with True f nonempty show ?thesis by auto
    qed
  qed
qed

text \<open>A wildcard path is accepted exactly when wildcards are enabled and every element of the
  path that contains a star is a star alone, the first element containing none.\<close>

theorem wildcard_path_valid_iff:
  assumes "CHR ''*'' \<in> set p"
  shows "DM_ENG_Device_Common_IsWildcardPathValid env (Some p) \<longleftrightarrow>
    (\<exists>v. ae_wildcards env = Some (Some v) \<and> v \<noteq> ''0'') \<and>
    CHR ''*'' \<notin> set (hd (split_fields dot p)) \<and>
    (\<forall>g\<in>set (tl (split_fields dot p)). CHR ''*'' \<in> set g \<longrightarrow> g = ''*'')"
proof -
  obtain c s where p: "p = c # s" using assms by (cases p) auto
  obtain f fs where f: "split_fields dot s = f # fs" by (cases "split_fields dot s") auto
  have w: "DM_ENG_Device_Common_IsWildcardPath (Some p)"
    using assms strchr_None_iff [of p "CHR ''*''"] by (simp add: DM_ENG_Device_Common_IsWildcardPath_def)
  have "(c \<noteq> CHR ''*'' \<and> stars_ok c s) \<longleftrightarrow> CHR ''*'' \<notin> set (hd (split_fields dot p)) \<and>
      (\<forall>g\<in>set (tl (split_fields dot p)). CHR ''*'' \<in> set g \<longrightarrow> g = ''*'')"
    using p f stars_ok_fields [of c s] by auto
  with w p show ?thesis
    by (auto simp: DM_ENG_Device_Common_IsWildcardPathValid_def split: option.splits)
qed

definition example_amx_env :: amx_env where
  "example_amx_env = \<lparr>ae_wildcards = Some (Some ''1''), ae_is_search_path = (\<lambda>p. True),
     ae_resolve = (\<lambda>p. Some []), ae_param = (\<lambda>p. []), ae_prefix = ''Device.'', ae_split = split_fields dot,
     ae_fixed_part = (\<lambda>p. None), ae_numeric = (\<lambda>p. p \<noteq> [] \<and> list_all is_digit p),
     ae_alias = (\<lambda>p. if p = ''Device.IP.Interface.3.Alias'' then Some ''lan'' else None)\<rparr>"

theorem wildcard_path_valid_iff_witness:
  "DM_ENG_Device_Common_IsWildcardPathValid example_amx_env (Some ''Device.IP.*.Name'') \<and>
   \<not> DM_ENG_Device_Common_IsWildcardPathValid example_amx_env (Some ''Device.I*.Name'')"
proof -
  have "split_fields dot ''Device.IP.*.Name'' = [''Device'', ''IP'', ''*'', ''Name'']"
    "split_fields dot ''Device.I*.Name'' = [''Device'', ''I*'', ''Name'']" by code_simp+
  then show ?thesis
    using wildcard_path_valid_iff [of "''Device.IP.*.Name''" example_amx_env]
      wildcard_path_valid_iff [of "''Device.I*.Name''" example_amx_env]
    by (simp add: example_amx_env_def)
qed

subsection \<open>Instance numbers become aliases\<close>

text \<open>What the loop puts in place of each part, given the path built so far.\<close>

fun alias_parts :: "amx_env \<Rightarrow> string list \<Rightarrow> string list \<Rightarrow> string \<Rightarrow> string list" where
  "alias_parts env [] orig acc = []"
| "alias_parts env (val # vals) orig acc =
     (if orig \<noteq> [] \<and> hd orig \<noteq> []
      then hd orig # alias_parts env vals (tl orig) (acc @ hd orig @ [dot])
      else alias_text env acc val # alias_parts env vals orig (acc @ alias_text env acc val @ [dot]))"

lemma index_to_alias_loop_parts:
  "index_to_alias_loop env vals orig acc =
     acc @ concat (map (\<lambda>p. p @ [dot]) (alias_parts env vals orig acc))"
  by (induction env vals orig acc rule: index_to_alias_loop.induct) auto

lemma length_alias_parts [simp]: "length (alias_parts env vals orig acc) = length vals"
  by (induction env vals orig acc rule: alias_parts.induct) simp_all

lemma butlast_parts: "xs \<noteq> [] \<Longrightarrow> butlast (concat (map (\<lambda>p. p @ [dot]) xs)) = join_with dot xs"
proof (induction xs)
  case (Cons x xs)
  show ?case
  proof (cases xs)
    case Nil
    then show ?thesis by simp
  next
    case (Cons y ys)
    with Cons.IH show ?thesis by (auto simp: butlast_append)
  qed
qed simp

lemma alias_parts_no_dot:
  assumes "\<forall>v\<in>set vals. dot \<notin> set v" "\<forall>q\<in>set orig. dot \<notin> set q" "\<forall>p a. ae_alias env p = Some a \<longrightarrow> dot \<notin> set a"
  shows "\<forall>p\<in>set (alias_parts env vals orig acc). dot \<notin> set p"
  using assms
proof (induction env vals orig acc rule: alias_parts.induct)
  case (2 env val vals orig acc)
  have "dot \<notin> set (alias_text env acc val)"
    using 2(3,5) by (auto simp: alias_text_def str_empty_def Let_def split: option.splits if_splits)
  moreover have "\<forall>q\<in>set (tl orig). dot \<notin> set q" using 2(4) by (cases orig) auto
  ultimately show ?case using 2 by auto
qed simp

text \<open>Translating a path to aliases keeps its shape: the result has one element for each element
  of the path, in order; the leading ones are those the ACS used in its own request, a number with an alias
  in the data model becomes that alias in brackets, looked up under the path translated so far, and every
  other element stays as it is (splitting is at dots; aliases contain none).\<close>

theorem index_to_alias_elements:
  assumes "ae_split env = split_fields dot" "\<forall>p a. ae_alias env p = Some a \<longrightarrow> dot \<notin> set a" "path \<noteq> []"
    and "orig = (case ae_fixed_part env acspath of None \<Rightarrow> [] | Some f \<Rightarrow> split_fields dot f)"
  shows "\<exists>r. DM_ENG_Device_Common_IndexToAlias env acspath (Some path) = Some r \<and>
    split_fields dot r = alias_parts env (split_fields dot path) orig [] \<and>
    length (split_fields dot r) = length (split_fields dot path)"
proof -
  let ?ps = "alias_parts env (split_fields dot path) orig []"
  have "length ?ps \<noteq> 0" by simp
  then have ne: "?ps \<noteq> []" by (metis list.size(3))
  have "DM_ENG_Device_Common_IndexToAlias env acspath (Some path) = Some (join_with dot ?ps)"
    using assms(3) butlast_parts [OF ne] unfolding assms(4)
    by (simp add: DM_ENG_Device_Common_IndexToAlias_def index_to_alias_loop_parts assms(1) cong: option.case_cong)
  moreover have "\<forall>p\<in>set ?ps. dot \<notin> set p"
    using assms by (intro alias_parts_no_dot) (auto dest: split_fields_no_delim split: option.splits)
  ultimately show ?thesis using split_join [OF ne] by simp
qed

theorem index_to_alias_elements_witness:
  "DM_ENG_Device_Common_IndexToAlias example_amx_env [] (Some ''Device.IP.Interface.3.'') =
     Some ''Device.IP.Interface.[lan].''"
proof -
  have f: "split_fields dot ''Device.IP.Interface.3.'' = [''Device'', ''IP'', ''Interface'', ''3'', '''']"
    by code_simp
  have a: "alias_parts example_amx_env [''Device'', ''IP'', ''Interface'', ''3'', ''''] [] [] =
      [''Device'', ''IP'', ''Interface'', ''[lan]'', '''']" by code_simp
  have e: "ae_split example_amx_env = split_fields dot"
    "\<forall>p a. ae_alias example_amx_env p = Some a \<longrightarrow> dot \<notin> set a" by (simp_all add: example_amx_env_def)
  from index_to_alias_elements [OF e, of "''Device.IP.Interface.3.''" "[]" "[]"]
  obtain r where r: "DM_ENG_Device_Common_IndexToAlias example_amx_env [] (Some ''Device.IP.Interface.3.'') = Some r"
    "split_fields dot r = [''Device'', ''IP'', ''Interface'', ''[lan]'', '''']"
    using f a by (auto simp: example_amx_env_def)
  then have "r = join_with dot [''Device'', ''IP'', ''Interface'', ''[lan]'', '''']" by (metis join_split)
  with r(1) show ?thesis by simp
qed

subsection \<open>Long aliases\<close>

lemma strstr_char: "strstr s [c] = strchr s c"
  by (induction s) (auto simp: strchr_def)

text \<open>An alias of 256 characters or more is never validated: the path is accepted whatever
  characters the alias holds, because the check copies it into a buffer of 256 bytes only when it fits.\<close>

theorem long_alias_unchecked:
  assumes "length a \<ge> 256" "CHR '']'' \<notin> set a" "CHR ''*'' \<notin> set a"
  shows "DM_ENG_Device_Common_Is_Valid_Alias_Path (Some (''Device.['' @ a @ ''].''))"
proof -
  let ?p = "''Device.['' @ a @ ''].''"
  have s: "strstr ?p ''.['' = Some (''.['' @ a @ ''].'')" by simp
  have e: "strstr (''.['' @ a @ ''].'') '']'' = Some ''].''"
    using assms(2) strchr_skip [of "CHR '']''" "''.['' @ a" "''.''"] by (simp add: strstr_char)
  have "valid_alias_loop ?p = valid_alias_loop ''.''"
    using assms(1) s e by (subst valid_alias_loop.simps) (simp add: Let_def)
  also have "\<dots>" by (subst valid_alias_loop.simps) simp
  finally have "valid_alias_loop ?p" .
  moreover have "strstr ?p ''*'' = None"
    using assms(3) strchr_None_iff [of ?p "CHR ''*''"] by (simp add: strstr_char)
  ultimately show ?thesis by (simp add: DM_ENG_Device_Common_Is_Valid_Alias_Path_def)
qed

theorem long_alias_unchecked_witness:
  "DM_ENG_Device_Common_Is_Valid_Alias_Path (Some (''Device.['' @ replicate 256 (CHR ''!'') @ ''].'')) \<and>
   \<not> is_valid_alias (Some (replicate 256 (CHR ''!'')))"
  using long_alias_unchecked [of "replicate 256 (CHR ''!'')"]
  by (simp add: is_valid_alias_def is_alpha_def numeral_eq_Suc)

end
