(* ===== verification/Set_Values.thy ===== *)
theory Set_Values
  imports Amx_Paths
begin

section \<open>SetParameterValues (DM\_AmxParameterValues.c, DM\_DeviceAdapter.c)\<close>

text \<open>
  The RPC in two passes over the list of the ACS: the validation of every parameter, object by object,
  then one \<open>amxb_set\<close> for each run of parameters of the same object. Indexes into the array are
  natural numbers and the null pointer that ends it is its length. Faults, calls to \<open>amxb_set\<close> and
  entries of the attribute cache are logged in \<open>spv\<close>; \<open>strdup\<close> succeeds. The splitting of a path into
  object and parameter, the description of an object, the access rights and the answer of the bus (which
  may depend on the earlier calls) are fields of \<open>spv_env\<close>.
\<close>

subsection \<open>Data\<close>

datatype dm_error =
    DM_OK | DM_ENG_INTERNAL_ERROR | DM_ENG_INVALID_ARGUMENTS | DM_ENG_INVALID_PARAMETER_NAME
  | DM_ENG_INVALID_PARAMETER_TYPE | DM_ENG_INVALID_PARAMETER_VALUE | DM_ENG_READ_ONLY_PARAMETER

datatype DM_ENG_ParameterStatus = DM_ENG_ParameterStatus_APPLIED | DM_ENG_ParameterStatus_UNDEFINED

datatype amxd_status = amxd_status_invalid_value | amxd_status_invalid_type | amxd_status_other

record pvs =
  pv_name :: cstr
  pv_type :: DM_ENG_ParameterType
  pv_value :: cstr

record param_desc =
  pd_type :: amxc_var_id
  pd_read_only :: int

type_synonym set_call = "string \<times> (string \<times> cstr) list"

text \<open>What \<open>amxb_set\<close> returns when it fails: the object and the status of each of its parameters.\<close>

record set_failure =
  sf_object :: string
  sf_params :: "(cstr \<times> amxd_status) list"

record spv_env = amx_env +
  sv_system_ok :: bool
  sv_object :: "string \<Rightarrow> string"
  sv_describe :: "string \<Rightarrow> (string \<Rightarrow> param_desc option) option"
  sv_verify_type :: "cstr option"
  sv_uint_as_bool :: "cstr option"
  sv_set_allowed :: "string \<Rightarrow> string \<Rightarrow> bool"
  sv_set :: "set_call list \<Rightarrow> set_call \<Rightarrow> set_failure option"

record spv =
  faults :: "(cstr \<times> dm_error) list"
  nb_faults :: nat
  sets :: "set_call list"
  attr_cache :: "(cstr \<times> cstr) list"

definition SetParameterValuesFault :: "cstr \<Rightarrow> dm_error \<Rightarrow> spv \<Rightarrow> spv" where
  "SetParameterValuesFault p f st = st\<lparr>faults := faults st @ [(p, f)], nb_faults := nb_faults st + 1\<rparr>"

definition path_of :: "pvs \<Rightarrow> string" where
  "path_of p = (case pv_name p of None \<Rightarrow> [] | Some n \<Rightarrow> n)"

definition config_flag :: "cstr option \<Rightarrow> bool" where
  "config_flag v = (case v of Some (Some s) \<Rightarrow> atoi s \<noteq> 0 | _ \<Rightarrow> False)"

subsection \<open>Validation\<close>

definition DM_ENG_Device_SetParameterValues_CheckForDuplicates :: "pvs list \<Rightarrow> nat \<Rightarrow> spv \<Rightarrow> bool \<times> spv" where
  "DM_ENG_Device_SetParameterValues_CheckForDuplicates ps i st =
     (let n = pv_name (ps ! i) in
      if n \<noteq> None \<and> list_ex (\<lambda>q. pv_name q = n) (take i ps)
      then (True, SetParameterValuesFault n DM_ENG_INVALID_ARGUMENTS st) else (False, st))"

text \<open>The body of the loop over the parameters of one object.\<close>

definition validate_one ::
  "spv_env \<Rightarrow> pvs list \<Rightarrow> (string \<Rightarrow> param_desc option) \<Rightarrow> nat \<Rightarrow> spv \<Rightarrow> dm_error \<times> spv" where
  "validate_one env ps params i st =
     (let p = ps ! i; path = path_of p;
          fail = (\<lambda>f. (DM_ENG_INVALID_ARGUMENTS, SetParameterValuesFault (pv_name p) f st))
      in case params (ae_param env path) of
           None \<Rightarrow> fail DM_ENG_INVALID_PARAMETER_NAME
         | Some d \<Rightarrow>
             (let dmType = DM_ENG_Device_Common_ConvertParameterType (pd_type d) in
              if config_flag (sv_verify_type env) \<and> pv_type p \<noteq> dmType \<and>
                 (\<not> config_flag (sv_uint_as_bool env) \<or> pv_type p \<noteq> DM_ENG_ParameterType_UINT \<or>
                  dmType \<noteq> DM_ENG_ParameterType_BOOLEAN)
              then fail DM_ENG_INVALID_PARAMETER_TYPE
              else (case DM_ENG_Device_SetParameterValues_CheckForDuplicates ps i st of
                      (True, st1) \<Rightarrow> (DM_ENG_INVALID_ARGUMENTS, st1)
                    | (False, st1) \<Rightarrow>
                        (if pd_read_only d \<noteq> 0 then fail DM_ENG_READ_ONLY_PARAMETER
                         else if \<not> sv_set_allowed env (sv_object env path) (ae_param env path)
                         then fail DM_ENG_READ_ONLY_PARAMETER
                         else (DM_OK, st1)))))"

function validate_loop ::
  "spv_env \<Rightarrow> pvs list \<Rightarrow> string \<Rightarrow> (string \<Rightarrow> param_desc option) \<Rightarrow> nat \<Rightarrow> spv \<Rightarrow> dm_error \<times> nat \<times> spv" where
  "validate_loop env ps object_path params i st =
     (if sv_object env (path_of (ps ! i)) \<noteq> object_path then (DM_OK, i - 1, st)
      else (case validate_one env ps params i st of
              (e, st1) \<Rightarrow>
                (if e \<noteq> DM_OK then (e, i, st1)
                 else if Suc i \<ge> length ps then (DM_OK, i, st1)
                 else if \<not> DM_ENG_Device_Common_IsValidPath (pv_name (ps ! Suc i))
                 then (DM_ENG_INVALID_ARGUMENTS, Suc i,
                       SetParameterValuesFault (pv_name (ps ! Suc i)) DM_ENG_INVALID_PARAMETER_NAME st1)
                 else validate_loop env ps object_path params (Suc i) st1)))"
  by pat_completeness auto
termination
  by (relation "measure (\<lambda>(env, ps, object_path, params, i, st). length ps - i)") auto

declare validate_loop.simps [simp del]

definition DM_ENG_Device_SetParameterValues_Validate ::
  "spv_env \<Rightarrow> pvs list \<Rightarrow> nat \<Rightarrow> spv \<Rightarrow> dm_error \<times> nat \<times> spv" where
  "DM_ENG_Device_SetParameterValues_Validate env ps i st =
     (let p = ps ! i; path = path_of p;
          fail = (DM_ENG_INVALID_ARGUMENTS, i, SetParameterValuesFault (pv_name p) DM_ENG_INVALID_PARAMETER_NAME st)
      in if \<not> DM_ENG_Device_Common_IsValidPath (pv_name p) then fail
         else if ae_is_search_path env path \<and> \<not> DM_ENG_Device_Common_Is_Valid_Alias_Path (Some path) then fail
         else (case sv_describe env (sv_object env path) of
                 None \<Rightarrow> fail
               | Some params \<Rightarrow> validate_loop env ps (sv_object env path) params i st))"

lemma validate_loop_index:
  "validate_loop env ps obj params i st = (e, k, st') \<Longrightarrow>
   i - 1 \<le> k \<and> (sv_object env (path_of (ps ! i)) = obj \<longrightarrow> i \<le> k)"
proof (induction env ps obj params i st rule: validate_loop.induct)
  case (1 env ps obj params i st)
  obtain e1 st1 where v: "validate_one env ps params i st = (e1, st1)" by fastforce
  show ?case
    using "1.prems" "1.IH" [OF _ v [symmetric]]
    by (subst (asm) validate_loop.simps) (fastforce simp: v split: if_splits)
qed

lemma Validate_index:
  "DM_ENG_Device_SetParameterValues_Validate env ps i st = (e, k, st') \<Longrightarrow> i \<le> k"
  by (auto simp: DM_ENG_Device_SetParameterValues_Validate_def Let_def dest: validate_loop_index
      split: if_splits option.splits)

text \<open>The first loop of the RPC: the first error is kept.\<close>

function validate_all :: "spv_env \<Rightarrow> pvs list \<Rightarrow> nat \<Rightarrow> dm_error \<Rightarrow> spv \<Rightarrow> dm_error \<times> spv" where
  "validate_all env ps i err st =
     (if i < length ps then
        (case DM_ENG_Device_SetParameterValues_Validate env ps i st of
           (e, k, st1) \<Rightarrow> validate_all env ps (Suc k) (if err = DM_OK then e else err) st1)
      else (err, st))"
  by pat_completeness auto
termination
  by (relation "measure (\<lambda>(env, ps, i, err, st). length ps - i)") (auto dest!: Validate_index [OF sym])

declare validate_all.simps [simp del]

subsection \<open>Setting\<close>

definition tr069_spv_amxd_status_to_spv_fault_code :: "amxd_status \<Rightarrow> dm_error" where
  "tr069_spv_amxd_status_to_spv_fault_code status =
     (case status of
        amxd_status_invalid_value \<Rightarrow> DM_ENG_INVALID_PARAMETER_VALUE
      | amxd_status_invalid_type \<Rightarrow> DM_ENG_INVALID_PARAMETER_TYPE
      | amxd_status_other \<Rightarrow> DM_ENG_INTERNAL_ERROR)"

fun spv_param_faults :: "string \<Rightarrow> (cstr \<times> amxd_status) list \<Rightarrow> spv \<Rightarrow> spv" where
  "spv_param_faults obj [] st = st"
| "spv_param_faults obj ((key, status) # ps) st =
     spv_param_faults obj ps
       (if str_empty key then st
        else SetParameterValuesFault (Some (obj @ the key)) (tr069_spv_amxd_status_to_spv_fault_code status) st)"

definition tr069_spv_build_spv_faults :: "set_failure \<Rightarrow> spv \<Rightarrow> spv" where
  "tr069_spv_build_spv_faults f st = spv_param_faults (sf_object f) (sf_params f) st"

text \<open>The loop that collects the parameters of one object.\<close>

function collect_group :: "spv_env \<Rightarrow> pvs list \<Rightarrow> string \<Rightarrow> nat \<Rightarrow> spv \<Rightarrow> nat \<times> (string \<times> cstr) list \<times> spv" where
  "collect_group env ps object_path i st =
     (let p = ps ! i in
      if sv_object env (path_of p) \<noteq> object_path then (i - 1, [], st)
      else
        (let st1 = st\<lparr>attr_cache := attr_cache st @ [(pv_name p, pv_value p)]\<rparr>;
             kv = (ae_param env (path_of p), pv_value p)
         in if Suc i \<ge> length ps then (i, [kv], st1)
            else (case collect_group env ps object_path (Suc i) st1 of
                    (k, kvs, st2) \<Rightarrow> (k, kv # kvs, st2))))"
  by pat_completeness auto
termination
  by (relation "measure (\<lambda>(env, ps, object_path, i, st). length ps - i)") auto

declare collect_group.simps [simp del]

definition DM_ENG_Device_SetParameterValues_SetValues ::
  "spv_env \<Rightarrow> pvs list \<Rightarrow> nat \<Rightarrow> spv \<Rightarrow> dm_error \<times> nat \<times> spv" where
  "DM_ENG_Device_SetParameterValues_SetValues env ps i st =
     (let object_path = sv_object env (path_of (ps ! i)) in
      case collect_group env ps object_path i st of
        (k, kvs, st1) \<Rightarrow>
          (let c = (object_path, kvs); st2 = st1\<lparr>sets := sets st1 @ [c]\<rparr> in
           case sv_set env (sets st1) c of
             None \<Rightarrow> (DM_OK, k, st2)
           | Some f \<Rightarrow> (DM_ENG_INVALID_ARGUMENTS, k, tr069_spv_build_spv_faults f st2)))"

lemma collect_group_index:
  "collect_group env ps obj i st = (k, kvs, st') \<Longrightarrow>
   i - 1 \<le> k \<and> (sv_object env (path_of (ps ! i)) = obj \<longrightarrow> i \<le> k)"
proof (induction env ps obj i st arbitrary: k kvs st' rule: collect_group.induct)
  case (1 env ps obj i st)
  obtain k1 kvs1 st1 where c: "collect_group env ps obj (Suc i)
      (st\<lparr>attr_cache := attr_cache st @ [(pv_name (ps ! i), pv_value (ps ! i))]\<rparr>) = (k1, kvs1, st1)"
    by (metis prod_cases3)
  show ?case
    using "1.prems" "1.IH" [OF refl _ refl refl _ c]
    by (subst (asm) collect_group.simps) (auto simp: Let_def c split: if_splits)
qed

lemma SetValues_index:
  "DM_ENG_Device_SetParameterValues_SetValues env ps i st = (e, k, st') \<Longrightarrow> i \<le> k"
  by (auto simp: DM_ENG_Device_SetParameterValues_SetValues_def Let_def dest: collect_group_index
      split: option.splits prod.splits)

text \<open>The second loop: the error of each object replaces that of the one before.\<close>

function set_all :: "spv_env \<Rightarrow> pvs list \<Rightarrow> nat \<Rightarrow> dm_error \<Rightarrow> spv \<Rightarrow> dm_error \<times> spv" where
  "set_all env ps i err st =
     (if i < length ps then
        (case DM_ENG_Device_SetParameterValues_SetValues env ps i st of
           (e, k, st1) \<Rightarrow> set_all env ps (Suc k) e st1)
      else (err, st))"
  by pat_completeness auto
termination
  by (relation "measure (\<lambda>(env, ps, i, err, st). length ps - i)") (auto dest!: SetValues_index [OF sym])

declare set_all.simps [simp del]

definition DM_ENG_Device_SetParameterValues ::
  "spv_env \<Rightarrow> pvs list \<Rightarrow> spv \<Rightarrow> dm_error \<times> DM_ENG_ParameterStatus option \<times> spv" where
  "DM_ENG_Device_SetParameterValues env ps st =
     (if \<not> sv_system_ok env then (DM_ENG_INTERNAL_ERROR, None, st)
      else (case validate_all env ps 0 DM_OK st of
              (err, st1) \<Rightarrow>
                (if err \<noteq> DM_OK then (err, None, st1)
                 else (case set_all env ps 0 DM_OK st1 of
                         (err2, st2) \<Rightarrow>
                           (err2, Some (if err2 = DM_OK then DM_ENG_ParameterStatus_APPLIED
                                        else DM_ENG_ParameterStatus_UNDEFINED), st2)))))"

subsection \<open>What the validation checks\<close>

definition type_ok :: "spv_env \<Rightarrow> DM_ENG_ParameterType \<Rightarrow> amxc_var_id \<Rightarrow> bool" where
  "type_ok env t d \<longleftrightarrow>
     \<not> config_flag (sv_verify_type env) \<or> t = DM_ENG_Device_Common_ConvertParameterType d \<or>
     (config_flag (sv_uint_as_bool env) \<and> t = DM_ENG_ParameterType_UINT \<and>
      DM_ENG_Device_Common_ConvertParameterType d = DM_ENG_ParameterType_BOOLEAN)"

text \<open>A parameter of the list that may be written: its name is valid and not used before in the list, its
  object describes it, the type agrees and it is writable.\<close>

definition writable :: "spv_env \<Rightarrow> pvs \<Rightarrow> (string \<Rightarrow> param_desc option) \<Rightarrow> bool" where
  "writable env p params \<longleftrightarrow>
     (\<exists>d. params (ae_param env (path_of p)) = Some d \<and> type_ok env (pv_type p) (pd_type d) \<and>
        pd_read_only d = 0 \<and> sv_set_allowed env (sv_object env (path_of p)) (ae_param env (path_of p)))"

definition param_ok :: "spv_env \<Rightarrow> pvs list \<Rightarrow> nat \<Rightarrow> bool" where
  "param_ok env ps i \<longleftrightarrow>
     DM_ENG_Device_Common_IsValidPath (pv_name (ps ! i)) \<and> pv_name (ps ! i) \<notin> pv_name ` set (take i ps) \<and>
     (\<exists>params. sv_describe env (sv_object env (path_of (ps ! i))) = Some params \<and> writable env (ps ! i) params)"

lemma valid_path_name: "DM_ENG_Device_Common_IsValidPath n \<Longrightarrow> n \<noteq> None"
  by (cases n) (simp_all add: DM_ENG_Device_Common_IsValidPath_def)

lemma spv_fault_frame [simp]:
  "sets (SetParameterValuesFault p f st) = sets st" "attr_cache (SetParameterValuesFault p f st) = attr_cache st"
  "faults (SetParameterValuesFault p f st) = faults st @ [(p, f)]"
  by (simp_all add: SetParameterValuesFault_def)

lemma duplicates_iff:
  "DM_ENG_Device_SetParameterValues_CheckForDuplicates ps i st =
     (if pv_name (ps ! i) \<noteq> None \<and> pv_name (ps ! i) \<in> pv_name ` set (take i ps)
      then (True, SetParameterValuesFault (pv_name (ps ! i)) DM_ENG_INVALID_ARGUMENTS st) else (False, st))"
proof -
  have "list_ex (\<lambda>q. pv_name q = pv_name (ps ! i)) (take i ps) \<longleftrightarrow> pv_name (ps ! i) \<in> pv_name ` set (take i ps)"
    unfolding list_ex_iff image_iff by metis
  then show ?thesis by (simp add: DM_ENG_Device_SetParameterValues_CheckForDuplicates_def Let_def)
qed

lemma validate_one_ok:
  assumes "pv_name (ps ! i) \<noteq> None" "validate_one env ps params i st = (e, st')"
  shows "e = DM_OK \<and> st' = st \<and> writable env (ps ! i) params \<and> pv_name (ps ! i) \<notin> pv_name ` set (take i ps) \<or>
    e \<noteq> DM_OK \<and> (\<exists>f. st' = SetParameterValuesFault (pv_name (ps ! i)) f st) \<and>
      \<not> (writable env (ps ! i) params \<and> pv_name (ps ! i) \<notin> pv_name ` set (take i ps))"
proof (cases "params (ae_param env (path_of (ps ! i)))")
  case None
  with assms show ?thesis by (auto simp: validate_one_def writable_def Let_def)
next
  case (Some d)
  with assms show ?thesis
    by (auto simp: validate_one_def writable_def type_ok_def duplicates_iff Let_def split: if_splits)
qed

text \<open>What a call of the validation guarantees: it changes nothing but the faults, and it succeeds
  exactly when the parameters it covers are acceptable.\<close>

definition only_faults :: "spv \<Rightarrow> spv \<Rightarrow> bool" where
  "only_faults st st' \<longleftrightarrow> sets st' = sets st \<and> attr_cache st' = attr_cache st \<and> prefix (faults st) (faults st')"

lemma only_faults_refl [simp]: "only_faults st st"
  by (simp add: only_faults_def)

lemma only_faults_fault [simp]: "only_faults st (SetParameterValuesFault p f st)"
  by (simp add: only_faults_def)

lemma only_faults_trans: "only_faults a b \<Longrightarrow> only_faults b c \<Longrightarrow> only_faults a c"
  by (auto simp: only_faults_def)

lemma validate_loop_ok:
  assumes "validate_loop env ps obj params i st = (e, k, st')" "i < length ps"
    and "DM_ENG_Device_Common_IsValidPath (pv_name (ps ! i))" "sv_describe env obj = Some params"
    and "sv_object env (path_of (ps ! i)) = obj \<or> 0 < i"
  shows "k < length ps \<and> only_faults st st' \<and>
    (e = DM_OK \<longrightarrow> st' = st \<and> (\<forall>j\<in>{i..k}. param_ok env ps j)) \<and>
    ((\<forall>j<length ps. param_ok env ps j) \<longrightarrow> e = DM_OK)"
  using assms
proof (induction env ps obj params i st rule: validate_loop.induct)
  case (1 env ps obj params i st)
  show ?case
  proof (cases "sv_object env (path_of (ps ! i)) = obj")
    case False
    with "1.prems" show ?thesis by (auto simp: validate_loop.simps [of env ps obj params i st])
  next
    case True
    obtain e1 st1 where v: "validate_one env ps params i st = (e1, st1)" by fastforce
    note one = validate_one_ok [OF valid_path_name [OF "1.prems"(3)] v]
    have here: "param_ok env ps i \<longleftrightarrow> writable env (ps ! i) params \<and> pv_name (ps ! i) \<notin> pv_name ` set (take i ps)"
      using True "1.prems"(3,4) by (auto simp: param_ok_def)
    show ?thesis
    proof (cases "e1 = DM_OK \<and> Suc i < length ps \<and> DM_ENG_Device_Common_IsValidPath (pv_name (ps ! Suc i))")
      case False
      have next_ok: "\<forall>j<length ps. param_ok env ps j \<Longrightarrow> Suc i < length ps \<Longrightarrow>
          DM_ENG_Device_Common_IsValidPath (pv_name (ps ! Suc i))"
        by (auto simp: param_ok_def)
      from False "1.prems"(1,2) one here True v next_ok show ?thesis
        by (auto simp: validate_loop.simps [of env ps obj params i st] split: if_splits)
    next
      case more: True
      then have rec: "validate_loop env ps obj params (Suc i) st1 = (e, k, st')" and "st1 = st"
        using "1.prems"(1) True v one by (simp_all add: validate_loop.simps [of env ps obj params i st])
      have ih: "k < length ps \<and> only_faults st1 st' \<and>
          (e = DM_OK \<longrightarrow> st' = st1 \<and> (\<forall>j\<in>{Suc i..k}. param_ok env ps j)) \<and>
          ((\<forall>j<length ps. param_ok env ps j) \<longrightarrow> e = DM_OK)"
        using more True v rec "1.prems"(4) by (intro "1.IH") simp_all
      have "param_ok env ps i" using more one here by blast
      then have "e = DM_OK \<longrightarrow> (\<forall>j\<in>{i..k}. param_ok env ps j)"
        using ih by (metis atLeastAtMost_iff le_neq_implies_less Suc_leI)
      with ih \<open>st1 = st\<close> show ?thesis by simp
    qed
  qed
qed

definition search_ok :: "spv_env \<Rightarrow> pvs \<Rightarrow> bool" where
  "search_ok env p \<longleftrightarrow> ae_is_search_path env (path_of p) \<longrightarrow>
     DM_ENG_Device_Common_Is_Valid_Alias_Path (Some (path_of p))"

lemma Validate_ok:
  assumes "DM_ENG_Device_SetParameterValues_Validate env ps i st = (e, k, st')" "i < length ps"
  shows "k < length ps \<and> only_faults st st' \<and>
    (e = DM_OK \<longrightarrow> st' = st \<and> (\<forall>j\<in>{i..k}. param_ok env ps j)) \<and>
    ((\<forall>j<length ps. param_ok env ps j \<and> search_ok env (ps ! j)) \<longrightarrow> e = DM_OK)"
proof (cases "DM_ENG_Device_Common_IsValidPath (pv_name (ps ! i)) \<and> search_ok env (ps ! i) \<and>
    sv_describe env (sv_object env (path_of (ps ! i))) \<noteq> None")
  case True
  then obtain params where d: "sv_describe env (sv_object env (path_of (ps ! i))) = Some params" by blast
  have "validate_loop env ps (sv_object env (path_of (ps ! i))) params i st = (e, k, st')"
    using True d assms(1)
    by (simp add: DM_ENG_Device_SetParameterValues_Validate_def search_ok_def Let_def split: if_splits)
  from validate_loop_ok [OF this assms(2) _ d] True show ?thesis by blast
next
  case False
  with assms have "e = DM_ENG_INVALID_ARGUMENTS" "k = i"
    "st' = SetParameterValuesFault (pv_name (ps ! i)) DM_ENG_INVALID_PARAMETER_NAME st"
    by (auto simp: DM_ENG_Device_SetParameterValues_Validate_def search_ok_def Let_def split: if_splits)
  moreover have "\<not> (param_ok env ps i \<and> search_ok env (ps ! i))" using False by (auto simp: param_ok_def)
  ultimately show ?thesis using assms(2) by auto
qed

lemma validate_all_ok:
  assumes "validate_all env ps i err st = (e, st')"
  shows "only_faults st st' \<and>
    (e = DM_OK \<longrightarrow> err = DM_OK \<and> st' = st \<and> (\<forall>j\<in>{i..<length ps}. param_ok env ps j)) \<and>
    ((\<forall>j<length ps. param_ok env ps j \<and> search_ok env (ps ! j)) \<longrightarrow> e = err)"
  using assms
proof (induction env ps i err st rule: validate_all.induct)
  case (1 env ps i err st)
  show ?case
  proof (cases "i < length ps")
    case False
    with "1.prems" show ?thesis by (auto simp: validate_all.simps [of env ps i err st])
  next
    case True
    obtain e1 k st1 where v: "DM_ENG_Device_SetParameterValues_Validate env ps i st = (e1, k, st1)"
      by (metis prod_cases3)
    have rec: "validate_all env ps (Suc k) (if err = DM_OK then e1 else err) st1 = (e, st')"
      using "1.prems" True v by (simp add: validate_all.simps [of env ps i err st])
    note ih = "1.IH" [OF True v [symmetric] refl rec]
    note here = Validate_ok [OF v True]
    have "e = DM_OK \<Longrightarrow> err = DM_OK \<and> e1 = DM_OK \<and> st' = st \<and> (\<forall>j\<in>{i..<length ps}. param_ok env ps j)"
    proof -
      assume "e = DM_OK"
      with ih have c: "err = DM_OK" "e1 = DM_OK" "st' = st1" "\<forall>j\<in>{Suc k..<length ps}. param_ok env ps j"
        by (auto split: if_splits)
      with here have "st1 = st" "\<forall>j\<in>{i..k}. param_ok env ps j" by simp_all
      moreover have "j \<in> {i..k} \<or> j \<in> {Suc k..<length ps}" if "j \<in> {i..<length ps}" for j using that by auto
      ultimately show ?thesis using c by blast
    qed
    moreover have "only_faults st st'" using ih here only_faults_trans by blast
    moreover have "e = err" if "\<forall>j<length ps. param_ok env ps j \<and> search_ok env (ps ! j)"
    proof -
      have "e1 = DM_OK" using here that by blast
      then show ?thesis using ih that by simp
    qed
    ultimately show ?thesis by blast
  qed
qed

subsection \<open>What is set\<close>

text \<open>The parameters that a sequence of calls to \<open>amxb_set\<close> writes.\<close>

definition written :: "set_call list \<Rightarrow> (string \<times> cstr) list" where
  "written cs = concat (map (\<lambda>(obj, kvs). map (\<lambda>(k, v). (obj @ k, v)) kvs) cs)"

lemma written_append [simp]: "written (cs @ ds) = written cs @ written ds"
  by (simp add: written_def)

definition requested :: "pvs list \<Rightarrow> (string \<times> cstr) list" where
  "requested ps = map (\<lambda>p. (path_of p, pv_value p)) ps"

lemma requested_simps [simp]: "requested [] = []" "requested (ps @ qs) = requested ps @ requested qs"
  by (simp_all add: requested_def)

definition paths_split :: "spv_env \<Rightarrow> pvs list \<Rightarrow> bool" where
  "paths_split env ps \<longleftrightarrow> (\<forall>p\<in>set ps. sv_object env (path_of p) @ ae_param env (path_of p) = path_of p)"

lemma requested_range:
  "i < length ps \<Longrightarrow> requested (take (Suc k - i) (drop i ps)) =
     (if i \<le> k then (path_of (ps ! i), pv_value (ps ! i)) # requested (take (k - i) (drop (Suc i) ps)) else [])"
  by (auto simp: requested_def Suc_diff_le simp flip: Cons_nth_drop_Suc)

lemma collect_group_written:
  assumes "collect_group env ps obj i st = (k, kvs, st')" "i < length ps" "paths_split env ps"
    and "sv_object env (path_of (ps ! i)) = obj \<or> 0 < i"
  shows "k < length ps \<and> sets st' = sets st \<and> faults st' = faults st \<and>
    map (\<lambda>(n, v). (obj @ n, v)) kvs = requested (take (Suc k - i) (drop i ps))"
  using assms
proof (induction env ps obj i st arbitrary: k kvs st' rule: collect_group.induct)
  case (1 env ps obj i st)
  let ?st = "st\<lparr>attr_cache := attr_cache st @ [(pv_name (ps ! i), pv_value (ps ! i))]\<rparr>"
  show ?case
  proof (cases "sv_object env (path_of (ps ! i)) = obj")
    case False
    with "1.prems" show ?thesis
      by (auto simp: collect_group.simps [of env ps obj i st] requested_range)
  next
    case True
    then have path: "obj @ ae_param env (path_of (ps ! i)) = path_of (ps ! i)"
      using "1.prems"(2,3) by (auto simp: paths_split_def)
    show ?thesis
    proof (cases "Suc i < length ps")
      case False
      with True "1.prems"(1,2) path show ?thesis
        using requested_range [of i ps i] by (auto simp: collect_group.simps [of env ps obj i st] Let_def)
    next
      case more: True
      obtain k1 kvs1 st1 where c: "collect_group env ps obj (Suc i) ?st = (k1, kvs1, st1)" by (metis prod_cases3)
      have ih: "k1 < length ps \<and> sets st1 = sets ?st \<and> faults st1 = faults ?st \<and>
          map (\<lambda>(n, v). (obj @ n, v)) kvs1 = requested (take (Suc k1 - Suc i) (drop (Suc i) ps))"
        using True more "1.prems"(3) c by (intro "1.IH" [OF refl _ refl refl _ c]) simp_all
      have "i \<le> k1" using collect_group_index [OF c] by simp
      with ih True more "1.prems"(1,2) c path show ?thesis
        by (auto simp: collect_group.simps [of env ps obj i st] requested_range Let_def)
    qed
  qed
qed

lemma build_faults_frame:
  "sets (tr069_spv_build_spv_faults f st) = sets st" "attr_cache (tr069_spv_build_spv_faults f st) = attr_cache st"
proof -
  have "sets (spv_param_faults obj ps st) = sets st \<and> attr_cache (spv_param_faults obj ps st) = attr_cache st" for obj ps
    by (induction obj ps st rule: spv_param_faults.induct) auto
  then show "sets (tr069_spv_build_spv_faults f st) = sets st"
    "attr_cache (tr069_spv_build_spv_faults f st) = attr_cache st"
    by (simp_all add: tr069_spv_build_spv_faults_def)
qed

lemma SetValues_written:
  assumes "DM_ENG_Device_SetParameterValues_SetValues env ps i st = (e, k, st')" "i < length ps" "paths_split env ps"
  shows "i \<le> k \<and> k < length ps \<and> (\<exists>c. sets st' = sets st @ [c] \<and> written [c] = requested (take (Suc k - i) (drop i ps)) \<and>
    (e = DM_OK \<longleftrightarrow> sv_set env (sets st) c = None) \<and> e \<in> {DM_OK, DM_ENG_INVALID_ARGUMENTS})"
proof -
  obtain k1 kvs st1 where c: "collect_group env ps (sv_object env (path_of (ps ! i))) i st = (k1, kvs, st1)"
    by (metis prod_cases3)
  note g = collect_group_written [OF c assms(2,3)]
  show ?thesis
    using assms(1) c g collect_group_index [OF c]
    by (auto simp: DM_ENG_Device_SetParameterValues_SetValues_def Let_def written_def build_faults_frame
        split: option.splits)
qed

lemma set_all_written:
  assumes "set_all env ps i err st = (e, st')" "i \<le> length ps" "paths_split env ps"
  shows "\<exists>cs. sets st' = sets st @ cs \<and> written cs = requested (drop i ps) \<and>
    (i < length ps \<longrightarrow> cs \<noteq> [] \<and> (e = DM_OK \<longleftrightarrow> sv_set env (butlast (sets st')) (last cs) = None)) \<and>
    (i = length ps \<longrightarrow> e = err)"
  using assms
proof (induction env ps i err st rule: set_all.induct)
  case (1 env ps i err st)
  show ?case
  proof (cases "i < length ps")
    case False
    with "1.prems" show ?thesis by (simp add: set_all.simps [of env ps i err st] requested_def written_def)
  next
    case True
    obtain e1 k st1 where v: "DM_ENG_Device_SetParameterValues_SetValues env ps i st = (e1, k, st1)"
      by (metis prod_cases3)
    have rec: "set_all env ps (Suc k) e1 st1 = (e, st')"
      using "1.prems" True v by (simp add: set_all.simps [of env ps i err st])
    obtain c where c: "i \<le> k" "k < length ps" "sets st1 = sets st @ [c]"
      "written [c] = requested (take (Suc k - i) (drop i ps))" "e1 = DM_OK \<longleftrightarrow> sv_set env (sets st) c = None"
      using SetValues_written [OF v True "1.prems"(3)] by (elim conjE exE) (rule that)
    obtain cs where cs: "sets st' = sets st1 @ cs" "written cs = requested (drop (Suc k) ps)"
      "Suc k < length ps \<longrightarrow> cs \<noteq> [] \<and> (e = DM_OK \<longleftrightarrow> sv_set env (butlast (sets st')) (last cs) = None)"
      "Suc k = length ps \<longrightarrow> e = e1"
      using "1.IH" [OF True v [symmetric] refl rec] c(2) "1.prems"(3) by auto
    have "drop (Suc k) ps = drop (Suc k - i) (drop i ps)" using c(1) by simp
    then have w: "written (c # cs) = requested (drop i ps)"
      using c(4) cs(2) written_append [of "[c]" cs] append_take_drop_id [of "Suc k - i" "drop i ps"]
      by (metis append_Cons append_Nil requested_simps(2))
    have "cs = [] \<and> e = e1 \<or> cs \<noteq> [] \<and> Suc k < length ps"
    proof (cases "Suc k < length ps")
      case False
      then have k: "Suc k = length ps" using c(2) by simp
      then have "st' = st1" using rec by (simp add: set_all.simps [of env ps "length ps" e1 st1])
      with cs(1,4) k show ?thesis by simp
    qed (use cs(3) in blast)
    then have "e = DM_OK \<longleftrightarrow> sv_set env (butlast (sets st')) (last (c # cs)) = None"
      using c(3,5) cs(1,3) by (auto simp: butlast_append)
    with w c(3) cs(1) True show ?thesis by (intro exI [of _ "c # cs"]) simp
  qed
qed

subsection \<open>The RPC\<close>

lemma distinct_prefixes: "(\<And>i. i < length xs \<Longrightarrow> xs ! i \<notin> set (take i xs)) \<Longrightarrow> distinct xs"
proof (induction xs rule: rev_induct)
  case (snoc x xs)
  have "xs ! i \<notin> set (take i xs)" if "i < length xs" for i
    using snoc.prems [of i] that by (simp add: nth_append)
  moreover have "x \<notin> set xs" using snoc.prems [of "length xs"] by simp
  ultimately show ?case using snoc.IH by simp
qed simp

lemma params_ok_distinct: "(\<And>i. i < length ps \<Longrightarrow> param_ok env ps i) \<Longrightarrow> distinct (map pv_name ps)"
  by (rule distinct_prefixes) (auto simp: param_ok_def take_map)

text \<open>Property C17. Nothing is set before everything is checked: if the RPC calls \<open>amxb_set\<close> or touches the
  attribute cache, then every parameter of the list has a valid name that no other entry of the list
  has, exists on its object, has the announced type where types are verified, is not read-only and is writable for
  the ACS. When a check fails the RPC reports an error with at least the faults it had, and changes nothing.\<close>

theorem spv_checks_before_setting:
  assumes "DM_ENG_Device_SetParameterValues env ps st = (e, status, st')"
  shows "(sets st' = sets st \<and> attr_cache st' = attr_cache st \<and> prefix (faults st) (faults st') \<and>
      (e \<noteq> DM_OK \<or> ps = [])) \<or>
    (distinct (map pv_name ps) \<and> (\<forall>i<length ps. param_ok env ps i))"
proof (cases "sv_system_ok env")
  case False
  with assms show ?thesis by (auto simp: DM_ENG_Device_SetParameterValues_def)
next
  case True
  obtain e1 st1 where v: "validate_all env ps 0 DM_OK st = (e1, st1)" by fastforce
  note ok = validate_all_ok [OF v]
  show ?thesis
  proof (cases "e1 = DM_OK")
    case valid: True
    then have "\<forall>i<length ps. param_ok env ps i" using ok by auto
    then show ?thesis using params_ok_distinct by blast
  next
    case False
    with assms True v ok show ?thesis
      by (auto simp: DM_ENG_Device_SetParameterValues_def only_faults_def)
  qed
qed


text \<open>A device with the objects \<open>Device.A.\<close> and \<open>Device.B.\<close>; the bus refuses the first.\<close>

definition last_dot :: "string \<Rightarrow> nat" where
  "last_dot s = length s - length (takeWhile (\<lambda>c. c \<noteq> dot) (rev s))"

definition example_spv_env :: "bool \<Rightarrow> spv_env" where
  "example_spv_env refuse =
     \<lparr>ae_wildcards = None, ae_is_search_path = (\<lambda>p. False), ae_resolve = (\<lambda>p. None),
      ae_param = (\<lambda>p. drop (last_dot p) p), ae_prefix = ''Device.'', ae_split = split_fields dot,
      ae_fixed_part = (\<lambda>p. None), ae_numeric = (\<lambda>s. False), ae_alias = (\<lambda>p. None),
      sv_system_ok = True, sv_object = (\<lambda>p. take (last_dot p) p),
      sv_describe = (\<lambda>obj. Some (\<lambda>n. Some \<lparr>pd_type = AMXC_VAR_ID_CSTRING, pd_read_only = 0\<rparr>)),
      sv_verify_type = Some (Some ''1''), sv_uint_as_bool = None, sv_set_allowed = (\<lambda>obj n. True),
      sv_set = (\<lambda>cs c. if refuse \<and> fst c = ''Device.A.''
                then Some \<lparr>sf_object = ''Device.A.'', sf_params = [(Some ''X'', amxd_status_invalid_value)]\<rparr>
                else None)\<rparr>"

definition example_pvs :: "string \<Rightarrow> string \<Rightarrow> pvs" where
  "example_pvs n v = \<lparr>pv_name = Some n, pv_type = DM_ENG_ParameterType_STRING, pv_value = Some v\<rparr>"

definition two_objects :: "pvs list" where
  "two_objects = [example_pvs ''Device.A.X'' ''1'', example_pvs ''Device.A.Y'' ''2'', example_pvs ''Device.B.Z'' ''3'']"

definition no_spv :: spv where
  "no_spv = \<lparr>faults = [], nb_faults = 0, sets = [], attr_cache = []\<rparr>"

lemma two_objects_ok:
  "\<forall>i<length two_objects. param_ok (example_spv_env b) two_objects i \<and> search_ok (example_spv_env b) (two_objects ! i)"
  "paths_split (example_spv_env b) two_objects"
proof -
  have "param_ok (example_spv_env b) two_objects i" if "i \<in> {0, 1, 2}" for i
    using that
    by (auto simp: param_ok_def writable_def type_ok_def two_objects_def example_pvs_def example_spv_env_def
        config_flag_def path_of_def last_dot_def DM_ENG_Device_Common_IsValidPath_def
        DM_ENG_Device_Common_ConvertParameterType_def)
  moreover have "i < length two_objects \<Longrightarrow> i \<in> {0, 1, 2}" for i by (auto simp: two_objects_def)
  ultimately show "\<forall>i<length two_objects. param_ok (example_spv_env b) two_objects i \<and>
      search_ok (example_spv_env b) (two_objects ! i)"
    by (simp add: search_ok_def example_spv_env_def)
  show "paths_split (example_spv_env b) two_objects"
    by (simp add: paths_split_def two_objects_def example_pvs_def example_spv_env_def path_of_def last_dot_def)
qed

theorem spv_checks_before_setting_witness:
  "param_ok (example_spv_env False) two_objects 0 \<and> param_ok (example_spv_env False) two_objects 2"
proof -
  let ?r = "DM_ENG_Device_SetParameterValues (example_spv_env False) two_objects no_spv"
  have "sets (snd (snd ?r)) \<noteq> sets no_spv" by code_simp
  then have "\<forall>i<length two_objects. param_ok (example_spv_env False) two_objects i"
    using spv_checks_before_setting [of "example_spv_env False" two_objects no_spv "fst ?r" "fst (snd ?r)" "snd (snd ?r)"]
    by simp
  then show ?thesis by (simp add: two_objects_def)
qed


text \<open>Only the last object decides the result: a valid request is answered with success and the status
  \<open>APPLIED\<close> exactly when the last of the calls to the bus succeeds, even if the values of an earlier object
  were refused (a fault is then recorded beside the success); nor are changes undone, as a comment announces.\<close>

theorem spv_failure_masked:
  assumes "DM_ENG_Device_SetParameterValues env ps st = (e, status, st')" "sv_system_ok env" "paths_split env ps" "ps \<noteq> []"
    and "\<forall>i<length ps. param_ok env ps i \<and> search_ok env (ps ! i)"
  shows "sets st' \<noteq> [] \<and>
    (e = DM_OK \<and> status = Some DM_ENG_ParameterStatus_APPLIED \<longleftrightarrow> sv_set env (butlast (sets st')) (last (sets st')) = None)"
proof -
  obtain e1 st1 where v: "validate_all env ps 0 DM_OK st = (e1, st1)" by fastforce
  then have "e1 = DM_OK" "st1 = st" using validate_all_ok [OF v] assms(5) by auto
  with v assms(1,2) have s: "set_all env ps 0 DM_OK st = (e, st')"
    and status: "status = Some (if e = DM_OK then DM_ENG_ParameterStatus_APPLIED else DM_ENG_ParameterStatus_UNDEFINED)"
    by (auto simp: DM_ENG_Device_SetParameterValues_def split: prod.splits)
  obtain cs where "sets st' = sets st @ cs" "cs \<noteq> []" "e = DM_OK \<longleftrightarrow> sv_set env (butlast (sets st')) (last cs) = None"
    using set_all_written [OF s _ assms(3)] assms(4,5) by auto
  with status show ?thesis by auto
qed

theorem spv_failure_masked_witness:
  "\<exists>st. DM_ENG_Device_SetParameterValues (example_spv_env True) two_objects no_spv = (DM_OK, Some DM_ENG_ParameterStatus_APPLIED, st) \<and>
     faults st \<noteq> [] \<and> sv_set (example_spv_env True) [] (hd (sets st)) \<noteq> None"
proof -
  let ?r = "DM_ENG_Device_SetParameterValues (example_spv_env True) two_objects no_spv"
  have r: "?r = (fst ?r, fst (snd ?r), snd (snd ?r))" by simp
  have 1: "sv_system_ok (example_spv_env True)" "two_objects \<noteq> []" by (simp_all add: example_spv_env_def two_objects_def)
  have "sv_set (example_spv_env True) (butlast (sets (snd (snd ?r)))) (last (sets (snd (snd ?r)))) = None" by code_simp
  then have "fst ?r = DM_OK \<and> fst (snd ?r) = Some DM_ENG_ParameterStatus_APPLIED"
    using spv_failure_masked [OF r 1(1) two_objects_ok(2) 1(2) two_objects_ok(1)] by blast
  moreover have "faults (snd (snd ?r)) \<noteq> []" "sv_set (example_spv_env True) [] (hd (sets (snd (snd ?r)))) \<noteq> None" by code_simp+
  ultimately show ?thesis by (intro exI [of _ "snd (snd ?r)"]) (simp add: prod_eq_iff)
qed

end
