(* ===== verification/Set_Values_Prpl.thy ===== *)
theory Set_Values_Prpl
  imports Set_Values
begin

section \<open>SetParameterValues on the supported data model (DM\_AmxParameterValues\_prpl.c)\<close>

text \<open>
  The build that validates against \<open>amxb_get_supported\<close>: a parameter is looked up in the list of supported
  parameters of its object (with or without the instance marker \<open>{i}\<close>), its type is compared without the exception for
  booleans, and it is read-only when its access is 0. The rest of the RPC is the same code. The validation also
  tells whether it cleaned the string \<open>supported_path_inst\<close> that only the later part of the function initialises.
\<close>

subsection \<open>Model\<close>

record supported_param =
  sup_name :: string
  sup_type :: amxc_var_id
  sup_access :: int

record spv_prpl_env = spv_env +
  sp_get_supported :: "string \<Rightarrow> (string \<Rightarrow> supported_param list option) option"
  sp_supported_path :: "string \<Rightarrow> string"

definition supported_params :: "spv_prpl_env \<Rightarrow> string \<Rightarrow> (string \<Rightarrow> supported_param list option) \<Rightarrow> supported_param list" where
  "supported_params env obj desc =
     (let supported_path = sp_supported_path env obj;
          pm_var = (case desc (supported_path @ ''{i}.'') of None \<Rightarrow> desc supported_path | Some ps \<Rightarrow> Some ps)
      in case pm_var of None \<Rightarrow> [] | Some ps \<Rightarrow> ps)"

definition validate_one_prpl ::
  "spv_prpl_env \<Rightarrow> pvs list \<Rightarrow> supported_param list \<Rightarrow> nat \<Rightarrow> spv \<Rightarrow> dm_error \<times> spv" where
  "validate_one_prpl env ps sups i st =
     (let p = ps ! i; path = path_of p;
          fail = (\<lambda>f. (DM_ENG_INVALID_ARGUMENTS, SetParameterValuesFault (pv_name p) f st))
      in case find (\<lambda>s. sup_name s = ae_param env path) sups of
           None \<Rightarrow> fail DM_ENG_INVALID_PARAMETER_NAME
         | Some s \<Rightarrow>
             (if config_flag (sv_verify_type env) \<and>
                 pv_type p \<noteq> DM_ENG_Device_Common_ConvertParameterType (sup_type s)
              then fail DM_ENG_INVALID_PARAMETER_TYPE
              else (case DM_ENG_Device_SetParameterValues_CheckForDuplicates ps i st of
                      (True, st1) \<Rightarrow> (DM_ENG_INVALID_ARGUMENTS, st1)
                    | (False, st1) \<Rightarrow>
                        (if sup_access s = 0 then fail DM_ENG_READ_ONLY_PARAMETER
                         else if \<not> sv_set_allowed env (sv_object env path) (ae_param env path)
                         then fail DM_ENG_READ_ONLY_PARAMETER
                         else (DM_OK, st1)))))"

function validate_loop_prpl ::
  "spv_prpl_env \<Rightarrow> pvs list \<Rightarrow> string \<Rightarrow> supported_param list \<Rightarrow> nat \<Rightarrow> spv \<Rightarrow> dm_error \<times> nat \<times> spv" where
  "validate_loop_prpl env ps object_path sups i st =
     (if sv_object env (path_of (ps ! i)) \<noteq> object_path then (DM_OK, i - 1, st)
      else (case validate_one_prpl env ps sups i st of
              (e, st1) \<Rightarrow>
                (if e \<noteq> DM_OK then (e, i, st1)
                 else if Suc i \<ge> length ps then (DM_OK, i, st1)
                 else if \<not> DM_ENG_Device_Common_IsValidPath (pv_name (ps ! Suc i))
                 then (DM_ENG_INVALID_ARGUMENTS, Suc i,
                       SetParameterValuesFault (pv_name (ps ! Suc i)) DM_ENG_INVALID_PARAMETER_NAME st1)
                 else validate_loop_prpl env ps object_path sups (Suc i) st1)))"
  by pat_completeness auto
termination
  by (relation "measure (\<lambda>(env, ps, object_path, sups, i, st). length ps - i)") auto

declare validate_loop_prpl.simps [simp del]

text \<open>The last component: an uninitialised string was cleaned.\<close>

definition Validate_prpl ::
  "spv_prpl_env \<Rightarrow> pvs list \<Rightarrow> nat \<Rightarrow> spv \<Rightarrow> (dm_error \<times> nat \<times> spv) \<times> bool" where
  "Validate_prpl env ps i st =
     (let p = ps ! i; path = path_of p;
          fail = (DM_ENG_INVALID_ARGUMENTS, i, SetParameterValuesFault (pv_name p) DM_ENG_INVALID_PARAMETER_NAME st)
      in if \<not> DM_ENG_Device_Common_IsValidPath (pv_name p) then (fail, True)
         else if ae_is_search_path env path \<and> \<not> DM_ENG_Device_Common_Is_Valid_Alias_Path (Some path) then (fail, True)
         else (case sp_get_supported env (sv_object env path) of
                 None \<Rightarrow> (fail, True)
               | Some desc \<Rightarrow>
                   (validate_loop_prpl env ps (sv_object env path) (supported_params env (sv_object env path) desc) i st,
                    False)))"

lemma validate_loop_prpl_index:
  "validate_loop_prpl env ps obj sups i st = (e, k, st') \<Longrightarrow>
   i - 1 \<le> k \<and> (sv_object env (path_of (ps ! i)) = obj \<longrightarrow> i \<le> k)"
proof (induction env ps obj sups i st rule: validate_loop_prpl.induct)
  case (1 env ps obj sups i st)
  obtain e1 st1 where v: "validate_one_prpl env ps sups i st = (e1, st1)" by fastforce
  show ?case
    using "1.prems" "1.IH" [OF _ v [symmetric]]
    by (subst (asm) validate_loop_prpl.simps) (fastforce simp: v split: if_splits)
qed

lemma Validate_prpl_index: "Validate_prpl env ps i st = ((e, k, st'), u) \<Longrightarrow> i \<le> k"
  by (auto simp: Validate_prpl_def Let_def dest: validate_loop_prpl_index split: if_splits option.splits)

function validate_all_prpl :: "spv_prpl_env \<Rightarrow> pvs list \<Rightarrow> nat \<Rightarrow> dm_error \<Rightarrow> spv \<Rightarrow> dm_error \<times> spv" where
  "validate_all_prpl env ps i err st =
     (if i < length ps then
        (case Validate_prpl env ps i st of
           ((e, k, st1), u) \<Rightarrow> validate_all_prpl env ps (Suc k) (if err = DM_OK then e else err) st1)
      else (err, st))"
  by pat_completeness auto
termination
  by (relation "measure (\<lambda>(env, ps, i, err, st). length ps - i)") (auto dest!: Validate_prpl_index [OF sym])

declare validate_all_prpl.simps [simp del]

definition SetParameterValues_prpl ::
  "spv_prpl_env \<Rightarrow> pvs list \<Rightarrow> spv \<Rightarrow> dm_error \<times> DM_ENG_ParameterStatus option \<times> spv" where
  "SetParameterValues_prpl env ps st =
     (if \<not> sv_system_ok env then (DM_ENG_INTERNAL_ERROR, None, st)
      else (case validate_all_prpl env ps 0 DM_OK st of
              (err, st1) \<Rightarrow>
                (if err \<noteq> DM_OK then (err, None, st1)
                 else (case set_all (spv_env.truncate env) ps 0 DM_OK st1 of
                         (err2, st2) \<Rightarrow>
                           (err2, Some (if err2 = DM_OK then DM_ENG_ParameterStatus_APPLIED
                                        else DM_ENG_ParameterStatus_UNDEFINED), st2)))))"

subsection \<open>Equivalence with the other build\<close>

text \<open>The description that the supported data model amounts to.\<close>

definition described_prpl :: "spv_prpl_env \<Rightarrow> spv_env" where
  "described_prpl env = (spv_env.truncate env)\<lparr>sv_uint_as_bool := None,
     sv_describe := (\<lambda>obj. map_option (\<lambda>desc n.
        map_option (\<lambda>s. \<lparr>pd_type = sup_type s, pd_read_only = (if sup_access s = 0 then 1 else 0)\<rparr>)
          (find (\<lambda>s. sup_name s = n) (supported_params env obj desc))) (sp_get_supported env obj))\<rparr>"

lemma described_prpl_fields [simp]:
  "sv_object (described_prpl env) = sv_object env" "ae_param (described_prpl env) = ae_param env"
  "sv_verify_type (described_prpl env) = sv_verify_type env" "sv_set_allowed (described_prpl env) = sv_set_allowed env"
  "ae_is_search_path (described_prpl env) = ae_is_search_path env" "sv_uint_as_bool (described_prpl env) = None"
  "sv_system_ok (described_prpl env) = sv_system_ok env" "sv_set (described_prpl env) = sv_set env"
  by (simp_all add: described_prpl_def spv_env.truncate_def)

lemma validate_one_prpl_eq:
  "validate_one_prpl env ps sups i st = validate_one (described_prpl env) ps (\<lambda>n.
     map_option (\<lambda>s. \<lparr>pd_type = sup_type s, pd_read_only = (if sup_access s = 0 then 1 else 0)\<rparr>)
       (find (\<lambda>s. sup_name s = n) sups)) i st"
proof (cases "find (\<lambda>s. sup_name s = ae_param env (path_of (ps ! i))) sups")
  case None
  then show ?thesis by (simp add: validate_one_prpl_def validate_one_def Let_def)
next
  case (Some s)
  then show ?thesis
    by (auto simp: validate_one_prpl_def validate_one_def config_flag_def Let_def split: prod.splits)
qed

lemma validate_loop_prpl_eq:
  "validate_loop_prpl env ps obj sups i st = validate_loop (described_prpl env) ps obj (\<lambda>n.
     map_option (\<lambda>s. \<lparr>pd_type = sup_type s, pd_read_only = (if sup_access s = 0 then 1 else 0)\<rparr>)
       (find (\<lambda>s. sup_name s = n) sups)) i st"
proof (induction env ps obj sups i st rule: validate_loop_prpl.induct)
  case (1 env ps obj sups i st)
  obtain e st1 where v: "validate_one_prpl env ps sups i st = (e, st1)" by fastforce
  show ?case
    using "1.IH" [OF _ v [symmetric]] v
    by (subst validate_loop_prpl.simps, subst validate_loop.simps)
      (auto simp: validate_one_prpl_eq [symmetric])
qed

lemma Validate_prpl_eq:
  "fst (Validate_prpl env ps i st) = DM_ENG_Device_SetParameterValues_Validate (described_prpl env) ps i st"
proof (cases "sp_get_supported env (sv_object env (path_of (ps ! i)))")
  case None
  then show ?thesis
    by (simp add: Validate_prpl_def DM_ENG_Device_SetParameterValues_Validate_def described_prpl_def Let_def
        spv_env.truncate_def)
next
  case (Some desc)
  then have "sv_describe (described_prpl env) (sv_object env (path_of (ps ! i))) = Some (\<lambda>n.
     map_option (\<lambda>s. \<lparr>pd_type = sup_type s, pd_read_only = (if sup_access s = 0 then 1 else 0)\<rparr>)
       (find (\<lambda>s. sup_name s = n) (supported_params env (sv_object env (path_of (ps ! i))) desc)))"
    by (simp add: described_prpl_def)
  with Some show ?thesis
    by (simp add: Validate_prpl_def DM_ENG_Device_SetParameterValues_Validate_def validate_loop_prpl_eq Let_def)
qed

lemma validate_all_prpl_eq: "validate_all_prpl env ps i err st = validate_all (described_prpl env) ps i err st"
proof (induction env ps i err st rule: validate_all_prpl.induct)
  case (1 env ps i err st)
  obtain e k st1 u where v: "Validate_prpl env ps i st = ((e, k, st1), u)" by (metis prod_cases4 surj_pair)
  then have "DM_ENG_Device_SetParameterValues_Validate (described_prpl env) ps i st = (e, k, st1)"
    using Validate_prpl_eq [of env ps i st] by simp
  with v "1.IH" [OF _ v [symmetric] refl refl] show ?case
    by (subst validate_all_prpl.simps, subst validate_all.simps) simp
qed

text \<open>The second pass looks only at the splitting of paths and at the bus.\<close>

lemma collect_group_cong:
  assumes "sv_object env = sv_object env'" "ae_param env = ae_param env'"
  shows "collect_group env ps obj i st = collect_group env' ps obj i st"
  using assms
proof (induction env ps obj i st rule: collect_group.induct)
  case (1 env ps obj i st)
  show ?case
    using "1.IH" [OF refl _ refl refl _ "1.prems"] "1.prems"
    by (subst (1 2) collect_group.simps) (auto simp: Let_def)
qed

lemma set_all_cong:
  assumes "sv_object env = sv_object env'" "ae_param env = ae_param env'" "sv_set env = sv_set env'"
  shows "set_all env ps i err st = set_all env' ps i err st"
  using assms
proof (induction env ps i err st rule: set_all.induct)
  case (1 env ps i err st)
  obtain e k st1 where v: "DM_ENG_Device_SetParameterValues_SetValues env ps i st = (e, k, st1)"
    by (metis prod_cases3)
  then have "DM_ENG_Device_SetParameterValues_SetValues env' ps i st = (e, k, st1)"
    using "1.prems" collect_group_cong [OF "1.prems"(1,2)]
    by (simp add: DM_ENG_Device_SetParameterValues_SetValues_def)
  with v "1.IH" [OF _ v [symmetric] refl "1.prems"] show ?case
    by (subst (1 2) set_all.simps) simp
qed


text \<open>An ACS that names a parameter that is not valid, or an object the bus does not support, makes the
  function clean a string it has not initialised.\<close>

theorem spv_prpl_cleans_uninitialised:
  assumes "\<not> DM_ENG_Device_Common_IsValidPath (pv_name (ps ! i)) \<or>
    sp_get_supported env (sv_object env (path_of (ps ! i))) = None"
  shows "snd (Validate_prpl env ps i st)"
  using assms by (auto simp: Validate_prpl_def Let_def)

theorem spv_prpl_cleans_uninitialised_witness:
  "snd (Validate_prpl (spv_env.extend (example_spv_env False)
     \<lparr>sp_get_supported = (\<lambda>obj. None), sp_supported_path = (\<lambda>p. p)\<rparr>) [example_pvs ''Internet.X'' ''1''] 0 no_spv)"
  by (rule spv_prpl_cleans_uninitialised)
    (simp add: example_pvs_def DM_ENG_Device_Common_IsValidPath_def)

end
