(* ===== verification/Get_Values.thy ===== *)
theory Get_Values
  imports Set_Values "HOL-Library.List_Lexorder" "HOL-Library.Char_ord" "HOL-Library.Multiset"
begin

section \<open>GetParameterValues (DM\_AmxParameterValues.c, DM\_AmxParameterValues\_prpl.c)\<close>

text \<open>
  Reading the values below a path, in the two builds of the adapter: the plain one takes types from
  \<open>amxb_describe\<close>, the other (\<open>_prpl\<close>) from \<open>amxb_get_supported\<close>. The answer of \<open>amxb_get\<close> is a table of objects,
  each a table of parameters; the loops run over its keys in the order of \<open>amxc_htable_get_sorted_keys\<close>. The
  bus, the access rights and the descriptions are fields of \<open>gpv_env\<close>.
\<close>

subsection \<open>Model\<close>

datatype bus_status =
    AMXB_STATUS_OK | AMXB_ERROR_NOT_SUPPORTED_SCHEME | AMXB_ERROR_NOT_SUPPORTED_OP | AMXB_ERROR_other

record amx_value =
  av_type :: amxc_var_id
  av_text :: cstr

type_synonym params_table = "(string \<times> amx_value) list"
type_synonym get_response = "(string \<times> params_table) list"

record gpv_env = amx_env +
  gv_system_ok :: bool
  gv_instance_alias :: bool
  gv_allowed :: "string \<Rightarrow> bool"
  gv_get :: "string \<Rightarrow> nat \<Rightarrow> bus_status \<times> get_response option"
  gv_filter :: "string \<Rightarrow> get_response \<Rightarrow> get_response"
  gv_type_id :: "string \<Rightarrow> string \<Rightarrow> amxc_var_id option"
  gv_supported_path :: "string \<Rightarrow> string"
  gv_supported :: "string \<Rightarrow> string \<Rightarrow> (string \<times> amxc_var_id) list option"

definition sorted_keys :: "(string \<times> 'a) list \<Rightarrow> string list" where
  "sorted_keys t = sort (map fst t)"

definition shown_name :: "gpv_env \<Rightarrow> string \<Rightarrow> string \<Rightarrow> string" where
  "shown_name env acspath path =
     (case (if gv_instance_alias env
            then DM_ENG_Device_Common_IndexToAlias (amx_env.truncate env) acspath (Some path) else None) of
        None \<Rightarrow> path
      | Some alias_path \<Rightarrow> alias_path)"

text \<open>A parameter that the description lacks gives the type identifier 0, which no type has: the test for -1
  in the code is never true.\<close>

definition described_type :: "gpv_env \<Rightarrow> string \<Rightarrow> string \<Rightarrow> amxc_var_id" where
  "described_type env key paramkey =
     (case gv_type_id env key paramkey of None \<Rightarrow> AMXC_VAR_ID_other | Some t \<Rightarrow> t)"

definition value_struct :: "gpv_env \<Rightarrow> string \<Rightarrow> string \<Rightarrow> params_table \<Rightarrow> string \<Rightarrow> pvs" where
  "value_struct env acspath key params paramkey =
     \<lparr>pv_name = Some (shown_name env acspath (key @ paramkey)),
      pv_type = DM_ENG_Device_Common_ConvertParameterType (described_type env key paramkey),
      pv_value = (case map_of params paramkey of None \<Rightarrow> None | Some v \<Rightarrow> av_text v)\<rparr>"

definition params_of :: "get_response \<Rightarrow> string \<Rightarrow> params_table" where
  "params_of resp key = (case map_of resp key of None \<Rightarrow> [] | Some ps \<Rightarrow> ps)"

definition DM_ENG_Device_GetParameterValues_ParseValues ::
  "gpv_env \<Rightarrow> string \<Rightarrow> get_response option \<Rightarrow> pvs list \<Rightarrow> dm_error \<times> pvs list" where
  "DM_ENG_Device_GetParameterValues_ParseValues env acspath get pvsList =
     (let resp = (case get of None \<Rightarrow> [] | Some r \<Rightarrow> r) in
      (DM_OK, pvsList @
        concat (map (\<lambda>key. map (value_struct env acspath key (params_of resp key))
                             (sorted_keys (params_of resp key)))
                  (sorted_keys resp))))"

definition DM_ENG_Device_GetParameterValues_GetValues :: "gpv_env \<Rightarrow> string \<Rightarrow> pvs list \<Rightarrow> dm_error \<times> pvs list" where
  "DM_ENG_Device_GetParameterValues_GetValues env path pvsList =
     (let path = (if length path = 0 then ''Device.'' else path) in
      if \<not> gv_allowed env path then (DM_ENG_INVALID_PARAMETER_NAME, pvsList)
      else
        (let partialPath = (last path = dot); wildcardIsUsed = (strstr path ''*'' \<noteq> None) in
         case gv_get env path (if partialPath then 20 else 0) of
           (ret, get) \<Rightarrow>
             (if (partialPath \<or> wildcardIsUsed) \<and> (ret \<noteq> AMXB_STATUS_OK \<or> get = None) then (DM_OK, pvsList)
              else if ret \<noteq> AMXB_STATUS_OK then
                (if ret = AMXB_ERROR_NOT_SUPPORTED_SCHEME then (DM_OK, pvsList)
                 else (DM_ENG_INVALID_PARAMETER_NAME, pvsList))
              else DM_ENG_Device_GetParameterValues_ParseValues env path
                     (if partialPath then map_option (gv_filter env path) get else get) pvsList)))"

text \<open>The RPC: the names in order until the first error, which empties the list.\<close>

fun get_values_loop ::
  "(string \<Rightarrow> pvs list \<Rightarrow> dm_error \<times> pvs list) \<Rightarrow> string list \<Rightarrow> pvs list \<Rightarrow> dm_error \<times> pvs list" where
  "get_values_loop get [] l = (DM_OK, l)"
| "get_values_loop get (n # ns) l =
     (case get n l of (e, l') \<Rightarrow> if e \<noteq> DM_OK then (e, l') else get_values_loop get ns l')"

definition DM_ENG_Device_GetParameterValues :: "gpv_env \<Rightarrow> string list \<Rightarrow> pvs list \<Rightarrow> dm_error \<times> pvs list" where
  "DM_ENG_Device_GetParameterValues env names pvsList =
     (case (if \<not> gv_system_ok env then (DM_ENG_INTERNAL_ERROR, pvsList)
            else get_values_loop (DM_ENG_Device_GetParameterValues_GetValues env) names pvsList) of
        (e, l) \<Rightarrow> (e, if e \<noteq> DM_OK then [] else l))"

subsection \<open>The build on the supported data model\<close>

definition supported_type :: "gpv_env \<Rightarrow> string \<Rightarrow> string \<Rightarrow> amxc_var_id option" where
  "supported_type env key paramkey =
     (let supported_path = gv_supported_path env key;
          pm_var = (case gv_supported env key (supported_path @ ''{i}.'') of
                      None \<Rightarrow> gv_supported env key supported_path | Some ps \<Rightarrow> Some ps)
      in case pm_var of
           None \<Rightarrow> None
         | Some ps \<Rightarrow> map_option snd (find (\<lambda>(n, t). n = paramkey) ps))"

definition value_struct_prpl :: "gpv_env \<Rightarrow> string \<Rightarrow> string \<Rightarrow> params_table \<Rightarrow> string \<Rightarrow> pvs" where
  "value_struct_prpl env acspath key params paramkey =
     (let value = map_of params paramkey;
          type = (case supported_type env key paramkey of
                    Some t \<Rightarrow> t
                  | None \<Rightarrow> (case value of None \<Rightarrow> AMXC_VAR_ID_other | Some v \<Rightarrow> av_type v))
      in \<lparr>pv_name = Some (shown_name env acspath (key @ paramkey)),
          pv_type = DM_ENG_Device_Common_ConvertParameterType type,
          pv_value = (case value of None \<Rightarrow> None | Some v \<Rightarrow> av_text v)\<rparr>)"

definition ParseValues_prpl ::
  "gpv_env \<Rightarrow> string \<Rightarrow> get_response \<Rightarrow> pvs list \<Rightarrow> dm_error \<times> pvs list" where
  "ParseValues_prpl env acspath resp pvsList =
     (DM_OK, pvsList @
        concat (map (\<lambda>key. map (value_struct_prpl env acspath key (params_of resp key))
                             (sorted_keys (params_of resp key)))
                  (sorted_keys resp)))"

definition GetValues_prpl :: "gpv_env \<Rightarrow> string \<Rightarrow> pvs list \<Rightarrow> dm_error \<times> pvs list" where
  "GetValues_prpl env path pvsList =
     (let path = (if length path = 0 then ''Device.'' else path) in
      if \<not> gv_allowed env path then (DM_ENG_INVALID_PARAMETER_NAME, pvsList)
      else
        (let partialPath = (last path = dot) in
         case gv_get env path (if partialPath then 20 else 0) of
           (ret, get) \<Rightarrow>
             (if ret \<noteq> AMXB_STATUS_OK then
                (if ret = AMXB_ERROR_NOT_SUPPORTED_SCHEME then (DM_OK, pvsList)
                 else (DM_ENG_INVALID_PARAMETER_NAME, pvsList))
              else (case get of
                      None \<Rightarrow> (if partialPath then (DM_OK, pvsList) else (DM_ENG_INVALID_PARAMETER_NAME, pvsList))
                    | Some resp \<Rightarrow> ParseValues_prpl env path (if partialPath then gv_filter env path resp else resp) pvsList))))"

definition GetParameterValues_prpl :: "gpv_env \<Rightarrow> string list \<Rightarrow> pvs list \<Rightarrow> dm_error \<times> pvs list" where
  "GetParameterValues_prpl env names pvsList =
     (case (if \<not> gv_system_ok env then (DM_ENG_INTERNAL_ERROR, pvsList)
            else get_values_loop (GetValues_prpl env) names pvsList) of
        (e, l) \<Rightarrow> (e, if e \<noteq> DM_OK then [] else l))"

subsection \<open>What is read\<close>

lemma set_sorted_keys [simp]: "set (sorted_keys t) = fst ` set t"
  by (simp add: sorted_keys_def)

lemma length_sorted_keys [simp]: "length (sorted_keys t) = length t"
  by (simp add: sorted_keys_def)

lemma params_of_in: "distinct (map fst t) \<Longrightarrow> (k, ps) \<in> set t \<Longrightarrow> params_of t k = ps"
  by (simp add: params_of_def)

lemma mset_sorted_keys: "mset (map f (sorted_keys t)) = mset (map (f \<circ> fst) t)"
  by (simp add: sorted_keys_def multiset.map_comp)

lemma concat_sorted_keys:
  "mset (concat (map f (sorted_keys t))) = mset (concat (map (f \<circ> fst) t))"
proof -
  have "mset (map mset (map f (sorted_keys t))) = mset (map mset (map (f \<circ> fst) t))"
    using mset_sorted_keys [of "mset \<circ> f" t] by (simp add: comp_assoc)
  then show ?thesis by (metis mset_concat sum_mset_sum_list)
qed

definition well_keyed :: "get_response \<Rightarrow> bool" where
  "well_keyed t \<longleftrightarrow> distinct (map fst t) \<and> (\<forall>(k, ps)\<in>set t. distinct (map fst ps))"

text \<open>The entries of an answer, as names and values.\<close>

definition table_entries :: "get_response \<Rightarrow> (cstr \<times> cstr) list" where
  "table_entries t = concat (map (\<lambda>(k, ps). map (\<lambda>(n, v). (Some (k @ n), av_text v)) ps) t)"

lemma value_struct_entry:
  assumes "\<not> gv_instance_alias env" "distinct (map fst ps)"
  shows "mset (map (\<lambda>p. (pv_name p, pv_value p)) (map (value_struct env acspath k ps) (sorted_keys ps))) =
    mset (map (\<lambda>(n, v). (Some (k @ n), av_text v)) ps)"
proof -
  have "map ((\<lambda>n. (Some (k @ n), case map_of ps n of None \<Rightarrow> None | Some v \<Rightarrow> av_text v)) \<circ> fst) ps =
      map (\<lambda>(n, v). (Some (k @ n), av_text v)) ps"
    using assms(2) by (auto simp: map_of_is_SomeI)
  then have "mset (map (\<lambda>n. (Some (k @ n), case map_of ps n of None \<Rightarrow> None | Some v \<Rightarrow> av_text v)) (sorted_keys ps)) =
      mset (map (\<lambda>(n, v). (Some (k @ n), av_text v)) ps)"
    by (simp only: mset_sorted_keys)
  then show ?thesis
    using assms(1) by (simp add: value_struct_def shown_name_def comp_def)
qed

lemma ParseValues_entries:
  assumes "\<not> gv_instance_alias env" "well_keyed t"
    and "DM_ENG_Device_GetParameterValues_ParseValues env acspath (Some t) l = (e, l')"
  shows "e = DM_OK \<and> (\<exists>new. l' = l @ new \<and>
    mset (map (\<lambda>p. (pv_name p, pv_value p)) new) = mset (table_entries t))"
proof -
  let ?f = "\<lambda>k. map (value_struct env acspath k (params_of t k)) (sorted_keys (params_of t k))"
  let ?nv = "\<lambda>p. (pv_name p, pv_value p)"
  have "mset (map ?nv (concat (map ?f (sorted_keys t)))) = mset (map ?nv (concat (map (?f \<circ> fst) t)))"
    using concat_sorted_keys [of ?f t] by (metis mset_map)
  also have "\<dots> = mset (concat (map (\<lambda>(k, ps). map ?nv (?f k)) t))"
    by (simp add: map_concat comp_def case_prod_unfold)
  also have "\<dots> = mset (table_entries t)"
  proof -
    have "mset (map ?nv (?f k)) = mset (map (\<lambda>(n, v). (Some (k @ n), av_text v)) ps)" if "(k, ps) \<in> set t" for k ps
      using value_struct_entry [OF assms(1), of ps acspath k] that assms(2) params_of_in [of t k ps]
      by (auto simp: well_keyed_def)
    then show ?thesis
      by (auto simp: table_entries_def mset_concat intro!: arg_cong [where f = sum_list])
  qed
  finally show ?thesis using assms(3) by (auto simp: DM_ENG_Device_GetParameterValues_ParseValues_def)
qed

text \<open>A partial path the ACS may read and the bus answers.\<close>

definition answered :: "gpv_env \<Rightarrow> string \<Rightarrow> bool" where
  "answered env n \<longleftrightarrow> n \<noteq> [] \<and> last n = dot \<and> gv_allowed env n \<and>
     (\<exists>r. gv_get env n 20 = (AMXB_STATUS_OK, Some r) \<and> well_keyed (gv_filter env n r))"

definition visible :: "gpv_env \<Rightarrow> string \<Rightarrow> get_response" where
  "visible env n = gv_filter env n (the (snd (gv_get env n 20)))"

lemma GetValues_answered:
  assumes "\<not> gv_instance_alias env" "answered env n"
    and "DM_ENG_Device_GetParameterValues_GetValues env n l = (e, l')"
  shows "e = DM_OK \<and> (\<exists>new. l' = l @ new \<and>
    mset (map (\<lambda>p. (pv_name p, pv_value p)) new) = mset (table_entries (visible env n)))"
proof -
  obtain r where r: "gv_get env n 20 = (AMXB_STATUS_OK, Some r)" "well_keyed (gv_filter env n r)"
    using assms(2) by (auto simp: answered_def)
  have "DM_ENG_Device_GetParameterValues_ParseValues env n (Some (visible env n)) l = (e, l')"
    using assms(2,3) r by (auto simp: DM_ENG_Device_GetParameterValues_GetValues_def answered_def visible_def Let_def)
  with assms(1) r show ?thesis by (intro ParseValues_entries) (simp_all add: visible_def)
qed


definition example_gpv_env :: gpv_env where
  "example_gpv_env =
     \<lparr>ae_wildcards = None, ae_is_search_path = (\<lambda>p. False), ae_resolve = (\<lambda>p. None),
      ae_param = (\<lambda>p. drop (last_dot p) p), ae_prefix = ''Device.'', ae_split = split_fields dot,
      ae_fixed_part = (\<lambda>p. None), ae_numeric = (\<lambda>s. False), ae_alias = (\<lambda>p. None),
      gv_system_ok = True, gv_instance_alias = False, gv_allowed = (\<lambda>p. True),
      gv_get = (\<lambda>p d. (AMXB_STATUS_OK,
         Some [(p, [(''B'', \<lparr>av_type = AMXC_VAR_ID_BOOL, av_text = Some ''1''\<rparr>),
                    (''A'', \<lparr>av_type = AMXC_VAR_ID_UINT32, av_text = Some ''7''\<rparr>)])])),
      gv_filter = (\<lambda>p r. r), gv_type_id = (\<lambda>k n. Some AMXC_VAR_ID_UINT32),
      gv_supported_path = (\<lambda>p. p),
      gv_supported = (\<lambda>k p. Some [(''A'', AMXC_VAR_ID_UINT32), (''B'', AMXC_VAR_ID_UINT32)])\<rparr>"


subsection \<open>The two builds\<close>

definition typed_alike :: "gpv_env \<Rightarrow> get_response \<Rightarrow> bool" where
  "typed_alike env t \<longleftrightarrow> (\<forall>k\<in>fst ` set t. \<forall>n\<in>fst ` set (params_of t k).
     \<exists>ty. gv_type_id env k n = Some ty \<and> supported_type env k n = Some ty)"

lemma parse_alike:
  assumes "typed_alike env t"
  shows "DM_ENG_Device_GetParameterValues_ParseValues env a (Some t) l = ParseValues_prpl env a t l"
proof -
  have "value_struct env a k (params_of t k) n = value_struct_prpl env a k (params_of t k) n"
    if "k \<in> set (sorted_keys t)" "n \<in> set (sorted_keys (params_of t k))" for k n
    using that assms
    by (fastforce simp: typed_alike_def value_struct_def value_struct_prpl_def described_type_def Let_def)
  then show ?thesis
    by (auto simp: DM_ENG_Device_GetParameterValues_ParseValues_def ParseValues_prpl_def
        intro!: arg_cong [where f = concat] map_cong)
qed

text \<open>The two builds of GetParameterValues agree: where the bus answers the request, and the description of
  each object in the answer and the supported data model give its parameters the same types, both return the same
  error and the same list, order and types included.\<close>

theorem gpv_builds_agree:
  assumes "\<forall>p d. \<exists>r. gv_get env p d = (AMXB_STATUS_OK, Some r) \<and> typed_alike env r \<and> typed_alike env (gv_filter env p r)"
  shows "DM_ENG_Device_GetParameterValues env names l = GetParameterValues_prpl env names l"
proof -
  have "DM_ENG_Device_GetParameterValues_GetValues env n m = GetValues_prpl env n m" for n m
  proof -
    define p where "p = (if length n = 0 then ''Device.'' else n)"
    obtain r where r: "gv_get env p (if last p = dot then 20 else 0) = (AMXB_STATUS_OK, Some r)"
      "typed_alike env r" "typed_alike env (gv_filter env p r)"
      using assms by blast
    show ?thesis
      unfolding DM_ENG_Device_GetParameterValues_GetValues_def GetValues_prpl_def p_def [symmetric] Let_def r(1)
      using r(2,3) by (simp add: parse_alike)
  qed
  then have "DM_ENG_Device_GetParameterValues_GetValues env = GetValues_prpl env" by (intro ext)
  then show ?thesis by (simp add: DM_ENG_Device_GetParameterValues_def GetParameterValues_prpl_def)
qed

theorem gpv_builds_agree_witness:
  "DM_ENG_Device_GetParameterValues example_gpv_env [''Device.X.A'', ''Device.''] [] =
   GetParameterValues_prpl example_gpv_env [''Device.X.A'', ''Device.''] []"
proof (rule gpv_builds_agree, intro allI)
  fix p d
  have "supported_type example_gpv_env k n = Some AMXC_VAR_ID_UINT32" if "n = ''A'' \<or> n = ''B''" for k n
    using that by (auto simp: supported_type_def example_gpv_env_def)
  then show "\<exists>r. gv_get example_gpv_env p d = (AMXB_STATUS_OK, Some r) \<and> typed_alike example_gpv_env r \<and>
      typed_alike example_gpv_env (gv_filter example_gpv_env p r)"
    by (auto simp: typed_alike_def params_of_def example_gpv_env_def)
qed


end
