(* ===== verification/Get_Names.thy ===== *)
theory Get_Names
  imports Get_Values
begin

section \<open>GetParameterNames (DM\_AmxParameterNames.c, DM\_DeviceAdapter.c)\<close>

text \<open>
  The walk over the objects below a path. \<open>gn_describe\<close> is the answer of \<open>amxb_describe\<close>, from which the flags of a
  call select the parts that are used; \<open>gn_allowed f p\<close> says that the access filters for the path \<open>f\<close> let \<open>p\<close> be
  read. The recursion of \<open>GetNames\<close> follows the bus, so it has fuel: \<open>None\<close> is a walk that is not
  finished. It is proved to finish on every bus whose object paths are bounded in length.
\<close>

subsection \<open>Model\<close>

record name_param =
  np_name :: cstr
  np_read_only :: int

record obj_desc =
  od_type_id :: int
  od_parameters :: "(string \<times> name_param) list option"
  od_objects :: "string list option"
  od_instances :: "string list option"

record gpn_env = gpv_env +
  gn_describe :: "string \<Rightarrow> bus_status \<times> obj_desc option"
  gn_allowed :: "string \<Rightarrow> string \<Rightarrow> bool"
  gn_object :: "string \<Rightarrow> string"

type_synonym infos = "(string \<times> bool) list"

definition gn_shown :: "gpn_env \<Rightarrow> string \<Rightarrow> string \<Rightarrow> string" where
  "gn_shown env acspath path = shown_name (gpv_env.truncate env) acspath path"

definition DM_ENG_Device_GetParameterNames_GetParameter ::
  "gpn_env \<Rightarrow> string \<Rightarrow> name_param option \<Rightarrow> infos \<Rightarrow> bool \<times> infos" where
  "DM_ENG_Device_GetParameterNames_GetParameter env object_path parameter pnsList =
     (case parameter of
        None \<Rightarrow> (False, pnsList)
      | Some p \<Rightarrow>
          (case np_name p of
             None \<Rightarrow> (False, pnsList)
           | Some param_name \<Rightarrow>
               (let paramPath = object_path @ param_name in
                if \<not> gn_allowed env paramPath paramPath then (True, pnsList)
                else (True, pnsList @ [(paramPath, np_read_only p = 0)]))))"

fun add_parameters :: "gpn_env \<Rightarrow> string \<Rightarrow> (string \<times> name_param) list \<Rightarrow> string list \<Rightarrow> infos \<Rightarrow> bool \<times> infos" where
  "add_parameters env object_path t [] l = (True, l)"
| "add_parameters env object_path t (k # ks) l =
     (case DM_ENG_Device_GetParameterNames_GetParameter env object_path (map_of t k) l of
        (False, l') \<Rightarrow> (False, l')
      | (True, l') \<Rightarrow> add_parameters env object_path t ks l')"

definition DM_ENG_Device_GetParameterNames_GetParameters ::
  "gpn_env \<Rightarrow> string \<Rightarrow> string \<Rightarrow> bool \<Rightarrow> obj_desc \<Rightarrow> infos \<Rightarrow> bool \<times> infos" where
  "DM_ENG_Device_GetParameterNames_GetParameters env acspath path incObject object pnsList =
     (if \<not> gn_allowed env path path then (True, pnsList)
      else
        (let object_path = gn_shown env acspath path;
             l = (if incObject then pnsList @ [(object_path, od_type_id object = 2 \<or> od_type_id object = 3)] else pnsList)
         in if od_type_id object = 2 then (True, l)
            else (case od_parameters object of
                    None \<Rightarrow> (True, l)
                  | Some t \<Rightarrow> add_parameters env object_path t (sorted_keys t) l)))"

definition child_objects :: "obj_desc \<Rightarrow> string list" where
  "child_objects object =
     (case (if od_type_id object = 2 then od_instances object else od_objects object) of
        None \<Rightarrow> [] | Some cs \<Rightarrow> sort cs)"

text \<open>With the flag \<open>nextlevel\<close> a child is listed without its content.\<close>

definition add_next_level :: "gpn_env \<Rightarrow> string \<Rightarrow> string \<Rightarrow> string \<Rightarrow> infos \<Rightarrow> infos" where
  "add_next_level env acspath path childName pnsList =
     (let childPath = path @ childName @ [dot] in
      case gn_describe env childPath of
        (rv, childobject) \<Rightarrow>
          (if rv = AMXB_STATUS_OK \<and> gn_allowed env path childPath then
             (let type_id = (case childobject of None \<Rightarrow> 0 | Some ob \<Rightarrow> od_type_id ob)
              in pnsList @ [(gn_shown env acspath childPath, type_id = 2 \<or> type_id = 3)])
           else pnsList))"

text \<open>The recursion; \<open>get_names_children\<close> is its loop over the children, whose error is that of the last child.\<close>

fun DM_ENG_Device_GetParameterNames_GetNames ::
  "nat \<Rightarrow> gpn_env \<Rightarrow> bool \<Rightarrow> string \<Rightarrow> string \<Rightarrow> infos \<Rightarrow> (dm_error \<times> infos) option"
  and get_names_children ::
  "nat \<Rightarrow> gpn_env \<Rightarrow> string \<Rightarrow> string \<Rightarrow> string list \<Rightarrow> dm_error \<Rightarrow> infos \<Rightarrow> (dm_error \<times> infos) option"
where
  "DM_ENG_Device_GetParameterNames_GetNames 0 env nextlevel acspath path pnsList = None"
| "DM_ENG_Device_GetParameterNames_GetNames (Suc n) env nextlevel acspath path pnsList =
     (case gn_describe env path of
        (rv, result) \<Rightarrow>
          (case (if rv \<noteq> AMXB_STATUS_OK then None else result) of
             None \<Rightarrow>
               (if rv = AMXB_ERROR_NOT_SUPPORTED_SCHEME \<or> rv = AMXB_ERROR_NOT_SUPPORTED_OP then Some (DM_OK, pnsList)
                else Some (DM_ENG_INVALID_PARAMETER_NAME, pnsList))
           | Some object \<Rightarrow>
               (case DM_ENG_Device_GetParameterNames_GetParameters env acspath path (\<not> nextlevel) object pnsList of
                  (False, l) \<Rightarrow> Some (DM_ENG_INVALID_PARAMETER_NAME, l)
                | (True, l) \<Rightarrow>
                    (if nextlevel
                     then Some (DM_OK, fold (add_next_level env acspath path) (child_objects object) l)
                     else get_names_children n env acspath path (child_objects object) DM_OK l))))"
| "get_names_children n env acspath path [] error pnsList = Some (error, pnsList)"
| "get_names_children n env acspath path (c # cs) error pnsList =
     (case DM_ENG_Device_GetParameterNames_GetNames n env False acspath (path @ c @ [dot]) pnsList of
        None \<Rightarrow> None
      | Some (e, l) \<Rightarrow> get_names_children n env acspath path cs e l)"

fun partial_path_loop :: "nat \<Rightarrow> gpn_env \<Rightarrow> bool \<Rightarrow> string \<Rightarrow> string list \<Rightarrow> infos \<Rightarrow> (dm_error \<times> infos) option" where
  "partial_path_loop n env nextLevel path [] l = Some (DM_OK, l)"
| "partial_path_loop n env nextLevel path (p # ps) l =
     (case DM_ENG_Device_GetParameterNames_GetNames n env nextLevel path p l of
        None \<Rightarrow> None
      | Some (e, l') \<Rightarrow> if e \<noteq> DM_OK then Some (e, l') else partial_path_loop n env nextLevel path ps l')"

definition DM_ENG_Device_GetParameterNames_PartialPath ::
  "nat \<Rightarrow> gpn_env \<Rightarrow> cstr \<Rightarrow> bool \<Rightarrow> infos \<Rightarrow> (dm_error \<times> infos) option" where
  "DM_ENG_Device_GetParameterNames_PartialPath n env path nextLevel l =
     (if \<not> DM_ENG_Device_Common_IsValidPath path then Some (DM_ENG_INVALID_PARAMETER_NAME, l)
      else (case DM_ENG_Device_Common_Resolve_Path (amx_env.truncate env) (the path) of
              None \<Rightarrow> Some (DM_ENG_INVALID_PARAMETER_NAME, l)
            | Some ps \<Rightarrow> partial_path_loop n env nextLevel (the path) ps l))"

fun parameter_loop :: "gpn_env \<Rightarrow> string \<Rightarrow> string list \<Rightarrow> infos \<Rightarrow> dm_error \<times> infos" where
  "parameter_loop env path [] l = (DM_OK, l)"
| "parameter_loop env path (p # ps) l =
     (let obj = gn_object env p in
      case gn_describe env obj of
        (rv, result) \<Rightarrow>
          (case (if rv \<noteq> AMXB_STATUS_OK then None else result) of
             None \<Rightarrow> (DM_ENG_INVALID_PARAMETER_NAME, l)
           | Some object \<Rightarrow>
               (case DM_ENG_Device_GetParameterNames_GetParameter env (gn_shown env path obj)
                       (case od_parameters object of None \<Rightarrow> None | Some t \<Rightarrow> map_of t (ae_param env p)) l of
                  (False, l') \<Rightarrow> (DM_ENG_INVALID_PARAMETER_NAME, l')
                | (True, l') \<Rightarrow> parameter_loop env path ps l')))"

definition DM_ENG_Device_GetParameterNames_Parameter :: "gpn_env \<Rightarrow> cstr \<Rightarrow> infos \<Rightarrow> dm_error \<times> infos" where
  "DM_ENG_Device_GetParameterNames_Parameter env path l =
     (if \<not> DM_ENG_Device_Common_IsValidPath path then (DM_ENG_INVALID_PARAMETER_NAME, l)
      else (case DM_ENG_Device_Common_Resolve_Path (amx_env.truncate env) (the path) of
              None \<Rightarrow> (DM_ENG_INVALID_PARAMETER_NAME, l)
            | Some ps \<Rightarrow> parameter_loop env (the path) ps l))"

definition DM_ENG_Device_GetParameterNames ::
  "nat \<Rightarrow> gpn_env \<Rightarrow> cstr \<Rightarrow> bool \<Rightarrow> infos \<Rightarrow> (dm_error \<times> infos) option" where
  "DM_ENG_Device_GetParameterNames n env path nextLevel l =
     map_option (\<lambda>(e, l'). (e, if e \<noteq> DM_OK then [] else l'))
       (if \<not> gv_system_ok env then Some (DM_ENG_INTERNAL_ERROR, l)
        else if str_empty path \<and> nextLevel then Some (DM_OK, l @ [(ae_prefix env, False)])
        else if str_empty path \<or> last (the path) = dot \<or> last (the path) = CHR ''*''
        then DM_ENG_Device_GetParameterNames_PartialPath n env path nextLevel l
        else if nextLevel then Some (DM_ENG_INVALID_ARGUMENTS, l)
        else Some (DM_ENG_Device_GetParameterNames_Parameter env path l))"

subsection \<open>The walk ends\<close>

definition described :: "gpn_env \<Rightarrow> string \<Rightarrow> obj_desc option" where
  "described env p = (case gn_describe env p of (rv, r) \<Rightarrow> if rv \<noteq> AMXB_STATUS_OK then None else r)"

definition depth_bound :: "gpn_env \<Rightarrow> nat \<Rightarrow> bool" where
  "depth_bound env N \<longleftrightarrow> (\<forall>p. N < length p \<longrightarrow> described env p = None)"

lemmas get_names_induct =
  DM_ENG_Device_GetParameterNames_GetNames_get_names_children.induct

lemma get_names_terminates_aux:
  "depth_bound env N \<Longrightarrow> 0 < n \<Longrightarrow> N + 1 < length path + n \<Longrightarrow>
     DM_ENG_Device_GetParameterNames_GetNames n env nextlevel acspath path l \<noteq> None"
  "depth_bound env N \<Longrightarrow> 0 < n \<Longrightarrow> N + 1 < length path + 1 + n \<Longrightarrow>
     get_names_children n env acspath path cs e l \<noteq> None"
proof (induction n env nextlevel acspath path l and n env acspath path cs e l rule: get_names_induct)
  case (2 n env nextlevel acspath path l)
  show ?case
  proof (cases "described env path")
    case None
    then show ?thesis by (auto simp: described_def split: prod.splits if_splits)
  next
    case (Some ob)
    then have "length path \<le> N" using "2.prems"(1) by (cases "N < length path") (auto simp: depth_bound_def)
    then have "0 < n" using "2.prems"(3) by simp
    then show ?thesis using 2 Some
      by (auto simp: described_def split: prod.splits if_splits bool.splits option.splits)
  qed
next
  case (4 n env acspath path c cs e l)
  then show ?case by (auto split: option.splits)
qed simp_all

lemma get_names_fuel_Suc:
  "DM_ENG_Device_GetParameterNames_GetNames n env nextlevel acspath path l = Some r \<Longrightarrow>
     DM_ENG_Device_GetParameterNames_GetNames (Suc n) env nextlevel acspath path l = Some r"
  "get_names_children n env acspath path cs e l = Some r \<Longrightarrow>
     get_names_children (Suc n) env acspath path cs e l = Some r"
proof (induction n env nextlevel acspath path l and n env acspath path cs e l
    arbitrary: r and r rule: get_names_induct)
  case (2 n env nextlevel acspath path l)
  obtain rv res where g: "gn_describe env path = (rv, res)" by (metis surj_pair)
  show ?case
  proof (cases "if rv \<noteq> AMXB_STATUS_OK then None else res")
    case None
    then show ?thesis using "2.prems" g by (subst DM_ENG_Device_GetParameterNames_GetNames.simps) simp
  next
    case (Some ob)
    obtain b l' where p: "DM_ENG_Device_GetParameterNames_GetParameters env acspath path (\<not> nextlevel) ob l = (b, l')"
      by (metis surj_pair)
    show ?thesis
    proof (cases b)
      case True
      then show ?thesis
        using "2.prems" "2.IH" [OF g [symmetric] Some p [symmetric]] g Some p
        by (subst DM_ENG_Device_GetParameterNames_GetNames.simps) (simp split: if_splits)
    next
      case False
      then show ?thesis using "2.prems" g Some p by (subst DM_ENG_Device_GetParameterNames_GetNames.simps) simp
    qed
  qed
next
  case (4 n env acspath path c cs e l)
  obtain e' l' where g: "DM_ENG_Device_GetParameterNames_GetNames n env False acspath (path @ c @ [dot]) l = Some (e', l')"
    using "4.prems" by (auto split: option.splits)
  show ?case using "4.prems" g "4.IH"(1) [OF g] "4.IH"(2) [OF g refl]
    by (simp del: DM_ENG_Device_GetParameterNames_GetNames.simps)
qed simp_all

lemma get_names_fuel_mono:
  assumes "DM_ENG_Device_GetParameterNames_GetNames n env nextlevel acspath path l = Some r" "n \<le> m"
  shows "DM_ENG_Device_GetParameterNames_GetNames m env nextlevel acspath path l = Some r"
  using assms(2, 1) by (induction rule: dec_induct) (auto dest: get_names_fuel_Suc(1) simp del: DM_ENG_Device_GetParameterNames_GetNames.simps)

lemma partial_path_loop_terminates:
  assumes "depth_bound env N" "N + 2 \<le> n"
  shows "\<exists>r. partial_path_loop n env nextLevel path ps l = Some r
           \<and> (\<forall>m \<ge> n. partial_path_loop m env nextLevel path ps l = Some r)"
proof (induction ps arbitrary: l)
  case (Cons p ps)
  obtain e l' where g: "DM_ENG_Device_GetParameterNames_GetNames n env nextLevel path p l = Some (e, l')"
    using get_names_terminates_aux(1) [OF assms(1), of n] assms(2) by fastforce
  have "DM_ENG_Device_GetParameterNames_GetNames m env nextLevel path p l = Some (e, l')" if "n \<le> m" for m
    by (rule get_names_fuel_mono [OF g that])
  then show ?case using g Cons.IH [of l'] by auto
qed simp

text \<open>
  Property C21. Termination: GetParameterNames ends on every bus that describes no object whose path is longer than
  some bound \<open>N\<close>, for every path and flag: a recursion depth of \<open>N + 2\<close> gives a result, and
  every greater depth gives the same one, so that the answer is that of the unbounded recursion of the code.
\<close>

theorem get_parameter_names_terminates:
  assumes "depth_bound env N"
  shows "\<exists>r. \<forall>m \<ge> N + 2. DM_ENG_Device_GetParameterNames m env path nextLevel l = Some r"
proof -
  have "\<exists>r. \<forall>m \<ge> N + 2. DM_ENG_Device_GetParameterNames_PartialPath m env path nextLevel l = Some r"
  proof (cases "DM_ENG_Device_Common_IsValidPath path
      \<and> DM_ENG_Device_Common_Resolve_Path (amx_env.truncate env) (the path) \<noteq> None")
    case True
    then obtain ps where "DM_ENG_Device_Common_Resolve_Path (amx_env.truncate env) (the path) = Some ps" by auto
    then show ?thesis using True partial_path_loop_terminates [OF assms order_refl, of nextLevel "the path" ps l]
      by (auto simp: DM_ENG_Device_GetParameterNames_PartialPath_def)
  next
    case False
    then show ?thesis by (auto simp: DM_ENG_Device_GetParameterNames_PartialPath_def)
  qed
  then obtain r where r: "DM_ENG_Device_GetParameterNames_PartialPath m env path nextLevel l = Some r" if "N + 2 \<le> m" for m
    by blast
  have eq: "DM_ENG_Device_GetParameterNames m env path nextLevel l = DM_ENG_Device_GetParameterNames (N + 2) env path nextLevel l"
    if "N + 2 \<le> m" for m
    unfolding DM_ENG_Device_GetParameterNames_def r [OF that] r [OF order_refl] by (rule refl)
  have "DM_ENG_Device_GetParameterNames (N + 2) env path nextLevel l \<noteq> None"
    unfolding DM_ENG_Device_GetParameterNames_def r [OF order_refl] by simp
  then obtain y where "DM_ENG_Device_GetParameterNames (N + 2) env path nextLevel l = Some y" by blast
  then show ?thesis using eq by (intro exI [of _ y] allI impI) (rule trans)
qed

definition example_gpn_env :: gpn_env where
  "example_gpn_env = gpv_env.extend example_gpv_env
     \<lparr>gn_describe = (\<lambda>p.
        if p = ''Device.'' then (AMXB_STATUS_OK,
          Some \<lparr>od_type_id = 1, od_parameters = None, od_objects = Some [''X'', ''U''], od_instances = None\<rparr>)
        else if p = ''Device.U.'' then (AMXB_STATUS_OK,
          Some \<lparr>od_type_id = 1, od_parameters = Some [(''N'', \<lparr>np_name = Some ''N'', np_read_only = 1\<rparr>)],
                od_objects = None, od_instances = None\<rparr>)
        else if p = ''Device.X.'' then (AMXB_STATUS_OK,
          Some \<lparr>od_type_id = 2, od_parameters = None, od_objects = None, od_instances = Some []\<rparr>)
        else (AMXB_ERROR_other, None)),
      gn_allowed = (\<lambda>_ _. True), gn_object = (\<lambda>p. take (last_dot p) p)\<rparr>"

lemma example_gpn_depth: "depth_bound example_gpn_env 9"
  by (auto simp: depth_bound_def described_def example_gpn_env_def gpv_env.defs)

theorem get_parameter_names_terminates_witness:
  "DM_ENG_Device_GetParameterNames 11 example_gpn_env (Some ''Device.'') False [] \<noteq> None \<and>
   DM_ENG_Device_GetParameterNames 40 example_gpn_env (Some ''Device.'') False [] =
   DM_ENG_Device_GetParameterNames 11 example_gpn_env (Some ''Device.'') False []"
proof -
  obtain r where "\<forall>m \<ge> 11. DM_ENG_Device_GetParameterNames m example_gpn_env (Some ''Device.'') False [] = Some r"
    using get_parameter_names_terminates [OF example_gpn_depth, of "Some ''Device.''" False "[]"] by auto
  then show ?thesis by simp
qed

subsection \<open>The names of a subtree\<close>

text \<open>The specification: the objects that the descriptions reach from a path, and what each of them contributes.\<close>

inductive below :: "gpn_env \<Rightarrow> string \<Rightarrow> string \<Rightarrow> bool" for env r where
  below_refl: "below env r r"
| below_step: "below env r q \<Longrightarrow> described env q = Some ob \<Longrightarrow> c \<in> set (child_objects ob) \<Longrightarrow> below env r (q @ c @ [dot])"

definition named :: "obj_desc \<Rightarrow> bool" where
  "named ob \<longleftrightarrow> (\<forall>t. od_parameters ob = Some t \<longrightarrow> (\<forall>p\<in>set t. np_name (snd p) \<noteq> None))"

definition readable :: "gpn_env \<Rightarrow> string \<Rightarrow> bool" where
  "readable env r \<longleftrightarrow> (\<forall>q. below env r q \<longrightarrow> (\<exists>ob. described env q = Some ob \<and> named ob))"

definition param_infos :: "gpn_env \<Rightarrow> string \<Rightarrow> (string \<times> name_param) list \<Rightarrow> string \<Rightarrow> infos" where
  "param_infos env object_path t k =
     (let p = the (map_of t k); path = object_path @ the (np_name p)
      in if gn_allowed env path path then [(path, np_read_only p = 0)] else [])"

definition object_infos :: "gpn_env \<Rightarrow> string \<Rightarrow> string \<Rightarrow> obj_desc \<Rightarrow> infos" where
  "object_infos env acspath q ob =
     (if gn_allowed env q q
      then (gn_shown env acspath q, od_type_id ob = 2 \<or> od_type_id ob = 3) #
        (case od_parameters ob of
           Some t \<Rightarrow> if od_type_id ob = 2 then [] else concat (map (param_infos env (gn_shown env acspath q) t) (sorted_keys t))
         | None \<Rightarrow> [])
      else [])"

definition subtree_infos :: "gpn_env \<Rightarrow> string \<Rightarrow> string \<Rightarrow> (string \<times> bool) set" where
  "subtree_infos env acspath r =
     {x. \<exists>q ob. below env r q \<and> described env q = Some ob \<and> x \<in> set (object_infos env acspath q ob)}"

lemma add_parameters_eq:
  assumes "\<forall>p\<in>set t. np_name (snd p) \<noteq> None" "set ks \<subseteq> fst ` set t"
  shows "add_parameters env op t ks l = (True, l @ concat (map (param_infos env op t) ks))"
  using assms(2)
proof (induction ks arbitrary: l)
  case (Cons k ks)
  then obtain p where p: "map_of t k = Some p" by (cases "map_of t k") (auto simp: map_of_eq_None_iff)
  then obtain nm where "np_name p = Some nm" using assms(1) map_of_SomeD by fastforce
  then show ?case using Cons p
    by (simp add: DM_ENG_Device_GetParameterNames_GetParameter_def param_infos_def Let_def)
qed simp

lemma get_parameters_eq:
  assumes "named ob"
  shows "DM_ENG_Device_GetParameterNames_GetParameters env acspath q True ob l = (True, l @ object_infos env acspath q ob)"
  using assms
  by (auto simp: DM_ENG_Device_GetParameterNames_GetParameters_def object_infos_def Let_def named_def add_parameters_eq
      split: option.splits)

lemma below_trans: "below env q s \<Longrightarrow> below env r q \<Longrightarrow> below env r s"
  by (induction rule: below.induct) (auto intro: below_step)

lemma below_iff:
  assumes "described env r = Some ob"
  shows "below env r s \<longleftrightarrow> s = r \<or> (\<exists>c\<in>set (child_objects ob). below env (r @ c @ [dot]) s)"
proof
  show "below env r s \<Longrightarrow> s = r \<or> (\<exists>c\<in>set (child_objects ob). below env (r @ c @ [dot]) s)"
  proof (induction rule: below.induct)
    case (below_step q ob' c)
    then show ?case using assms by (auto intro: below.intros)
  qed simp
qed (use assms in \<open>auto intro: below_refl below_trans [OF _ below_step]\<close>)

lemma subtree_infos_step:
  assumes "described env r = Some ob"
  shows "subtree_infos env acspath r =
     set (object_infos env acspath r ob) \<union> (\<Union>c\<in>set (child_objects ob). subtree_infos env acspath (r @ c @ [dot]))"
  using assms by (auto simp: subtree_infos_def below_iff [OF assms])

lemma readable_step:
  assumes "readable env r"
  obtains ob where "described env r = Some ob" "named ob" "\<And>c. c \<in> set (child_objects ob) \<Longrightarrow> readable env (r @ c @ [dot])"
proof -
  obtain ob where "described env r = Some ob" "named ob" using assms below_refl unfolding readable_def by blast
  moreover have "readable env (r @ c @ [dot])" if "c \<in> set (child_objects ob)" for c
    using assms that \<open>described env r = Some ob\<close> unfolding readable_def by (metis below_iff)
  ultimately show thesis by (rule that)
qed

lemma get_names_subtree:
  "DM_ENG_Device_GetParameterNames_GetNames n env nextlevel acspath path l = Some (e', l') \<Longrightarrow> \<not> nextlevel \<Longrightarrow>
     readable env path \<Longrightarrow> e' = DM_OK \<and> (\<exists>es. l' = l @ es \<and> set es = subtree_infos env acspath path)"
  "get_names_children n env acspath path cs e l = Some (e', l') \<Longrightarrow> e = DM_OK \<Longrightarrow>
     (\<And>c. c \<in> set cs \<Longrightarrow> readable env (path @ c @ [dot])) \<Longrightarrow>
     e' = DM_OK \<and> (\<exists>es. l' = l @ es \<and> set es = (\<Union>c\<in>set cs. subtree_infos env acspath (path @ c @ [dot])))"
proof (induction n env nextlevel acspath path l and n env acspath path cs e l
    arbitrary: e' l' and e' l' rule: get_names_induct)
  case (2 n env nextlevel acspath path l)
  obtain ob where ob: "described env path = Some ob" "named ob"
    "\<And>c. c \<in> set (child_objects ob) \<Longrightarrow> readable env (path @ c @ [dot])"
    using readable_step [OF "2.prems"(3)] by blast
  obtain rv res where g: "gn_describe env path = (rv, res)" by (metis surj_pair)
  then have r: "(if rv \<noteq> AMXB_STATUS_OK then None else res) = Some ob" using ob(1) by (simp add: described_def)
  have p: "DM_ENG_Device_GetParameterNames_GetParameters env acspath path (\<not> nextlevel) ob l
      = (True, l @ object_infos env acspath path ob)"
    using get_parameters_eq [OF ob(2)] "2.prems"(2) by simp
  have "get_names_children n env acspath path (child_objects ob) DM_OK (l @ object_infos env acspath path ob) = Some (e', l')"
    using "2.prems"(1, 2) g r p by simp
  from "2.IH" [OF g [symmetric] r p [symmetric] refl "2.prems"(2) this refl ob(3)]
  show ?case by (auto simp: subtree_infos_step [OF ob(1)])
next
  case (4 n env acspath path c cs e l)
  obtain e1 l1 where g: "DM_ENG_Device_GetParameterNames_GetNames n env False acspath (path @ c @ [dot]) l = Some (e1, l1)"
    using "4.prems"(1) by (auto split: option.splits)
  obtain es where es: "e1 = DM_OK" "l1 = l @ es" "set es = subtree_infos env acspath (path @ c @ [dot])"
    using "4.IH"(1) [OF g] "4.prems"(3) by auto
  have "get_names_children n env acspath path cs e1 l1 = Some (e', l')" using "4.prems"(1) g by simp
  from "4.IH"(2) [OF g refl this es(1)] "4.prems"(3) es
  show ?case by fastforce
qed simp_all

lemma partial_path_subtrees:
  assumes "depth_bound env N" "\<forall>p\<in>set ps. readable env p"
  shows "\<exists>es. partial_path_loop (N + 2) env False path ps l = Some (DM_OK, l @ es)
           \<and> set es = (\<Union>p\<in>set ps. subtree_infos env path p)"
  using assms(2)
proof (induction ps arbitrary: l)
  case (Cons p ps)
  obtain e l' where g: "DM_ENG_Device_GetParameterNames_GetNames (N + 2) env False path p l = Some (e, l')"
    using get_names_terminates_aux(1) [OF assms(1), of "N + 2"] by fastforce
  then obtain es where "e = DM_OK" "l' = l @ es" "set es = subtree_infos env path p"
    using get_names_subtree(1) [OF g] Cons.prems by auto
  moreover obtain es' where "partial_path_loop (N + 2) env False path ps l' = Some (DM_OK, l' @ es')"
      "set es' = (\<Union>p\<in>set ps. subtree_infos env path p)"
    using Cons.IH [of l'] Cons.prems by auto
  ultimately show ?case using g
    by (intro exI [of _ "es @ es'"]) (simp del: DM_ENG_Device_GetParameterNames_GetNames.simps)
qed simp

text \<open>
  Property C22. Asked for the names below a path that ends with a dot, on a bus that describes every object of the
  subtrees, GetParameterNames answers with success and with exactly the allowed names: for every
  object that the descriptions reach from one of the resolved paths and that the access rules show, its own name,
  writable when it is a table or an instance, and the name of each allowed parameter, writable when it is
  not read-only. Objects below one that is hidden are still listed.
\<close>

theorem names_of_subtree:
  assumes "depth_bound env N" "gv_system_ok env" "DM_ENG_Device_Common_IsValidPath (Some s)" "s \<noteq> []" "last s = dot"
    and "DM_ENG_Device_Common_Resolve_Path (amx_env.truncate env) s = Some ps" "\<forall>p\<in>set ps. readable env p"
  shows "\<exists>es. DM_ENG_Device_GetParameterNames (N + 2) env (Some s) False [] = Some (DM_OK, es)
           \<and> set es = (\<Union>p\<in>set ps. subtree_infos env s p)"
  using partial_path_subtrees [OF assms(1, 7), of s "[]"] assms(2-6)
  by (auto simp: DM_ENG_Device_GetParameterNames_def DM_ENG_Device_GetParameterNames_PartialPath_def str_empty_def)

lemma example_below:
  "below example_gpn_env ''Device.'' q \<Longrightarrow> q \<in> {''Device.'', ''Device.U.'', ''Device.X.''}"
proof (induction rule: below.induct)
  case (below_step q ob c)
  then show ?case
    by (auto simp: described_def example_gpn_env_def child_objects_def gpv_env.defs insort_key.simps split: if_splits option.splits)
qed simp

theorem names_of_subtree_witness:
  "\<exists>es. DM_ENG_Device_GetParameterNames 11 example_gpn_env (Some ''Device.'') False [] = Some (DM_OK, es)
     \<and> set es = subtree_infos example_gpn_env ''Device.'' ''Device.''"
proof -
  have "readable example_gpn_env ''Device.''"
    unfolding readable_def
  proof (intro allI impI)
    fix q assume "below example_gpn_env ''Device.'' q"
    then consider "q = ''Device.''" | "q = ''Device.U.''" | "q = ''Device.X.''" using example_below by blast
    then show "\<exists>ob. described example_gpn_env q = Some ob \<and> named ob"
      by cases (auto simp: described_def example_gpn_env_def named_def gpv_env.defs)
  qed
  moreover have "DM_ENG_Device_Common_IsValidPath (Some ''Device.'')" by code_simp
  moreover have "DM_ENG_Device_Common_Resolve_Path (amx_env.truncate example_gpn_env) ''Device.'' = Some [''Device.'']" by code_simp
  moreover have "gv_system_ok example_gpn_env" by code_simp
  ultimately show ?thesis using names_of_subtree [OF example_gpn_depth, of "''Device.''" "[''Device.'']"] by simp
qed

text \<open>
  The error of a walk is that of its last child: when an earlier child cannot be described its
  names are missing from the answer, and the walk reports what the last child reports, success included.
\<close>

theorem names_error_masked:
  "\<exists>env l. described env ''Device.A.'' = None
     \<and> DM_ENG_Device_GetParameterNames_GetNames 2 env False ''Device.A.'' ''Device.A.'' [] = Some (DM_ENG_INVALID_PARAMETER_NAME, [])
     \<and> (\<exists>ob. described env ''Device.'' = Some ob \<and> ''A'' \<in> set (child_objects ob))
     \<and> (\<forall>m \<ge> 11. DM_ENG_Device_GetParameterNames_GetNames m env False ''Device.'' ''Device.'' [] = Some (DM_OK, l))"
proof -
  define env where "env = gpn_env.gn_describe_update (\<lambda>d p. if p = ''Device.'' then (AMXB_STATUS_OK,
      Some \<lparr>od_type_id = 1, od_parameters = None, od_objects = Some [''A'', ''U''], od_instances = None\<rparr>) else d p) example_gpn_env"
  have "DM_ENG_Device_GetParameterNames_GetNames 11 env False ''Device.'' ''Device.'' [] =
      Some (DM_OK, [(''Device.'', False), (''Device.U.'', False), (''Device.U.N'', False)])"
    unfolding env_def by code_simp
  note get_names_fuel_mono [OF this]
  moreover have "described env ''Device.A.'' = None" unfolding env_def by code_simp
  moreover have "DM_ENG_Device_GetParameterNames_GetNames 2 env False ''Device.A.'' ''Device.A.'' [] =
      Some (DM_ENG_INVALID_PARAMETER_NAME, [])" unfolding env_def by code_simp
  moreover have "map_option (\<lambda>ob. ''A'' \<in> set (child_objects ob)) (described env ''Device.'') = Some True"
    unfolding env_def by code_simp
  ultimately show ?thesis by blast
qed

end
