(* ===== verification/Get_Names_Prpl.thy ===== *)
theory Get_Names_Prpl
  imports Get_Names
begin

section \<open>GetParameterNames on the supported data model (DM\_AmxParameterNames\_prpl.c)\<close>

text \<open>
  The build that lists the keys of \<open>amxb_get\<close> and looks each of them up in the answer of \<open>amxb_get_supported\<close>
  (with or without the instance marker \<open>{i}\<close>), first in the answer for the path, then in one for the key itself.
  There is no recursion. \<open>gp_get\<close> is the list of object paths that \<open>amxb_get\<close> returns, at one level or at all.
  A null pointer that \<open>strcmp\<close> reads makes the result \<open>None\<close>.
\<close>

subsection \<open>Model\<close>

record sup_name_param =
  snp_name :: cstr
  snp_access :: int

record sup_object =
  so_multi :: int
  so_params :: "sup_name_param list"

type_synonym sup_table = "(string \<times> sup_object) list"

record gpn_prpl_env = gpn_env +
  gp_get :: "string \<Rightarrow> bool \<Rightarrow> string list option"
  gp_supported :: "string \<Rightarrow> bool \<Rightarrow> sup_table option"
  gp_depth :: "string \<Rightarrow> nat"
  gp_instance_path :: "string \<Rightarrow> bool"

definition GetParameter_prpl ::
  "gpn_prpl_env \<Rightarrow> string \<Rightarrow> sup_name_param \<Rightarrow> infos \<Rightarrow> bool \<times> infos" where
  "GetParameter_prpl env object_path parameter pnsList =
     (case snp_name parameter of
        None \<Rightarrow> (False, pnsList)
      | Some param_name \<Rightarrow>
          (let paramPath = object_path @ param_name in
           if \<not> gn_allowed env paramPath paramPath then (True, pnsList)
           else (True, pnsList @ [(paramPath, snp_access parameter = 1)])))"

fun add_parameters_prpl :: "gpn_prpl_env \<Rightarrow> string \<Rightarrow> sup_name_param list \<Rightarrow> infos \<Rightarrow> bool \<times> infos" where
  "add_parameters_prpl env object_path [] l = (True, l)"
| "add_parameters_prpl env object_path (p # ps) l =
     (case GetParameter_prpl env object_path p l of
        (False, l') \<Rightarrow> (False, l')
      | (True, l') \<Rightarrow> add_parameters_prpl env object_path ps l')"

definition sup_lookup :: "sup_table \<Rightarrow> string \<Rightarrow> sup_object option" where
  "sup_lookup t supported_path =
     (case map_of t (supported_path @ ''{i}.'') of
        None \<Rightarrow> map_of t supported_path
      | Some v \<Rightarrow> Some v)"

definition shown_prpl :: "gpn_prpl_env \<Rightarrow> string \<Rightarrow> string \<Rightarrow> string" where
  "shown_prpl env acspath path = shown_name (gpv_env.truncate env) acspath path"

text \<open>The body of the loop for a key whose supported object is \<open>var\<close>.\<close>

definition list_key ::
  "gpn_prpl_env \<Rightarrow> bool \<Rightarrow> string \<Rightarrow> string \<Rightarrow> string \<Rightarrow> sup_object \<Rightarrow> infos \<Rightarrow> bool \<times> infos" where
  "list_key env nextlevel acspath path key var pnsList =
     (let is_multi_instance = (so_multi var = 1);
          name = shown_prpl env acspath key;
          l = (if \<not> nextlevel \<or> key \<noteq> path then pnsList @ [(name, is_multi_instance)] else pnsList)
      in if (\<not> nextlevel \<or> key = path) \<and> (\<not> is_multi_instance \<or> gp_instance_path env key)
         then add_parameters_prpl env name (so_params var) l
         else (True, l))"

fun names_loop_prpl ::
  "gpn_prpl_env \<Rightarrow> bool \<Rightarrow> string \<Rightarrow> string \<Rightarrow> sup_table \<Rightarrow> string list \<Rightarrow> infos \<Rightarrow> dm_error \<times> infos" where
  "names_loop_prpl env nextlevel acspath path rslt [] l = (DM_OK, l)"
| "names_loop_prpl env nextlevel acspath path rslt (key # keys) l =
     (if nextlevel \<and> gp_depth env key > gp_depth env path + 1
      then names_loop_prpl env nextlevel acspath path rslt keys l
      else
        (let supported_path = gv_supported_path env key in
         case (case sup_lookup rslt supported_path of
                 Some v \<Rightarrow> Inr (Some v)
               | None \<Rightarrow> (case gp_supported env key nextlevel of
                            None \<Rightarrow> Inl DM_ENG_INVALID_PARAMETER_NAME
                          | Some t \<Rightarrow> Inr (sup_lookup t supported_path))) of
           Inl e \<Rightarrow> (e, l)
         | Inr None \<Rightarrow> names_loop_prpl env nextlevel acspath path rslt keys l
         | Inr (Some var) \<Rightarrow>
             (case list_key env nextlevel acspath path key var l of
                (False, l') \<Rightarrow> (DM_ENG_INVALID_PARAMETER_NAME, l')
              | (True, l') \<Rightarrow> names_loop_prpl env nextlevel acspath path rslt keys l')))"

definition GetNames_prpl :: "gpn_prpl_env \<Rightarrow> bool \<Rightarrow> string \<Rightarrow> string \<Rightarrow> infos \<Rightarrow> dm_error \<times> infos" where
  "GetNames_prpl env nextlevel acspath path pnsList =
     (case gp_get env path nextlevel of
        None \<Rightarrow> (DM_ENG_INVALID_PARAMETER_NAME, pnsList)
      | Some keys \<Rightarrow>
          (case gp_supported env path nextlevel of
             None \<Rightarrow> (DM_ENG_INVALID_PARAMETER_NAME, pnsList)
           | Some rslt \<Rightarrow> names_loop_prpl env nextlevel acspath path rslt (sort keys) pnsList))"

fun partial_path_loop_prpl :: "gpn_prpl_env \<Rightarrow> bool \<Rightarrow> string \<Rightarrow> string list \<Rightarrow> infos \<Rightarrow> dm_error \<times> infos" where
  "partial_path_loop_prpl env nextLevel path [] l = (DM_OK, l)"
| "partial_path_loop_prpl env nextLevel path (p # ps) l =
     (case GetNames_prpl env nextLevel path p l of
        (e, l') \<Rightarrow> if e \<noteq> DM_OK then (e, l') else partial_path_loop_prpl env nextLevel path ps l')"

definition PartialPath_prpl :: "gpn_prpl_env \<Rightarrow> cstr \<Rightarrow> bool \<Rightarrow> infos \<Rightarrow> dm_error \<times> infos" where
  "PartialPath_prpl env path nextLevel l =
     (if \<not> DM_ENG_Device_Common_IsValidPath path then (DM_ENG_INVALID_PARAMETER_NAME, l)
      else (case DM_ENG_Device_Common_Resolve_Path (amx_env.truncate env) (the path) of
              None \<Rightarrow> (DM_ENG_INVALID_PARAMETER_NAME, l)
            | Some ps \<Rightarrow> partial_path_loop_prpl env nextLevel (the path) ps l))"

text \<open>The search of a parameter by its name in the supported parameters of its object.\<close>

fun find_parameter ::
  "gpn_prpl_env \<Rightarrow> string \<Rightarrow> string \<Rightarrow> sup_name_param list \<Rightarrow> infos \<Rightarrow> (bool \<times> infos) option" where
  "find_parameter env object_path param [] l = Some (True, l)"
| "find_parameter env object_path param (p # ps) l =
     (case snp_name p of
        None \<Rightarrow> None
      | Some n \<Rightarrow> if n = param then Some (GetParameter_prpl env object_path p l)
                  else find_parameter env object_path param ps l)"

fun parameter_loop_prpl :: "gpn_prpl_env \<Rightarrow> string \<Rightarrow> string list \<Rightarrow> infos \<Rightarrow> (dm_error \<times> infos) option" where
  "parameter_loop_prpl env path [] l = Some (DM_OK, l)"
| "parameter_loop_prpl env path (p # ps) l =
     (let obj = gn_object env p in
      case gp_supported env obj False of
        None \<Rightarrow> Some (DM_ENG_INVALID_PARAMETER_NAME, l)
      | Some t \<Rightarrow>
          (case find_parameter env (shown_prpl env path obj) (ae_param env p)
                  (case sup_lookup t (gv_supported_path env p) of None \<Rightarrow> [] | Some v \<Rightarrow> so_params v) l of
             None \<Rightarrow> None
           | Some (False, l') \<Rightarrow> Some (DM_ENG_INVALID_PARAMETER_NAME, l')
           | Some (True, l') \<Rightarrow> parameter_loop_prpl env path ps l'))"

definition Parameter_prpl :: "gpn_prpl_env \<Rightarrow> cstr \<Rightarrow> infos \<Rightarrow> (dm_error \<times> infos) option" where
  "Parameter_prpl env path l =
     (if \<not> DM_ENG_Device_Common_IsValidPath path then Some (DM_ENG_INVALID_PARAMETER_NAME, l)
      else (case DM_ENG_Device_Common_Resolve_Path (amx_env.truncate env) (the path) of
              None \<Rightarrow> Some (DM_ENG_INVALID_PARAMETER_NAME, l)
            | Some ps \<Rightarrow> parameter_loop_prpl env (the path) ps l))"

definition GetParameterNames_prpl :: "gpn_prpl_env \<Rightarrow> cstr \<Rightarrow> bool \<Rightarrow> infos \<Rightarrow> (dm_error \<times> infos) option" where
  "GetParameterNames_prpl env path nextLevel l =
     map_option (\<lambda>(e, l'). (e, if e \<noteq> DM_OK then [] else l'))
       (if \<not> gv_system_ok env then Some (DM_ENG_INTERNAL_ERROR, l)
        else if str_empty path \<and> nextLevel then Some (DM_OK, l @ [(ae_prefix env, False)])
        else if str_empty path \<or> last (the path) = dot \<or> last (the path) = CHR ''*''
        then Some (PartialPath_prpl env path nextLevel l)
        else if nextLevel then Some (DM_ENG_INVALID_ARGUMENTS, l)
        else Parameter_prpl env path l)"

subsection \<open>One level\<close>

text \<open>What a list of names may hold when one level below \<open>path\<close> is asked for.\<close>

definition level_name :: "gpn_prpl_env \<Rightarrow> string \<Rightarrow> string \<Rightarrow> string list \<Rightarrow> string \<Rightarrow> bool" where
  "level_name env acspath path keys n \<longleftrightarrow>
     (\<exists>key\<in>set keys. key \<noteq> path \<and> gp_depth env key \<le> gp_depth env path + 1 \<and> n = shown_prpl env acspath key)
   \<or> (\<exists>p. n = shown_prpl env acspath path @ p \<and> gn_allowed env n n)"

definition one_level :: "gpn_prpl_env \<Rightarrow> string \<Rightarrow> string \<Rightarrow> string list \<Rightarrow> infos \<Rightarrow> bool" where
  "one_level env acspath path keys l \<longleftrightarrow> (\<forall>n\<in>fst ` set l. level_name env acspath path keys n)"

lemma one_level_append [simp]:
  "one_level env acspath path keys (l @ l') \<longleftrightarrow> one_level env acspath path keys l \<and> one_level env acspath path keys l'"
  "one_level env acspath path keys []"
  by (auto simp: one_level_def)

lemma add_parameters_prpl_spec:
  assumes "add_parameters_prpl env op ps l = (b, l')"
  shows "\<exists>es. l' = l @ es \<and> (\<forall>n\<in>fst ` set es. \<exists>p. n = op @ p \<and> gn_allowed env n n)"
  using assms
proof (induction ps arbitrary: l)
  case (Cons p ps)
  obtain c l1 where c: "GetParameter_prpl env op p l = (c, l1)" by (metis surj_pair)
  then have "\<exists>es. l1 = l @ es \<and> (\<forall>n\<in>fst ` set es. \<exists>p. n = op @ p \<and> gn_allowed env n n)"
    by (auto simp: GetParameter_prpl_def Let_def split: option.splits if_splits)
  moreover have "\<exists>es. l' = l1 @ es \<and> (\<forall>n\<in>fst ` set es. \<exists>p. n = op @ p \<and> gn_allowed env n n)"
    using Cons c by (cases c) auto
  ultimately show ?case by fastforce
qed simp

lemma list_key_one_level:
  assumes "list_key env True acspath path key var l = (b, l')" "gp_depth env key \<le> gp_depth env path + 1"
    and "key \<in> set keys" "one_level env acspath path keys l"
  shows "one_level env acspath path keys l'"
proof (cases "key = path")
  case True
  have "one_level env acspath path keys es"
    if "\<forall>n\<in>fst ` set es. \<exists>p. n = shown_prpl env acspath path @ p \<and> gn_allowed env n n" for es
    using that unfolding one_level_def level_name_def by blast
  then show ?thesis using assms True
    by (auto simp: list_key_def Let_def simp del: ball_simps split: if_splits dest!: add_parameters_prpl_spec)
next
  case False
  moreover have "one_level env acspath path keys [(shown_prpl env acspath key, so_multi var = 1)]"
    using False assms(2, 3) by (auto simp: one_level_def level_name_def)
  ultimately show ?thesis using assms by (auto simp: list_key_def Let_def)
qed

lemma names_loop_one_level:
  assumes "names_loop_prpl env True acspath path rslt ks l = (e, l')" "set ks \<subseteq> set keys"
    and "one_level env acspath path keys l"
  shows "one_level env acspath path keys l'"
  using assms
proof (induction ks arbitrary: l)
  case (Cons key ks)
  have step: "one_level env acspath path keys l'"
    if "\<not> gp_depth env key > gp_depth env path + 1" "list_key env True acspath path key var l = (b, l1)"
      "(if b then names_loop_prpl env True acspath path rslt ks l1 else (DM_ENG_INVALID_PARAMETER_NAME, l1)) = (e, l')" for var b l1
    using Cons.IH [of l1] Cons.prems list_key_one_level [OF that(2)] that by (auto split: if_splits)
  show ?case
    using Cons.prems Cons.IH [of l] step
    by (auto simp: Let_def split: if_splits option.splits sum.splits prod.splits bool.splits)
qed simp

text \<open>
  Asked for the next level of an object, the build on the supported data model names only objects
  that \<open>amxb_get\<close> returned, other than the object itself, at most one level deeper than it, and parameters of the object
  itself that the access rules allow: nothing from further down is listed, whatever the bus returns.
\<close>

theorem next_level_only:
  assumes "gp_get env path True = Some keys"
  shows "one_level env acspath path keys (snd (GetNames_prpl env True acspath path []))"
  using assms names_loop_one_level [OF prod.collapse [symmetric]]
  by (auto simp: GetNames_prpl_def split: option.splits)

definition example_gpn_prpl_env :: gpn_prpl_env where
  "example_gpn_prpl_env = gpn_env.extend example_gpn_env
     \<lparr>gp_get = (\<lambda>p n. Some [''Device.U.'', ''Device.'', ''Device.U.H.'']),
      gp_supported = (\<lambda>p n. Some [(''Device.'', \<lparr>so_multi = 0, so_params = [\<lparr>snp_name = Some ''R'', snp_access = 1\<rparr>]\<rparr>),
        (''Device.U.'', \<lparr>so_multi = 0, so_params = [\<lparr>snp_name = Some ''N'', snp_access = 0\<rparr>]\<rparr>)]),
      gp_depth = (\<lambda>p. length (filter (\<lambda>c. c = dot) p)), gp_instance_path = (\<lambda>p. False)\<rparr>"

theorem next_level_only_witness:
  "GetNames_prpl example_gpn_prpl_env True ''Device.'' ''Device.'' [] = (DM_OK, [(''Device.R'', True), (''Device.U.'', False)])
   \<and> one_level example_gpn_prpl_env ''Device.'' ''Device.'' [''Device.U.'', ''Device.'', ''Device.U.H.'']
       (snd (GetNames_prpl example_gpn_prpl_env True ''Device.'' ''Device.'' []))"
proof
  show "GetNames_prpl example_gpn_prpl_env True ''Device.'' ''Device.'' [] = (DM_OK, [(''Device.R'', True), (''Device.U.'', False)])"
    by code_simp
  show "one_level example_gpn_prpl_env ''Device.'' ''Device.'' [''Device.U.'', ''Device.'', ''Device.U.H.'']
       (snd (GetNames_prpl example_gpn_prpl_env True ''Device.'' ''Device.'' []))"
    by (rule next_level_only) (simp add: example_gpn_prpl_env_def gpn_env.defs)
qed

subsection \<open>Where the builds differ\<close>

lemma single_path:
  assumes "DM_ENG_Device_Common_IsValidPath (Some s)" "s \<noteq> []" "\<not> DM_ENG_Device_Common_IsWildcardPath (Some s)"
  shows "last s \<noteq> CHR ''*''" "ae_prefix e \<noteq> s \<Longrightarrow> DM_ENG_Device_Common_Resolve_Path e s = Some [s]"
proof -
  have "CHR ''*'' \<notin> set s" using assms(3) by (simp add: DM_ENG_Device_Common_IsWildcardPath_def strchr_None_iff)
  then show "last s \<noteq> CHR ''*''" using assms(2) last_in_set by metis
qed (use assms in \<open>simp add: DM_ENG_Device_Common_Resolve_Path_def\<close>)

lemma unknown_parameter_plain:
  assumes "described e (gn_object e s) = Some ob"
    and "case od_parameters ob of None \<Rightarrow> True | Some t \<Rightarrow> ae_param e s \<notin> fst ` set t"
  shows "parameter_loop e s [s] [] = (DM_ENG_INVALID_PARAMETER_NAME, [])"
proof -
  have "(case od_parameters ob of None \<Rightarrow> None | Some t \<Rightarrow> map_of t (ae_param e s)) = None"
    using assms(2) by (auto simp: map_of_eq_None_iff split: option.splits)
  then show ?thesis using assms(1)
    by (auto simp: described_def DM_ENG_Device_GetParameterNames_GetParameter_def split: prod.splits if_splits)
qed

lemma find_parameter_absent:
  "\<forall>p\<in>set ps. \<exists>n. snp_name p = Some n \<and> n \<noteq> param \<Longrightarrow> find_parameter env op param ps l = Some (True, l)"
  by (induction ps) auto

text \<open>
  A parameter that the object does not have: the build on the descriptions answers with the fault
  9005, invalid parameter name, the one on the supported data model with success and an empty list.
\<close>

theorem unknown_parameter_differs:
  assumes "gv_system_ok env" "DM_ENG_Device_Common_IsValidPath (Some s)" "s \<noteq> []" "last s \<noteq> dot"
    and "\<not> DM_ENG_Device_Common_IsWildcardPath (Some s)" "ae_prefix env \<noteq> s"
    and "described (gpn_env.truncate env) (gn_object env s) = Some ob"
    and "case od_parameters ob of None \<Rightarrow> True | Some t \<Rightarrow> ae_param env s \<notin> fst ` set t"
    and "gp_supported env (gn_object env s) False = Some t"
    and "case sup_lookup t (gv_supported_path env s) of None \<Rightarrow> True
         | Some v \<Rightarrow> \<forall>p\<in>set (so_params v). \<exists>n. snp_name p = Some n \<and> n \<noteq> ae_param env s"
  shows "DM_ENG_Device_GetParameterNames n (gpn_env.truncate env) (Some s) False [] = Some (DM_ENG_INVALID_PARAMETER_NAME, [])
       \<and> GetParameterNames_prpl env (Some s) False [] = Some (DM_OK, [])"
proof -
  let ?e = "gpn_env.truncate env"
  have t: "gv_system_ok ?e" "gn_object ?e = gn_object env" "ae_param ?e = ae_param env"
    "ae_prefix (amx_env.truncate ?e) = ae_prefix env" "ae_prefix (amx_env.truncate env) = ae_prefix env"
    using assms(1) by (simp_all add: gpn_env.defs amx_env.defs)
  have "parameter_loop ?e s [s] [] = (DM_ENG_INVALID_PARAMETER_NAME, [])"
    using assms(7, 8) by (intro unknown_parameter_plain) (auto simp: t split: option.splits)
  moreover have "parameter_loop_prpl env s [s] [] = Some (DM_OK, [])"
    using assms(9, 10) by (auto simp: find_parameter_absent split: option.splits)
  moreover have "\<not> str_empty (Some s)" using assms(3) by simp
  ultimately show ?thesis
    using assms(1, 2, 4, 6) t single_path [OF assms(2, 3, 5)]
    by (simp add: GetParameterNames_prpl_def Parameter_prpl_def DM_ENG_Device_GetParameterNames_def
        DM_ENG_Device_GetParameterNames_Parameter_def del: parameter_loop.simps parameter_loop_prpl.simps)
qed

theorem unknown_parameter_differs_witness:
  "DM_ENG_Device_GetParameterNames 1 (gpn_env.truncate example_gpn_prpl_env) (Some ''Device.Z'') False [] = Some (DM_ENG_INVALID_PARAMETER_NAME, [])
   \<and> GetParameterNames_prpl example_gpn_prpl_env (Some ''Device.Z'') False [] = Some (DM_OK, [])"
proof (rule unknown_parameter_differs)
  show "described (gpn_env.truncate example_gpn_prpl_env) (gn_object example_gpn_prpl_env ''Device.Z'') =
      Some \<lparr>od_type_id = 1, od_parameters = None, od_objects = Some [''X'', ''U''], od_instances = None\<rparr>"
    by code_simp
  show "gp_supported example_gpn_prpl_env (gn_object example_gpn_prpl_env ''Device.Z'') False =
      Some [(''Device.'', \<lparr>so_multi = 0, so_params = [\<lparr>snp_name = Some ''R'', snp_access = 1\<rparr>]\<rparr>),
        (''Device.U.'', \<lparr>so_multi = 0, so_params = [\<lparr>snp_name = Some ''N'', snp_access = 0\<rparr>]\<rparr>)]"
    by code_simp
  show "case sup_lookup [(''Device.'', \<lparr>so_multi = 0, so_params = [\<lparr>snp_name = Some ''R'', snp_access = 1\<rparr>]\<rparr>),
        (''Device.U.'', \<lparr>so_multi = 0, so_params = [\<lparr>snp_name = Some ''N'', snp_access = 0\<rparr>]\<rparr>)]
          (gv_supported_path example_gpn_prpl_env ''Device.Z'') of None \<Rightarrow> True
      | Some v \<Rightarrow> \<forall>p\<in>set (so_params v). \<exists>n. snp_name p = Some n \<and> n \<noteq> ae_param example_gpn_prpl_env ''Device.Z''"
    by (simp add: sup_lookup_def example_gpn_prpl_env_def example_gpn_env_def example_gpv_env_def gpn_env.defs gpv_env.defs)
qed (code_simp | simp)+

end
