(* ===== verification/Add_Delete.thy ===== *)
theory Add_Delete
  imports Set_Values
begin

section \<open>AddObject and DeleteObject (DM\_AmxAddDelete.c, DM\_DeviceAdapter.c)\<close>

text \<open>
  The two RPCs that create and remove instances. The calls to the bus are a log, and the answer of the bus may depend
  on the calls before it. \<open>ad_last\<close> is \<open>amxd_path_get_last\<close> with the removal of the last element: the element
  and the path that remains; \<open>ad_terminate\<close> is \<open>amxd_path_get\<close> with a dot at the end. A read before the
  first character of the name is recorded by \<open>ad_bad_read\<close>.
\<close>

subsection \<open>Model\<close>

datatype bus_call = Bus_Add string cstr | Bus_Del string

record add_env = amx_env +
  ad_system_ok :: bool
  ad_last :: "string \<Rightarrow> cstr \<times> string"
  ad_terminate :: "string \<Rightarrow> string"
  ad_replace :: "string \<Rightarrow> string \<Rightarrow> string \<Rightarrow> string"
  ad_add_allowed :: "string \<Rightarrow> bool"
  ad_del_allowed :: "string \<Rightarrow> bool"
  ad_bus_add :: "bus_call list \<Rightarrow> string \<Rightarrow> cstr \<Rightarrow> nat option"
  ad_bus_del :: "bus_call list \<Rightarrow> string \<Rightarrow> bool"

record add_state =
  ad_calls :: "bus_call list"
  ad_bad_read :: bool

text \<open>The second component is the path without its last element. \<open>memmove\<close> and the terminator keep the characters
  between the brackets.\<close>

definition get_acs_assigned_instance_alias :: "add_env \<Rightarrow> string \<Rightarrow> cstr \<times> string" where
  "get_acs_assigned_instance_alias env path =
     (if path = [] then (None, path)
      else (case ad_last env path of
              (None, rest) \<Rightarrow> (None, rest)
            | (Some alias, rest) \<Rightarrow>
                (let len = length alias in
                 if len > 3 \<and> alias ! 0 = CHR ''['' \<and> alias ! (len - 2) = CHR '']'' \<and> alias ! (len - 1) = dot
                 then (Some (take (len - 3) (drop 1 alias)), rest)
                 else (None, rest))))"

definition DM_ENG_Device_AddDeleteObject_Add ::
  "add_env \<Rightarrow> cstr \<Rightarrow> add_state \<Rightarrow> dm_error \<times> nat \<times> DM_ENG_ParameterStatus \<times> add_state" where
  "DM_ENG_Device_AddDeleteObject_Add env objectName st =
     (let fail = (DM_ENG_INVALID_PARAMETER_NAME, 0, DM_ENG_ParameterStatus_UNDEFINED, st) in
      case objectName of
        None \<Rightarrow> fail
      | Some name \<Rightarrow>
          (if name = [] then fail
           else if last name \<noteq> dot then fail
           else if \<not> DM_ENG_Device_Common_IsValidPath (Some name) then fail
           else if ae_is_search_path env name \<and> \<not> DM_ENG_Device_Common_Is_Valid_Alias_Path (Some name) then fail
           else
             (let (alias, rest) = get_acs_assigned_instance_alias env name;
                  obj = (if alias \<noteq> None
                         then ad_terminate env (ad_replace env '']'' [] (ad_replace env ''['' [] rest)) else name)
              in if \<not> ad_add_allowed env obj then fail
                 else
                   (let st1 = st\<lparr>ad_calls := ad_calls st @ [Bus_Add obj alias]\<rparr> in
                    case ad_bus_add env (ad_calls st) obj alias of
                      None \<Rightarrow> (DM_ENG_INTERNAL_ERROR, 0, DM_ENG_ParameterStatus_UNDEFINED, st1)
                    | Some index \<Rightarrow> (DM_OK, index, DM_ENG_ParameterStatus_APPLIED, st1)))))"

definition DM_ENG_Device_AddDeleteObject_Delete ::
  "add_env \<Rightarrow> string \<Rightarrow> add_state \<Rightarrow> dm_error \<times> DM_ENG_ParameterStatus \<times> add_state" where
  "DM_ENG_Device_AddDeleteObject_Delete env objectName st =
     (let fail = (\<lambda>st. (DM_ENG_INVALID_PARAMETER_NAME, DM_ENG_ParameterStatus_UNDEFINED, st)) in
      if \<not> DM_ENG_Device_Common_IsValidPath (Some objectName) then fail st
      else if objectName = [] then fail (st\<lparr>ad_bad_read := True\<rparr>)
      else if last objectName \<noteq> dot then fail st
      else if ae_is_search_path env objectName then fail st
      else if \<not> ad_del_allowed env objectName then fail st
      else
        (let obj = ad_terminate env objectName; st1 = st\<lparr>ad_calls := ad_calls st @ [Bus_Del obj]\<rparr> in
         if \<not> ad_bus_del env (ad_calls st) obj then (DM_ENG_INTERNAL_ERROR, DM_ENG_ParameterStatus_UNDEFINED, st1)
         else (DM_OK, DM_ENG_ParameterStatus_APPLIED, st1)))"

text \<open>The entry points leave the results of the caller as they are when the system check fails.\<close>

definition DM_ENG_Device_AddObject ::
  "add_env \<Rightarrow> cstr \<Rightarrow> nat \<Rightarrow> DM_ENG_ParameterStatus \<Rightarrow> add_state \<Rightarrow> dm_error \<times> nat \<times> DM_ENG_ParameterStatus \<times> add_state" where
  "DM_ENG_Device_AddObject env objectName pInstanceNumber pStatus st =
     (if \<not> ad_system_ok env then (DM_ENG_INTERNAL_ERROR, pInstanceNumber, pStatus, st)
      else DM_ENG_Device_AddDeleteObject_Add env objectName st)"

definition DM_ENG_Device_DeleteObject ::
  "add_env \<Rightarrow> string \<Rightarrow> DM_ENG_ParameterStatus \<Rightarrow> add_state \<Rightarrow> dm_error \<times> DM_ENG_ParameterStatus \<times> add_state" where
  "DM_ENG_Device_DeleteObject env objectName pStatus st =
     (if \<not> ad_system_ok env then (DM_ENG_INTERNAL_ERROR, pStatus, st)
      else DM_ENG_Device_AddDeleteObject_Delete env objectName st)"

subsection \<open>Properties\<close>

lemma alias_of_brackets:
  assumes "ad_last env path = (Some (CHR ''['' # a @ '']'' @ [dot]), rest)" "path \<noteq> []"
  shows "get_acs_assigned_instance_alias env path = (if a = [] then None else Some a, rest)"
proof -
  have "(CHR ''['' # a @ '']'' @ [dot]) ! Suc (length a) = CHR '']''" by (simp add: nth_append)
  moreover have "(CHR ''['' # a @ '']'' @ [dot]) ! Suc (Suc (length a)) = dot" by (simp add: nth_append)
  ultimately show ?thesis using assms by (auto simp: get_acs_assigned_instance_alias_def Let_def)
qed

datatype add_request = Req_Add cstr | Req_Del string

definition add_step :: "add_env \<Rightarrow> add_request \<Rightarrow> add_state \<Rightarrow> dm_error \<times> add_state" where
  "add_step env r st =
     (case r of
        Req_Add n \<Rightarrow> (case DM_ENG_Device_AddObject env n 0 DM_ENG_ParameterStatus_UNDEFINED st of (e, _, _, st') \<Rightarrow> (e, st'))
      | Req_Del n \<Rightarrow> (case DM_ENG_Device_DeleteObject env n DM_ENG_ParameterStatus_UNDEFINED st of (e, _, st') \<Rightarrow> (e, st')))"

fun add_run :: "add_env \<Rightarrow> add_request list \<Rightarrow> add_state \<Rightarrow> dm_error list \<times> add_state" where
  "add_run env [] st = ([], st)"
| "add_run env (r # rs) st =
     (case add_step env r st of (e, st1) \<Rightarrow> (case add_run env rs st1 of (es, st2) \<Rightarrow> (e # es, st2)))"

definition call_allowed :: "add_env \<Rightarrow> bus_call \<Rightarrow> bool" where
  "call_allowed env c =
     (case c of Bus_Add obj alias \<Rightarrow> ad_add_allowed env obj
      | Bus_Del obj \<Rightarrow> (\<exists>n. obj = ad_terminate env n \<and> ad_del_allowed env n \<and> \<not> ae_is_search_path env n))"

text \<open>Whether the bus, with the log \<open>h\<close> before it, carries out a call.\<close>

definition accepted :: "add_env \<Rightarrow> bus_call list \<Rightarrow> bus_call \<Rightarrow> bool" where
  "accepted env h c = (case c of Bus_Add obj alias \<Rightarrow> ad_bus_add env h obj alias \<noteq> None | Bus_Del obj \<Rightarrow> ad_bus_del env h obj)"

fun n_accepted :: "add_env \<Rightarrow> bus_call list \<Rightarrow> bus_call list \<Rightarrow> nat" where
  "n_accepted env h [] = 0"
| "n_accepted env h (c # cs) = (if accepted env h c then 1 else 0) + n_accepted env (h @ [c]) cs"

lemma add_step_calls:
  assumes "add_step env r st = (e, st')"
  shows "\<exists>new. ad_calls st' = ad_calls st @ new \<and> length new \<le> 1 \<and> list_all (call_allowed env) new
           \<and> n_accepted env (ad_calls st) new = (if e = DM_OK then 1 else 0)"
proof (cases r)
  case (Req_Add n)
  then show ?thesis using assms
    by (auto simp: add_step_def DM_ENG_Device_AddObject_def DM_ENG_Device_AddDeleteObject_Add_def Let_def
        call_allowed_def accepted_def split: option.splits if_splits prod.splits)
next
  case (Req_Del n)
  then show ?thesis using assms
    by (auto simp: add_step_def DM_ENG_Device_DeleteObject_def DM_ENG_Device_AddDeleteObject_Delete_def Let_def
        call_allowed_def accepted_def split: if_splits)
qed

lemma n_accepted_append: "n_accepted env h (xs @ ys) = n_accepted env h xs + n_accepted env (h @ xs) ys"
  by (induction xs arbitrary: h) auto

text \<open>
  Property C23. Whatever AddObject and DeleteObject requests come in, the bus gets at most one call for each of
  them, every call is one that the access rules allow for the very object it is made on (and a deletion never
  addresses a search path), and as many requests are answered with success as calls the bus carries out.
\<close>

theorem add_delete_respects_access:
  assumes "add_run env rs st = (es, st')"
  shows "\<exists>new. ad_calls st' = ad_calls st @ new \<and> length new \<le> length rs \<and> list_all (call_allowed env) new
           \<and> n_accepted env (ad_calls st) new = length (filter (\<lambda>e. e = DM_OK) es)"
  using assms
proof (induction rs arbitrary: st es)
  case (Cons r rs)
  obtain e st1 where s: "add_step env r st = (e, st1)" by fastforce
  obtain es1 where r: "add_run env rs st1 = (es1, st')" "es = e # es1" using Cons.prems s by (auto split: prod.splits)
  obtain n1 where "ad_calls st1 = ad_calls st @ n1" "length n1 \<le> 1" "list_all (call_allowed env) n1"
      "n_accepted env (ad_calls st) n1 = (if e = DM_OK then 1 else 0)"
    using add_step_calls [OF s] by blast
  moreover obtain n2 where "ad_calls st' = ad_calls st1 @ n2" "length n2 \<le> length rs" "list_all (call_allowed env) n2"
      "n_accepted env (ad_calls st1) n2 = length (filter (\<lambda>e. e = DM_OK) es1)"
    using Cons.IH [OF r(1)] by blast
  ultimately show ?case using r(2) by (intro exI [of _ "n1 @ n2"]) (auto simp: n_accepted_append)
qed simp

definition example_add_env :: add_env where
  "example_add_env =
     \<lparr>ae_wildcards = None, ae_is_search_path = (\<lambda>p. CHR ''['' \<in> set p), ae_resolve = (\<lambda>p. None), ae_param = (\<lambda>p. []),
      ae_prefix = ''Device.'', ae_split = split_fields dot, ae_fixed_part = (\<lambda>p. None), ae_numeric = (\<lambda>s. False),
      ae_alias = (\<lambda>p. None), ad_system_ok = True,
      ad_last = (\<lambda>p. (Some (drop 9 p), take 9 p)), ad_terminate = id, ad_replace = (\<lambda>a b s. s),
      ad_add_allowed = (\<lambda>p. p = ''Device.X.''), ad_del_allowed = (\<lambda>p. p = ''Device.X.1.''),
      ad_bus_add = (\<lambda>h o' a. Some (Suc (length h))), ad_bus_del = (\<lambda>h o'. True)\<rparr>"

theorem add_delete_respects_access_witness:
  "add_run example_add_env [Req_Add (Some ''Device.X.[web].''), Req_Add (Some ''Device.Y.''), Req_Del ''Device.X.1.'']
     \<lparr>ad_calls = [], ad_bad_read = False\<rparr> =
   ([DM_OK, DM_ENG_INVALID_PARAMETER_NAME, DM_OK],
    \<lparr>ad_calls = [Bus_Add ''Device.X.'' (Some ''web''), Bus_Del ''Device.X.1.''], ad_bad_read = False\<rparr>)
   \<and> n_accepted example_add_env [] [Bus_Add ''Device.X.'' (Some ''web''), Bus_Del ''Device.X.1.''] = 2"
proof -
  have r: "add_run example_add_env [Req_Add (Some ''Device.X.[web].''), Req_Add (Some ''Device.Y.''), Req_Del ''Device.X.1.'']
     \<lparr>ad_calls = [], ad_bad_read = False\<rparr> =
   ([DM_OK, DM_ENG_INVALID_PARAMETER_NAME, DM_OK],
    \<lparr>ad_calls = [Bus_Add ''Device.X.'' (Some ''web''), Bus_Del ''Device.X.1.''], ad_bad_read = False\<rparr>)"
    by code_simp
  then show ?thesis using add_delete_respects_access [OF r] by simp
qed

lemma delete_empty_name: "ad_system_ok env \<Longrightarrow> ad_bad_read (snd (snd (DM_ENG_Device_DeleteObject env [] s st)))"
  by (simp add: DM_ENG_Device_DeleteObject_def DM_ENG_Device_AddDeleteObject_Delete_def DM_ENG_Device_Common_IsValidPath_def)

end
