(* ===== verification/Plugin_Service.thy ===== *)
theory Plugin_Service
  imports Prelude
begin

unbundle bit_operations_syntax

section \<open>The plugin: connection request URL, WAN address, supervision of cwmpd\<close>

text \<open>
  cwmp\_plugin\_connection\_request.c, cwmp\_plugin\_intf\_queries.c, cwmp\_plugin\_service.c, cwmp\_plugin\_proc.c and
  cwmp\_plugin.c. The parameters of the data model that these files read and write are fields of the state; a
  transaction that changes one of the watched parameters queues the event that the ODL file connects to a handler.
  Timers of libamxp are kept with an identifier until they are deleted, so that a pointer that is overwritten
  shows as a timer that nothing refers to. The firewall module, netmodel, the process control of libamxp, the
  environment variables, the random numbers and the network interfaces are fields of \<open>plugin_env\<close>.
\<close>

subsection \<open>State\<close>

datatype service_event = Host_Changed | Path_Changed | Port_Changed | Interface_Changed cstr | Preferred_Changed cstr

datatype wan_ip_mode = IPv4ONLY | IPv6PREFERRED | IPANY

datatype timer_kind = Restart_Timer | Ipv6_Timer

record plugin_timer =
  pt_id :: nat
  pt_kind :: timer_kind
  pt_armed :: "u32 option"

record fw_service =
  fs_interface :: string
  fs_port :: nat
  fs_source :: string
  fs_ipversion :: nat

record plugin =
  \<comment> \<open>ManagementServer.ConnRequest\<close>
  ConnRequestHost :: string
  LocalIPAddress :: string
  ConnRequestPort :: nat
  ConnRequestPath :: string
  ConnRequestPathType :: string
  UpdateConnRequestURL :: bool
  \<comment> \<open>ManagementServer\<close>
  ConnectionRequestURL :: string
  ParameterKey :: cstr
  Interface :: string
  AllowConnectionRequestFromAddress :: string
  IPV4IPV6WANMaxWaitTime :: u32
  dm_events :: "service_event list"
  \<comment> \<open>static variables\<close>
  conn_req_path_created :: bool
  cwmpd_start_avoided :: bool
  init_done :: bool
  cwmpd_proc :: "bool option"
  restart_timer :: "nat option"
  ipv4address :: string
  ipv6address :: string
  wanipmode :: wan_ip_mode
  query_ipv4 :: bool
  query_ipv6 :: bool
  ipv6_timer :: "nat option"
  \<comment> \<open>libamxp and the firewall\<close>
  live_timers :: "plugin_timer list"
  next_timer :: nat
  firewall :: "fw_service option"
  inform_signals :: "(string \<times> string) list"

text \<open>An interface of \<open>SIOCGIFCONF\<close>: its address as text (\<open>None\<close> for another family), whether \<open>inet_ntop\<close> and
  \<open>SIOCGIFHWADDR\<close> succeed, and the six bytes of its hardware address.\<close>

record net_interface =
  ni_address :: "string option"
  ni_ntop_ok :: bool
  ni_hwaddr :: "(8 word list) option"

record plugin_env =
  pe_trans_ok :: bool
  pe_standalone :: cstr
  pe_url_path :: cstr
  pe_rand :: "nat \<Rightarrow> nat"
  pe_interfaces :: "net_interface list option"
  pe_inet_pton6 :: "string \<Rightarrow> bool"
  pe_fw_ok :: bool
  pe_spawn_ok :: bool
  pe_query_ok :: bool

subsection \<open>Timers of libamxp\<close>

definition timer_new :: "timer_kind \<Rightarrow> plugin \<Rightarrow> nat \<times> plugin" where
  "timer_new k st =
     (next_timer st,
      st\<lparr>live_timers := live_timers st @ [\<lparr>pt_id = next_timer st, pt_kind = k, pt_armed = None\<rparr>],
         next_timer := Suc (next_timer st)\<rparr>)"

definition timer_start :: "nat \<Rightarrow> u32 \<Rightarrow> plugin \<Rightarrow> plugin" where
  "timer_start i v st =
     st\<lparr>live_timers := map (\<lambda>t. if pt_id t = i then t\<lparr>pt_armed := Some v\<rparr> else t) (live_timers st)\<rparr>"

definition timer_delete :: "nat \<Rightarrow> plugin \<Rightarrow> plugin" where
  "timer_delete i st = st\<lparr>live_timers := filter (\<lambda>t. pt_id t \<noteq> i) (live_timers st)\<rparr>"

subsection \<open>cwmp\_plugin\_connection\_request.c: the path\<close>

definition isAddressIpV6 :: "plugin_env \<Rightarrow> cstr \<Rightarrow> bool" where
  "isAddressIpV6 env address = (case address of None \<Rightarrow> False | Some a \<Rightarrow> pe_inet_pton6 env a)"

definition hex_digit :: "nat \<Rightarrow> char" where
  "hex_digit n = ''0123456789abcdef'' ! (n mod 16)"

definition hex2 :: "8 word \<Rightarrow> string" where
  "hex2 b = [hex_digit (unat b div 16), hex_digit (unat b)]"

text \<open>The format of the fifth byte lacks the length modifier: a negative \<open>char\<close> is printed as a 32-bit value.\<close>

definition hex_int :: "8 word \<Rightarrow> string" where
  "hex_int b = (if sint b < 0 then ''ffffff'' else []) @ hex2 b"

definition mac_text :: "8 word list \<Rightarrow> string" where
  "mac_text a =
     hex2 (a ! 0) @ '':'' @ hex2 (a ! 1) @ '':'' @ hex2 (a ! 2) @ '':'' @ hex2 (a ! 3) @ '':'' @
     hex_int (a ! 4) @ '':'' @ hex2 (a ! 5) @ [CHR 0x0A]"

text \<open>The loop over the interfaces carries the text of the last address and the buffer of the result.\<close>

fun hw_addr_loop :: "nat \<Rightarrow> string \<Rightarrow> string \<Rightarrow> string \<Rightarrow> net_interface list \<Rightarrow> string" where
  "hw_addr_loop buflen ip ipbuf macbuf [] = macbuf"
| "hw_addr_loop buflen ip ipbuf macbuf (item # items) =
     (case (case ni_address item of
              None \<Rightarrow> Some ipbuf
            | Some a \<Rightarrow> if ni_ntop_ok item then Some a else None) of
        None \<Rightarrow> macbuf
      | Some ipbuf' \<Rightarrow>
          (if ipbuf' = ip
           then (case ni_hwaddr item of
                   None \<Rightarrow> macbuf
                 | Some a \<Rightarrow> hw_addr_loop buflen ip ipbuf' (take (buflen - 1) (mac_text a)) items)
           else hw_addr_loop buflen ip ipbuf' macbuf items))"

definition get_hw_addr_from_ip :: "plugin_env \<Rightarrow> string \<Rightarrow> nat \<Rightarrow> string" where
  "get_hw_addr_from_ip env ip buflen =
     (case pe_interfaces env of None \<Rightarrow> [] | Some items \<Rightarrow> hw_addr_loop buflen ip [] [] items)"

abbreviation CPE_URL_SIZE :: nat where "CPE_URL_SIZE \<equiv> 16"

definition random_token :: string where
  "random_token = ''abcdefghijklmnopqrstuvwxyzABCDEFGHIJKLMNOPQRSTUVWXYZ1234567890''"

definition generate_random_url_path :: "plugin_env \<Rightarrow> nat \<Rightarrow> string" where
  "generate_random_url_path env sz = map (\<lambda>x. random_token ! (pe_rand env x mod length random_token)) [0..<sz]"

definition mac_token :: string where
  "mac_token = ''ABCDE67FGHqrtuvwSTU48VWabcdefIJKL39MNPQRghijkmnpxyz2''"

text \<open>The seed is the text of the address followed by zero bytes; \<open>k\<close> is the position of the read pointer.\<close>

definition seed_at :: "string \<Rightarrow> nat \<Rightarrow> nat" where
  "seed_at mac k = (if k < length mac then of_char (mac ! k) else 0)"

fun mac_path_loop :: "string \<Rightarrow> nat \<Rightarrow> nat \<Rightarrow> 16 word \<Rightarrow> string" where
  "mac_path_loop mac 0 k rnd_idx = []"
| "mac_path_loop mac (Suc n) k rnd_idx =
     (let k0 = (if seed_at mac k = 0 then 0 else k);
          rnd_idx' = push_bit 1 rnd_idx XOR of_nat (seed_at mac k0)
      in mac_token ! (unat rnd_idx' mod length mac_token) # mac_path_loop mac n (Suc k0) rnd_idx')"

definition generate_mac_based_url_path :: "plugin_env \<Rightarrow> string \<Rightarrow> string" where
  "generate_mac_based_url_path env ip = mac_path_loop (get_hw_addr_from_ip env ip 40) CPE_URL_SIZE 0 59"

subsection \<open>cwmp\_plugin\_service.c: the process and the firewall\<close>

definition open_cwmpd_listening_port :: "plugin_env \<Rightarrow> plugin \<Rightarrow> plugin" where
  "open_cwmpd_listening_port env st =
     (if pe_fw_ok env
      then st\<lparr>firewall := Some
                \<lparr>fs_interface = Interface st, fs_port = ConnRequestPort st,
                 fs_source = AllowConnectionRequestFromAddress st,
                 fs_ipversion = (if isAddressIpV6 env (Some (LocalIPAddress st)) then 6 else 4)\<rparr>\<rparr>
      else st)"

definition close_cwmpd_listening_port :: "plugin_env \<Rightarrow> plugin \<Rightarrow> plugin" where
  "close_cwmpd_listening_port env st =
     (if cwmpd_proc st = None then st
      else if pe_fw_ok env then st\<lparr>firewall := None\<rparr> else st)"

text \<open>Whether the process of \<open>get_cwmpd_subproc\<close> exists and runs.\<close>

definition cwmpd_running :: "plugin \<Rightarrow> bool" where
  "cwmpd_running st \<longleftrightarrow> cwmpd_proc st = Some True"

definition build_cwmpd_proc_args :: "cstr \<Rightarrow> string \<Rightarrow> string list" where
  "build_cwmpd_proc_args amxrt_prefix odl_config =
     (if \<not> str_empty amxrt_prefix
      then [the amxrt_prefix @ ''/usr/bin/cwmpd'', ''-c'' @ the amxrt_prefix @ odl_config, ''-f'']
      else [''cwmpd'', ''-c'' @ odl_config, ''-D''])"

definition start_cwmpd :: "plugin_env \<Rightarrow> plugin \<Rightarrow> plugin" where
  "start_cwmpd env st =
     (if \<not> str_empty (pe_standalone env) then open_cwmpd_listening_port env st
      else if cwmpd_proc st \<noteq> None then st
      else open_cwmpd_listening_port env (st\<lparr>cwmpd_proc := Some (pe_spawn_ok env)\<rparr>))"

definition stop_cwmpd :: "plugin_env \<Rightarrow> plugin \<Rightarrow> plugin" where
  "stop_cwmpd env st =
     (if \<not> str_empty (pe_standalone env) then close_cwmpd_listening_port env st
      else if cwmpd_proc st \<noteq> None then st\<lparr>cwmpd_proc := None\<rparr>
      else st)"

definition cwmp_timer_cb :: "plugin_env \<Rightarrow> plugin \<Rightarrow> plugin" where
  "cwmp_timer_cb env st = start_cwmpd env st"

definition cwmpd_proc_stopped :: "plugin_env \<Rightarrow> plugin \<Rightarrow> plugin" where
  "cwmpd_proc_stopped env st =
     (let st1 = st\<lparr>cwmpd_proc := None\<rparr>;
          st2 = close_cwmpd_listening_port env st1;
          (i, st3) = timer_new Restart_Timer st2
      in timer_start i 10000 (st3\<lparr>restart_timer := Some i\<rparr>))"

text \<open>cwmp\_plugin\_proc.c: the context of a process and what happens when its process ends. \<open>'s\<close> is the state that
  the callbacks change, \<open>pc_proc\<close> a process that is released afterwards.\<close>

record 's proc_ctx =
  pc_cb :: "('s \<Rightarrow> 's) option"
  pc_clean_cb :: "('s \<Rightarrow> 's) option"
  pc_proc :: "('s \<Rightarrow> 's) option"

definition cwmp_proc_ctx_new ::
  "bool \<Rightarrow> ('s \<Rightarrow> 's) option \<Rightarrow> ('s \<Rightarrow> 's) option \<Rightarrow> ('s \<Rightarrow> 's) option \<Rightarrow> 's proc_ctx option" where
  "cwmp_proc_ctx_new alloc_ok proc cb clean_cb =
     (if cb = None \<or> \<not> alloc_ok then None else Some \<lparr>pc_cb = cb, pc_clean_cb = clean_cb, pc_proc = proc\<rparr>)"

definition proc_finished_cb :: "'s proc_ctx option \<Rightarrow> 's \<Rightarrow> 's" where
  "proc_finished_cb priv s =
     (case priv of
        None \<Rightarrow> s
      | Some context \<Rightarrow>
          (let s1 = (case pc_cb context of
                       None \<Rightarrow> s
                     | Some cb \<Rightarrow> (case pc_clean_cb context of None \<Rightarrow> cb s | Some clean \<Rightarrow> clean (cb s)))
           in case pc_proc context of None \<Rightarrow> s1 | Some del \<Rightarrow> del s1))"

text \<open>The \<open>stop\<close> signal of the process that \<open>start_cwmpd\<close> connects.\<close>

definition cwmpd_stop_signal :: "plugin_env \<Rightarrow> plugin \<Rightarrow> plugin" where
  "cwmpd_stop_signal env = proc_finished_cb (cwmp_proc_ctx_new True None (Some (cwmpd_proc_stopped env)) None)"

subsection \<open>cwmp\_plugin\_connection\_request.c: the URL\<close>

definition set_ConnRequestPath :: "plugin_env \<Rightarrow> string \<Rightarrow> plugin \<Rightarrow> plugin" where
  "set_ConnRequestPath env p st =
     (if pe_trans_ok env \<and> p \<noteq> ConnRequestPath st
      then st\<lparr>ConnRequestPath := p, dm_events := dm_events st @ [Path_Changed]\<rparr> else st)"

definition cwmp_plugin_create_conreq_path :: "plugin_env \<Rightarrow> string \<Rightarrow> plugin \<Rightarrow> plugin" where
  "cwmp_plugin_create_conreq_path env ip st =
     (let random_cpe_url =
        (case pe_url_path env of
           Some u \<Rightarrow> Some u
         | None \<Rightarrow>
             (if ConnRequestPathType st = ''Fixed-Default'' then None
              else if prefix ''Random'' (ConnRequestPathType st) then Some (generate_random_url_path env CPE_URL_SIZE)
              else if ConnRequestPathType st = ''Fixed-MacBased'' then Some (generate_mac_based_url_path env ip)
              else Some (generate_random_url_path env CPE_URL_SIZE)))
      in case random_cpe_url of None \<Rightarrow> st | Some u \<Rightarrow> set_ConnRequestPath env u st)"

definition assembleConnectionRequestURL :: "plugin_env \<Rightarrow> plugin \<Rightarrow> string \<Rightarrow> nat \<Rightarrow> string" where
  "assembleConnectionRequestURL env st host port =
     (let isIPV6 = isAddressIpV6 env (Some host)
      in ''http://'' @ (if isIPV6 then ''['' else []) @ host @ (if isIPV6 then '']'' else []) @
         '':'' @ dec_text port @ ''/'' @ ConnRequestPath st)"

definition cwmp_plugin_update_conreq_host :: "plugin_env \<Rightarrow> string \<Rightarrow> plugin \<Rightarrow> plugin" where
  "cwmp_plugin_update_conreq_host env ip st =
     (let st1 = st\<lparr>LocalIPAddress := ip\<rparr> in
      if UpdateConnRequestURL st1 \<and> pe_trans_ok env \<and> ip \<noteq> ConnRequestHost st1
      then st1\<lparr>ConnRequestHost := ip, dm_events := dm_events st1 @ [Host_Changed]\<rparr> else st1)"

definition cwmp_plugin_update_conreq_port :: "plugin_env \<Rightarrow> nat \<Rightarrow> plugin \<Rightarrow> plugin" where
  "cwmp_plugin_update_conreq_port env port st =
     (if UpdateConnRequestURL st \<and> pe_trans_ok env \<and> port \<noteq> ConnRequestPort st
      then st\<lparr>ConnRequestPort := port, dm_events := dm_events st @ [Port_Changed]\<rparr> else st)"

definition transac_new_connection_request_url :: "plugin_env \<Rightarrow> string \<Rightarrow> plugin \<Rightarrow> plugin" where
  "transac_new_connection_request_url env url st =
     (if pe_trans_ok env then st\<lparr>ConnectionRequestURL := url\<rparr> else st)"

definition update_conn_req_url :: "plugin_env \<Rightarrow> plugin \<Rightarrow> plugin" where
  "update_conn_req_url env st =
     (if \<not> UpdateConnRequestURL st then st
      else transac_new_connection_request_url env
             (assembleConnectionRequestURL env st (ConnRequestHost st) (ConnRequestPort st)) st)"

datatype dm_status = amxd_status_ok | amxd_status_invalid_value | amxd_status_invalid_arg | amxd_status_unknown_error

definition ManagementServer_updateConnectionRequestURL ::
  "plugin_env \<Rightarrow> bool \<Rightarrow> cstr \<Rightarrow> 16 word \<Rightarrow> plugin \<Rightarrow> dm_status \<times> plugin" where
  "ManagementServer_updateConnectionRequestURL env update host port st =
     (let st1 = st\<lparr>UpdateConnRequestURL := \<not> update\<rparr> in
      if \<not> update then (amxd_status_ok, st1)
      else if str_empty host \<or> port = 0 then (amxd_status_invalid_value, st1)
      else (amxd_status_ok,
            transac_new_connection_request_url env (assembleConnectionRequestURL env st1 (the host) (unat port)) st1))"

definition updateConnectionRequestPath :: "plugin_env \<Rightarrow> plugin \<Rightarrow> plugin" where
  "updateConnectionRequestPath env st = update_conn_req_url env st"

definition updateConnectionRequestPort :: "plugin_env \<Rightarrow> plugin \<Rightarrow> plugin" where
  "updateConnectionRequestPort env st = open_cwmpd_listening_port env (update_conn_req_url env st)"

abbreviation DEFAULT_CRH :: string where "DEFAULT_CRH \<equiv> ''0.0.0.0''"

definition updateConnectionRequestURL :: "plugin_env \<Rightarrow> plugin \<Rightarrow> plugin" where
  "updateConnectionRequestURL env st =
     (if \<not> UpdateConnRequestURL st then st
      else
        (let host = ConnRequestHost st;
             st1 = transac_new_connection_request_url env (assembleConnectionRequestURL env st host (ConnRequestPort st)) st
         in if host \<noteq> [] \<and> host \<noteq> DEFAULT_CRH then
              (let st2 = (if conn_req_path_created st1 then st1
                          else (cwmp_plugin_create_conreq_path env host st1)\<lparr>conn_req_path_created := True\<rparr>)
               in if \<not> cwmpd_running st2
                  then (if init_done st2 then start_cwmpd env st2 else st2\<lparr>cwmpd_start_avoided := True\<rparr>)
                  else open_cwmpd_listening_port env st2)
            else close_cwmpd_listening_port env st1))"

definition ManagementServer_updateParameterKey :: "plugin_env \<Rightarrow> cstr \<Rightarrow> plugin \<Rightarrow> dm_status \<times> plugin" where
  "ManagementServer_updateParameterKey env paramKey st =
     (if pe_trans_ok env then (amxd_status_ok, st\<lparr>ParameterKey := paramKey\<rparr>) else (amxd_status_unknown_error, st))"

subsection \<open>cwmp\_plugin\_intf\_queries.c: the WAN address\<close>

definition getLocalIP :: "plugin \<Rightarrow> string" where
  "getLocalIP st =
     (case wanipmode st of
        IPv4ONLY \<Rightarrow> if ipv4address st \<noteq> [] then ipv4address st else DEFAULT_CRH
      | IPv6PREFERRED \<Rightarrow>
          if ipv6address st \<noteq> [] then ipv6address st
          else if ipv4address st \<noteq> [] then ipv4address st else DEFAULT_CRH
      | IPANY \<Rightarrow>
          if ipv4address st \<noteq> [] then ipv4address st
          else if ipv6address st \<noteq> [] then ipv6address st else DEFAULT_CRH)"

definition drop_ipv6_timer :: "plugin \<Rightarrow> plugin" where
  "drop_ipv6_timer st =
     (case ipv6_timer st of None \<Rightarrow> st | Some i \<Rightarrow> (timer_delete i st)\<lparr>ipv6_timer := None\<rparr>)"

definition updateLocalIP :: "plugin_env \<Rightarrow> plugin \<Rightarrow> plugin" where
  "updateLocalIP env st =
     (let st1 = drop_ipv6_timer st in cwmp_plugin_update_conreq_host env (getLocalIP st1) st1)"

definition ipv6_timer_cb :: "plugin_env \<Rightarrow> plugin \<Rightarrow> plugin" where
  "ipv6_timer_cb env st = updateLocalIP env st"

definition ipv6address_changed_cb :: "plugin_env \<Rightarrow> cstr \<Rightarrow> plugin \<Rightarrow> plugin" where
  "ipv6address_changed_cb env new_ip st =
     (let st1 = st\<lparr>ipv6address := (case new_ip of None \<Rightarrow> [] | Some a \<Rightarrow> a)\<rparr>
      in case wanipmode st1 of
           IPv4ONLY \<Rightarrow> st1
         | IPv6PREFERRED \<Rightarrow> updateLocalIP env st1
         | IPANY \<Rightarrow> updateLocalIP env st1)"

definition ipv4address_changed_cb :: "plugin_env \<Rightarrow> cstr \<Rightarrow> plugin \<Rightarrow> plugin" where
  "ipv4address_changed_cb env new_ip st =
     (let st1 = st\<lparr>ipv4address := (case new_ip of None \<Rightarrow> [] | Some a \<Rightarrow> a)\<rparr>
      in case wanipmode st1 of
           IPv4ONLY \<Rightarrow> updateLocalIP env st1
         | IPANY \<Rightarrow> updateLocalIP env st1
         | IPv6PREFERRED \<Rightarrow>
             (if ipv6address st1 \<noteq> [] then updateLocalIP env st1
              else (case timer_new Ipv6_Timer st1 of
                      (i, st2) \<Rightarrow> timer_start i (IPV4IPV6WANMaxWaitTime st1 * 1000) (st2\<lparr>ipv6_timer := Some i\<rparr>))))"

definition cwmp_plugin_netmodel_close_queries :: "plugin \<Rightarrow> plugin" where
  "cwmp_plugin_netmodel_close_queries st =
     (drop_ipv6_timer (st\<lparr>query_ipv4 := False, query_ipv6 := False\<rparr>))\<lparr>ipv4address := [], ipv6address := []\<rparr>"

definition cwmp_plugin_netmodel_open_queries :: "plugin_env \<Rightarrow> plugin \<Rightarrow> plugin" where
  "cwmp_plugin_netmodel_open_queries env st = st\<lparr>query_ipv6 := pe_query_ok env, query_ipv4 := pe_query_ok env\<rparr>"

definition writeInterface :: "plugin_env \<Rightarrow> cstr \<Rightarrow> plugin \<Rightarrow> plugin" where
  "writeInterface env intf st =
     (if str_empty intf then st
      else cwmp_plugin_netmodel_open_queries env (cwmp_plugin_netmodel_close_queries st))"

definition writePreferredIPVersion :: "cstr \<Rightarrow> plugin \<Rightarrow> plugin" where
  "writePreferredIPVersion mode st =
     (case mode of
        None \<Rightarrow> st
      | Some m \<Rightarrow>
          st\<lparr>wanipmode := (if m = ''IPV4ONLY'' then IPv4ONLY else if m = ''IPV6PREFERRED'' then IPv6PREFERRED else IPANY)\<rparr>)"

definition cwmp_plugin_netmodel_find_ip :: "plugin_env \<Rightarrow> plugin \<Rightarrow> plugin" where
  "cwmp_plugin_netmodel_find_ip env st =
     (if Interface st = [] then st else cwmp_plugin_netmodel_open_queries env st)"

subsection \<open>cwmp\_plugin.c: start, stop, inform request\<close>

definition deferred_init_timer_cb_plugin :: "plugin_env \<Rightarrow> plugin \<Rightarrow> plugin" where
  "deferred_init_timer_cb_plugin env st =
     (let st1 = cwmp_plugin_netmodel_find_ip env (st\<lparr>init_done := True\<rparr>)
      in if cwmpd_start_avoided st1 then start_cwmpd env st1 else st1)"

definition cwmp_plugin_init :: "plugin \<Rightarrow> plugin" where
  "cwmp_plugin_init st = st\<lparr>init_done := False\<rparr>"

definition cwmp_plugin_exit :: "plugin_env \<Rightarrow> plugin \<Rightarrow> plugin" where
  "cwmp_plugin_exit env st = cwmp_plugin_netmodel_close_queries (stop_cwmpd env st)"

definition sendInformMessage :: "(cstr \<times> cstr) option \<Rightarrow> plugin \<Rightarrow> dm_status \<times> plugin" where
  "sendInformMessage args st =
     (case args of
        None \<Rightarrow> (amxd_status_invalid_arg, st)
      | Some (events, source) \<Rightarrow>
          (if str_empty events \<or> str_empty source then (amxd_status_invalid_arg, st)
           else (amxd_status_ok, st\<lparr>inform_signals := inform_signals st @ [(the events, the source)]\<rparr>)))"

text \<open>Saving the data model: the file name, from the configuration of the parser. \<open>resolve\<close> is
  \<open>amxc_string_resolve\<close>.\<close>

definition cwmp_plugin_get_directory :: "(string \<Rightarrow> string) \<Rightarrow> cstr \<Rightarrow> cstr \<Rightarrow> cstr" where
  "cwmp_plugin_get_directory resolve odl_directory storage_path =
     map_option resolve (case odl_directory of None \<Rightarrow> storage_path | Some d \<Rightarrow> Some d)"

definition cwmp_plugin_dm_save_impl ::
  "bool \<Rightarrow> (string \<Rightarrow> string) \<Rightarrow> cstr \<Rightarrow> cstr \<Rightarrow> cstr \<Rightarrow> (string \<Rightarrow> int) \<Rightarrow> int \<times> cstr" where
  "cwmp_plugin_dm_save_impl app_set resolve odl_directory storage_path name save =
     (if \<not> app_set then (-1, None)
      else
        (let odl_dir = cwmp_plugin_get_directory resolve odl_directory storage_path in
         if str_empty odl_dir then (-1, None)
         else (case name of
                 None \<Rightarrow> (-1, None)
               | Some n \<Rightarrow> (let file = the odl_dir @ ''/'' @ n @ ''.odl'' in (save file, Some file)))))"

subsection \<open>Events\<close>

definition handle_dm_event :: "plugin_env \<Rightarrow> service_event \<Rightarrow> plugin \<Rightarrow> plugin" where
  "handle_dm_event env e st =
     (case e of
        Host_Changed \<Rightarrow> updateConnectionRequestURL env st
      | Path_Changed \<Rightarrow> updateConnectionRequestPath env st
      | Port_Changed \<Rightarrow> updateConnectionRequestPort env st
      | Interface_Changed i \<Rightarrow> writeInterface env i st
      | Preferred_Changed m \<Rightarrow> writePreferredIPVersion m st)"

datatype plugin_event =
    Deliver | Ipv4 cstr | Ipv6 cstr | Expire nat | Cwmpd_Ends | Deferred_Init
  | Set_Host string | Set_Port nat | Set_Path string | Set_Path_Type string | Set_Interface string
  | Set_Preferred string | Update_Port nat | Update_Key cstr | Send_Inform "(cstr \<times> cstr) option"

text \<open>A parameter written over the bus queues its event when the value changes.\<close>

definition written :: "bool \<Rightarrow> service_event \<Rightarrow> plugin \<Rightarrow> plugin" where
  "written changed e st = (if changed then st\<lparr>dm_events := dm_events st @ [e]\<rparr> else st)"

definition expire_timer :: "plugin_env \<Rightarrow> nat \<Rightarrow> plugin \<Rightarrow> plugin" where
  "expire_timer env i st =
     (case find (\<lambda>t. pt_id t = i) (live_timers st) of
        None \<Rightarrow> st
      | Some t \<Rightarrow>
          (let st1 = st\<lparr>live_timers := map (\<lambda>t. if pt_id t = i then t\<lparr>pt_armed := None\<rparr> else t) (live_timers st)\<rparr>
           in case pt_kind t of Restart_Timer \<Rightarrow> cwmp_timer_cb env st1 | Ipv6_Timer \<Rightarrow> ipv6_timer_cb env st1))"

definition service_step :: "plugin \<Rightarrow> plugin_env \<times> plugin_event \<Rightarrow> plugin" where
  "service_step st ee =
     (case ee of (env, e) \<Rightarrow>
        (case e of
           Deliver \<Rightarrow> (case dm_events st of [] \<Rightarrow> st | d # ds \<Rightarrow> handle_dm_event env d (st\<lparr>dm_events := ds\<rparr>))
         | Ipv4 a \<Rightarrow> ipv4address_changed_cb env a st
         | Ipv6 a \<Rightarrow> ipv6address_changed_cb env a st
         | Expire i \<Rightarrow> expire_timer env i st
         | Cwmpd_Ends \<Rightarrow> cwmpd_stop_signal env st
         | Deferred_Init \<Rightarrow> deferred_init_timer_cb_plugin env st
         | Set_Host h \<Rightarrow> written (h \<noteq> ConnRequestHost st) Host_Changed (st\<lparr>ConnRequestHost := h\<rparr>)
         | Set_Port p \<Rightarrow> written (p \<noteq> ConnRequestPort st) Port_Changed (st\<lparr>ConnRequestPort := p\<rparr>)
         | Set_Path p \<Rightarrow> written (p \<noteq> ConnRequestPath st) Path_Changed (st\<lparr>ConnRequestPath := p\<rparr>)
         | Set_Path_Type t \<Rightarrow> st\<lparr>ConnRequestPathType := t\<rparr>
         | Set_Interface i \<Rightarrow> written (i \<noteq> Interface st) (Interface_Changed (Some i)) (st\<lparr>Interface := i\<rparr>)
         | Set_Preferred m \<Rightarrow> written True (Preferred_Changed (Some m)) st
         | Update_Port p \<Rightarrow> cwmp_plugin_update_conreq_port env p st
         | Update_Key k \<Rightarrow> snd (ManagementServer_updateParameterKey env k st)
         | Send_Inform a \<Rightarrow> snd (sendInformMessage a st)))"

subsection \<open>The published URL\<close>

definition published_url :: "(string \<Rightarrow> bool) \<Rightarrow> string \<Rightarrow> nat \<Rightarrow> string \<Rightarrow> string" where
  "published_url v6 host port path =
     ''http://'' @ (if v6 host then ''['' @ host @ '']'' else host) @ '':'' @ dec_text port @ ''/'' @ path"

abbreviation "url_fields st \<equiv>
  (ConnRequestHost st, ConnRequestPort st, ConnRequestPath st, UpdateConnRequestURL st, ConnectionRequestURL st, dm_events st)"

definition sync_inv :: "(string \<Rightarrow> bool) \<Rightarrow> plugin \<Rightarrow> bool" where
  "sync_inv v6 st \<longleftrightarrow> UpdateConnRequestURL st \<and>
     (ConnectionRequestURL st = published_url v6 (ConnRequestHost st) (ConnRequestPort st) (ConnRequestPath st)
      \<or> set (dm_events st) \<inter> {Host_Changed, Path_Changed, Port_Changed} \<noteq> {})"

lemma sync_inv_cong: "url_fields st = url_fields st' \<Longrightarrow> sync_inv v6 st = sync_inv v6 st'"
  by (simp add: sync_inv_def)

lemmas service_defs = open_cwmpd_listening_port_def close_cwmpd_listening_port_def start_cwmpd_def stop_cwmpd_def
  cwmp_timer_cb_def cwmpd_proc_stopped_def timer_new_def timer_start_def timer_delete_def drop_ipv6_timer_def
  cwmp_plugin_netmodel_close_queries_def cwmp_plugin_netmodel_open_queries_def cwmp_plugin_netmodel_find_ip_def
  writeInterface_def writePreferredIPVersion_def

lemma url_fields_kept:
  "url_fields (open_cwmpd_listening_port env st) = url_fields st"
  "url_fields (close_cwmpd_listening_port env st) = url_fields st"
  "url_fields (start_cwmpd env st) = url_fields st"
  "url_fields (cwmpd_proc_stopped env st) = url_fields st"
  "url_fields (drop_ipv6_timer st) = url_fields st"
  "url_fields (writeInterface env i st) = url_fields st"
  "url_fields (writePreferredIPVersion m st) = url_fields st"
  "url_fields (deferred_init_timer_cb_plugin env st) = url_fields st"
  by (simp_all add: service_defs deferred_init_timer_cb_plugin_def Let_def split: option.splits)

lemma cwmpd_stop_signal_eq: "cwmpd_stop_signal env st = cwmpd_proc_stopped env st"
  by (simp add: cwmpd_stop_signal_def proc_finished_cb_def cwmp_proc_ctx_new_def)

lemma assemble_published:
  "assembleConnectionRequestURL env st h p = published_url (pe_inet_pton6 env) h p (ConnRequestPath st)"
  by (simp add: assembleConnectionRequestURL_def published_url_def isAddressIpV6_def Let_def)

lemma create_path_fields:
  "url_fields (cwmp_plugin_create_conreq_path env ip st) = url_fields st \<or>
   (\<exists>p. url_fields (cwmp_plugin_create_conreq_path env ip st) =
      (ConnRequestHost st, ConnRequestPort st, p, UpdateConnRequestURL st, ConnectionRequestURL st, dm_events st @ [Path_Changed]))"
  by (auto simp: cwmp_plugin_create_conreq_path_def set_ConnRequestPath_def Let_def split: option.splits)

lemma updateConnectionRequestURL_sync:
  assumes "UpdateConnRequestURL st" "pe_trans_ok env"
  shows "sync_inv (pe_inet_pton6 env) (updateConnectionRequestURL env st)"
proof -
  let ?u = "transac_new_connection_request_url env
      (assembleConnectionRequestURL env st (ConnRequestHost st) (ConnRequestPort st)) st"
  have u: "sync_inv (pe_inet_pton6 env) ?u"
    using assms by (simp add: sync_inv_def transac_new_connection_request_url_def assemble_published)
  then have c: "sync_inv (pe_inet_pton6 env) (cwmp_plugin_create_conreq_path env h ?u)" for h
    using create_path_fields [of env h ?u] by (auto simp: sync_inv_def)
  have "url_fields (x\<lparr>conn_req_path_created := b\<rparr>) = url_fields x" "url_fields (x\<lparr>cwmpd_start_avoided := b\<rparr>) = url_fields x"
    for x b by simp_all
  note k = this [THEN sync_inv_cong] url_fields_kept [THEN sync_inv_cong]
  show ?thesis using assms(1) u c by (simp add: updateConnectionRequestURL_def Let_def k)
qed

lemma update_conn_req_url_sync:
  assumes "UpdateConnRequestURL st" "pe_trans_ok env"
  shows "sync_inv (pe_inet_pton6 env) (update_conn_req_url env st)"
  using assms by (simp add: update_conn_req_url_def sync_inv_def transac_new_connection_request_url_def assemble_published)

lemma update_host_sync:
  "sync_inv v6 st \<Longrightarrow> sync_inv v6 (cwmp_plugin_update_conreq_host env ip st)"
  by (auto simp: cwmp_plugin_update_conreq_host_def sync_inv_def Let_def)

lemma updateLocalIP_sync: "sync_inv v6 st \<Longrightarrow> sync_inv v6 (updateLocalIP env st)"
  by (simp add: updateLocalIP_def Let_def update_host_sync url_fields_kept(5) [THEN sync_inv_cong])

lemma handle_dm_event_sync:
  assumes "sync_inv (pe_inet_pton6 env) st" "pe_trans_ok env" "dm_events st = d # ds"
  shows "sync_inv (pe_inet_pton6 env) (handle_dm_event env d (st\<lparr>dm_events := ds\<rparr>))"
proof -
  have u: "UpdateConnRequestURL (st\<lparr>dm_events := ds\<rparr>)" using assms(1) by (simp add: sync_inv_def)
  have o: "sync_inv (pe_inet_pton6 env) (st\<lparr>dm_events := ds\<rparr>)" if "d \<notin> {Host_Changed, Path_Changed, Port_Changed}"
    using assms(1, 3) that by (auto simp: sync_inv_def)
  show ?thesis
    using updateConnectionRequestURL_sync [OF u assms(2)] update_conn_req_url_sync [OF u assms(2)] o
    by (cases d) (simp_all add: handle_dm_event_def updateConnectionRequestPath_def updateConnectionRequestPort_def
        url_fields_kept [THEN sync_inv_cong])
qed

definition sync_ok :: "(string \<Rightarrow> bool) \<Rightarrow> plugin \<Rightarrow> plugin_env \<times> plugin_event \<Rightarrow> bool" where
  "sync_ok v6 st ee \<longleftrightarrow> pe_trans_ok (fst ee) \<and> pe_inet_pton6 (fst ee) = v6"

lemma service_step_sync:
  assumes "sync_inv v6 st" "sync_ok v6 st ee"
  shows "sync_inv v6 (service_step st ee)"
proof -
  obtain env e where ee: "ee = (env, e)" "pe_trans_ok env" "pe_inet_pton6 env = v6"
    using assms(2) by (cases ee) (auto simp: sync_ok_def)
  have f: "url_fields (x\<lparr>ipv4address := a\<rparr>) = url_fields x" "url_fields (x\<lparr>ipv6address := a\<rparr>) = url_fields x"
    "url_fields (x\<lparr>live_timers := l\<rparr>) = url_fields x" "url_fields (timer_start i v x) = url_fields x"
    "url_fields (snd (timer_new k x)) = url_fields x" "url_fields (x\<lparr>ipv6_timer := t\<rparr>) = url_fields x" for x a l i v k t
    by (simp_all add: timer_start_def timer_new_def)
  note k = f [THEN sync_inv_cong] url_fields_kept [THEN sync_inv_cong]
  show ?thesis
  proof (cases e)
    case Deliver
    then show ?thesis using handle_dm_event_sync [of env st] assms(1) ee
      by (auto simp: service_step_def split: list.splits)
  next
    case (Ipv4 a)
    then show ?thesis using assms(1) ee
      by (auto simp: service_step_def ipv4address_changed_cb_def Let_def k updateLocalIP_sync prod.case_eq_if split: wan_ip_mode.splits)
  next
    case (Ipv6 a)
    then show ?thesis using assms(1) ee
      by (auto simp: service_step_def ipv6address_changed_cb_def Let_def k updateLocalIP_sync split: wan_ip_mode.splits)
  next
    case (Expire i)
    then show ?thesis using assms(1) ee
      by (auto simp: service_step_def expire_timer_def Let_def k updateLocalIP_sync ipv6_timer_cb_def cwmp_timer_cb_def
          split: option.splits timer_kind.splits)
  next
    case Cwmpd_Ends
    then show ?thesis using assms(1) ee by (simp add: service_step_def cwmpd_stop_signal_eq k)
  next
    case Deferred_Init
    then show ?thesis using assms(1) ee by (simp add: service_step_def k)
  qed (use assms(1) ee in \<open>auto simp: service_step_def k cwmpd_stop_signal_eq written_def sync_inv_def
        cwmp_plugin_update_conreq_port_def ManagementServer_updateParameterKey_def sendInformMessage_def
        url_fields_kept split: option.splits\<close>)
qed

interpretation url_sync: event_system service_step "sync_ok v6" "sync_inv v6" for v6
  by unfold_locales (rule service_step_sync)

text \<open>Each delivery shortens the queue, except the one that creates the path, which happens once.\<close>

definition queue_rank :: "plugin \<Rightarrow> nat" where
  "queue_rank st = length (dm_events st) + (if conn_req_path_created st then 0 else 1)"

lemma created_kept:
  "conn_req_path_created (open_cwmpd_listening_port env st) = conn_req_path_created st"
  "conn_req_path_created (close_cwmpd_listening_port env st) = conn_req_path_created st"
  "conn_req_path_created (start_cwmpd env st) = conn_req_path_created st"
  "conn_req_path_created (writeInterface env i st) = conn_req_path_created st"
  "conn_req_path_created (writePreferredIPVersion m st) = conn_req_path_created st"
  "conn_req_path_created (transac_new_connection_request_url env u st) = conn_req_path_created st"
  by (simp_all add: service_defs transac_new_connection_request_url_def Let_def split: option.splits)

lemma events_kept:
  "dm_events (open_cwmpd_listening_port env st) = dm_events st"
  "dm_events (close_cwmpd_listening_port env st) = dm_events st"
  "dm_events (start_cwmpd env st) = dm_events st"
  "dm_events (writeInterface env i st) = dm_events st"
  "dm_events (writePreferredIPVersion m st) = dm_events st"
  "dm_events (transac_new_connection_request_url env u st) = dm_events st"
  by (simp_all add: service_defs transac_new_connection_request_url_def Let_def split: option.splits)

lemma create_path_events: "length (dm_events (cwmp_plugin_create_conreq_path env ip st)) \<le> Suc (length (dm_events st))"
  using create_path_fields [of env ip st] by auto

lemma handle_dm_event_rank: "queue_rank (handle_dm_event env d st) \<le> queue_rank st"
proof (cases d)
  case Host_Changed
  let ?u = "transac_new_connection_request_url env
      (assembleConnectionRequestURL env st (ConnRequestHost st) (ConnRequestPort st)) st"
  show ?thesis using Host_Changed create_path_events [of env "ConnRequestHost st" ?u]
    by (auto simp: queue_rank_def handle_dm_event_def updateConnectionRequestURL_def Let_def created_kept events_kept)
qed (simp_all add: queue_rank_def handle_dm_event_def updateConnectionRequestPath_def updateConnectionRequestPort_def
    update_conn_req_url_def created_kept events_kept)

lemma queue_drains:
  assumes "queue_rank st \<le> n"
  shows "dm_events (foldl service_step st (replicate n (env, Deliver))) = []"
  using assms
proof (induction n arbitrary: st)
  case (Suc n)
  have "queue_rank (service_step st (env, Deliver)) \<le> n \<or> dm_events st = []"
  proof (cases "dm_events st")
    case (Cons d ds)
    then have "queue_rank (service_step st (env, Deliver)) \<le> queue_rank (st\<lparr>dm_events := ds\<rparr>)"
      using handle_dm_event_rank [of env d] by (simp add: service_step_def)
    moreover have "Suc (queue_rank (st\<lparr>dm_events := ds\<rparr>)) = queue_rank st" using Cons by (simp add: queue_rank_def)
    ultimately show ?thesis using Suc.prems by simp
  qed simp
  moreover have "foldl service_step st (replicate m (env, Deliver)) = st" if "dm_events st = []" for m
    using that by (induction m) (simp_all add: service_step_def)
  ultimately show ?case using Suc.IH by (metis foldl_Cons replicate_Suc)
qed (simp add: queue_rank_def split: if_splits)


definition example_plugin_env :: plugin_env where
  "example_plugin_env =
     \<lparr>pe_trans_ok = True, pe_standalone = None, pe_url_path = None, pe_rand = id,
      pe_interfaces = Some [\<lparr>ni_address = Some ''10.0.0.2'', ni_ntop_ok = True, ni_hwaddr = Some [2, 0, 0, 0, 0, 7]\<rparr>],
      pe_inet_pton6 = (\<lambda>a. CHR '':'' \<in> set a), pe_fw_ok = True, pe_spawn_ok = True, pe_query_ok = True\<rparr>"

definition example_service :: plugin where
  "example_service =
     \<lparr>ConnRequestHost = DEFAULT_CRH, LocalIPAddress = DEFAULT_CRH, ConnRequestPort = 80, ConnRequestPath = ''default_path'',
      ConnRequestPathType = ''Random'', UpdateConnRequestURL = True,
      ConnectionRequestURL = ''http://0.0.0.0:80/default_path'', ParameterKey = None, Interface = ''wan'',
      AllowConnectionRequestFromAddress = [], IPV4IPV6WANMaxWaitTime = 30, dm_events = [],
      conn_req_path_created = False, cwmpd_start_avoided = False, init_done = False, cwmpd_proc = None,
      restart_timer = None, ipv4address = [], ipv6address = [], wanipmode = IPANY, query_ipv4 = False, query_ipv6 = False,
      ipv6_timer = None, live_timers = [], next_timer = 0, firewall = None, inform_signals = []\<rparr>"


subsection \<open>Supervision of cwmpd\<close>

fun ipv6_timer_ok :: "nat option \<Rightarrow> nat \<Rightarrow> plugin_timer list \<Rightarrow> bool" where
  "ipv6_timer_ok None n ts \<longleftrightarrow> True"
| "ipv6_timer_ok (Some i) n ts \<longleftrightarrow> i < n \<and> (\<forall>t\<in>set ts. pt_id t = i \<longrightarrow> pt_kind t = Ipv6_Timer)"

definition service_timers_inv :: "plugin \<Rightarrow> bool" where
  "service_timers_inv st \<longleftrightarrow> distinct (map pt_id (live_timers st)) \<and> (\<forall>t\<in>set (live_timers st). pt_id t < next_timer st)
     \<and> ipv6_timer_ok (ipv6_timer st) (next_timer st) (live_timers st)"

lemma ipv6_timer_ok_snoc:
  "ipv6_timer_ok o' n ts \<Longrightarrow> pt_id t = n \<Longrightarrow> ipv6_timer_ok o' (Suc n) (ts @ [t])"
  by (cases o') auto

lemma ipv6_timer_ok_map:
  "ipv6_timer_ok o' n ts \<Longrightarrow> ipv6_timer_ok o' n (map (\<lambda>t. if pt_id t = i then t\<lparr>pt_armed := a\<rparr> else t) ts)"
  by (cases o') auto

definition restart_armed :: "plugin \<Rightarrow> bool" where
  "restart_armed st \<longleftrightarrow> (\<exists>t\<in>set (live_timers st). pt_kind t = Restart_Timer \<and> pt_armed t \<noteq> None)"

definition supervised :: "plugin \<Rightarrow> bool" where
  "supervised st \<longleftrightarrow> service_timers_inv st \<and> cwmpd_proc st \<noteq> Some False \<and> (cwmpd_running st \<or> restart_armed st)"

abbreviation "timer_fields st \<equiv> (live_timers st, next_timer st, ipv6_timer st, cwmpd_proc st)"

lemma supervised_cong: "timer_fields st = timer_fields st' \<Longrightarrow> supervised st = supervised st'"
  by (simp add: supervised_def service_timers_inv_def restart_armed_def cwmpd_running_def)

definition supervised_ok :: "plugin \<Rightarrow> plugin_env \<times> plugin_event \<Rightarrow> bool" where
  "supervised_ok st ee \<longleftrightarrow> str_empty (pe_standalone (fst ee)) \<and> pe_spawn_ok (fst ee) \<and>
     (case snd ee of Cwmpd_Ends \<Rightarrow> cwmpd_running st
      | Expire i \<Rightarrow> (\<exists>t\<in>set (live_timers st). pt_id t = i \<and> pt_armed t \<noteq> None) | _ \<Rightarrow> True)"

lemma timer_fields_kept:
  "timer_fields (open_cwmpd_listening_port env st) = timer_fields st"
  "timer_fields (close_cwmpd_listening_port env st) = timer_fields st"
  "timer_fields (cwmp_plugin_create_conreq_path env ip st) = timer_fields st"
  "timer_fields (transac_new_connection_request_url env u st) = timer_fields st"
  "timer_fields (update_conn_req_url env st) = timer_fields st"
  "timer_fields (cwmp_plugin_update_conreq_host env ip st) = timer_fields st"
  "timer_fields (cwmp_plugin_update_conreq_port env p st) = timer_fields st"
  "timer_fields (writePreferredIPVersion m st) = timer_fields st"
  "timer_fields (cwmp_plugin_netmodel_find_ip env st) = timer_fields st"
  "timer_fields (cwmp_plugin_netmodel_open_queries env st) = timer_fields st"
  "timer_fields (snd (ManagementServer_updateParameterKey env k st)) = timer_fields st"
  "timer_fields (snd (sendInformMessage a st)) = timer_fields st"
  "timer_fields (written b e st) = timer_fields st"
  "timer_fields (st\<lparr>dm_events := ds\<rparr>) = timer_fields st"
  "timer_fields (st\<lparr>conn_req_path_created := b\<rparr>) = timer_fields st"
  "timer_fields (st\<lparr>cwmpd_start_avoided := b\<rparr>) = timer_fields st"
  "timer_fields (st\<lparr>init_done := b\<rparr>) = timer_fields st"
  "timer_fields (st\<lparr>ipv4address := s\<rparr>) = timer_fields st"
  "timer_fields (st\<lparr>ipv6address := s\<rparr>) = timer_fields st"
  "timer_fields (st\<lparr>query_ipv4 := b, query_ipv6 := b\<rparr>) = timer_fields st"
  "timer_fields (st\<lparr>ConnRequestHost := s\<rparr>) = timer_fields st"
  "timer_fields (st\<lparr>ConnRequestPort := p\<rparr>) = timer_fields st"
  "timer_fields (st\<lparr>ConnRequestPath := s\<rparr>) = timer_fields st"
  "timer_fields (st\<lparr>ConnRequestPathType := s\<rparr>) = timer_fields st"
  "timer_fields (st\<lparr>Interface := s\<rparr>) = timer_fields st"
  by (simp_all add: service_defs cwmp_plugin_create_conreq_path_def set_ConnRequestPath_def
      transac_new_connection_request_url_def update_conn_req_url_def cwmp_plugin_update_conreq_host_def
      cwmp_plugin_update_conreq_port_def ManagementServer_updateParameterKey_def sendInformMessage_def written_def Let_def
      split: option.splits)

lemmas supervised_kept = timer_fields_kept [THEN supervised_cong]

lemma start_cwmpd_supervised:
  assumes "service_timers_inv st" "cwmpd_proc st \<noteq> Some False" "str_empty (pe_standalone env)" "pe_spawn_ok env"
  shows "supervised (start_cwmpd env st)"
proof -
  have "supervised (st\<lparr>cwmpd_proc := Some True\<rparr>)" using assms(1) by (simp add: supervised_def service_timers_inv_def cwmpd_running_def)
  moreover have "supervised st" if "cwmpd_proc st \<noteq> None" using that assms(1, 2) by (auto simp: supervised_def cwmpd_running_def)
  ultimately show ?thesis using assms(3, 4) by (simp add: start_cwmpd_def supervised_kept)
qed

lemma drop_ipv6_timer_supervised: "supervised st \<Longrightarrow> supervised (drop_ipv6_timer st)"
  by (auto simp: drop_ipv6_timer_def timer_delete_def supervised_def service_timers_inv_def restart_armed_def cwmpd_running_def
      distinct_map inj_on_def split: option.splits)

lemma updateLocalIP_supervised: "supervised st \<Longrightarrow> supervised (updateLocalIP env st)"
  by (simp add: updateLocalIP_def Let_def supervised_kept drop_ipv6_timer_supervised)

lemma timer_new_start:
  assumes "service_timers_inv st"
  shows "map (\<lambda>t. if pt_id t = next_timer st then t\<lparr>pt_armed := a\<rparr> else t) (live_timers st) = live_timers st"
  using assms by (intro map_idI) (auto simp: service_timers_inv_def)

lemma timer_new_supervised:
  assumes "supervised st" "timer_new Ipv6_Timer st = (i, st')"
  shows "supervised (timer_start i v (st'\<lparr>ipv6_timer := Some i\<rparr>))"
proof -
  have "service_timers_inv st" using assms(1) by (simp add: supervised_def)
  note e = timer_new_start [OF this]
  let ?t = "\<lparr>pt_id = next_timer st, pt_kind = Ipv6_Timer, pt_armed = Some v\<rparr>"
  have "timer_fields (timer_start i v (st'\<lparr>ipv6_timer := Some i\<rparr>)) =
      (live_timers st @ [?t], Suc (next_timer st), Some (next_timer st), cwmpd_proc st)"
    using assms(2) by (auto simp: timer_new_def timer_start_def e)
  then show ?thesis using assms(1) by (auto simp: supervised_def service_timers_inv_def restart_armed_def cwmpd_running_def)
qed

lemma cwmpd_proc_stopped_supervised:
  assumes "service_timers_inv st"
  shows "supervised (cwmpd_proc_stopped env st)"
proof -
  let ?t = "\<lparr>pt_id = next_timer st, pt_kind = Restart_Timer, pt_armed = Some 10000\<rparr>"
  have "timer_fields (cwmpd_proc_stopped env st) = (live_timers st @ [?t], Suc (next_timer st), ipv6_timer st, None)"
    by (simp add: cwmpd_proc_stopped_def close_cwmpd_listening_port_def timer_new_def timer_start_def timer_new_start [OF assms])
  then show ?thesis using assms
    by (auto simp: supervised_def service_timers_inv_def restart_armed_def intro: ipv6_timer_ok_snoc)
qed

lemma updateConnectionRequestURL_supervised:
  assumes "supervised st" "str_empty (pe_standalone env)" "pe_spawn_ok env"
  shows "supervised (updateConnectionRequestURL env st)"
proof -
  have "supervised (start_cwmpd env x)" if "supervised x" for x
    using that assms(2, 3) by (intro start_cwmpd_supervised) (auto simp: supervised_def)
  then show ?thesis using assms(1) by (simp add: updateConnectionRequestURL_def Let_def supervised_kept)
qed

lemma handle_dm_event_supervised:
  assumes "supervised st" "str_empty (pe_standalone env)" "pe_spawn_ok env"
  shows "supervised (handle_dm_event env d st)"
proof -
  have q: "supervised (x\<lparr>query_ipv4 := b, query_ipv6 := c\<rparr>) = supervised x"
    "supervised (x\<lparr>ipv4address := s, ipv6address := t\<rparr>) = supervised x" for x b c s t
    by (rule supervised_cong, simp)+
  show ?thesis using assms updateConnectionRequestURL_supervised [OF assms]
    by (cases d) (simp_all add: handle_dm_event_def updateConnectionRequestPath_def updateConnectionRequestPort_def supervised_kept
        writeInterface_def cwmp_plugin_netmodel_close_queries_def drop_ipv6_timer_supervised q)
qed

lemma expire_timer_supervised:
  assumes "supervised st" "str_empty (pe_standalone env)" "pe_spawn_ok env" "\<exists>t\<in>set (live_timers st). pt_id t = i"
  shows "supervised (expire_timer env i st)"
proof -
  obtain t where t: "find (\<lambda>t. pt_id t = i) (live_timers st) = Some t" "t \<in> set (live_timers st)" "pt_id t = i"
    using assms(4) by (cases "find (\<lambda>t. pt_id t = i) (live_timers st)") (auto simp: find_None_iff find_Some_iff)
  let ?f = "\<lambda>t. if pt_id t = i then t\<lparr>pt_armed := None\<rparr> else t"
  let ?st = "st\<lparr>live_timers := map ?f (live_timers st)\<rparr>"
  have ids: "map pt_id (map ?f l) = map pt_id l" for l by simp
  have inv: "service_timers_inv ?st" using assms(1) by (auto simp: supervised_def service_timers_inv_def o_def if_distrib ipv6_timer_ok_map cong: if_cong)
  show ?thesis
  proof (cases "pt_kind t")
    case Restart_Timer
    then show ?thesis using start_cwmpd_supervised [OF inv _ assms(2, 3)] assms(1) t(1)
      by (simp add: expire_timer_def cwmp_timer_cb_def supervised_def)
  next
    case Ipv6_Timer
    have "restart_armed ?st" if "restart_armed st"
    proof -
      obtain r where r: "r \<in> set (live_timers st)" "pt_kind r = Restart_Timer" "pt_armed r \<noteq> None"
        using \<open>restart_armed st\<close> by (auto simp: restart_armed_def)
      have "inj_on pt_id (set (live_timers st))" using assms(1) by (simp add: supervised_def service_timers_inv_def distinct_map)
      then have "pt_id r \<noteq> i" using r(1, 2) t(2, 3) Ipv6_Timer by (metis inj_onD timer_kind.distinct(1))
      then show ?thesis using r by (auto simp: restart_armed_def intro!: bexI [of _ r])
    qed
    then have "supervised ?st" using inv assms(1) by (auto simp: supervised_def cwmpd_running_def)
    then show ?thesis using updateLocalIP_supervised t(1) Ipv6_Timer by (simp add: expire_timer_def ipv6_timer_cb_def)
  qed
qed

lemma service_step_supervised:
  assumes "supervised st" "supervised_ok st ee"
  shows "supervised (service_step st ee)"
proof -
  obtain env e where ee: "ee = (env, e)" "str_empty (pe_standalone env)" "pe_spawn_ok env"
    using assms(2) by (cases ee) (auto simp: supervised_ok_def)
  show ?thesis
  proof (cases e)
    case Deliver
    then show ?thesis using handle_dm_event_supervised [OF _ ee(2, 3)] assms(1) ee
      by (auto simp: service_step_def supervised_kept split: list.splits)
  next
    case (Ipv4 a)
    then show ?thesis using assms(1) ee
      by (auto simp: service_step_def ipv4address_changed_cb_def Let_def supervised_kept updateLocalIP_supervised
          intro: timer_new_supervised [rotated] split: wan_ip_mode.splits prod.splits)
  next
    case (Ipv6 a)
    then show ?thesis using assms(1) ee
      by (auto simp: service_step_def ipv6address_changed_cb_def Let_def supervised_kept updateLocalIP_supervised split: wan_ip_mode.splits)
  next
    case (Expire i)
    then show ?thesis using expire_timer_supervised [OF assms(1) ee(2, 3)] assms(2) ee
      by (auto simp: service_step_def supervised_ok_def)
  next
    case Cwmpd_Ends
    have "service_timers_inv st" using assms(1) by (simp add: supervised_def)
    then show ?thesis using ee Cwmpd_Ends by (simp add: service_step_def cwmpd_stop_signal_eq cwmpd_proc_stopped_supervised)
  next
    case Deferred_Init
    then have "service_step st ee = (let st1 = cwmp_plugin_netmodel_find_ip env (st\<lparr>init_done := True\<rparr>)
        in if cwmpd_start_avoided st1 then start_cwmpd env st1 else st1)"
      using ee by (simp add: service_step_def deferred_init_timer_cb_plugin_def)
    moreover have "supervised (cwmp_plugin_netmodel_find_ip env (st\<lparr>init_done := True\<rparr>))" using assms(1) by (simp add: supervised_kept)
    ultimately show ?thesis using start_cwmpd_supervised [OF _ _ ee(2, 3)] by (simp add: Let_def supervised_def)
  qed (use assms(1) ee in \<open>simp_all add: service_step_def supervised_kept\<close>)
qed

interpretation supervision: event_system service_step supervised_ok supervised
  by unfold_locales (rule service_step_supervised)

text \<open>
  Property C25. Once cwmpd runs it is supervised: along any sequence of events (address and parameter
  changes, timers, ends of the process) in which new processes can be spawned, either cwmpd runs or the timer that starts
  it again is armed, although the handlers of the IPv6 timer delete timers of the same list.
\<close>

theorem cwmpd_supervised:
  assumes "supervised st" "enabled_run supervised_ok service_step st es"
  shows "supervised (foldl service_step st es)"
  by (rule supervision.run_inv [OF assms])

theorem cwmpd_supervised_witness:
  "supervised (foldl service_step (start_cwmpd example_plugin_env example_service)
     [(example_plugin_env, Cwmpd_Ends), (example_plugin_env, Ipv4 (Some ''10.0.0.2'')), (example_plugin_env, Expire 0)])"
proof (rule cwmpd_supervised)
  show "supervised (start_cwmpd example_plugin_env example_service)"
    by (rule start_cwmpd_supervised) (simp_all add: service_timers_inv_def example_service_def example_plugin_env_def)
  show "enabled_run supervised_ok service_step (start_cwmpd example_plugin_env example_service)
     [(example_plugin_env, Cwmpd_Ends), (example_plugin_env, Ipv4 (Some ''10.0.0.2'')), (example_plugin_env, Expire 0)]"
    unfolding supervised_ok_def by code_simp
qed

text \<open>The pointer to the control block of the process, when it is set.\<close>

abbreviation "spawn_failed st \<equiv> cwmpd_proc st = Some False"

lemma proc_kept:
  "cwmpd_proc (drop_ipv6_timer st) = cwmpd_proc st"
  "cwmpd_proc (timer_start i v st) = cwmpd_proc st"
  "cwmpd_proc (snd (timer_new k st)) = cwmpd_proc st"
  by (simp_all add: service_defs split: option.splits)

lemma start_cwmpd_failed: "spawn_failed st \<Longrightarrow> spawn_failed (start_cwmpd env st)"
  by (simp add: start_cwmpd_def open_cwmpd_listening_port_def)

lemma updateLocalIP_proc: "cwmpd_proc (updateLocalIP env st) = cwmpd_proc st"
  using timer_fields_kept(6) by (simp add: updateLocalIP_def Let_def proc_kept)

lemma handle_dm_event_failed: "spawn_failed st \<Longrightarrow> spawn_failed (handle_dm_event env d st)"
  using timer_fields_kept start_cwmpd_failed
  by (cases d) (auto simp: handle_dm_event_def updateConnectionRequestURL_def updateConnectionRequestPath_def
      updateConnectionRequestPort_def Let_def writeInterface_def cwmp_plugin_netmodel_close_queries_def proc_kept)

definition no_end :: "plugin \<Rightarrow> plugin_env \<times> plugin_event \<Rightarrow> bool" where
  "no_end st ee \<longleftrightarrow> (snd ee = Cwmpd_Ends \<longrightarrow> cwmpd_running st)"

lemma service_step_failed:
  assumes "spawn_failed st" "no_end st ee"
  shows "spawn_failed (service_step st ee)"
proof (cases ee)
  case (Pair env e)
  show ?thesis
  proof (cases e)
    case Deliver
    then show ?thesis using handle_dm_event_failed assms(1) Pair by (auto simp: service_step_def split: list.splits)
  next
    case Cwmpd_Ends
    then show ?thesis using assms Pair by (simp add: no_end_def cwmpd_running_def)
  next
    case Deferred_Init
    then show ?thesis using start_cwmpd_failed assms(1) Pair timer_fields_kept(9)
      by (auto simp: service_step_def deferred_init_timer_cb_plugin_def Let_def)
  next
    case (Expire i)
    then show ?thesis using start_cwmpd_failed assms(1) Pair
      by (auto simp: service_step_def expire_timer_def Let_def cwmp_timer_cb_def ipv6_timer_cb_def updateLocalIP_proc
          split: option.splits timer_kind.splits)
  next
    case (Ipv4 a)
    then show ?thesis using assms(1) Pair
      by (auto simp: service_step_def ipv4address_changed_cb_def Let_def updateLocalIP_proc proc_kept prod.case_eq_if
          split: wan_ip_mode.splits)
  next
    case (Ipv6 a)
    then show ?thesis using assms(1) Pair
      by (auto simp: service_step_def ipv6address_changed_cb_def Let_def updateLocalIP_proc split: wan_ip_mode.splits)
  qed (use assms(1) Pair in \<open>auto simp: service_step_def written_def cwmp_plugin_update_conreq_port_def
      ManagementServer_updateParameterKey_def sendInformMessage_def split: option.splits\<close>)
qed

interpretation spawn: event_system service_step no_end "\<lambda>st. spawn_failed st"
  by unfold_locales (rule service_step_failed)

text \<open>
  A process that could not be spawned is never tried again: the pointer to its control block is set,
  so that \<open>start_cwmpd\<close> returns; no signal of its end comes (that of a process that never ran), and neither new
  addresses nor timers nor parameters start cwmpd.
\<close>

theorem failed_spawn_never_retried:
  assumes "cwmpd_proc st = None" "str_empty (pe_standalone env)" "\<not> pe_spawn_ok env"
    and "enabled_run no_end service_step (start_cwmpd env st) es"
  shows "\<not> cwmpd_running (foldl service_step (start_cwmpd env st) es)"
proof -
  have "spawn_failed (start_cwmpd env st)" using assms(1-3) by (simp add: start_cwmpd_def open_cwmpd_listening_port_def)
  from spawn.run_inv [OF this assms(4)] show ?thesis by (simp add: cwmpd_running_def)
qed

theorem failed_spawn_never_retried_witness:
  "\<not> cwmpd_running (foldl service_step (start_cwmpd (example_plugin_env\<lparr>pe_spawn_ok := False\<rparr>) example_service)
     [(example_plugin_env, Deferred_Init), (example_plugin_env, Ipv4 (Some ''10.0.0.2'')), (example_plugin_env, Deliver)])"
  by (rule failed_spawn_never_retried) (simp_all add: example_plugin_env_def example_service_def no_end_def)

subsection \<open>The firewall\<close>

text \<open>
  The port of the connection requests stays open when cwmpd ends or is stopped: the end handler and
  \<open>stop_cwmpd\<close> clear the pointer to the process, or never set it in stand-alone mode, and
  \<open>close_cwmpd_listening_port\<close> does nothing without it.
\<close>

theorem port_left_open:
  assumes "firewall st = Some s"
  shows "firewall (cwmpd_stop_signal env st) = Some s \<and> firewall (cwmp_timer_cb env (cwmpd_stop_signal env st)) \<noteq> None
       \<and> (cwmpd_proc st = None \<or> str_empty (pe_standalone env) \<longrightarrow> firewall (cwmp_plugin_exit env st) = Some s)"
  using assms
  by (auto simp: cwmpd_stop_signal_eq service_defs cwmp_plugin_exit_def Let_def split: option.splits)

theorem port_left_open_witness:
  "firewall (cwmpd_stop_signal example_plugin_env (start_cwmpd example_plugin_env example_service)) =
     Some \<lparr>fs_interface = ''wan'', fs_port = 80, fs_source = [], fs_ipversion = 4\<rparr>"
proof -
  have "firewall (start_cwmpd example_plugin_env example_service) =
      Some \<lparr>fs_interface = ''wan'', fs_port = 80, fs_source = [], fs_ipversion = 4\<rparr>" by code_simp
  from port_left_open [OF this, of example_plugin_env] show ?thesis by (rule conjunct1)
qed

subsection \<open>The path of the connection requests\<close>

lemma mac_path_loop_chars: "length (mac_path_loop mac n k r) = n \<and> set (mac_path_loop mac n k r) \<subseteq> set mac_token"
proof (induction mac n k r rule: mac_path_loop.induct)
  case (2 mac n k r)
  have "mac_token ! (unat x mod length mac_token) \<in> set mac_token" for x :: "16 word"
    by (rule nth_mem) (simp add: mac_token_def)
  then show ?case using 2 by (simp add: Let_def)
qed simp

lemma hw_addr_loop_absent:
  "\<forall>n\<in>set items. ni_address n \<noteq> Some ip \<Longrightarrow> ipbuf \<noteq> ip \<Longrightarrow> hw_addr_loop b ip ipbuf m items = m"
  by (induction items arbitrary: ipbuf) (auto split: option.splits)

lemma mac_path_no_seed:
  "mac_path_loop [] (Suc n) k (of_nat m) = mac_token ! (2 * m mod 65536 mod 52) # mac_path_loop [] n (Suc 0) (of_nat (2 * m))"
proof -
  have "push_bit 1 (of_nat m :: 16 word) = of_nat (2 * m)" by (simp add: push_bit_eq_mult mult.commute)
  moreover have "unat (of_nat (2 * m) :: 16 word) = 2 * m mod 65536" by (simp only: unat_of_nat) simp
  moreover have "length mac_token = 52" by (simp add: mac_token_def)
  ultimately show ?thesis by (simp add: seed_at_def Let_def mult.commute)
qed

lemma mac_path_map:
  "mac_path_loop [] n k (of_nat m) = map (\<lambda>i. mac_token ! (2 ^ Suc i * m mod 65536 mod 52)) [0..<n]"
proof (induction n arbitrary: k m)
  case (Suc n)
  show ?case unfolding mac_path_no_seed Suc.IH map_upt_Suc by (simp add: mult.assoc mult.left_commute)
qed simp

lemma mac_path_constant: "mac_path_loop [] CPE_URL_SIZE 0 59 = ''vfEGSLtbxk8bLtGA''"
proof -
  have "[0..<16] = [0, 1, 2, 3, 4, 5, 6, 7, 8, 9, 10, 11, 12, 13, 14, 15 :: nat]" by code_simp
  then show ?thesis using mac_path_map [of CPE_URL_SIZE 0 59] by (simp add: mac_token_def)
qed

text \<open>
  The path derived from the hardware address has 16 characters of the token alphabet; but for a host
  that is not the address of an interface in the (IPv4) list of \<open>SIOCGIFCONF\<close>, as every IPv6 address, it is the same
  constant on every device.
\<close>

theorem mac_based_path:
  "length (generate_mac_based_url_path env ip) = CPE_URL_SIZE
   \<and> set (generate_mac_based_url_path env ip) \<subseteq> set mac_token
   \<and> (ip \<noteq> [] \<and> (\<forall>items. pe_interfaces env = Some items \<longrightarrow> (\<forall>n\<in>set items. ni_address n \<noteq> Some ip)) \<longrightarrow>
      generate_mac_based_url_path env ip = ''vfEGSLtbxk8bLtGA'')"
proof -
  have "get_hw_addr_from_ip env ip 40 = []"
    if "ip \<noteq> []" "\<forall>items. pe_interfaces env = Some items \<longrightarrow> (\<forall>n\<in>set items. ni_address n \<noteq> Some ip)"
    using that by (cases "pe_interfaces env") (auto simp: get_hw_addr_from_ip_def intro: hw_addr_loop_absent)
  then show ?thesis
    using mac_path_loop_chars [of "get_hw_addr_from_ip env ip 40" CPE_URL_SIZE 0 59]
    by (auto simp: generate_mac_based_url_path_def mac_path_constant)
qed

theorem mac_based_path_witness:
  "generate_mac_based_url_path example_plugin_env ''fe80::1'' = ''vfEGSLtbxk8bLtGA''"
  using mac_based_path [of example_plugin_env "''fe80::1''"] by (simp add: example_plugin_env_def)

end
