(* ===== verification/File_Transfers.thy ===== *)
theory File_Transfers
  imports Prelude
begin

section \<open>File transfers of the plugin (cwmp\_plugin\_transfer.c, cwmp\_plugin\_common.c)\<close>

text \<open>
  The transfers that the ACS asks for with Download and Upload: instances of ManagementServer.ACSTransfers.ACSTransfer.
  An instance is found by its index, which is what its path contains; a callback that holds a pointer to the instance holds
  its address, and its use after the deletion of the instance sets \<open>bad_access\<close>. Requests to the file transfer
  library, timers, calls on the bus, processes and subscriptions are kept as lists; what the libraries answer
  is in \<open>ft_env\<close>. Times are seconds since the epoch, or the unknown time of TR-069.
\<close>

subsection \<open>State\<close>

datatype ts = Ts nat | Unknown_Time

record acs_transfer =
  at_index :: nat
  at_addr :: addr
  Initiator :: cstr
  CommandKey :: cstr
  IsDownload :: bool
  FileType :: cstr
  FileSize :: nat
  Url :: cstr
  Username :: cstr
  Password :: cstr
  TargetFileName :: cstr
  SaveFileName :: cstr
  Status :: string
  StartTime :: ts
  CompleteTime :: ts
  FaultCode :: nat
  FaultString :: cstr
  SubscriptionId :: int

record ft_args =
  fa_index :: nat
  fa_IsDownload :: bool
  fa_DelaySeconds :: u32
  fa_FileType :: cstr
  fa_Url :: cstr
  fa_Username :: cstr
  fa_Password :: cstr
  fa_TargetFileName :: cstr
  fa_CommandKey :: string

record ftx_request =
  fr_data :: nat
  fr_url :: cstr
  fr_username :: cstr
  fr_password :: cstr
  fr_target_file :: cstr

record upload_context =
  uc_url :: string
  uc_index :: nat
  uc_time :: ts

datatype ft_timer = Start_Request ftx_request | Download_Timer addr | Upload_Timer ft_args

record ft =
  transfers :: "acs_transfer list"
  ft_timers :: "(u32 \<times> ft_timer) list"
  ftx_sent :: "ftx_request list"
  selftest_requests :: "ft_args list"
  upload_requests :: "upload_context list"
  fw_subscriptions :: "addr list"
  tasks :: "(string \<times> string) list"
  bus_log :: "(string \<times> string) list"
  dm_saves :: nat
  bad_access :: bool

record ft_env =
  fe_now :: nat
  fe_trans_ok :: bool
  fe_timer_ok :: bool
  fe_ftx_ok :: bool
  fe_alloc_ok :: bool
  fe_task_ok :: bool
  fe_bus :: bool
  fe_call_ok :: "string \<Rightarrow> string \<Rightarrow> bool"
  fe_async_ok :: bool
  fe_subscribe_ok :: bool
  fe_split_word :: "string \<Rightarrow> string list"
  fe_is_numeric :: "string \<Rightarrow> bool"

subsection \<open>Fault strings and the table of transfers\<close>

definition FAULT_MESSAGES :: "string list" where
  "FAULT_MESSAGES =
     [''Method not supported'', ''Request denied (no reason specified)'', ''Internal error'', ''Invalid arguments'',
      ''Resources exceeded'', ''Invalid parameter name'', ''Invalid parameter type'', ''Invalid parameter value'',
      ''Attempt to set a non-writable parameter'', ''Notification request rejected'', ''Download failure'', ''Upload failure'',
      ''File transfer server authentication failure'', ''Unsupported protocol for file transfer'',
      ''Download failure: unable to join multicast group'', ''Download failure: unable to contact file server'',
      ''Download failure: unable to access file'', ''Download failure: unable to complete download'',
      ''Download failure: file corrupted'', ''Download failure: file authentication failure'', ''Vendor specific fault'']"

abbreviation MAX_FAULT_MESSAGES :: int where "MAX_FAULT_MESSAGES \<equiv> 20"

definition cwmp_plugin_getFaultString :: "int \<Rightarrow> cstr" where
  "cwmp_plugin_getFaultString code =
     (let i = code - 9000 in
      if 0 \<le> i \<and> i < MAX_FAULT_MESSAGES then Some (FAULT_MESSAGES ! nat i)
      else if 800 \<le> i \<and> i \<le> 899 then Some (FAULT_MESSAGES ! nat MAX_FAULT_MESSAGES)
      else None)"

definition find_transfer :: "nat \<Rightarrow> ft \<Rightarrow> acs_transfer option" where
  "find_transfer i st = find (\<lambda>t. at_index t = i) (transfers st)"

definition set_transfer :: "(acs_transfer \<Rightarrow> bool) \<Rightarrow> (acs_transfer \<Rightarrow> acs_transfer) \<Rightarrow> ft \<Rightarrow> ft" where
  "set_transfer P f st = st\<lparr>transfers := map (\<lambda>t. if P t then f t else t) (transfers st)\<rparr>"

definition get_transfer_obj_by_index :: "nat \<Rightarrow> ft \<Rightarrow> addr option" where
  "get_transfer_obj_by_index i st = map_option at_addr (find_transfer i st)"

definition transfer_update_status ::
  "ft_env \<Rightarrow> nat \<Rightarrow> string \<Rightarrow> ts \<Rightarrow> ts \<Rightarrow> nat \<Rightarrow> cstr \<Rightarrow> ft \<Rightarrow> ft" where
  "transfer_update_status env index status start_time complete_time error_code error_string st =
     (if find_transfer index st = None \<or> \<not> fe_trans_ok env then st
      else set_transfer (\<lambda>t. at_index t = index)
             (\<lambda>t. t\<lparr>Status := status, StartTime := start_time,
                    CompleteTime := (if error_code \<noteq> 0 then Ts 0 else complete_time),
                    FaultCode := error_code, FaultString := error_string\<rparr>) st)"

text \<open>The other update works on a pointer to the instance.\<close>

definition apply_update :: "string option \<Rightarrow> ts option \<Rightarrow> ts option \<Rightarrow> nat option \<Rightarrow> acs_transfer \<Rightarrow> acs_transfer" where
  "apply_update status start_time complete_time fault_code t =
     t\<lparr>Status := (case status of None \<Rightarrow> Status t | Some s \<Rightarrow> s),
       StartTime := (case start_time of None \<Rightarrow> StartTime t | Some x \<Rightarrow> x),
       CompleteTime := (case complete_time of None \<Rightarrow> CompleteTime t | Some x \<Rightarrow> x),
       FaultCode := (case fault_code of None \<Rightarrow> FaultCode t | Some c \<Rightarrow> c),
       FaultString := (case fault_code of None \<Rightarrow> FaultString t | Some c \<Rightarrow> cwmp_plugin_getFaultString (int c))\<rparr>"

definition update_transfer_obj ::
  "ft_env \<Rightarrow> addr \<Rightarrow> string option \<Rightarrow> ts option \<Rightarrow> ts option \<Rightarrow> nat option \<Rightarrow> ft \<Rightarrow> ft" where
  "update_transfer_obj env obj status start_time complete_time fault_code st =
     (if obj \<notin> at_addr ` set (transfers st) then st\<lparr>bad_access := True\<rparr>
      else if \<not> fe_trans_ok env then st
      else set_transfer (\<lambda>t. at_addr t = obj) (apply_update status start_time complete_time fault_code) st)"

subsection \<open>Downloads through the file transfer library\<close>

definition start_timer_cb :: "ftx_request \<Rightarrow> ft \<Rightarrow> ft" where
  "start_timer_cb request st = st\<lparr>ftx_sent := ftx_sent st @ [request]\<rparr>"

definition start_filetransfer_request :: "ft_env \<Rightarrow> ftx_request \<Rightarrow> u32 \<Rightarrow> ft \<Rightarrow> int \<times> ft" where
  "start_filetransfer_request env request delay st =
     (if \<not> fe_timer_ok env then (-1, st)
      else (0, st\<lparr>ft_timers := ft_timers st @ [(delay * 1000, Start_Request request)]\<rparr>))"

definition proc_build_cb :: "cstr \<Rightarrow> cstr \<Rightarrow> string list option" where
  "proc_build_cb script fileName =
     (case script of None \<Rightarrow> None | Some s \<Rightarrow> (case fileName of None \<Rightarrow> None | Some f \<Rightarrow> Some [s, f]))"

definition filetransfer_run_task :: "ft_env \<Rightarrow> string \<Rightarrow> string \<Rightarrow> ft \<Rightarrow> int \<times> ft" where
  "filetransfer_run_task env fileName script st =
     (if \<not> fe_alloc_ok env \<or> \<not> fe_task_ok env then (-1, st)
      else (0, st\<lparr>tasks := tasks st @ [(script, fileName)]\<rparr>))"

definition filetransfer_download_finished :: "ft_env \<Rightarrow> nat \<Rightarrow> ft \<Rightarrow> ft" where
  "filetransfer_download_finished env index st =
     (case find_transfer index st of
        None \<Rightarrow> st
      | Some t \<Rightarrow>
          (case FileType t of
             None \<Rightarrow> st
           | Some fileType \<Rightarrow>
               (case SaveFileName t of
                  None \<Rightarrow> st
                | Some targetFileName \<Rightarrow>
                    (if strstr fileType ''2'' \<noteq> None
                     then snd (filetransfer_run_task env targetFileName ''tr069_2_webcontent'' st)
                     else if strstr fileType ''3'' \<noteq> None
                     then snd (filetransfer_run_task env targetFileName ''tr069_3_conf_apply'' st)
                     else st))))"

definition filetransfer_request_cb ::
  "ft_env \<Rightarrow> ftx_request \<Rightarrow> nat \<Rightarrow> cstr \<Rightarrow> ts \<Rightarrow> ts \<Rightarrow> ft \<Rightarrow> ft" where
  "filetransfer_request_cb env req error_code reason ts_start ts_end st =
     (let index = fr_data req;
          st1 = (if error_code = 0 then filetransfer_download_finished env index st else st);
          st2 = transfer_update_status env index ''Finished'' ts_start ts_end error_code reason st1
      in st2\<lparr>ftx_sent := remove1 req (ftx_sent st2)\<rparr>)"

definition filetransfer_set_common_data :: "ft_env \<Rightarrow> ft_args \<Rightarrow> ftx_request option" where
  "filetransfer_set_common_data env args =
     (if fe_alloc_ok env
      then Some \<lparr>fr_data = fa_index args, fr_url = fa_Url args, fr_username = fa_Username args,
                 fr_password = fa_Password args, fr_target_file = None\<rparr>
      else None)"

text \<open>The instance is looked up by its command key, the first one that matches.\<close>

definition filetransfer_download_set_target_file :: "ft_args \<Rightarrow> ftx_request \<Rightarrow> ft \<Rightarrow> ftx_request \<times> ft" where
  "filetransfer_download_set_target_file args req st =
     (case find (\<lambda>t. CommandKey t = Some (fa_CommandKey args)) (transfers st) of
        None \<Rightarrow> (req, st)
      | Some t \<Rightarrow>
          (let file_name =
             (if \<not> str_empty (fa_TargetFileName args) then ''/tmp/'' @ the (fa_TargetFileName args)
              else ''/tmp/dl_'' @ fa_CommandKey args)
           in (req\<lparr>fr_target_file := Some file_name\<rparr>,
               set_transfer (\<lambda>x. at_addr x = at_addr t) (\<lambda>x. x\<lparr>SaveFileName := Some file_name\<rparr>) st)))"

subsection \<open>Uploads\<close>

definition vendorfile_get_index :: "ft_env \<Rightarrow> cstr \<Rightarrow> int" where
  "vendorfile_get_index env fileType =
     (if str_empty fileType then 0
      else
        (let f = the fileType in
         if strstr f ''2 Vendor Log File'' \<noteq> None \<or> strstr f ''4 Vendor Log File 1'' \<noteq> None \<or>
            strstr f ''1 Vendor Configuration File'' \<noteq> None \<or> strstr f ''3 Vendor Configuration File 1'' \<noteq> None
         then 1
         else if strstr f ''3 Vendor Configuration File'' \<noteq> None \<or> strstr f ''4 Vendor Log File'' \<noteq> None
         then (let words = fe_split_word env f in
               if length words \<le> 8 \<or> \<not> fe_is_numeric env (words ! 8) then 0 else atoi (words ! 8))
         else 0))"

definition filetransfer_upload_find :: "string \<Rightarrow> ft \<Rightarrow> upload_context option" where
  "filetransfer_upload_find transferurl st = find (\<lambda>u. uc_url u = transferurl) (upload_requests st)"

record complete_data =
  cd_TransferURL :: cstr
  cd_FaultCode :: nat
  cd_FaultString :: cstr

definition filetransfer_upload_complete_notification :: "ft_env \<Rightarrow> complete_data option \<Rightarrow> ft \<Rightarrow> ft" where
  "filetransfer_upload_complete_notification env adata st =
     (if upload_requests st = [] then st
      else (case adata of
              None \<Rightarrow> st
            | Some d \<Rightarrow>
                (if str_empty (cd_TransferURL d) then st
                 else (case filetransfer_upload_find (the (cd_TransferURL d)) st of
                         None \<Rightarrow> st
                       | Some upload \<Rightarrow>
                           (let st1 = transfer_update_status env (uc_index upload) ''Finished'' (uc_time upload) (Ts (fe_now env))
                                        (cd_FaultCode d) (cd_FaultString d) st
                            in st1\<lparr>upload_requests := remove1 upload (upload_requests st1)\<rparr>)))))"

text \<open>The common part of the two upload functions: the arguments are checked, the method of the vendor file is called and the
  upload is remembered until its TransferComplete notification; \<open>failed\<close> is what a failure does.\<close>

definition call_upload ::
  "ft_env \<Rightarrow> string \<Rightarrow> string \<Rightarrow> ft_args \<Rightarrow> (ft \<Rightarrow> ft) \<Rightarrow> ft \<Rightarrow> ft" where
  "call_upload env object method args failed st =
     (if str_empty (fa_FileType args) then failed st
      else
        (let vi = vendorfile_get_index env (fa_FileType args) in
         if vi = 0 \<or> str_empty (fa_Url args) \<or> fa_Username args = None \<or> fa_Password args = None then failed st
         else
           (let path = object @ int_text vi; st1 = st\<lparr>bus_log := bus_log st @ [(path, method)]\<rparr> in
            if \<not> fe_call_ok env path method then failed st1
            else st1\<lparr>upload_requests := upload_requests st1 @
                       [\<lparr>uc_url = the (fa_Url args), uc_index = fa_index args, uc_time = Ts (fe_now env)\<rparr>]\<rparr>)))"

definition filetransfer_upload_selftest_call_done :: "ft_env \<Rightarrow> ft_args option \<Rightarrow> int \<Rightarrow> ft_args \<Rightarrow> ft \<Rightarrow> ft" where
  "filetransfer_upload_selftest_call_done env req status args st =
     (if fa_index args = 0 then st
      else
        (let failed = transfer_update_status env (fa_index args) ''Finished'' (Ts (fe_now env)) (Ts (fe_now env)) 9002
                        (Some ''Internal error'');
             st1 = (if status \<noteq> 0 then failed st
                    else call_upload env ''Device.DeviceInfo.VendorLogFile.'' ''Upload'' args failed st)
         in (case req of None \<Rightarrow> st1 | Some r \<Rightarrow> st1\<lparr>selftest_requests := remove1 r (selftest_requests st1)\<rparr>)))"

definition upload_vendor_config_file :: "ft_env \<Rightarrow> ft_args \<Rightarrow> ft \<Rightarrow> ft" where
  "upload_vendor_config_file env args st =
     (if fa_index args = 0 then st
      else call_upload env ''Device.DeviceInfo.VendorConfigFile.'' ''Backup'' args
             (transfer_update_status env (fa_index args) ''Finished'' Unknown_Time Unknown_Time 9002 (Some ''Internal error'')) st)"

definition filetransfer_upload_prepare :: "ft_env \<Rightarrow> ft_args \<Rightarrow> ft \<Rightarrow> ft" where
  "filetransfer_upload_prepare env args st =
     (if \<not> fe_bus env \<or> str_empty (fa_FileType args) then st
      else
        (let filetype = the (fa_FileType args) in
         if strstr filetype ''2 Vendor Log File'' \<noteq> None \<or> strstr filetype ''4 Vendor Log File 1'' \<noteq> None
         then (if fe_async_ok env then st\<lparr>selftest_requests := selftest_requests st @ [args]\<rparr> else st)
         else if strstr filetype ''4 Vendor Log File'' \<noteq> None
         then filetransfer_upload_selftest_call_done env None 0 args st
         else if strstr filetype ''1 Vendor Configuration File'' \<noteq> None \<or> strstr filetype ''3 Vendor Configuration File'' \<noteq> None
         then upload_vendor_config_file env args st
         else st))"

definition filetransfer_upload_cb :: "ft_env \<Rightarrow> ft_args \<Rightarrow> ft \<Rightarrow> ft" where
  "filetransfer_upload_cb env args st = filetransfer_upload_prepare env args st"

definition filetransfer_upload_start :: "ft_env \<Rightarrow> ft_args \<Rightarrow> ft \<Rightarrow> ft" where
  "filetransfer_upload_start env args st =
     (if \<not> fe_timer_ok env then st
      else st\<lparr>ft_timers := ft_timers st @ [(fa_DelaySeconds args * 1000, Upload_Timer args)]\<rparr>)"

subsection \<open>Firmware images\<close>

definition firmwareimage_add_subscription :: "ft_env \<Rightarrow> addr \<Rightarrow> ft \<Rightarrow> int \<times> ft" where
  "firmwareimage_add_subscription env obj st =
     (if fe_subscribe_ok env then (0, st\<lparr>fw_subscriptions := obj # fw_subscriptions st\<rparr>) else (-1, st))"

definition firmwareimage_del_subscription :: "addr \<Rightarrow> ft \<Rightarrow> ft" where
  "firmwareimage_del_subscription obj st = st\<lparr>fw_subscriptions := removeAll obj (fw_subscriptions st)\<rparr>"

definition firmwareimage_notification_ft :: "ft_env \<Rightarrow> addr \<Rightarrow> cstr \<Rightarrow> cstr \<Rightarrow> ft \<Rightarrow> ft" where
  "firmwareimage_notification_ft env obj status log st =
     (case status of
        None \<Rightarrow> st
      | Some s \<Rightarrow>
          (let bootFailureLog = (case log of None \<Rightarrow> [] | Some l \<Rightarrow> l) in
           if s \<in> {''DownloadFailed'', ''ValidationFailed'', ''InstallationFailed'', ''ActivationFailed''}
           then (let fault_code = (if bootFailureLog = ''Protocol not supported'' then 9013
                                   else if bootFailureLog = ''(67) Error'' then 9012 else 9010)
                 in firmwareimage_del_subscription obj
                      (update_transfer_obj env obj (Some ''Finished'') None (Some Unknown_Time) (Some fault_code) st))
           else st))"

definition firmwareimage_download :: "ft_env \<Rightarrow> addr \<Rightarrow> ft \<Rightarrow> int \<times> ft" where
  "firmwareimage_download env obj st =
     (case find (\<lambda>t. at_addr t = obj) (transfers st) of
        None \<Rightarrow> (-1, st\<lparr>bad_access := True\<rparr>)
      | Some t \<Rightarrow>
          (if Url t = None \<or> Username t = None \<or> Password t = None then (-1, st)
           else
             (let st1 = st\<lparr>bus_log := bus_log st @ [(''DeviceInfo.FirmwareImage.active.'', ''Download'')]\<rparr> in
              if fe_call_ok env ''DeviceInfo.FirmwareImage.active.'' ''Download'' then (0, st1) else (-1, st1))))"

definition firmware_upgrade :: "ft_env \<Rightarrow> addr \<Rightarrow> ft \<Rightarrow> int \<times> ft" where
  "firmware_upgrade env obj st =
     (case firmwareimage_add_subscription env obj st of
        (r, st1) \<Rightarrow> if r \<noteq> 0 then (-1, st1) else firmwareimage_download env obj st1)"

definition download_timer_cb :: "ft_env \<Rightarrow> addr \<Rightarrow> ft \<Rightarrow> ft" where
  "download_timer_cb env obj st =
     (let st1 = update_transfer_obj env obj (Some ''Applying'') None None None st;
          st3 = (case firmware_upgrade env obj st1 of
                   (r, st2) \<Rightarrow>
                     if r \<noteq> 0
                     then firmwareimage_del_subscription obj
                            (update_transfer_obj env obj (Some ''Finished'') None None (Some 9002) st2)
                     else st2)
      in st3\<lparr>dm_saves := Suc (dm_saves st3)\<rparr>)"

subsection \<open>The entry point\<close>

definition filetransfer_request_prepare :: "ft_env \<Rightarrow> ft_args \<Rightarrow> ft \<Rightarrow> int \<times> ft" where
  "filetransfer_request_prepare env args st =
     (if fa_IsDownload args then
        (if fa_FileType args = Some ''1 Firmware Upgrade Image'' then
           (case get_transfer_obj_by_index (fa_index args) st of
              None \<Rightarrow> (-1, st)
            | Some obj \<Rightarrow>
                (if \<not> fe_timer_ok env then (-1, st)
                 else
                   (let st1 = st\<lparr>ft_timers := ft_timers st @ [(fa_DelaySeconds args * 1000, Download_Timer obj)]\<rparr>;
                        st2 = (if fa_DelaySeconds args \<le> 1
                               then update_transfer_obj env obj (Some ''Applying'') None None None st1 else st1)
                    in (0, st2\<lparr>dm_saves := Suc (dm_saves st2)\<rparr>))))
         else if \<not> fe_ftx_ok env then (-1, st)
         else (case filetransfer_set_common_data env args of
                 None \<Rightarrow> (-1, st)
               | Some req \<Rightarrow>
                   (case filetransfer_download_set_target_file args req st of
                      (req1, st1) \<Rightarrow> (0, snd (start_filetransfer_request env req1 (fa_DelaySeconds args) st1)))))
      else (0, filetransfer_upload_start env args st))"

definition AddTransfer :: "ft_env \<Rightarrow> ft_args option \<Rightarrow> ft \<Rightarrow> bool \<times> ft" where
  "AddTransfer env args st =
     (case args of
        None \<Rightarrow> (False, st)
      | Some a \<Rightarrow> (case filetransfer_request_prepare env a st of (r, st') \<Rightarrow> (r = 0, st')))"

definition cwmp_plugin_transfer_clean :: "ft \<Rightarrow> ft" where
  "cwmp_plugin_transfer_clean st = st\<lparr>selftest_requests := [], upload_requests := []\<rparr>"

subsection \<open>Events\<close>

datatype ft_event =
    Add ft_args | Fire nat | Ftx_Done ftx_request nat cstr ts ts | Selftest_Done ft_args int
  | Upload_Complete "complete_data option" | Firmware_Status addr cstr cstr | New_Instance acs_transfer | Delete_Instance nat

definition fire_timer :: "ft_env \<Rightarrow> nat \<Rightarrow> ft \<Rightarrow> ft" where
  "fire_timer env k st =
     (if length (ft_timers st) \<le> k then st
      else
        (let st1 = st\<lparr>ft_timers := take k (ft_timers st) @ drop (Suc k) (ft_timers st)\<rparr> in
         case snd (ft_timers st ! k) of
           Start_Request r \<Rightarrow> start_timer_cb r st1
         | Download_Timer a \<Rightarrow> download_timer_cb env a st1
         | Upload_Timer args \<Rightarrow> filetransfer_upload_cb env args st1))"

definition ft_step :: "ft \<Rightarrow> ft_env \<times> ft_event \<Rightarrow> ft" where
  "ft_step st ee =
     (case ee of (env, e) \<Rightarrow>
        (case e of
           Add a \<Rightarrow> snd (AddTransfer env (Some a) st)
         | Fire k \<Rightarrow> fire_timer env k st
         | Ftx_Done r code reason s f \<Rightarrow> filetransfer_request_cb env r code reason s f st
         | Selftest_Done a status \<Rightarrow> filetransfer_upload_selftest_call_done env (Some a) status a st
         | Upload_Complete d \<Rightarrow> filetransfer_upload_complete_notification env d st
         | Firmware_Status a s l \<Rightarrow> firmwareimage_notification_ft env a s l st
         | New_Instance t \<Rightarrow> st\<lparr>transfers := transfers st @ [t]\<rparr>
         | Delete_Instance i \<Rightarrow> st\<lparr>transfers := filter (\<lambda>t. at_index t \<noteq> i) (transfers st)\<rparr>))"

subsection \<open>No transfer is lost\<close>

text \<open>What still has to happen for the transfer with index \<open>i\<close> at the address \<open>a\<close>.\<close>

definition timer_for :: "nat \<Rightarrow> addr \<Rightarrow> u32 \<times> ft_timer \<Rightarrow> bool" where
  "timer_for i a x = (case snd x of Start_Request r \<Rightarrow> fr_data r = i | Download_Timer b \<Rightarrow> b = a | Upload_Timer g \<Rightarrow> fa_index g = i)"

definition pending :: "ft \<Rightarrow> nat \<Rightarrow> addr \<Rightarrow> bool" where
  "pending st i a \<longleftrightarrow> (\<exists>x\<in>set (ft_timers st). timer_for i a x) \<or> (\<exists>r\<in>set (ftx_sent st). fr_data r = i)
   \<or> (\<exists>g\<in>set (selftest_requests st). fa_index g = i) \<or> (\<exists>u\<in>set (upload_requests st). uc_index u = i)
   \<or> a \<in> set (fw_subscriptions st)"

definition supported_upload :: "ft_args \<Rightarrow> bool" where
  "supported_upload g \<longleftrightarrow> (\<exists>f. fa_FileType g = Some f \<and>
     (strstr f ''2 Vendor Log File'' \<noteq> None \<or> strstr f ''4 Vendor Log File'' \<noteq> None \<or>
      strstr f ''1 Vendor Configuration File'' \<noteq> None \<or> strstr f ''3 Vendor Configuration File'' \<noteq> None))"

text \<open>Instances are known by index and address, one each.\<close>

definition keys :: "ft \<Rightarrow> (nat \<times> addr) list" where
  "keys st = map (\<lambda>t. (at_index t, at_addr t)) (transfers st)"

definition table_ok :: "ft \<Rightarrow> nat \<Rightarrow> addr \<Rightarrow> bool" where
  "table_ok st i a \<longleftrightarrow> (i, a) \<in> set (keys st) \<and> (\<forall>x\<in>set (keys st). fst x = i \<longleftrightarrow> snd x = a)"

definition finished :: "ft \<Rightarrow> nat \<Rightarrow> bool" where
  "finished st i \<longleftrightarrow> (\<forall>t\<in>set (transfers st). at_index t = i \<longrightarrow> Status t = ''Finished'')"

definition uploads_ok :: "nat \<Rightarrow> ft \<Rightarrow> bool" where
  "uploads_ok i st \<longleftrightarrow>
     (\<forall>x\<in>set (ft_timers st). case snd x of Upload_Timer g \<Rightarrow> fa_index g = i \<longrightarrow> supported_upload g | _ \<Rightarrow> True)"

definition healthy :: "ft_env \<Rightarrow> bool" where
  "healthy env \<longleftrightarrow> fe_trans_ok env \<and> fe_timer_ok env \<and> fe_bus env \<and> fe_async_ok env"

definition ft_ok :: "nat \<Rightarrow> addr \<Rightarrow> ft \<Rightarrow> ft_env \<times> ft_event \<Rightarrow> bool" where
  "ft_ok i a st ee \<longleftrightarrow> healthy (fst ee) \<and>
     (case snd ee of
        Add g \<Rightarrow> \<not> fa_IsDownload g \<longrightarrow> fa_index g = i \<longrightarrow> supported_upload g
      | New_Instance t \<Rightarrow> at_index t \<noteq> i \<and> at_addr t \<noteq> a
      | Delete_Instance j \<Rightarrow> j \<noteq> i
      | _ \<Rightarrow> True)"

lemma find_transfer_Some: "table_ok st i a \<Longrightarrow> find_transfer i st \<noteq> None"
  by (auto simp: table_ok_def keys_def find_transfer_def find_None_iff)

lemma table_ok_cong: "keys st = keys st' \<Longrightarrow> table_ok st i a = table_ok st' i a"
  by (simp add: table_ok_def)

lemma table_ok_addr: "table_ok st i a \<Longrightarrow> t \<in> set (transfers st) \<Longrightarrow> at_index t = i \<longleftrightarrow> at_addr t = a"
  by (auto simp: table_ok_def keys_def)

lemma table_ok_mem: "table_ok st i a \<Longrightarrow> a \<in> at_addr ` set (transfers st)"
  by (auto simp: table_ok_def keys_def image_iff)

text \<open>The two updates of an instance change neither the keys nor what is pending.\<close>

abbreviation "queues st \<equiv> (ft_timers st, ftx_sent st, selftest_requests st, upload_requests st, fw_subscriptions st)"

lemma pending_cong: "queues st = queues st' \<Longrightarrow> pending st i a = pending st' i a"
  by (simp add: pending_def)

lemma apply_update_simps [simp]:
  "at_index (apply_update s x y c t) = at_index t" "at_addr (apply_update s x y c t) = at_addr t"
  "Status (apply_update s x y c t) = (case s of None \<Rightarrow> Status t | Some s \<Rightarrow> s)"
  by (simp_all add: apply_update_def)

lemma set_transfer_kept:
  "queues (set_transfer P f st) = queues st"
  "(\<And>t. at_index (f t) = at_index t \<and> at_addr (f t) = at_addr t) \<Longrightarrow> keys (set_transfer P f st) = keys st"
  by (auto simp: set_transfer_def keys_def)

lemma update_status_kept:
  "queues (transfer_update_status env j s x y c m st) = queues st"
  "keys (transfer_update_status env j s x y c m st) = keys st"
  unfolding transfer_update_status_def using set_transfer_kept(1) by (auto simp: set_transfer_kept(2))

lemma update_obj_kept:
  "queues (update_transfer_obj env b s x y c st) = queues st"
  "keys (update_transfer_obj env b s x y c st) = keys st"
proof -
  show "queues (update_transfer_obj env b s x y c st) = queues st"
    using set_transfer_kept(1) by (simp add: update_transfer_obj_def)
  have "keys (st\<lparr>bad_access := True\<rparr>) = keys st" by (simp add: keys_def)
  moreover have "keys (set_transfer P (apply_update s x y c) st) = keys st" for P by (rule set_transfer_kept(2)) simp
  ultimately show "keys (update_transfer_obj env b s x y c st) = keys st"
    unfolding update_transfer_obj_def by (simp split: if_split)
qed

lemma set_transfer_finished:
  "(\<And>t. Status (f t) = ''Finished'') \<Longrightarrow> finished (set_transfer (\<lambda>t. at_index t = i) f st) i"
  by (auto simp: set_transfer_def finished_def)

lemma update_status_finished:
  assumes "table_ok st i a" "fe_trans_ok env"
  shows "finished (transfer_update_status env i ''Finished'' x y c m st) i"
proof -
  have "\<not> (find_transfer i st = None \<or> \<not> fe_trans_ok env)" using find_transfer_Some [OF assms(1)] assms(2) by simp
  then show ?thesis unfolding transfer_update_status_def by (simp only: if_False) (rule set_transfer_finished, simp)
qed

lemma update_status_keeps_finished:
  "finished st i \<Longrightarrow> finished (transfer_update_status env j ''Finished'' x y c m st) i"
  by (auto simp: transfer_update_status_def set_transfer_def finished_def)

lemma update_obj_finished:
  assumes "table_ok st i a" "fe_trans_ok env"
  shows "finished (update_transfer_obj env a (Some ''Finished'') x y c st) i"
  using assms(2) table_ok_mem [OF assms(1)] table_ok_addr [OF assms(1)]
  by (auto simp: update_transfer_obj_def set_transfer_def finished_def)

lemma update_obj_keeps_finished:
  assumes "table_ok st i a" "finished st i" "b \<noteq> a \<or> s = Some ''Finished''"
  shows "finished (update_transfer_obj env b s x y c st) i"
proof (cases "s = Some ''Finished''")
  case True
  then show ?thesis using assms(2) by (auto simp: update_transfer_obj_def set_transfer_def finished_def)
next
  case False
  then have "b \<noteq> a" using assms(3) by simp
  then show ?thesis using assms(2) table_ok_addr [OF assms(1)]
    by (fastforce simp: update_transfer_obj_def set_transfer_def finished_def)
qed

text \<open>A state in which the transfer is followed up; the timers for uploads are checked apart.\<close>

definition tracked :: "nat \<Rightarrow> addr \<Rightarrow> ft \<Rightarrow> bool" where
  "tracked i a st \<longleftrightarrow> table_ok st i a \<and> (pending st i a \<or> finished st i)"

lemma tracked_transfers_kept:
  "transfers st' = transfers st \<Longrightarrow> (pending st i a \<Longrightarrow> pending st' i a) \<Longrightarrow> tracked i a st \<Longrightarrow> tracked i a st'"
  by (auto simp: tracked_def table_ok_def keys_def finished_def)

lemma tracked_update_status:
  "tracked i a st \<Longrightarrow> tracked i a (transfer_update_status env j ''Finished'' x y c m st)"
  using pending_cong [OF update_status_kept(1)] table_ok_cong [OF update_status_kept(2)]
  by (auto simp: tracked_def update_status_keeps_finished)

lemma tracked_status_finished:
  "table_ok st i a \<Longrightarrow> fe_trans_ok env \<Longrightarrow> tracked i a (transfer_update_status env i ''Finished'' x y c m st)"
  using table_ok_cong [OF update_status_kept(2)] by (auto simp: tracked_def update_status_finished)

lemma tracked_update_obj:
  "tracked i a st \<Longrightarrow> b \<noteq> a \<or> s = Some ''Finished'' \<Longrightarrow> tracked i a (update_transfer_obj env b s x y c st)"
  using pending_cong [OF update_obj_kept(1)] table_ok_cong [OF update_obj_kept(2)]
  by (auto simp: tracked_def update_obj_keeps_finished)

lemma tracked_obj_finished:
  "table_ok st i a \<Longrightarrow> fe_trans_ok env \<Longrightarrow> tracked i a (update_transfer_obj env a (Some ''Finished'') x y c st)"
  using table_ok_cong [OF update_obj_kept(2)] by (auto simp: tracked_def update_obj_finished)

text \<open>A list of callbacks is emptied of an entry that belongs to another transfer, or the transfer is finished.\<close>

lemma tracked_finished:
  "table_ok st i a \<Longrightarrow> finished st i \<Longrightarrow> tracked i a st"
  by (simp add: tracked_def)

definition upload_settled :: "nat \<Rightarrow> addr \<Rightarrow> ft \<Rightarrow> bool" where
  "upload_settled i a st \<longleftrightarrow> table_ok st i a \<and> (finished st i \<or> (\<exists>u\<in>set (upload_requests st). uc_index u = i))"

lemma settled_tracked: "upload_settled i a st \<Longrightarrow> tracked i a st"
  by (auto simp: upload_settled_def tracked_def pending_def)

lemma settled_status_finished:
  "table_ok st i a \<Longrightarrow> fe_trans_ok env \<Longrightarrow> upload_settled i a (transfer_update_status env i ''Finished'' x y c m st)"
  using table_ok_cong [OF update_status_kept(2)] by (auto simp: upload_settled_def update_status_finished)

lemma bus_log_kept:
  "tracked i a (st\<lparr>bus_log := l\<rparr>) = tracked i a st" "table_ok (st\<lparr>bus_log := l\<rparr>) i a = table_ok st i a"
  by (simp_all add: tracked_def table_ok_def keys_def pending_def finished_def)

lemma call_upload_settled:
  assumes "table_ok st i a" "fa_index g = i" "\<And>s. table_ok s i a \<Longrightarrow> upload_settled i a (failed s)"
  shows "upload_settled i a (call_upload env obj m g failed st)"
proof -
  have "upload_settled i a (st\<lparr>bus_log := l, upload_requests := upload_requests st @ [u]\<rparr>)" if "uc_index u = i" for l u
    using assms(1) that by (simp add: upload_settled_def table_ok_def keys_def)
  then show ?thesis using assms by (simp add: call_upload_def Let_def bus_log_kept)
qed

lemma call_upload_tracked:
  assumes "tracked i a st" "\<And>s. tracked i a s \<Longrightarrow> tracked i a (failed s)"
  shows "tracked i a (call_upload env obj m g failed st)"
proof -
  have "tracked i a (st\<lparr>bus_log := l, upload_requests := upload_requests st @ [u]\<rparr>)" for l u
    by (rule tracked_transfers_kept [OF _ _ assms(1)]) (auto simp: pending_def)
  then show ?thesis using assms by (simp add: call_upload_def Let_def bus_log_kept)
qed

lemma selftest_done_settled:
  assumes "table_ok st i a" "fa_index g = i" "i \<noteq> 0" "fe_trans_ok env"
  shows "upload_settled i a (filetransfer_upload_selftest_call_done env req status g st)"
proof -
  let ?f = "transfer_update_status env i ''Finished'' (Ts (fe_now env)) (Ts (fe_now env)) 9002 (Some ''Internal error'')"
  have f: "table_ok s i a \<Longrightarrow> upload_settled i a (?f s)" for s using settled_status_finished assms(4) by blast
  have "upload_settled i a (s\<lparr>selftest_requests := l\<rparr>) = upload_settled i a s" for s l
    by (simp add: upload_settled_def table_ok_def keys_def finished_def)
  then show ?thesis using assms f [OF assms(1)] call_upload_settled [OF assms(1, 2) f]
    by (simp add: filetransfer_upload_selftest_call_done_def Let_def split: option.split)
qed

lemma ex_remove1: "f r \<noteq> i \<Longrightarrow> (\<exists>x\<in>set (remove1 r xs). f x = i) \<longleftrightarrow> (\<exists>x\<in>set xs. f x = i)"
  by (induction xs) auto

lemma selftest_done_tracked:
  assumes "tracked i a st" "\<And>r. req = Some r \<Longrightarrow> fa_index r \<noteq> i"
  shows "tracked i a (filetransfer_upload_selftest_call_done env req status g st)"
proof -
  let ?f = "transfer_update_status env (fa_index g) ''Finished'' (Ts (fe_now env)) (Ts (fe_now env)) 9002 (Some ''Internal error'')"
  have rm: "tracked i a (s\<lparr>selftest_requests := remove1 r (selftest_requests s)\<rparr>)" if "tracked i a s" "fa_index r \<noteq> i" for s r
    by (rule tracked_transfers_kept [OF _ _ that(1)])
      (use ex_remove1 [of fa_index r i, OF that(2)] in \<open>simp_all add: pending_def\<close>)
  show ?thesis using assms tracked_update_status [OF assms(1)] call_upload_tracked [OF assms(1) tracked_update_status]
    by (auto simp: filetransfer_upload_selftest_call_done_def Let_def rm split: option.split)
qed

lemma config_file_settled:
  assumes "table_ok st i a" "fa_index g = i" "i \<noteq> 0" "fe_trans_ok env"
  shows "upload_settled i a (upload_vendor_config_file env g st)"
  using call_upload_settled [OF assms(1, 2) settled_status_finished] assms(2-4)
  by (simp add: upload_vendor_config_file_def)

lemma config_file_tracked: "tracked i a st \<Longrightarrow> tracked i a (upload_vendor_config_file env g st)"
  by (simp add: upload_vendor_config_file_def call_upload_tracked tracked_update_status)

lemma upload_prepare_own:
  assumes "table_ok st i a" "fa_index g = i" "i \<noteq> 0" "healthy env" "supported_upload g"
  shows "tracked i a (filetransfer_upload_prepare env g st)"
proof -
  obtain f where f: "fa_FileType g = Some f" using assms(5) by (auto simp: supported_upload_def)
  have "f \<noteq> []" using f assms(5) by (auto simp: supported_upload_def)
  have e: "fe_trans_ok env" "fe_bus env" "fe_async_ok env" using assms(4) by (auto simp: healthy_def)
  have "tracked i a (st\<lparr>selftest_requests := selftest_requests st @ [g]\<rparr>)"
    using assms(1, 2) by (simp add: tracked_def table_ok_def keys_def pending_def)
  then show ?thesis
    using f \<open>f \<noteq> []\<close> e assms(5) settled_tracked [OF selftest_done_settled [OF assms(1-3) e(1)]]
      settled_tracked [OF config_file_settled [OF assms(1-3) e(1)]]
    by (auto simp: filetransfer_upload_prepare_def supported_upload_def Let_def)
qed

lemma upload_prepare_other: "tracked i a st \<Longrightarrow> tracked i a (filetransfer_upload_prepare env g st)"
proof -
  assume t: "tracked i a st"
  have "tracked i a (st\<lparr>selftest_requests := selftest_requests st @ [g]\<rparr>)"
    by (rule tracked_transfers_kept [OF _ _ t]) (auto simp: pending_def)
  then show ?thesis using t selftest_done_tracked [OF t, of None] config_file_tracked [OF t]
    by (simp add: filetransfer_upload_prepare_def Let_def)
qed

lemma tracked_table_ok: "tracked i a st \<Longrightarrow> table_ok st i a"
  by (simp add: tracked_def)

text \<open>Firing the timer of another transfer leaves what is pending, except that timer.\<close>

lemma ex_drop_nth:
  assumes "k < length xs" "\<not> P (xs ! k)"
  shows "(\<exists>x\<in>set (take k xs @ drop (Suc k) xs). P x) \<longleftrightarrow> (\<exists>x\<in>set xs. P x)"
proof -
  have "set xs = insert (xs ! k) (set (take k xs @ drop (Suc k) xs))"
    using arg_cong [OF id_take_nth_drop [OF assms(1)], of set] by simp
  then show ?thesis using assms(2) by auto
qed

lemma timer_removed:
  assumes "tracked i a st" "k < length (ft_timers st)" "\<not> timer_for i a (ft_timers st ! k)"
  shows "tracked i a (st\<lparr>ft_timers := take k (ft_timers st) @ drop (Suc k) (ft_timers st)\<rparr>)"
  by (rule tracked_transfers_kept [OF _ _ assms(1)])
    (use ex_drop_nth [OF assms(2), of "timer_for i a", OF assms(3)] in \<open>simp_all add: pending_def\<close>)

lemma firmware_upgrade_kept:
  "keys (snd (firmware_upgrade env b st)) = keys st" "finished (snd (firmware_upgrade env b st)) i = finished st i"
  by (auto simp: firmware_upgrade_def firmwareimage_add_subscription_def firmwareimage_download_def keys_def finished_def Let_def
      split: option.splits if_splits)

lemma firmware_upgrade_pending: "pending st i a \<Longrightarrow> pending (snd (firmware_upgrade env b st)) i a"
  by (auto simp: firmware_upgrade_def firmwareimage_add_subscription_def firmwareimage_download_def pending_def Let_def
      split: option.splits if_splits)

lemma firmware_upgrade_subscribed: "fst (firmware_upgrade env b st) = 0 \<Longrightarrow> b \<in> set (fw_subscriptions (snd (firmware_upgrade env b st)))"
  by (auto simp: firmware_upgrade_def firmwareimage_add_subscription_def firmwareimage_download_def Let_def
      split: option.splits if_splits)

lemma saves_kept: "tracked i a (st\<lparr>dm_saves := n\<rparr>) = tracked i a st"
  by (simp add: tracked_def table_ok_def keys_def finished_def pending_def)

lemma del_subscription_finished: "table_ok st i a \<Longrightarrow> finished st i \<Longrightarrow> tracked i a (firmwareimage_del_subscription b st)"
  by (simp add: tracked_def firmwareimage_del_subscription_def table_ok_def keys_def finished_def)

lemma del_subscription_other: "tracked i a st \<Longrightarrow> b \<noteq> a \<Longrightarrow> tracked i a (firmwareimage_del_subscription b st)"
  by (erule tracked_transfers_kept [rotated 2]) (auto simp: firmwareimage_del_subscription_def pending_def)

lemma download_timer_own:
  assumes "table_ok st i a" "fe_trans_ok env"
  shows "tracked i a (download_timer_cb env a st)"
proof -
  let ?s1 = "update_transfer_obj env a (Some ''Applying'') None None None st"
  let ?s2 = "snd (firmware_upgrade env a ?s1)"
  have t: "table_ok ?s2 i a"
    using assms(1) table_ok_cong [OF update_obj_kept(2)] table_ok_cong [OF firmware_upgrade_kept(1)] by blast
  have "tracked i a ?s2" if "fst (firmware_upgrade env a ?s1) = 0"
    using firmware_upgrade_subscribed [OF that] t by (simp add: tracked_def pending_def)
  moreover have "tracked i a (firmwareimage_del_subscription a (update_transfer_obj env a (Some ''Finished'') None None (Some 9002) ?s2))"
    using del_subscription_finished update_obj_finished [OF t assms(2)] table_ok_cong [OF update_obj_kept(2)] t by blast
  ultimately show ?thesis by (auto simp: download_timer_cb_def Let_def saves_kept split: prod.split)
qed

lemma download_timer_other:
  assumes "tracked i a st" "b \<noteq> a"
  shows "tracked i a (download_timer_cb env b st)"
proof -
  let ?s1 = "update_transfer_obj env b (Some ''Applying'') None None None st"
  let ?s2 = "snd (firmware_upgrade env b ?s1)"
  have 1: "tracked i a ?s1" using tracked_update_obj assms by blast
  then have 2: "tracked i a ?s2"
    using firmware_upgrade_pending table_ok_cong [OF firmware_upgrade_kept(1)] firmware_upgrade_kept(2) by (auto simp: tracked_def)
  then have "tracked i a (firmwareimage_del_subscription b (update_transfer_obj env b (Some ''Finished'') None None (Some 9002) ?s2))"
    using del_subscription_other tracked_update_obj assms(2) by blast
  then show ?thesis using 2 by (auto simp: download_timer_cb_def Let_def saves_kept split: prod.split)
qed

lemma fire_timer_tracked:
  assumes "tracked i a st" "i \<noteq> 0" "healthy env" "uploads_ok i st"
  shows "tracked i a (fire_timer env k st)"
proof (cases "k < length (ft_timers st)")
  case True
  let ?st = "st\<lparr>ft_timers := take k (ft_timers st) @ drop (Suc k) (ft_timers st)\<rparr>"
  let ?x = "ft_timers st ! k"
  have ok: "table_ok ?st i a" using assms(1) by (simp add: tracked_def table_ok_def keys_def)
  have e: "fe_trans_ok env" using assms(3) by (simp add: healthy_def)
  have other: "tracked i a ?st" if "\<not> timer_for i a ?x" using timer_removed assms(1) True that by blast
  have mem: "?x \<in> set (ft_timers st)" using True by simp
  show ?thesis
  proof (cases "snd ?x")
    case (Start_Request r)
    have "tracked i a (start_timer_cb r ?st)"
    proof (cases "fr_data r = i")
      case True
      then show ?thesis using ok by (simp add: tracked_def start_timer_cb_def table_ok_def keys_def pending_def)
    next
      case False
      then have "tracked i a ?st" using other Start_Request by (simp add: timer_for_def)
      then show ?thesis by (rule tracked_transfers_kept [rotated 2]) (auto simp: start_timer_cb_def pending_def)
    qed
    then show ?thesis using True Start_Request by (simp add: fire_timer_def)
  next
    case (Download_Timer b)
    then show ?thesis using True download_timer_own [OF ok e] download_timer_other [OF other]
      by (cases "b = a") (simp_all add: fire_timer_def timer_for_def)
  next
    case (Upload_Timer g)
    have "supported_upload g" if "fa_index g = i" using assms(4) mem Upload_Timer that by (force simp: uploads_ok_def)
    then show ?thesis using True Upload_Timer upload_prepare_own [OF ok _ assms(2, 3)] upload_prepare_other [OF other]
      by (cases "fa_index g = i") (simp_all add: fire_timer_def timer_for_def filetransfer_upload_cb_def)
  qed
qed (use assms in \<open>simp add: fire_timer_def\<close>)

lemma download_finished_tracked: "tracked i a (filetransfer_download_finished env j st) = tracked i a st"
proof -
  have "tracked i a (st\<lparr>tasks := l\<rparr>) = tracked i a st" for l
    by (simp add: tracked_def table_ok_def keys_def finished_def pending_def)
  then show ?thesis by (simp add: filetransfer_download_finished_def filetransfer_run_task_def split: option.split)
qed

lemma request_cb_tracked:
  assumes "tracked i a st" "fe_trans_ok env"
  shows "tracked i a (filetransfer_request_cb env r code reason s f st)"
proof -
  let ?s1 = "if code = 0 then filetransfer_download_finished env (fr_data r) st else st"
  let ?s2 = "transfer_update_status env (fr_data r) ''Finished'' s f code reason ?s1"
  have 1: "tracked i a ?s1" using assms(1) by (simp add: download_finished_tracked)
  then have 2: "tracked i a ?s2" by (rule tracked_update_status)
  have "tracked i a (?s2\<lparr>ftx_sent := remove1 r (ftx_sent ?s2)\<rparr>)"
  proof (cases "fr_data r = i")
    case True
    then have "finished ?s2 i" using update_status_finished [OF tracked_table_ok [OF 1] assms(2)] by simp
    then show ?thesis using tracked_table_ok [OF 2] by (simp add: tracked_def table_ok_def keys_def finished_def)
  next
    case False
    show ?thesis by (rule tracked_transfers_kept [OF _ _ 2])
      (use ex_remove1 [of fr_data r i, OF False] in \<open>simp_all add: pending_def\<close>)
  qed
  then show ?thesis by (simp add: filetransfer_request_cb_def Let_def)
qed

lemma upload_complete_tracked:
  assumes "tracked i a st" "fe_trans_ok env"
  shows "tracked i a (filetransfer_upload_complete_notification env d st)"
proof -
  have "tracked i a (s'\<lparr>upload_requests := remove1 u (upload_requests s')\<rparr>)"
    if s': "s' = transfer_update_status env (uc_index u) ''Finished'' x y c m st" for u s' x y c m
  proof (cases "uc_index u = i")
    case True
    then have "finished s' i" using update_status_finished [OF tracked_table_ok [OF assms(1)] assms(2)] s' by simp
    moreover have "table_ok s' i a" using tracked_update_status [OF assms(1)] s' by (simp add: tracked_def)
    ultimately show ?thesis by (simp add: tracked_def table_ok_def keys_def finished_def)
  next
    case False
    have "tracked i a s'" using tracked_update_status [OF assms(1)] s' by simp
    then show ?thesis
      by (rule tracked_transfers_kept [rotated 2]) (use ex_remove1 [of uc_index u i, OF False] in \<open>simp_all add: pending_def\<close>)
  qed
  then show ?thesis using assms(1)
    by (simp add: filetransfer_upload_complete_notification_def Let_def split: option.split)
qed

lemma firmware_notification_tracked:
  assumes "tracked i a st" "fe_trans_ok env"
  shows "tracked i a (firmwareimage_notification_ft env b s l st)"
proof -
  have "tracked i a (firmwareimage_del_subscription b (update_transfer_obj env b (Some ''Finished'') x y c st))" for x y c
  proof (cases "b = a")
    case True
    then show ?thesis
      using del_subscription_finished update_obj_finished [OF tracked_table_ok [OF assms(1)] assms(2)]
        tracked_table_ok [OF tracked_update_obj [OF assms(1)]] by blast
  next
    case False
    then show ?thesis using del_subscription_other tracked_update_obj [OF assms(1)] by blast
  qed
  then show ?thesis using assms(1) by (simp add: firmwareimage_notification_ft_def Let_def split: option.split)
qed

lemma timer_added:
  assumes "tracked i a st"
  shows "tracked i a (st\<lparr>ft_timers := ft_timers st @ [x]\<rparr>)"
  by (rule tracked_transfers_kept [OF _ _ assms]) (auto simp: pending_def)

lemma timer_added_own:
  assumes "table_ok st i a" "timer_for i a x"
  shows "tracked i a (st\<lparr>ft_timers := ft_timers st @ [x]\<rparr>)" "pending (st\<lparr>ft_timers := ft_timers st @ [x]\<rparr>) i a"
  using assms by (simp_all add: tracked_def pending_def table_ok_def keys_def)

lemma set_target_file_kept:
  assumes "filetransfer_download_set_target_file g r st = (r', st')"
  shows "fr_data r' = fr_data r" "tracked i a st' = tracked i a st" "table_ok st' i a = table_ok st i a" "ft_timers st' = ft_timers st"
proof -
  have m: "(\<forall>t\<in>set (map h xs). Q t) \<longleftrightarrow> (\<forall>t\<in>set xs. Q (h t))" for h Q and xs :: "acs_transfer list" by simp
  have f: "finished (set_transfer P (\<lambda>x. x\<lparr>SaveFileName := n\<rparr>) st) i = finished st i" for P n
    unfolding finished_def set_transfer_def by (simp del: set_map add: m)
  have k: "keys (set_transfer P (\<lambda>x. x\<lparr>SaveFileName := n\<rparr>) st) = keys st" for P n by (rule set_transfer_kept(2)) simp
  show "fr_data r' = fr_data r" using assms by (auto simp: filetransfer_download_set_target_file_def Let_def split: option.splits)
  have "st' = st \<or> (\<exists>P n. st' = set_transfer P (\<lambda>x. x\<lparr>SaveFileName := n\<rparr>) st)"
    using assms unfolding filetransfer_download_set_target_file_def Let_def by (auto split: option.splits)
  then show "tracked i a st' = tracked i a st" "table_ok st' i a = table_ok st i a" "ft_timers st' = ft_timers st"
    using f table_ok_cong [OF k] pending_cong [OF set_transfer_kept(1)] set_transfer_kept(1)
    unfolding tracked_def by (metis, metis, metis prod.inject)
qed

lemma AddTransfer_tracked:
  assumes "tracked i a st" "fe_timer_ok env"
  shows "tracked i a (snd (AddTransfer env (Some g) st))"
proof -
  consider (fw) "fa_IsDownload g" "fa_FileType g = Some ''1 Firmware Upgrade Image''"
    | (ftx) "fa_IsDownload g" "fa_FileType g \<noteq> Some ''1 Firmware Upgrade Image''" | (up) "\<not> fa_IsDownload g" by blast
  then show ?thesis
  proof cases
    case fw
    have "tracked i a (update_transfer_obj env b (Some ''Applying'') None None None
            (st\<lparr>ft_timers := ft_timers st @ [(d, Download_Timer b)]\<rparr>))" for b d
    proof (cases "b = a")
      case True
      then have "pending (st\<lparr>ft_timers := ft_timers st @ [(d, Download_Timer b)]\<rparr>) i a"
        using timer_added_own(2) [OF tracked_table_ok [OF assms(1)]] by (simp add: timer_for_def)
      then show ?thesis
        using pending_cong [OF update_obj_kept(1)] table_ok_cong [OF update_obj_kept(2)] tracked_table_ok [OF timer_added [OF assms(1)]]
        unfolding tracked_def by blast
    qed (use tracked_update_obj [OF timer_added [OF assms(1)]] in blast)
    then show ?thesis using fw assms timer_added [OF assms(1)]
      by (auto simp: AddTransfer_def filetransfer_request_prepare_def Let_def saves_kept split: option.split)
  next
    case ftx
    then show ?thesis using assms set_target_file_kept(2)
      by (auto simp: AddTransfer_def filetransfer_request_prepare_def start_filetransfer_request_def timer_added
          split: option.split prod.split)
  next
    case up
    then show ?thesis using assms timer_added
      by (simp add: AddTransfer_def filetransfer_request_prepare_def filetransfer_upload_start_def)
  qed
qed

lemma AddTransfer_starts:
  assumes "table_ok st i a" "fe_timer_ok env" "fa_index g = i" "AddTransfer env (Some g) st = (True, st')"
  shows "tracked i a st'"
proof -
  consider (fw) "fa_IsDownload g" "fa_FileType g = Some ''1 Firmware Upgrade Image''"
    | (ftx) "fa_IsDownload g" "fa_FileType g \<noteq> Some ''1 Firmware Upgrade Image''" | (up) "\<not> fa_IsDownload g" by blast
  then show ?thesis
  proof cases
    case fw
    obtain t where t: "find_transfer i st = Some t" using find_transfer_Some [OF assms(1)] by auto
    then have "t \<in> set (transfers st)" "at_index t = i" by (auto simp: find_transfer_def find_Some_iff)
    then have a: "at_addr t = a" using table_ok_addr [OF assms(1)] by simp
    let ?s = "\<lambda>d. st\<lparr>ft_timers := ft_timers st @ [(d, Download_Timer a)]\<rparr>"
    have p: "tracked i a (?s d)" "pending (?s d) i a" for d
      using timer_added_own [OF assms(1), of "(d, Download_Timer a)"] by (simp_all add: timer_for_def)
    then have "tracked i a (update_transfer_obj env a (Some ''Applying'') None None None (?s d))" for d
      using pending_cong [OF update_obj_kept(1)] table_ok_cong [OF update_obj_kept(2)] unfolding tracked_def by blast
    then show ?thesis using fw assms(2-4) t a p
      by (auto simp: AddTransfer_def filetransfer_request_prepare_def get_transfer_obj_by_index_def Let_def saves_kept split: if_splits)
  next
    case ftx
    then show ?thesis using assms set_target_file_kept(1, 3)
      by (auto simp: AddTransfer_def filetransfer_request_prepare_def start_filetransfer_request_def
          filetransfer_set_common_data_def timer_for_def intro!: timer_added_own(1) split: option.splits prod.splits if_splits)
  next
    case up
    then show ?thesis using assms
      by (auto simp: AddTransfer_def filetransfer_request_prepare_def filetransfer_upload_start_def timer_for_def
          intro!: timer_added_own(1))
  qed
qed

definition not_lost :: "nat \<Rightarrow> addr \<Rightarrow> ft \<Rightarrow> bool" where
  "not_lost i a st \<longleftrightarrow> i \<noteq> 0 \<and> tracked i a st \<and> uploads_ok i st"

lemma timers_kept:
  "ft_timers (transfer_update_status env j s x y c m st) = ft_timers st"
  "ft_timers (update_transfer_obj env b ss x' y' c' st) = ft_timers st"
  "ft_timers (firmwareimage_del_subscription b st) = ft_timers st"
  "ft_timers (filetransfer_download_finished env j st) = ft_timers st"
  using update_status_kept(1) update_obj_kept(1)
  by (simp_all add: firmwareimage_del_subscription_def filetransfer_download_finished_def filetransfer_run_task_def
      split: option.split)

lemma call_upload_timers:
  "(\<And>s. ft_timers (failed s) = ft_timers s) \<Longrightarrow> ft_timers (call_upload env obj m g failed st) = ft_timers st"
  by (simp add: call_upload_def Let_def)

lemma upload_prepare_timers: "ft_timers (filetransfer_upload_prepare env g st) = ft_timers st"
  by (simp add: filetransfer_upload_prepare_def filetransfer_upload_selftest_call_done_def upload_vendor_config_file_def Let_def
      call_upload_timers timers_kept)

lemma firmware_upgrade_timers: "ft_timers (snd (firmware_upgrade env b st)) = ft_timers st"
  by (auto simp: firmware_upgrade_def firmwareimage_add_subscription_def firmwareimage_download_def Let_def
      split: option.splits)

lemma uploads_ok_subset: "set (ft_timers st') \<subseteq> set (ft_timers st) \<Longrightarrow> uploads_ok i st \<Longrightarrow> uploads_ok i st'"
  by (auto simp: uploads_ok_def)

lemma download_timer_timers: "ft_timers (download_timer_cb env b st) = ft_timers st"
proof -
  obtain r s2 where u: "firmware_upgrade env b (update_transfer_obj env b (Some ''Applying'') None None None st) = (r, s2)"
    by (metis surj_pair)
  have "ft_timers s2 = ft_timers st" using arg_cong [OF u, of "\<lambda>x. ft_timers (snd x)"] by (simp add: firmware_upgrade_timers timers_kept)
  then show ?thesis by (simp add: download_timer_cb_def Let_def u timers_kept)
qed

lemma fire_timer_timers: "set (ft_timers (fire_timer env k st)) \<subseteq> set (ft_timers st)"
proof -
  have "set (take k xs @ drop (Suc k) xs) \<subseteq> set xs" for xs :: "(u32 \<times> ft_timer) list"
    using set_take_subset set_drop_subset by (metis Un_least set_append)
  then show ?thesis
    by (simp add: fire_timer_def start_timer_cb_def filetransfer_upload_cb_def upload_prepare_timers download_timer_timers Let_def
        split: ft_timer.split)
qed

lemma uploads_ok_added:
  assumes "uploads_ok i st" "ft_timers st' = ft_timers st @ [x]"
    and "\<And>g. snd x = Upload_Timer g \<Longrightarrow> fa_index g = i \<Longrightarrow> supported_upload g"
  shows "uploads_ok i st'"
  using assms by (auto simp: uploads_ok_def split: ft_timer.splits)

lemma AddTransfer_uploads_ok:
  assumes "uploads_ok i st" "\<not> fa_IsDownload g \<longrightarrow> fa_index g = i \<longrightarrow> supported_upload g"
  shows "uploads_ok i (snd (AddTransfer env (Some g) st))"
proof (cases "fa_IsDownload g")
  case False
  then have "uploads_ok i (st\<lparr>ft_timers := ft_timers st @ [(d, Upload_Timer g)]\<rparr>)" for d
    using assms(2) by (intro uploads_ok_added [OF assms(1)]) auto
  then show ?thesis using assms(1) False
    by (simp add: AddTransfer_def filetransfer_request_prepare_def filetransfer_upload_start_def)
next
  case True
  let ?st' = "snd (AddTransfer env (Some g) st)"
  have "ft_timers ?st' = ft_timers st \<or> (\<exists>x. ft_timers ?st' = ft_timers st @ [x] \<and> (\<forall>h. snd x \<noteq> Upload_Timer h))"
  proof (cases "fa_FileType g = Some ''1 Firmware Upgrade Image''")
    case True
    then show ?thesis using \<open>fa_IsDownload g\<close>
      by (simp add: AddTransfer_def filetransfer_request_prepare_def timers_kept Let_def split: option.split)
  next
    case False
    obtain r st1 where "filetransfer_download_set_target_file g (the (filetransfer_set_common_data env g)) st = (r, st1)"
      by (metis surj_pair)
    then show ?thesis using False \<open>fa_IsDownload g\<close> set_target_file_kept(4) [of g _ st r st1]
      by (auto simp: AddTransfer_def filetransfer_request_prepare_def start_filetransfer_request_def split: option.split)
  qed
  then show ?thesis
    using uploads_ok_added [OF assms(1)] uploads_ok_subset [OF _ assms(1), of ?st'] by (metis order_refl)
qed

lemma ft_step_not_lost:
  assumes "not_lost i a st" "ft_ok i a st ee"
  shows "not_lost i a (ft_step st ee)"
proof -
  obtain env e where ee: "ee = (env, e)" by (cases ee)
  have h: "healthy env" "fe_trans_ok env" "fe_timer_ok env" using assms(2) ee by (auto simp: ft_ok_def healthy_def)
  have n: "i \<noteq> 0" "tracked i a st" "uploads_ok i st" using assms(1) by (auto simp: not_lost_def)
  have "tracked i a (ft_step st ee) \<and> uploads_ok i (ft_step st ee)"
  proof (cases e)
    case (Add g)
    then show ?thesis using AddTransfer_tracked [OF n(2) h(3)] AddTransfer_uploads_ok [OF n(3)] assms(2) ee
      by (simp add: ft_step_def ft_ok_def)
  next
    case (Fire k)
    then show ?thesis using fire_timer_tracked [OF n(2, 1) h(1) n(3)] uploads_ok_subset [OF fire_timer_timers n(3)] ee
      by (simp add: ft_step_def)
  next
    case (Ftx_Done r c m s f)
    then show ?thesis using request_cb_tracked [OF n(2) h(2)] uploads_ok_subset [OF _ n(3)] ee
      by (simp add: ft_step_def filetransfer_request_cb_def Let_def timers_kept)
  next
    case (Selftest_Done g s)
    have "tracked i a (ft_step st ee)"
      using Selftest_Done selftest_done_tracked [OF n(2), of "Some g"] settled_tracked
        selftest_done_settled [OF tracked_table_ok [OF n(2)] _ n(1) h(2)] ee
      by (cases "fa_index g = i") (simp_all add: ft_step_def)
    moreover have "uploads_ok i (ft_step st ee)"
      by (rule uploads_ok_subset [OF _ n(3)])
        (use Selftest_Done ee in \<open>simp add: ft_step_def filetransfer_upload_selftest_call_done_def Let_def timers_kept call_upload_timers\<close>)
    ultimately show ?thesis ..
  next
    case (Upload_Complete d)
    then show ?thesis using upload_complete_tracked [OF n(2) h(2)] uploads_ok_subset [OF _ n(3)] ee
      by (simp add: ft_step_def filetransfer_upload_complete_notification_def Let_def timers_kept split: option.splits)
  next
    case (Firmware_Status b s l)
    then show ?thesis using firmware_notification_tracked [OF n(2) h(2)] uploads_ok_subset [OF _ n(3)] ee
      by (simp add: ft_step_def firmwareimage_notification_ft_def Let_def timers_kept split: option.splits)
  next
    case (New_Instance t)
    then show ?thesis using n assms(2) ee
      by (auto simp: ft_step_def ft_ok_def tracked_def table_ok_def keys_def finished_def pending_def uploads_ok_def)
  next
    case (Delete_Instance j)
    then show ?thesis using n assms(2) ee
      by (auto simp: ft_step_def ft_ok_def tracked_def table_ok_def keys_def finished_def pending_def uploads_ok_def)
  qed
  then show ?thesis using n(1) by (simp add: not_lost_def)
qed

interpretation transfer_tracking: event_system ft_step "ft_ok i a" "not_lost i a" for i a
  by unfold_locales (rule ft_step_not_lost)


definition example_ft_env :: ft_env where
  "example_ft_env =
     \<lparr>fe_now = 100, fe_trans_ok = True, fe_timer_ok = True, fe_ftx_ok = True, fe_alloc_ok = True, fe_task_ok = True, fe_bus = True,
      fe_call_ok = (\<lambda>p m. True), fe_async_ok = True, fe_subscribe_ok = True,
      fe_split_word = (\<lambda>s. []), fe_is_numeric = list_all is_digit\<rparr>"

definition example_transfer :: acs_transfer where
  "example_transfer =
     \<lparr>at_index = 3, at_addr = 7, Initiator = Some ''ACS'', CommandKey = Some ''k'', IsDownload = False,
      FileType = Some ''1 Vendor Configuration File'', FileSize = 0, Url = Some ''http://u'', Username = Some [], Password = Some [],
      TargetFileName = None, SaveFileName = None, Status = ''Initial'', StartTime = Ts 0, CompleteTime = Ts 3600,
      FaultCode = 0, FaultString = None, SubscriptionId = 0\<rparr>"

definition example_ft :: ft where
  "example_ft =
     \<lparr>transfers = [example_transfer], ft_timers = [], ftx_sent = [], selftest_requests = [], upload_requests = [],
      fw_subscriptions = [], tasks = [], bus_log = [], dm_saves = 0, bad_access = False\<rparr>"

definition example_args :: ft_args where
  "example_args =
     \<lparr>fa_index = 3, fa_IsDownload = False, fa_DelaySeconds = 5, fa_FileType = Some ''1 Vendor Configuration File'',
      fa_Url = Some ''http://u'', fa_Username = Some [], fa_Password = Some [], fa_TargetFileName = None, fa_CommandKey = ''k''\<rparr>"


subsection \<open>Where transfers go wrong\<close>

text \<open>
  The number of a vendor file is taken for 1 whenever its first digit is 1, because the two
  literals with the number 1 are searched as substrings: configuration file 12 (or log file 10) is requested, configuration
  file 1 (log file 1) is uploaded. For numbers that start with another digit the fifth word is used, as intended.
\<close>

theorem vendor_index_first_digit:
  assumes "fe_split_word env (''3 Vendor Configuration File '' @ dec_text n) =
             [''3'', '' '', ''Vendor'', '' '', ''Configuration'', '' '', ''File'', '' '', dec_text n]"
    and "fe_is_numeric env (dec_text n)"
  shows "vendorfile_get_index env (Some (''3 Vendor Configuration File '' @ dec_text n)) =
           (if hd (dec_text n) = CHR ''1'' then 1 else int n)"
proof -
  define f where "f = ''3 Vendor Configuration File '' @ dec_text n"
  obtain c r where d: "dec_text n = c # r" by (cases "dec_text n") auto
  have dig: "list_all is_digit (c # r)" using dec_text_digits [of n] d by simp
  have none: "strstr (c # r) x = None" if "CHR '' '' \<in> set x" for x
    by (rule strstr_digits [OF dig]) (rule bexI [OF _ that], simp add: is_digit_def)
  have s: "strstr f ''2 Vendor Log File'' = None" "strstr f ''4 Vendor Log File 1'' = None"
    "strstr f ''1 Vendor Configuration File'' = None" "strstr f ''4 Vendor Log File'' = None"
    "strstr f ''3 Vendor Configuration File 1'' = None \<longleftrightarrow> c \<noteq> CHR ''1''" "strstr f ''3 Vendor Configuration File'' \<noteq> None"
    using none unfolding f_def d by (simp_all del: strstr.simps(2) add: strstr.simps(2) [of _ "_ # _"])
  have "f \<noteq> []" by (simp add: f_def)
  then have "vendorfile_get_index env (Some f) = (if hd (dec_text n) = CHR ''1'' then 1 else int n)"
    using s assms(1) [folded f_def] assms(2) atoi_dec_text [of n] unfolding d
    by (cases "c = CHR ''1''") (simp_all add: vendorfile_get_index_def Let_def)
  then show ?thesis unfolding f_def .
qed

theorem vendor_index_first_digit_witness:
  "\<exists>env. vendorfile_get_index env (Some ''3 Vendor Configuration File 12'') = 1"
proof -
  have d: "dec_text 12 = ''12''" by code_simp
  define env where "env = example_ft_env\<lparr>fe_split_word := (\<lambda>s. [''3'', '' '', ''Vendor'', '' '', ''Configuration'', '' '', ''File'', '' '', ''12''])\<rparr>"
  have "fe_is_numeric env (dec_text 12)" unfolding d env_def by (simp add: example_ft_env_def is_digit_def)
  then show ?thesis using vendor_index_first_digit [of env 12] unfolding d by (auto simp: env_def)
qed

text \<open>An upload with another file type is accepted, does nothing when its timer fires, and is never finished.\<close>

lemma unsupported_upload_lost:
  assumes "fa_FileType g = Some f" "f \<noteq> []" "\<not> supported_upload g"
  shows "filetransfer_upload_cb env g st = st"
proof -
  have "strstr f ''4 Vendor Log File 1'' = None"
  proof (rule ccontr)
    assume "strstr f ''4 Vendor Log File 1'' \<noteq> None"
    then have "sublist ''4 Vendor Log File 1'' f" using strstr_Some_iff by blast
    moreover have "sublist ''4 Vendor Log File'' ''4 Vendor Log File 1''" by (rule prefix_imp_sublist) simp
    ultimately have "strstr f ''4 Vendor Log File'' \<noteq> None" using strstr_Some_iff sublist_order.order_trans by blast
    then show False using assms(1, 3) by (simp add: supported_upload_def)
  qed
  then show ?thesis using assms by (simp add: filetransfer_upload_cb_def filetransfer_upload_prepare_def supported_upload_def Let_def)
qed



end
