(* ===== verification/Subscriptions.thy ===== *)
theory Subscriptions
  imports Prelude
begin

section \<open>Notifications of the device adapter (DM\_AmxCommon.c)\<close>

text \<open>
  The list of bus subscriptions: one per object, each with the infos (unique identifiers) of the
  parameters the engine wants to be notified of. A subscription is its address; \<open>bus\<close> holds the
  addresses for which the bus will call \<open>DM_ENG_Device_Common_NotificationHandler\<close>, \<open>freed_subs\<close> those
  that were freed. The Ambiorix path functions, the hash, the allocator and the bus are fields of
  \<open>sub_env\<close>.
\<close>

subsection \<open>Model\<close>

record sub_info =
  si_parameter :: cstr
  si_uniqueID :: int

record 'cb subscription =
  s_addr :: addr
  s_objectpath :: string
  s_cb :: "'cb option"
  s_infos :: "sub_info list"

record 'cb subs =
  slist :: "'cb subscription list"
  bus :: "addr list"
  freed_subs :: "addr list"

record sub_env =
  se_object :: "string \<Rightarrow> string"
  se_param :: "string \<Rightarrow> cstr"
  se_hash :: "string \<Rightarrow> int"
  se_alloc_info :: bool
  se_alloc_sub :: "addr option"
  se_subscribe :: int
  se_unsubscribe :: int

fun info_find :: "sub_info list \<Rightarrow> int \<Rightarrow> sub_info option" where
  "info_find [] uid = None"
| "info_find (i # is) uid = (if si_uniqueID i = uid then Some i else info_find is uid)"

fun info_take :: "sub_info list \<Rightarrow> int \<Rightarrow> sub_info list" where
  "info_take [] uid = []"
| "info_take (i # is) uid = (if si_uniqueID i = uid then is else i # info_take is uid)"

definition info_append :: "sub_info list \<Rightarrow> sub_info \<Rightarrow> sub_info list" where
  "info_append is i = is @ [i]"

definition DM_ENG_Device_Common_FindSubscriptionByID ::
  "'cb subscription list \<Rightarrow> int \<Rightarrow> 'cb subscription option" where
  "DM_ENG_Device_Common_FindSubscriptionByID list uid = find (\<lambda>s. info_find (s_infos s) uid \<noteq> None) list"

fun DM_ENG_Device_Common_FindSubscription ::
  "'cb subscription list \<Rightarrow> string \<Rightarrow> 'cb subscription option" where
  "DM_ENG_Device_Common_FindSubscription [] path = None"
| "DM_ENG_Device_Common_FindSubscription (s # ss) path =
     (if s_objectpath s = path then Some s else DM_ENG_Device_Common_FindSubscription ss path)"

definition DM_ENG_Device_Common_DeleteSubscriptionInfo :: "'cb subscription \<Rightarrow> int \<Rightarrow> 'cb subscription" where
  "DM_ENG_Device_Common_DeleteSubscriptionInfo s uid = s\<lparr>s_infos := info_take (s_infos s) uid\<rparr>"

fun sub_find_addr :: "'cb subscription list \<Rightarrow> addr \<Rightarrow> 'cb subscription option" where
  "sub_find_addr [] a = None"
| "sub_find_addr (s # ss) a = (if s_addr s = a then Some s else sub_find_addr ss a)"

fun DM_ENG_Device_Common_DeleteSubscriptionFromList ::
  "'cb subscription list \<Rightarrow> addr \<Rightarrow> 'cb subscription list" where
  "DM_ENG_Device_Common_DeleteSubscriptionFromList [] a = []"
| "DM_ENG_Device_Common_DeleteSubscriptionFromList (s # ss) a =
     (if s_addr s = a then ss else s # DM_ENG_Device_Common_DeleteSubscriptionFromList ss a)"

definition sub_append :: "'cb subscription list \<Rightarrow> 'cb subscription \<Rightarrow> 'cb subscription list" where
  "sub_append ss s = ss @ [s]"

definition put_sub :: "'cb subscription \<Rightarrow> 'cb subscription list \<Rightarrow> 'cb subscription list" where
  "put_sub s ss = map (\<lambda>x. if s_addr x = s_addr s then s else x) ss"

text \<open>The call the handler makes for the private pointer of a notification.\<close>

definition DM_ENG_Device_Common_NotificationHandler :: "'cb subs \<Rightarrow> addr \<Rightarrow> ('cb \<times> string) option" where
  "DM_ENG_Device_Common_NotificationHandler st priv =
     (case sub_find_addr (slist st) priv of
        None \<Rightarrow> None
      | Some s \<Rightarrow> (case s_cb s of None \<Rightarrow> None | Some cb \<Rightarrow> Some (cb, s_objectpath s)))"

text \<open>The error exit frees \<open>sub\<close>, also one that was found in the list.\<close>

definition add_error :: "'cb subscription option \<Rightarrow> 'cb subs \<Rightarrow> 'cb subs" where
  "add_error sub st =
     (case sub of None \<Rightarrow> st | Some s \<Rightarrow> st\<lparr>freed_subs := s_addr s # freed_subs st\<rparr>)"

definition new_info :: "sub_env \<Rightarrow> string \<Rightarrow> string \<Rightarrow> sub_info" where
  "new_info env path flt =
     \<lparr>si_parameter = (if last path = CHR ''.'' then Some path else se_param env path),
      si_uniqueID = se_hash env (path @ flt)\<rparr>"

definition DM_ENG_Device_Common_AddSubscription ::
  "sub_env \<Rightarrow> string \<Rightarrow> string \<Rightarrow> 'cb option \<Rightarrow> 'cb subs \<Rightarrow> int \<times> int option \<times> 'cb subs" where
  "DM_ENG_Device_Common_AddSubscription env path flt cb st =
     (let obj = se_object env path;
          sub = DM_ENG_Device_Common_FindSubscription (slist st) obj
      in if obj = ''.'' then (9000, None, add_error sub st)
         else if \<not> se_alloc_info env then (9000, None, add_error sub st)
         else
           (let info = new_info env path flt;
                uid = Some (si_uniqueID info)
            in case sub of
                 Some s \<Rightarrow>
                   (0, uid, st\<lparr>slist := put_sub (s\<lparr>s_infos := info_append (s_infos s) info\<rparr>) (slist st)\<rparr>)
               | None \<Rightarrow>
                   (case se_alloc_sub env of
                      None \<Rightarrow> (9000, uid, st)
                    | Some a \<Rightarrow>
                        (if se_subscribe env \<noteq> 0 then (9000, uid, st\<lparr>freed_subs := a # freed_subs st\<rparr>)
                         else (0, uid, st\<lparr>bus := a # bus st, freed_subs := removeAll a (freed_subs st),
                                slist := sub_append (slist st)
                                  \<lparr>s_addr = a, s_objectpath = obj, s_cb = cb, s_infos = [info]\<rparr>\<rparr>)))))"

definition DM_ENG_Device_Common_DeleteSubscription ::
  "sub_env \<Rightarrow> int \<Rightarrow> 'cb subs \<Rightarrow> int \<times> 'cb subs" where
  "DM_ENG_Device_Common_DeleteSubscription env uid st =
     (case DM_ENG_Device_Common_FindSubscriptionByID (slist st) uid of
        None \<Rightarrow> (9000, st)
      | Some s \<Rightarrow>
          (let s1 = DM_ENG_Device_Common_DeleteSubscriptionInfo s uid;
               st1 = st\<lparr>slist := put_sub s1 (slist st)\<rparr>
           in if s_infos s1 = [] then
                (if se_unsubscribe env \<noteq> 0 then (9000, st1)
                 else (0, st1\<lparr>bus := remove1 (s_addr s1) (bus st1),
                             slist := DM_ENG_Device_Common_DeleteSubscriptionFromList (slist st1) (s_addr s1),
                             freed_subs := s_addr s1 # freed_subs st1\<rparr>))
              else (0, st1)))"

definition DM_ENG_Device_Common_Cleanup_Subscription :: "sub_env option \<Rightarrow> 'cb subs \<Rightarrow> 'cb subs" where
  "DM_ENG_Device_Common_Cleanup_Subscription env st =
     (let st1 = (case env of
                   None \<Rightarrow> st
                 | Some e \<Rightarrow> (if se_unsubscribe e \<noteq> 0 then st
                              else st\<lparr>bus := fold remove1 (map s_addr (slist st)) (bus st)\<rparr>))
      in st1\<lparr>slist := [], freed_subs := map s_addr (slist st) @ freed_subs st1\<rparr>)"

text \<open>\<open>EVENT_DM_FILTER_OBJECT_CHANGED\<close> of DM\_AmxCommon.h.\<close>

definition object_changed_filter :: string where
  "object_changed_filter = ''notification in ['' @ [CHR 0x27] @ ''dm:object-changed'' @ [CHR 0x27] @ '']''"

subsection \<open>The lists\<close>

interpretation infos: keyed_list si_uniqueID info_find info_append info_take
  by unfold_locales (simp_all add: info_append_def)

interpretation sub_addrs: keyed_list s_addr sub_find_addr sub_append DM_ENG_Device_Common_DeleteSubscriptionFromList
  by unfold_locales (simp_all add: sub_append_def)

lemma find_path_Some:
  "DM_ENG_Device_Common_FindSubscription ss path = Some s \<Longrightarrow> s \<in> set ss \<and> s_objectpath s = path"
  by (induction ss) (auto split: if_splits)

lemma find_path_None:
  "DM_ENG_Device_Common_FindSubscription ss path = None \<longleftrightarrow> path \<notin> s_objectpath ` set ss"
  by (induction ss) auto

lemma put_sub_map:
  assumes "distinct (map s_addr ss)" "s \<in> set ss" "s_addr s1 = s_addr s" "f s1 = f s"
  shows "map f (put_sub s1 ss) = map f ss"
proof -
  have "f (if s_addr x = s_addr s1 then s1 else x) = f x" if "x \<in> set ss" for x
    using assms that by (auto simp: distinct_map inj_on_def)
  then show ?thesis by (auto simp: put_sub_def)
qed

definition subs_inv :: "'cb subs \<Rightarrow> bool" where
  "subs_inv st \<longleftrightarrow> distinct (map s_addr (slist st)) \<and> distinct (map s_objectpath (slist st)) \<and>
     distinct (bus st) \<and> set (bus st) = set (map s_addr (slist st)) \<and>
     set (map s_addr (slist st)) \<inter> set (freed_subs st) = {}"

lemma put_sub_inv:
  assumes "subs_inv st" "s \<in> set (slist st)" "s_addr s1 = s_addr s" "s_objectpath s1 = s_objectpath s"
  shows "subs_inv (st\<lparr>slist := put_sub s1 (slist st)\<rparr>)"
proof -
  have d: "distinct (map s_addr (slist st))" using assms(1) by (simp add: subs_inv_def)
  have "map s_addr (put_sub s1 (slist st)) = map s_addr (slist st)"
    "map s_objectpath (put_sub s1 (slist st)) = map s_objectpath (slist st)"
    using put_sub_map [OF d assms(2,3)] assms(3,4) by blast+
  then show ?thesis
    using assms(1) unfolding subs_inv_def by (simp del: set_map)
qed

subsection \<open>The list and the bus stay in step\<close>

datatype 'cb sub_event =
    Sub_add sub_env string string "'cb option"
  | Sub_delete sub_env int
  | Sub_cleanup sub_env

fun sub_step :: "'cb subs \<Rightarrow> 'cb sub_event \<Rightarrow> 'cb subs" where
  "sub_step st (Sub_add env path flt cb) =
     snd (snd (DM_ENG_Device_Common_AddSubscription env path flt cb st))"
| "sub_step st (Sub_delete env uid) = snd (DM_ENG_Device_Common_DeleteSubscription env uid st)"
| "sub_step st (Sub_cleanup env) = DM_ENG_Device_Common_Cleanup_Subscription (Some env) st"

text \<open>Memory does not run out and an allocated address is in use by nobody; the clean-up at exit can
  unsubscribe; no object is the root.\<close>

fun sub_ok :: "'cb subs \<Rightarrow> 'cb sub_event \<Rightarrow> bool" where
  "sub_ok st (Sub_add env path flt cb) =
     (se_alloc_info env \<and> se_object env path \<noteq> ''.'' \<and>
      (\<forall>a. se_alloc_sub env = Some a \<longrightarrow> a \<notin> set (bus st)))"
| "sub_ok st (Sub_delete env uid) = True"
| "sub_ok st (Sub_cleanup env) = (se_unsubscribe env = 0)"

lemma add_inv:
  assumes "subs_inv st" "sub_ok st (Sub_add env path flt cb)"
  shows "subs_inv (sub_step st (Sub_add env path flt cb))"
proof (cases "DM_ENG_Device_Common_FindSubscription (slist st) (se_object env path)")
  case None
  then have "se_object env path \<notin> s_objectpath ` set (slist st)" by (simp add: find_path_None)
  with None assms show ?thesis
    by (auto simp: DM_ENG_Device_Common_AddSubscription_def Let_def subs_inv_def sub_append_def
        split: option.splits)
next
  case (Some s)
  then have "s \<in> set (slist st)" using find_path_Some by blast
  with put_sub_inv [OF assms(1)] Some assms(2) show ?thesis
    by (simp add: DM_ENG_Device_Common_AddSubscription_def Let_def)
qed

lemma find_id_Some:
  "DM_ENG_Device_Common_FindSubscriptionByID ss uid = Some s \<Longrightarrow>
   s \<in> set ss \<and> info_find (s_infos s) uid \<noteq> None"
  by (auto simp: DM_ENG_Device_Common_FindSubscriptionByID_def find_Some_iff)

lemma remove_sub_inv:
  assumes "subs_inv st" "s \<in> set (slist st)"
  shows "subs_inv (st\<lparr>bus := remove1 (s_addr s) (bus st),
    slist := DM_ENG_Device_Common_DeleteSubscriptionFromList (slist st) (s_addr s),
    freed_subs := s_addr s # freed_subs st\<rparr>)"
proof -
  let ?ss = "DM_ENG_Device_Common_DeleteSubscriptionFromList (slist st) (s_addr s)"
  have d: "distinct (map s_addr (slist st))" using assms(1) by (simp add: subs_inv_def)
  have set: "set ?ss = {x \<in> set (slist st). s_addr x \<noteq> s_addr s}" by (rule sub_addrs.set_del [OF d])
  have "distinct (map s_objectpath (DM_ENG_Device_Common_DeleteSubscriptionFromList ss a))"
    if "distinct (map s_objectpath ss)" for ss :: "'a subscription list" and a
    using that
  proof (induction ss)
    case (Cons x xs)
    then show ?case using sub_addrs.set_del_subset [of xs a] by auto
  qed simp
  then have "distinct (map s_objectpath ?ss)" using assms(1) by (simp add: subs_inv_def)
  then show ?thesis
    using assms(1) set sub_addrs.distinct_del [OF d] by (auto simp: subs_inv_def)
qed

lemma delete_inv:
  assumes "subs_inv st"
  shows "subs_inv (sub_step st (Sub_delete env uid))"
proof (cases "DM_ENG_Device_Common_FindSubscriptionByID (slist st) uid")
  case None
  with assms show ?thesis by (simp add: DM_ENG_Device_Common_DeleteSubscription_def)
next
  case (Some s)
  let ?s1 = "DM_ENG_Device_Common_DeleteSubscriptionInfo s uid"
  let ?st1 = "st\<lparr>slist := put_sub ?s1 (slist st)\<rparr>"
  have s: "s \<in> set (slist st)" using find_id_Some [OF Some] by simp
  have a: "s_addr ?s1 = s_addr s" "s_objectpath ?s1 = s_objectpath s"
    by (simp_all add: DM_ENG_Device_Common_DeleteSubscriptionInfo_def)
  have 1: "subs_inv ?st1" using assms s a by (rule put_sub_inv)
  moreover have "?s1 \<in> set (slist ?st1)" using s a by (force simp: put_sub_def)
  ultimately show ?thesis
    using remove_sub_inv [of ?st1 ?s1] Some
    by (simp add: DM_ENG_Device_Common_DeleteSubscription_def Let_def)
qed

lemma cleanup_inv:
  assumes "subs_inv st" "se_unsubscribe env = 0"
  shows "subs_inv (sub_step st (Sub_cleanup env))"
proof -
  have rem: "set (fold remove1 as bs) = set bs - set as" if "distinct bs" for as bs :: "addr list"
    using that by (induction as arbitrary: bs) auto
  have "distinct (bus st)" "set (bus st) = set (map s_addr (slist st))"
    using assms(1) by (simp_all only: subs_inv_def)
  with rem [of "bus st" "map s_addr (slist st)"] have "fold remove1 (map s_addr (slist st)) (bus st) = []"
    by (simp del: set_map)
  with assms(2) show ?thesis by (simp add: DM_ENG_Device_Common_Cleanup_Subscription_def subs_inv_def)
qed

interpretation sub_system: event_system "sub_step :: 'cb subs \<Rightarrow> _" sub_ok subs_inv
proof
  fix st :: "'cb subs" and e
  assume "subs_inv st" "sub_ok st e"
  then show "subs_inv (sub_step st e)"
  proof (cases e)
    case (Sub_add env path flt cb)
    with \<open>subs_inv st\<close> \<open>sub_ok st e\<close> show ?thesis using add_inv by blast
  next
    case (Sub_delete env uid)
    with \<open>subs_inv st\<close> show ?thesis using delete_inv by blast
  next
    case (Sub_cleanup env)
    with \<open>subs_inv st\<close> \<open>sub_ok st e\<close> show ?thesis using cleanup_inv [of st env] by simp
  qed
qed

definition no_subs :: "'cb subs" where
  "no_subs = \<lparr>slist = [], bus = [], freed_subs = []\<rparr>"

text \<open>Property C11. The bus and the list stay in step: along any sequence of subscriptions, deletions and
  clean-ups, an object has at most one bus subscription, the bus calls back exactly for the subscriptions in
  the list, and never with one that was freed; a notification is dispatched to the callback the subscription
  was created with.\<close>

theorem subscriptions_in_step:
  assumes "enabled_run sub_ok sub_step no_subs es" "st = foldl sub_step no_subs es"
  shows "distinct (map s_objectpath (slist st)) \<and> set (bus st) = s_addr ` set (slist st) \<and>
    set (bus st) \<inter> set (freed_subs st) = {} \<and>
    (\<forall>s\<in>set (slist st). DM_ENG_Device_Common_NotificationHandler st (s_addr s) =
       map_option (\<lambda>cb. (cb, s_objectpath s)) (s_cb s))"
proof -
  have "subs_inv (no_subs :: 'a subs)" by (simp add: subs_inv_def no_subs_def)
  then have inv: "subs_inv st" unfolding assms(2) by (rule sub_system.run_inv [OF _ assms(1)])
  have "DM_ENG_Device_Common_NotificationHandler st (s_addr s) = map_option (\<lambda>cb. (cb, s_objectpath s)) (s_cb s)"
    if "s \<in> set (slist st)" for s
    using sub_addrs.find_mem [of "slist st" s] that inv
    by (simp add: DM_ENG_Device_Common_NotificationHandler_def subs_inv_def split: option.splits)
  with inv show ?thesis by (simp add: subs_inv_def)
qed

definition example_sub_env :: "addr \<Rightarrow> sub_env" where
  "example_sub_env a = \<lparr>se_object = (\<lambda>p. ''Device.IP.''), se_param = (\<lambda>p. Some ''Enable''),
     se_hash = (\<lambda>s. int (length s)), se_alloc_info = True, se_alloc_sub = Some a, se_subscribe = 0,
     se_unsubscribe = 0\<rparr>"

theorem subscriptions_in_step_witness:
  "set (bus (foldl sub_step (no_subs :: nat subs) [Sub_add (example_sub_env 1) ''Device.IP.'' [] (Some 0),
     Sub_add (example_sub_env 2) ''Device.IP.Enable'' [] (Some 1)])) =
   s_addr ` set (slist (foldl sub_step (no_subs :: nat subs) [Sub_add (example_sub_env 1) ''Device.IP.'' [] (Some 0),
     Sub_add (example_sub_env 2) ''Device.IP.Enable'' [] (Some 1)]))"
proof -
  have "enabled_run sub_ok sub_step (no_subs :: nat subs) [Sub_add (example_sub_env 1) ''Device.IP.'' [] (Some 0),
     Sub_add (example_sub_env 2) ''Device.IP.Enable'' [] (Some 1)]"
    by (simp add: example_sub_env_def no_subs_def DM_ENG_Device_Common_AddSubscription_def Let_def)
  then show ?thesis using subscriptions_in_step [OF _ refl] by blast
qed

text \<open>Subscribing and unsubscribing are inverse: for an object without subscription and an identifier
  in use by nobody, deleting the identifier that adding returned restores the list and the bus.\<close>

theorem subscribe_unsubscribe:
  assumes "subs_inv st" "DM_ENG_Device_Common_AddSubscription env path flt cb st = (0, Some uid, st1)"
    and "DM_ENG_Device_Common_FindSubscription (slist st) (se_object env path) = None"
    and "DM_ENG_Device_Common_FindSubscriptionByID (slist st) uid = None"
    and "\<forall>a. se_alloc_sub env = Some a \<longrightarrow> a \<notin> set (bus st)" "se_unsubscribe env' = 0"
  shows "fst (DM_ENG_Device_Common_DeleteSubscription env' uid st1) = 0 \<and>
    slist (snd (DM_ENG_Device_Common_DeleteSubscription env' uid st1)) = slist st \<and>
    bus (snd (DM_ENG_Device_Common_DeleteSubscription env' uid st1)) = bus st"
proof -
  define info where "info = new_info env path flt"
  from assms(2,3) obtain a where a: "se_alloc_sub env = Some a" "si_uniqueID info = uid"
    and st1: "st1 = st\<lparr>bus := a # bus st, freed_subs := removeAll a (freed_subs st),
      slist := slist st @ [\<lparr>s_addr = a, s_objectpath = se_object env path, s_cb = cb, s_infos = [info]\<rparr>]\<rparr>"
    (is "_ = _\<lparr>bus := _, freed_subs := _, slist := _ @ [?s]\<rparr>")
    by (auto simp: DM_ENG_Device_Common_AddSubscription_def Let_def sub_append_def info_def
        split: if_splits option.splits)
  have n: "a \<notin> s_addr ` set (slist st)" using assms(1,5) a(1) by (auto simp: subs_inv_def)
  have "DM_ENG_Device_Common_FindSubscriptionByID (slist st @ [?s]) uid = Some ?s"
  proof -
    have "find P ss = None \<Longrightarrow> P x \<Longrightarrow> find P (ss @ [x]) = Some x" for P and ss :: "'a subscription list" and x
      by (induction ss) (auto split: if_splits)
    from this [OF assms(4) [unfolded DM_ENG_Device_Common_FindSubscriptionByID_def]] a(2)
    show ?thesis by (simp add: DM_ENG_Device_Common_FindSubscriptionByID_def)
  qed
  moreover have "put_sub (?s\<lparr>s_infos := []\<rparr>) (slist st @ [?s]) = slist st @ [?s\<lparr>s_infos := []\<rparr>]"
    using n by (auto simp: put_sub_def intro!: map_idI)
  moreover have "DM_ENG_Device_Common_DeleteSubscriptionFromList (slist st @ [?s\<lparr>s_infos := []\<rparr>]) a = slist st"
    using sub_addrs.del_add_absent [of "slist st" "?s\<lparr>s_infos := []\<rparr>"] n
    by (simp add: sub_append_def sub_addrs.find_None_iff)
  ultimately show ?thesis
    using a(2) assms(6)
    by (simp add: st1 DM_ENG_Device_Common_DeleteSubscription_def DM_ENG_Device_Common_DeleteSubscriptionInfo_def Let_def)
qed

theorem subscribe_unsubscribe_witness:
  "slist (snd (DM_ENG_Device_Common_DeleteSubscription (example_sub_env 1) 10
     (snd (snd (DM_ENG_Device_Common_AddSubscription (example_sub_env 1) ''Device.IP.'' [] (Some 0) (no_subs :: nat subs)))))) = []"
  using subscribe_unsubscribe [of "no_subs :: nat subs" "example_sub_env 1" "''Device.IP.''" "[]" "Some 0" 10
      "snd (snd (DM_ENG_Device_Common_AddSubscription (example_sub_env 1) ''Device.IP.'' [] (Some 0) no_subs))"
      "example_sub_env 1"]
  by (simp add: subs_inv_def no_subs_def example_sub_env_def DM_ENG_Device_Common_AddSubscription_def
      DM_ENG_Device_Common_FindSubscriptionByID_def new_info_def Let_def)

text \<open>When memory runs out while a parameter of an already subscribed object is added, the subscription is
  freed but stays in the list and on the bus.\<close>

theorem add_out_of_memory_dangles:
  assumes "DM_ENG_Device_Common_FindSubscription (slist st) (se_object env path) = Some s" "\<not> se_alloc_info env"
  shows "s_addr s \<in> set (freed_subs (snd (snd (DM_ENG_Device_Common_AddSubscription env path flt cb st)))) \<and>
    s \<in> set (slist (snd (snd (DM_ENG_Device_Common_AddSubscription env path flt cb st))))"
proof -
  have "snd (snd (DM_ENG_Device_Common_AddSubscription env path flt cb st)) =
      st\<lparr>freed_subs := s_addr s # freed_subs st\<rparr>"
    using assms by (auto simp: DM_ENG_Device_Common_AddSubscription_def Let_def add_error_def)
  with find_path_Some [OF assms(1)] show ?thesis by simp
qed

end
