(* ===== verification/Up_Download.thy ===== *)
theory Up_Download
  imports File_Transfers Subscriptions
begin

section \<open>Download and Upload in the adapter (DM\_AmxUpDownload.c)\<close>

text \<open>
  The adapter's side of file transfers. It reaches the instances of the plugin (theory \<open>File_Transfers\<close>) over the bus: the
  table \<open>ud_dm\<close> is shared, and the call of AddTransfer runs the plugin's function. Subscriptions are those of
  theory \<open>Subscriptions\<close>. Timers of the engine are started and stopped by name, and a TransferComplete that the engine is
  asked to send is appended to \<open>completes\<close>. The order in which the bus returns the instances is that of the table.
\<close>

subsection \<open>State\<close>

datatype ud_callback = TransferTimedOut | RestartTransfer | TransferCompleteEvent | TransferNotification

record transfer_complete =
  tc_autonomous :: bool
  tc_url :: cstr
  tc_fileType :: cstr
  tc_fileSize :: nat
  tc_targetFileName :: cstr
  tc_isDownload :: bool
  tc_commandKey :: cstr
  tc_faultCode :: nat
  tc_faultString :: cstr
  tc_startTime :: ts
  tc_completeTime :: ts
  tc_path :: string

record ud =
  ud_dm :: ft
  ud_subs :: "ud_callback subs"
  ud_timers :: "(string \<times> u32 \<times> ud_callback) list"
  completes :: "transfer_complete list"

record ud_env =
  ue_now :: nat
  ue_get_ok :: bool
  ue_set_ok :: bool
  ue_add :: "(nat \<times> addr) option"
  ue_call_ok :: bool
  ue_ft :: ft_env
  ue_sub :: sub_env
  ue_fw_status :: cstr

definition transfer_path :: "nat \<Rightarrow> string" where
  "transfer_path i = ''ManagementServer.ACSTransfers.ACSTransfer.'' @ dec_text i @ ''.''"

definition find_path :: "string \<Rightarrow> ud \<Rightarrow> acs_transfer option" where
  "find_path p st = find (\<lambda>t. transfer_path (at_index t) = p) (transfers (ud_dm st))"

definition timerStart :: "cstr \<Rightarrow> u32 \<Rightarrow> ud_callback \<Rightarrow> ud \<Rightarrow> ud" where
  "timerStart name secs cb st =
     (case name of None \<Rightarrow> st | Some n \<Rightarrow> st\<lparr>ud_timers := ud_timers st @ [(n, secs, cb)]\<rparr>)"

definition timerStop :: "cstr \<Rightarrow> ud \<Rightarrow> ud" where
  "timerStop name st =
     (case name of None \<Rightarrow> st | Some n \<Rightarrow> st\<lparr>ud_timers := filter (\<lambda>t. fst t \<noteq> n) (ud_timers st)\<rparr>)"

subsection \<open>The table of transfers over the bus\<close>

definition DM_ENG_Device_new_dm_entry :: "ud_env \<Rightarrow> acs_transfer \<Rightarrow> ud \<Rightarrow> nat option \<times> ud" where
  "DM_ENG_Device_new_dm_entry env args st =
     (case ue_add env of
        None \<Rightarrow> (None, st)
      | Some (i, a) \<Rightarrow>
          (Some i, st\<lparr>ud_dm := (ud_dm st)\<lparr>transfers := transfers (ud_dm st) @ [args\<lparr>at_index := i, at_addr := a\<rparr>]\<rparr>\<rparr>))"

definition DM_ENG_Device_UpdateTransferState :: "ud_env \<Rightarrow> string \<Rightarrow> nat \<Rightarrow> string \<Rightarrow> ts option \<Rightarrow> ud \<Rightarrow> ud" where
  "DM_ENG_Device_UpdateTransferState env path faultCode faultString completeTime st =
     (if path = [] \<or> \<not> ue_set_ok env then st
      else st\<lparr>ud_dm := set_transfer (\<lambda>t. transfer_path (at_index t) = path)
                (\<lambda>t. t\<lparr>FaultString := Some faultString, FaultCode := faultCode, Status := ''Finished'',
                       CompleteTime := (case completeTime of None \<Rightarrow> CompleteTime t | Some x \<Rightarrow> x)\<rparr>) (ud_dm st)\<rparr>)"

definition DM_ENG_Device_BuildTransferCompleteResponse :: "acs_transfer \<Rightarrow> string \<Rightarrow> transfer_complete" where
  "DM_ENG_Device_BuildTransferCompleteResponse t path =
     \<lparr>tc_autonomous = (case Initiator t of None \<Rightarrow> False | Some s \<Rightarrow> prefix ''Autonomous'' s),
      tc_url = Url t, tc_fileType = FileType t, tc_fileSize = FileSize t, tc_targetFileName = TargetFileName t,
      tc_isDownload = IsDownload t, tc_commandKey = CommandKey t, tc_faultCode = FaultCode t, tc_faultString = FaultString t,
      tc_startTime = StartTime t, tc_completeTime = CompleteTime t, tc_path = path\<rparr>"

definition delete_subscription :: "ud_env \<Rightarrow> int \<Rightarrow> ud \<Rightarrow> ud" where
  "delete_subscription env uid st = st\<lparr>ud_subs := snd (DM_ENG_Device_Common_DeleteSubscription (ue_sub env) uid (ud_subs st))\<rparr>"

definition DM_ENG_Device_TransferCompleteEvent :: "ud_env \<Rightarrow> cstr \<Rightarrow> ud \<Rightarrow> ud" where
  "DM_ENG_Device_TransferCompleteEvent env path st =
     (case path of
        None \<Rightarrow> st
      | Some p \<Rightarrow>
          (if \<not> ue_get_ok env then st
           else (case find_path p st of
                   None \<Rightarrow> st
                 | Some t \<Rightarrow>
                     (let st1 = timerStop (CommandKey t) st;
                          st2 = st1\<lparr>completes := completes st1 @ [DM_ENG_Device_BuildTransferCompleteResponse t p]\<rparr>
                      in delete_subscription env (SubscriptionId t) st2))))"

definition DM_ENG_Device_TransferTimedOut :: "ud_env \<Rightarrow> cstr \<Rightarrow> ud \<Rightarrow> ud" where
  "DM_ENG_Device_TransferTimedOut env cmdkey st =
     (case cmdkey of
        None \<Rightarrow> st
      | Some k \<Rightarrow>
          (if \<not> ue_get_ok env then st
           else (case find (\<lambda>t. CommandKey t = Some k) (transfers (ud_dm st)) of
                   None \<Rightarrow> st
                 | Some t \<Rightarrow>
                     (let key = transfer_path (at_index t);
                          st1 = delete_subscription env (SubscriptionId t) st;
                          st2 = (if Status t \<noteq> ''Initial''
                                 then DM_ENG_Device_UpdateTransferState env key (if IsDownload t then 9010 else 9011)
                                        ''Transfer timed out'' None st1
                                 else st1)
                      in DM_ENG_Device_TransferCompleteEvent env (Some key) st2))))"

text \<open>A notification of the bus: the path of the instance and the new value of Status, when it changed.\<close>

definition DM_ENG_Device_TransferNotification :: "ud_env \<Rightarrow> (cstr \<times> cstr) option \<Rightarrow> ud \<Rightarrow> ud" where
  "DM_ENG_Device_TransferNotification env data st =
     (case data of
        None \<Rightarrow> st
      | Some (objpath, transfer_state) \<Rightarrow>
          (if transfer_state = Some ''Finished'' then DM_ENG_Device_TransferCompleteEvent env objpath st else st))"

definition DM_ENG_Device_AddTransferSubscription :: "ud_env \<Rightarrow> nat \<Rightarrow> ud \<Rightarrow> int \<times> ud" where
  "DM_ENG_Device_AddTransferSubscription env inst st =
     (case DM_ENG_Device_Common_AddSubscription (ue_sub env) (transfer_path inst) object_changed_filter (Some TransferNotification)
             (ud_subs st) of
        (r, uid, subs') \<Rightarrow>
          (let st1 = st\<lparr>ud_subs := subs'\<rparr> in
           if r \<noteq> 0 then (-1, st1)
           else if ue_set_ok env
           then (0, st1\<lparr>ud_dm := set_transfer (\<lambda>t. at_index t = inst)
                            (\<lambda>t. t\<lparr>SubscriptionId := (case uid of None \<Rightarrow> -1 | Some u \<Rightarrow> u)\<rparr>) (ud_dm st1)\<rparr>)
           else (0, st1)))"

subsection \<open>The RPCs\<close>

datatype add_result = Add_ok | Add_denied | Add_failed

definition result_of :: "int \<Rightarrow> add_result" where
  "result_of e = (if e = 0 then Add_ok else Add_failed)"

definition new_entry ::
  "ud_env \<Rightarrow> cstr \<Rightarrow> cstr \<Rightarrow> cstr \<Rightarrow> cstr \<Rightarrow> cstr \<Rightarrow> nat \<Rightarrow> cstr \<Rightarrow> u32 \<Rightarrow> bool \<Rightarrow> acs_transfer" where
  "new_entry env commandkey fileType url username password fileSize targetFileName delayseconds isDownload =
     \<lparr>at_index = 0, at_addr = 0, Initiator = Some ''ACS'', CommandKey = commandkey, IsDownload = isDownload, FileType = fileType,
      FileSize = fileSize, Url = url, Username = username, Password = password, TargetFileName = targetFileName,
      SaveFileName = targetFileName, Status = ''Initial'', StartTime = Ts (ue_now env + unat delayseconds),
      CompleteTime = Ts (ue_now env + 3600), FaultCode = 0, FaultString = Some [], SubscriptionId = 0\<rparr>"

definition DM_ENG_Device_AddTransfer ::
  "ud_env \<Rightarrow> string \<Rightarrow> cstr \<Rightarrow> cstr \<Rightarrow> cstr \<Rightarrow> cstr \<Rightarrow> nat \<Rightarrow> cstr \<Rightarrow> u32 \<Rightarrow> bool \<Rightarrow> nat option \<Rightarrow> ud \<Rightarrow> add_result \<times> ud" where
  "DM_ENG_Device_AddTransfer env commandkey fileType url username password fileSize targetFileName delayseconds isDownload instanceID st =
     (case (case instanceID of
              Some i \<Rightarrow> (Some i, st)
            | None \<Rightarrow> DM_ENG_Device_new_dm_entry env
                (new_entry env (Some commandkey) fileType url username password fileSize targetFileName delayseconds isDownload) st) of
        (None, st1) \<Rightarrow> (Add_denied, st1)
      | (Some i, st1) \<Rightarrow>
          (if i = 0 then (Add_denied, st1)
           else if \<not> ue_call_ok env then (Add_denied, st1)
           else
             (let args = \<lparr>fa_index = i, fa_IsDownload = isDownload, fa_DelaySeconds = delayseconds, fa_FileType = fileType,
                          fa_Url = url, fa_Username = username, fa_Password = password, fa_TargetFileName = targetFileName,
                          fa_CommandKey = commandkey\<rparr>;
                  st2 = st1\<lparr>ud_dm := snd (AddTransfer (ue_ft env) (Some args) (ud_dm st1))\<rparr>
              in case DM_ENG_Device_AddTransferSubscription env i st2 of (e, st3) \<Rightarrow> (result_of e, st3))))"

text \<open>The instance number is the last element of the path.\<close>

definition DM_ENG_Device_RestartTransfer :: "ud_env \<Rightarrow> cstr \<Rightarrow> ud \<Rightarrow> ud" where
  "DM_ENG_Device_RestartTransfer env path st =
     (if str_empty path \<or> \<not> ue_get_ok env then st
      else (case find_path (the path) st of
              None \<Rightarrow> st
            | Some t \<Rightarrow>
                (let key = (case CommandKey t of None \<Rightarrow> [] | Some k \<Rightarrow> k) in
                 case DM_ENG_Device_AddTransfer env key (FileType t) (Url t) (Username t) (Password t) (FileSize t)
                        (TargetFileName t) 5 (IsDownload t) (Some (at_index t)) st of
                   (e, st1) \<Rightarrow> if e = Add_ok then timerStart (CommandKey t) 3600 TransferTimedOut st1 else st1)))"

definition DM_ENG_Device_DoDownload ::
  "ud_env \<Rightarrow> string \<Rightarrow> cstr \<Rightarrow> cstr \<Rightarrow> cstr \<Rightarrow> cstr \<Rightarrow> nat \<Rightarrow> cstr \<Rightarrow> u32 \<Rightarrow> ud \<Rightarrow> add_result \<times> ud" where
  "DM_ENG_Device_DoDownload env commandkey fileType url username password fileSize targetFileName delayseconds st =
     (case DM_ENG_Device_AddTransfer env commandkey fileType url username password fileSize targetFileName delayseconds True None st of
        (e, st1) \<Rightarrow> (e, if e = Add_ok then timerStart (Some commandkey) (delayseconds + 3600) TransferTimedOut st1 else st1))"

definition DM_ENG_Device_DoUpload ::
  "ud_env \<Rightarrow> string \<Rightarrow> cstr \<Rightarrow> cstr \<Rightarrow> cstr \<Rightarrow> cstr \<Rightarrow> u32 \<Rightarrow> ud \<Rightarrow> add_result \<times> ud" where
  "DM_ENG_Device_DoUpload env commandkey fileType url username password delayseconds st =
     (case DM_ENG_Device_AddTransfer env commandkey fileType url username password 0 (Some []) delayseconds False None st of
        (e, st1) \<Rightarrow> (e, if e = Add_ok then timerStart (Some commandkey) (delayseconds + 3600) TransferTimedOut st1 else st1))"

record queued_transfer =
  qt_isDownload :: bool
  qt_state :: nat
  qt_fileType :: cstr
  qt_fileSize :: nat
  qt_targetFileName :: cstr
  qt_commandKey :: cstr

definition queued_of :: "acs_transfer \<Rightarrow> queued_transfer" where
  "queued_of t =
     \<lparr>qt_isDownload = IsDownload t,
      qt_state = (if Status t = ''Initial'' then 1 else if Status t = ''Applying'' then 2 else 3),
      qt_fileType = FileType t, qt_fileSize = FileSize t, qt_targetFileName = TargetFileName t, qt_commandKey = CommandKey t\<rparr>"

definition DM_ENG_Device_GetQueuedTransfers :: "ud_env \<Rightarrow> ud \<Rightarrow> queued_transfer list option" where
  "DM_ENG_Device_GetQueuedTransfers env st =
     (if \<not> ue_get_ok env then None else Some (map queued_of (transfers (ud_dm st))))"

subsection \<open>After a restart\<close>

definition handle_pending_upgrade_ud :: "ud_env \<Rightarrow> string \<Rightarrow> ud \<Rightarrow> ud" where
  "handle_pending_upgrade_ud env key st =
     (let (faultCode, faultString) =
        (case ue_fw_status env of
           None \<Rightarrow> (9002, ''Internal failure'')
         | Some s \<Rightarrow> if s \<noteq> ''Active'' then (9010, ''Failed to apply firmware'') else (0, []));
          completeTime = (if faultCode = 0 then Some Unknown_Time else None)
      in DM_ENG_Device_UpdateTransferState env key faultCode faultString completeTime st)"

fun ts_after :: "nat \<Rightarrow> ts \<Rightarrow> bool" where
  "ts_after now (Ts t) = (now > t)"
| "ts_after now Unknown_Time = True"

definition initialize_one :: "ud_env \<Rightarrow> acs_transfer \<Rightarrow> ud \<Rightarrow> ud" where
  "initialize_one env t st =
     (let key = transfer_path (at_index t) in
      if Status t = ''Initial'' then
        (if CommandKey t = None then st
         else if ts_after (ue_now env) (CompleteTime t) then timerStart (CommandKey t) 0 TransferTimedOut st
         else timerStart (Some key) 0 RestartTransfer st)
      else if Status t = ''Finished'' then timerStart (Some key) 0 TransferCompleteEvent st
      else if Status t = ''Applying'' then
        (if FileType t = Some ''1 Firmware Upgrade Image''
         then timerStart (Some key) 0 TransferCompleteEvent (handle_pending_upgrade_ud env key st)
         else st)
      else st)"

definition DM_ENG_Device_UpDownloadInitialize :: "ud_env \<Rightarrow> ud \<Rightarrow> bool \<times> ud" where
  "DM_ENG_Device_UpDownloadInitialize env st =
     (let st1 = st\<lparr>ud_subs := no_subs\<rparr> in
      if \<not> ue_get_ok env then (False, st1)
      else (True, fold (initialize_one env) (transfers (ud_dm st1)) st1))"

definition ud_timer_cb :: "ud_env \<Rightarrow> string \<Rightarrow> ud_callback \<Rightarrow> ud \<Rightarrow> ud" where
  "ud_timer_cb env name cb st =
     (case cb of
        TransferTimedOut \<Rightarrow> DM_ENG_Device_TransferTimedOut env (Some name) st
      | RestartTransfer \<Rightarrow> DM_ENG_Device_RestartTransfer env (Some name) st
      | TransferCompleteEvent \<Rightarrow> DM_ENG_Device_TransferCompleteEvent env (Some name) st
      | TransferNotification \<Rightarrow> st)"

subsection \<open>What the ACS is told\<close>

lemma transfer_path_inj [simp]: "transfer_path m = transfer_path n \<longleftrightarrow> m = n"
  by (auto simp: transfer_path_def dest: dec_text_inj)

lemma find_path_index: "find_path (transfer_path i) st = find_transfer i (ud_dm st)"
  by (simp add: find_path_def find_transfer_def)

lemma find_map_update:
  assumes "\<And>t. P (f t) = P t" "find P xs = Some t" "Q t"
  shows "find P (map (\<lambda>t. if Q t then f t else t) xs) = Some (f t)"
  using assms by (induction xs) (auto split: if_splits)

lemma find_transfer_set:
  assumes "find_transfer i st = Some t" "\<And>t. at_index (f t) = at_index t" "Q t"
  shows "find_transfer i (set_transfer Q f st) = Some (f t)"
  unfolding find_transfer_def set_transfer_def
  using find_map_update [of "\<lambda>t. at_index t = i" f "transfers st" t Q] assms by (simp add: find_transfer_def)

lemma complete_event:
  assumes "ue_get_ok env" "find_transfer i (ud_dm st) = Some t"
  shows "completes (DM_ENG_Device_TransferCompleteEvent env (Some (transfer_path i)) st) =
           completes st @ [DM_ENG_Device_BuildTransferCompleteResponse t (transfer_path i)]"
    and "ud_timers (DM_ENG_Device_TransferCompleteEvent env (Some (transfer_path i)) st) = ud_timers (timerStop (CommandKey t) st)"
  using assms
  by (simp_all add: DM_ENG_Device_TransferCompleteEvent_def find_path_index delete_subscription_def timerStop_def Let_def
      split: option.splits)

lemma find_transfer_index: "find_transfer i st = Some t \<Longrightarrow> at_index t = i"
  by (auto simp: find_transfer_def find_Some_iff)

lemma download_finished_transfers: "transfers (filetransfer_download_finished env j st) = transfers st"
  by (simp add: filetransfer_download_finished_def filetransfer_run_task_def split: option.split)

text \<open>
  Property C27. From the file transfer library to the ACS: when a download ends with the code \<open>c\<close> the plugin sets the instance
  to Finished, and the notification of that change makes the adapter ask for exactly one TransferComplete, with the command key,
  URL and file data of the request, the code \<open>c\<close>, its reason and the start time, and it stops the timer that watches the transfer.
\<close>

theorem finished_download_reported:
  assumes "find_transfer (fr_data r) (ud_dm st) = Some t" "fe_trans_ok fenv" "ue_get_ok env"
    and "st1 = st\<lparr>ud_dm := filetransfer_request_cb fenv r c reason s e (ud_dm st)\<rparr>"
    and "st2 = DM_ENG_Device_TransferNotification env (Some (Some (transfer_path (fr_data r)), Some ''Finished'')) st1"
  shows "\<exists>tc. completes st2 = completes st @ [tc] \<and> tc_commandKey tc = CommandKey t \<and> tc_url tc = Url t
           \<and> tc_fileType tc = FileType t \<and> tc_isDownload tc = IsDownload t \<and> tc_faultCode tc = c \<and> tc_faultString tc = reason
           \<and> tc_startTime tc = s \<and> tc_completeTime tc = (if c \<noteq> 0 then Ts 0 else e)
           \<and> (\<forall>k. CommandKey t = Some k \<longrightarrow> k \<notin> fst ` set (ud_timers st2))"
proof -
  let ?i = "fr_data r"
  let ?t = "t\<lparr>Status := ''Finished'', StartTime := s, CompleteTime := (if c \<noteq> 0 then Ts 0 else e), FaultCode := c, FaultString := reason\<rparr>"
  let ?d = "if c = 0 then filetransfer_download_finished fenv ?i (ud_dm st) else ud_dm st"
  have "find_transfer ?i ?d = Some t" using assms(1) by (simp add: find_transfer_def download_finished_transfers)
  moreover have "at_index t = ?i" using assms(1) by (rule find_transfer_index)
  ultimately have "find_transfer ?i (transfer_update_status fenv ?i ''Finished'' s e c reason ?d) = Some ?t"
    using assms(2) by (simp add: transfer_update_status_def find_transfer_set)
  then have f: "find_transfer ?i (ud_dm st1) = Some ?t"
    by (simp add: assms(4) filetransfer_request_cb_def Let_def find_transfer_def)
  have "completes st1 = completes st" by (simp add: assms(4))
  then show ?thesis
    using complete_event [OF assms(3) f]
    by (intro exI [of _ "DM_ENG_Device_BuildTransferCompleteResponse ?t (transfer_path ?i)"])
      (auto simp: assms(5) DM_ENG_Device_TransferNotification_def DM_ENG_Device_BuildTransferCompleteResponse_def timerStop_def)
qed

definition example_ud_env :: ud_env where
  "example_ud_env =
     \<lparr>ue_now = 100, ue_get_ok = True, ue_set_ok = True, ue_add = Some (3, 7), ue_call_ok = True, ue_ft = example_ft_env,
      ue_sub = example_sub_env 9, ue_fw_status = None\<rparr>"

definition example_ud :: ud where
  "example_ud = \<lparr>ud_dm = example_ft, ud_subs = no_subs, ud_timers = [(''k'', 3600, TransferTimedOut)], completes = []\<rparr>"

theorem finished_download_reported_witness:
  "let r = \<lparr>fr_data = 3, fr_url = None, fr_username = None, fr_password = None, fr_target_file = None\<rparr>;
       st1 = example_ud\<lparr>ud_dm := filetransfer_request_cb example_ft_env r 9 (Some ''timeout'') (Ts 1) (Ts 2) (ud_dm example_ud)\<rparr>
   in \<exists>tc. completes (DM_ENG_Device_TransferNotification example_ud_env (Some (Some (transfer_path 3), Some ''Finished'')) st1) = [tc]
        \<and> tc_commandKey tc = Some ''k'' \<and> tc_faultCode tc = 9"
proof -
  let ?r = "\<lparr>fr_data = 3, fr_url = None, fr_username = None, fr_password = None, fr_target_file = None\<rparr>"
  have f: "find_transfer (fr_data ?r) (ud_dm example_ud) = Some example_transfer"
    by (simp add: find_transfer_def example_ud_def example_ft_def example_transfer_def)
  have "fe_trans_ok example_ft_env" "ue_get_ok example_ud_env" by (simp_all add: example_ft_env_def example_ud_env_def)
  from finished_download_reported [OF f this refl refl]
  have "\<exists>tc. completes (DM_ENG_Device_TransferNotification example_ud_env (Some (Some (transfer_path (fr_data ?r)), Some ''Finished''))
      (example_ud\<lparr>ud_dm := filetransfer_request_cb example_ft_env ?r 9 (Some ''timeout'') (Ts 1) (Ts 2) (ud_dm example_ud)\<rparr>))
        = completes example_ud @ [tc] \<and> tc_commandKey tc = CommandKey example_transfer \<and> tc_faultCode tc = 9" by blast
  moreover have "completes example_ud = []" "CommandKey example_transfer = Some ''k''" "fr_data ?r = 3"
    by (simp_all add: example_ud_def example_transfer_def)
  ultimately show ?thesis unfolding Let_def by (simp only: append_Nil)
qed

lemma AddTransfer_refused: "fst (AddTransfer env g st) = False \<Longrightarrow> snd (AddTransfer env g st) = st"
  by (auto simp: AddTransfer_def filetransfer_request_prepare_def Let_def split: option.splits if_splits prod.splits)

lemma timed_out_initial:
  assumes "ue_get_ok env" "find (\<lambda>t. CommandKey t = Some k) (transfers (ud_dm st)) = Some t" "Status t = ''Initial''"
    and "find_transfer (at_index t) (ud_dm st) = Some t"
  shows "completes (DM_ENG_Device_TransferTimedOut env (Some k) st) =
           completes st @ [DM_ENG_Device_BuildTransferCompleteResponse t (transfer_path (at_index t))]"
proof -
  have "find_transfer (at_index t) (ud_dm (delete_subscription env u st)) = Some t" for u
    using assms(4) by (simp add: delete_subscription_def)
  moreover have "completes (delete_subscription env u st) = completes st" for u by (simp add: delete_subscription_def)
  ultimately show ?thesis
    using assms(1-3) complete_event(1) [OF assms(1)] by (simp add: DM_ENG_Device_TransferTimedOut_def Let_def)
qed

text \<open>
  A firmware download that the plugin refuses is reported to the ACS as a success: the adapter takes the
  call of AddTransfer for accepted although its boolean result is false, and when the time is over it leaves the fault code of an
  instance that is still Initial at 0 (the code of the time out is set for the other states only) and asks for the TransferComplete.
\<close>

theorem refused_transfer_reported_ok:
  assumes "ue_add env = Some (i, a)" "i \<noteq> 0" "ue_call_ok env" "\<not> fe_timer_ok (ue_ft env)"
    and "i \<notin> at_index ` set (transfers (ud_dm st))" "Some k \<notin> CommandKey ` set (transfers (ud_dm st))"
    and "fst (DM_ENG_Device_Common_AddSubscription (ue_sub env) (transfer_path i) object_changed_filter (Some TransferNotification)
              (ud_subs st)) = 0" "ue_get_ok env'"
    and "(res, st1) = DM_ENG_Device_DoDownload env k (Some ''1 Firmware Upgrade Image'') url user pass sz target delay st"
  shows "res = Add_ok \<and> (\<exists>tc. completes (DM_ENG_Device_TransferTimedOut env' (Some k) st1) = completes st @ [tc]
           \<and> tc_commandKey tc = Some k \<and> tc_faultCode tc = 0)"
proof -
  let ?e = "(new_entry env (Some k) (Some ''1 Firmware Upgrade Image'') url user pass sz target delay True)\<lparr>at_index := i, at_addr := a\<rparr>"
  let ?dm = "(ud_dm st)\<lparr>transfers := transfers (ud_dm st) @ [?e]\<rparr>"
  obtain uid subs' where sub: "DM_ENG_Device_Common_AddSubscription (ue_sub env) (transfer_path i) object_changed_filter
      (Some TransferNotification) (ud_subs st) = (0, uid, subs')" using assms(7) by (metis fst_conv prod_cases3)
  define u where "u = (if ue_set_ok env then (case uid of None \<Rightarrow> -1 | Some u \<Rightarrow> u) else (0 :: int))"
  have other: "\<forall>t\<in>set (transfers (ud_dm st)). at_index t \<noteq> i" using assms(5) by auto
  have keep: "map (\<lambda>t. if at_index t = i then f t else t) (transfers (ud_dm st)) = transfers (ud_dm st)" for f
    using other by (intro map_idI) auto
  have add: "AddTransfer (ue_ft env) (Some g) ?dm = (False, ?dm)"
    if "fa_IsDownload g" "fa_FileType g = Some ''1 Firmware Upgrade Image''" for g
    using that assms(4) by (simp add: AddTransfer_def filetransfer_request_prepare_def split: option.split)
  let ?s = "st\<lparr>ud_dm := ?dm, ud_subs := subs'\<rparr>"
  let ?s3 = "if ue_set_ok env then ?s\<lparr>ud_dm := set_transfer (\<lambda>t. at_index t = i)
      (\<lambda>t. t\<lparr>SubscriptionId := (case uid of None \<Rightarrow> -1 | Some u \<Rightarrow> u)\<rparr>) ?dm\<rparr> else ?s"
  have entry: "DM_ENG_Device_new_dm_entry env (new_entry env (Some k) (Some ''1 Firmware Upgrade Image'') url user pass sz target delay True) st
      = (Some i, st\<lparr>ud_dm := ?dm\<rparr>)" using assms(1) by (simp add: DM_ENG_Device_new_dm_entry_def)
  have subscribe: "DM_ENG_Device_AddTransferSubscription env i (st\<lparr>ud_dm := ?dm\<rparr>) = (0, ?s3)"
    using sub by (simp add: DM_ENG_Device_AddTransferSubscription_def Let_def)
  have "DM_ENG_Device_AddTransfer env k (Some ''1 Firmware Upgrade Image'') url user pass sz target delay True None st = (Add_ok, ?s3)"
    unfolding DM_ENG_Device_AddTransfer_def option.case entry prod.case Let_def
    using assms(2, 3) subscribe by (simp add: add result_of_def)
  then have r: "res = Add_ok" "st1 = timerStart (Some k) (delay + 3600) TransferTimedOut ?s3"
    using assms(9) by (simp_all add: DM_ENG_Device_DoDownload_def)
  have "transfers (ud_dm ?s3) = transfers (ud_dm st) @ [?e\<lparr>SubscriptionId := u\<rparr>]"
    using keep by (simp add: set_transfer_def u_def new_entry_def)
  then have st1: "res = Add_ok" "transfers (ud_dm st1) = transfers (ud_dm st) @ [?e\<lparr>SubscriptionId := u\<rparr>]" "completes st1 = completes st"
    using r by (simp_all add: timerStart_def)
  let ?t = "?e\<lparr>SubscriptionId := u\<rparr>"
  have "find (\<lambda>t. CommandKey t = Some k) (transfers (ud_dm st1)) = Some ?t"
    unfolding st1(2) using assms(6) by (intro find_append_fresh) (auto simp: new_entry_def image_iff)
  moreover have "find_transfer (at_index ?t) (ud_dm st1) = Some ?t"
    unfolding find_transfer_def st1(2) using other by (intro find_append_fresh) (auto simp: new_entry_def)
  moreover have "Status ?t = ''Initial''" by (simp add: new_entry_def)
  ultimately have "completes (DM_ENG_Device_TransferTimedOut env' (Some k) st1) =
      completes st1 @ [DM_ENG_Device_BuildTransferCompleteResponse ?t (transfer_path (at_index ?t))]"
    using timed_out_initial [OF assms(8)] by blast
  then show ?thesis using st1(1, 3) by (simp add: DM_ENG_Device_BuildTransferCompleteResponse_def new_entry_def)
qed

theorem refused_transfer_reported_ok_witness:
  "let env = example_ud_env\<lparr>ue_add := Some (4, 8), ue_ft := example_ft_env\<lparr>fe_timer_ok := False\<rparr>\<rparr>;
       st1 = snd (DM_ENG_Device_DoDownload env ''fw'' (Some ''1 Firmware Upgrade Image'') None None None 0 None 0 example_ud)
   in \<exists>tc. completes (DM_ENG_Device_TransferTimedOut env (Some ''fw'') st1) = [tc] \<and> tc_commandKey tc = Some ''fw'' \<and> tc_faultCode tc = 0"
proof -
  let ?env = "example_ud_env\<lparr>ue_add := Some (4, 8), ue_ft := example_ft_env\<lparr>fe_timer_ok := False\<rparr>\<rparr>"
  have s: "fst (DM_ENG_Device_Common_AddSubscription (ue_sub ?env) (transfer_path 4) object_changed_filter (Some TransferNotification)
      (ud_subs example_ud)) = 0"
    by (simp add: DM_ENG_Device_Common_AddSubscription_def example_ud_env_def example_sub_env_def example_ud_def no_subs_def Let_def)
  have c: "completes example_ud = []" by (simp add: example_ud_def)
  have "\<exists>tc. completes (DM_ENG_Device_TransferTimedOut ?env (Some ''fw'')
      (snd (DM_ENG_Device_DoDownload ?env ''fw'' (Some ''1 Firmware Upgrade Image'') None None None 0 None 0 example_ud))) =
        completes example_ud @ [tc] \<and> tc_commandKey tc = Some ''fw'' \<and> tc_faultCode tc = 0"
    by (rule conjunct2, rule refused_transfer_reported_ok [OF _ _ _ _ _ _ s _ prod.collapse])
      (simp_all add: example_ud_env_def example_ud_def example_ft_def example_transfer_def)
  then show ?thesis unfolding Let_def c by simp
qed

subsection \<open>Transfers after a restart\<close>

definition resumed :: "ud_env \<Rightarrow> acs_transfer \<Rightarrow> (string \<times> u32 \<times> ud_callback) option" where
  "resumed env t =
     (if Status t = ''Initial'' then
        (case CommandKey t of
           None \<Rightarrow> None
         | Some k \<Rightarrow> Some (if ts_after (ue_now env) (CompleteTime t) then (k, 0, TransferTimedOut)
                          else (transfer_path (at_index t), 0, RestartTransfer)))
      else if Status t = ''Finished'' \<or> Status t = ''Applying'' \<and> FileType t = Some ''1 Firmware Upgrade Image''
      then Some (transfer_path (at_index t), 0, TransferCompleteEvent) else None)"

lemma initialize_one_timers:
  "ud_timers (initialize_one env t st) = ud_timers st @ (case resumed env t of None \<Rightarrow> [] | Some x \<Rightarrow> [x])"
proof -
  have "ud_timers (handle_pending_upgrade_ud env key s) = ud_timers s" for key s
    by (simp add: handle_pending_upgrade_ud_def DM_ENG_Device_UpdateTransferState_def Let_def split: option.split)
  then show ?thesis by (auto simp: initialize_one_def resumed_def timerStart_def Let_def split: option.split)
qed

lemma initialize_timers:
  "ud_timers (fold (initialize_one env) ts st) = ud_timers st @ List.map_filter (resumed env) ts"
  by (induction ts arbitrary: st) (auto simp: initialize_one_timers List.map_filter_simps split: option.splits)

text \<open>
  After a restart every transfer is followed up by one timer of the engine, in the order of the table: one that is
  finished, or a firmware image that was being applied, by its TransferComplete; one that had not started by a new start or, once its
  complete time is over, by the time out. Only transfers being applied that are not firmware images have none.
\<close>

theorem restart_resumes:
  assumes "ue_get_ok env" "\<forall>t\<in>set (transfers (ud_dm st)). CommandKey t \<noteq> None \<and> Status t \<in> {''Initial'', ''Applying'', ''Finished''}"
  shows "fst (DM_ENG_Device_UpDownloadInitialize env st)
       \<and> ud_timers (snd (DM_ENG_Device_UpDownloadInitialize env st)) = ud_timers st @ List.map_filter (resumed env) (transfers (ud_dm st))
       \<and> (\<forall>t\<in>set (transfers (ud_dm st)). resumed env t = None \<longleftrightarrow>
            Status t = ''Applying'' \<and> FileType t \<noteq> Some ''1 Firmware Upgrade Image'')"
  using assms by (auto simp: DM_ENG_Device_UpDownloadInitialize_def Let_def initialize_timers resumed_def split: option.splits)

theorem restart_resumes_witness:
  "ud_timers (snd (DM_ENG_Device_UpDownloadInitialize example_ud_env example_ud)) =
     ud_timers example_ud @ [(transfer_path 3, 0, RestartTransfer)]"
proof -
  have "ud_timers (snd (DM_ENG_Device_UpDownloadInitialize example_ud_env example_ud)) =
      ud_timers example_ud @ List.map_filter (resumed example_ud_env) (transfers (ud_dm example_ud))"
    using restart_resumes [of example_ud_env example_ud]
    by (simp add: example_ud_env_def example_ud_def example_ft_def example_transfer_def)
  then show ?thesis
    by (simp add: example_ud_env_def example_ud_def example_ft_def example_transfer_def resumed_def List.map_filter_simps)
qed

end
