(* ===== verification/Software_Modules.thy ===== *)
theory Software_Modules
  imports Prelude
begin

section \<open>Deployment units (smm.c, DM\_AmxChangeDUState.c)\<close>

text \<open>
  ChangeDUState from the RPC to the DUStateChangeComplete message. The adapter hands the operation to the plugin, which
  calls the software module manager and keeps one instance of \<open>DUStateChangeComplete\<close> with one operation for each request;
  the result of the operation arrives as an event of the manager, a change of the operation to \<open>Done\<close> makes the instance
  \<open>Done\<close>, and that change is what the adapter has subscribed to. The tables of the data model are lists of records,
  the events that it has raised and not yet delivered are the queue \<open>smm_events\<close>. An instance is named by its index where the
  code has its path. What the bus, the software module manager, the data model and the engine answer is in \<open>smm_env\<close>.
\<close>

subsection \<open>State\<close>

datatype op_status_t = op_status_none | op_status_in_progress | op_status_done

type_synonym htable = "(string \<times> string) list"

record op_result_struct =
  rs_CurrentState :: cstr
  rs_DeploymentUnitRef :: cstr
  rs_ExecutionUnitRefList :: cstr
  rs_FaultCode :: nat
  rs_FaultString :: cstr
  rs_Resolved :: bool
  rs_StartTime :: "nat option"
  rs_CompleteTime :: "nat option"
  rs_UUID :: cstr
  rs_Version :: cstr

record result_inst =
  ri_CurrentState :: string
  ri_DeploymentUnitRef :: string
  ri_ExecutionUnitRefList :: string
  ri_FaultCode :: nat
  ri_FaultString :: string
  ri_Resolved :: bool
  ri_StartTime :: nat
  ri_CompleteTime :: nat
  ri_UUID :: string
  ri_Version :: string

record du_operation =
  op_index :: nat
  op_Type :: string
  op_Status :: string
  op_ID :: nat
  op_params :: htable
  op_Results :: "result_inst list"

record dscc =
  dc_index :: nat
  dc_Status :: string
  dc_Initiator :: string
  dc_CommandKey :: string
  dc_Operations :: "du_operation list"

text \<open>The events \<open>dm:object-changed\<close> with a new \<open>Status\<close>, of an operation and of an instance.\<close>

datatype smm_event = Op_Changed nat nat string | Dscc_Changed nat string

record smm =
  dsccs :: "dscc list"
  smm_events :: "smm_event list"
  du_calls :: "(string \<times> htable) list"
  smm_subscribed :: bool
  smm_waiting :: bool
  smm_null_deref :: bool
  du_subscribed :: bool
  du_timers :: "nat list"
  du_informs :: "(result_inst list \<times> string \<times> nat) list"

record smm_env =
  se_present :: bool
  se_sub_ok :: bool
  se_connect_ok :: bool
  se_du_call :: "string \<Rightarrow> htable \<Rightarrow> nat option"
  se_add_ok :: bool
  se_set_ok :: bool
  se_new_index :: nat
  se_new_op :: nat
  se_null_text :: cstr
  se_bus_ok :: bool
  se_get_ok :: bool
  se_empty_null :: bool
  se_inform_ok :: bool
  se_del_ok :: bool

definition text_of :: "cstr \<Rightarrow> string" where
  "text_of s = (case s of None \<Rightarrow> [] | Some t \<Rightarrow> t)"

definition find_dscc :: "nat \<Rightarrow> smm \<Rightarrow> dscc option" where
  "find_dscc i st = find (\<lambda>d. dc_index d = i) (dsccs st)"

definition find_op :: "nat \<times> nat \<Rightarrow> smm \<Rightarrow> du_operation option" where
  "find_op p st = (case find_dscc (fst p) st of
     None \<Rightarrow> None | Some d \<Rightarrow> find (\<lambda>x. op_index x = snd p) (dc_Operations d))"

definition upd_dscc :: "nat \<Rightarrow> (dscc \<Rightarrow> dscc) \<Rightarrow> smm \<Rightarrow> smm" where
  "upd_dscc i f st = st\<lparr>dsccs := map (\<lambda>d. if dc_index d = i then f d else d) (dsccs st)\<rparr>"

definition upd_op :: "nat \<times> nat \<Rightarrow> (du_operation \<Rightarrow> du_operation) \<Rightarrow> smm \<Rightarrow> smm" where
  "upd_op p f = upd_dscc (fst p)
     (\<lambda>d. d\<lparr>dc_Operations := map (\<lambda>x. if op_index x = snd p then f x else x) (dc_Operations d)\<rparr>)"

text \<open>A parameter that a transaction sets to another value is announced by an event.\<close>

definition raise_smm :: "smm_event \<Rightarrow> smm \<Rightarrow> smm" where
  "raise_smm e st = st\<lparr>smm_events := smm_events st @ [e]\<rparr>"

subsection \<open>The plugin\<close>

definition dscc_status_done :: "smm_env \<Rightarrow> nat option \<Rightarrow> smm \<Rightarrow> smm" where
  "dscc_status_done env obj st =
     (case obj of
        None \<Rightarrow> st
      | Some i \<Rightarrow>
          (case find_dscc i st of
             None \<Rightarrow> st
           | Some d \<Rightarrow>
               (if se_set_ok env \<and> dc_Status d \<noteq> ''Done''
                then raise_smm (Dscc_Changed i ''Done'') (upd_dscc i (\<lambda>d. d\<lparr>dc_Status := ''Done''\<rparr>) st)
                else st)))"

definition op_status_get :: "(nat \<times> nat) option \<Rightarrow> smm \<Rightarrow> op_status_t" where
  "op_status_get obj st =
     (case obj of
        None \<Rightarrow> op_status_none
      | Some p \<Rightarrow>
          (case find_op p st of
             None \<Rightarrow> op_status_none
           | Some x \<Rightarrow>
               (if op_Status x = ''In Progress'' then op_status_in_progress
                else if op_Status x = ''Done'' then op_status_done
                else op_status_none)))"

fun op_status_text :: "op_status_t \<Rightarrow> string" where
  "op_status_text op_status_in_progress = ''In Progress''"
| "op_status_text op_status_done = ''Done''"
| "op_status_text op_status_none = []"

definition op_status_set :: "smm_env \<Rightarrow> (nat \<times> nat) option \<Rightarrow> op_status_t \<Rightarrow> smm \<Rightarrow> smm" where
  "op_status_set env obj status st =
     (case obj of
        None \<Rightarrow> st
      | Some p \<Rightarrow>
          (case find_op p st of
             None \<Rightarrow> st
           | Some x \<Rightarrow>
               (let v = op_status_text status in
                if se_set_ok env \<and> op_Status x \<noteq> v
                then raise_smm (Op_Changed (fst p) (snd p) v) (upd_op p (\<lambda>x. x\<lparr>op_Status := v\<rparr>) st)
                else st)))"

definition ops_by_id :: "nat \<Rightarrow> smm \<Rightarrow> (nat \<times> nat) list" where
  "ops_by_id oid st =
     concat (map (\<lambda>d. map (\<lambda>x. (dc_index d, op_index x)) (filter (\<lambda>x. op_ID x = oid) (dc_Operations d))) (dsccs st))"

definition op_obj_get_by_id :: "nat \<Rightarrow> smm \<Rightarrow> (nat \<times> nat) option" where
  "op_obj_get_by_id oid st =
     (if oid = 0 then None else (case ops_by_id oid st of [] \<Rightarrow> None | p # _ \<Rightarrow> Some p))"

text \<open>The procedure of the software module manager for a type, and the entries that must be present for it.\<close>

definition op_rpc :: "string \<Rightarrow> (string \<times> string list) option" where
  "op_rpc type =
     (if type = ''Install''
      then Some (''InstallDU'', [''URL'', ''UUID'', ''Username'', ''Password'', ''ExecutionEnvRef''])
      else if type = ''Update''
      then Some (''UpdateDU'', [''UUID'', ''Version'', ''URL'', ''Username'', ''Password''])
      else if type = ''Uninstall''
      then Some (''UninstallDU'', [''UUID'', ''Version'', ''ExecutionEnvRef''])
      else None)"

definition op_args :: "htable \<Rightarrow> string list \<Rightarrow> htable" where
  "op_args t needed =
     List.map_filter (\<lambda>k. if k \<in> set needed then map_option (Pair k) (map_of t k) else None)
       [''URL'', ''UUID'', ''Username'', ''Password'', ''ExecutionEnvRef'', ''Version'']"

definition op_run :: "smm_env \<Rightarrow> htable option \<Rightarrow> smm \<Rightarrow> nat option \<times> smm" where
  "op_run env operation st =
     (case operation of
        None \<Rightarrow> (None, st)
      | Some t \<Rightarrow>
          (case map_of t ''Type'' of
             None \<Rightarrow> (None, st\<lparr>smm_null_deref := True\<rparr>)
           | Some type \<Rightarrow>
               (case op_rpc type of
                  None \<Rightarrow> (None, st)
                | Some (rpc, needed) \<Rightarrow>
                    (if list_ex (\<lambda>k. map_of t k = None) needed then (None, st)
                     else
                       (let args = op_args t needed in
                        (se_du_call env rpc args, st\<lparr>du_calls := du_calls st @ [(rpc, args)]\<rparr>))))))"

definition new_result :: "op_result_struct \<Rightarrow> result_inst" where
  "new_result r =
     \<lparr>ri_CurrentState = text_of (rs_CurrentState r), ri_DeploymentUnitRef = text_of (rs_DeploymentUnitRef r),
      ri_ExecutionUnitRefList = text_of (rs_ExecutionUnitRefList r), ri_FaultCode = rs_FaultCode r,
      ri_FaultString = text_of (rs_FaultString r), ri_Resolved = rs_Resolved r,
      ri_StartTime = (case rs_StartTime r of None \<Rightarrow> 0 | Some t \<Rightarrow> t),
      ri_CompleteTime = (case rs_CompleteTime r of None \<Rightarrow> 0 | Some t \<Rightarrow> t),
      ri_UUID = text_of (rs_UUID r), ri_Version = text_of (rs_Version r)\<rparr>"

definition op_add_result ::
  "smm_env \<Rightarrow> (nat \<times> nat) option \<Rightarrow> op_result_struct option \<Rightarrow> smm \<Rightarrow> bool \<times> smm" where
  "op_add_result env obj result st =
     (case obj of
        None \<Rightarrow> (False, st)
      | Some p \<Rightarrow>
          (case result of
             None \<Rightarrow> (False, st)
           | Some r \<Rightarrow>
               (if se_add_ok env
                then (True, upd_op p (\<lambda>x. x\<lparr>op_Results := op_Results x @ [new_result r]\<rparr>) st)
                else (False, st))))"

definition op_handle_results :: "smm_env \<Rightarrow> (nat \<times> op_result_struct option) option \<Rightarrow> smm \<Rightarrow> smm" where
  "op_handle_results env data st =
     (case data of
        None \<Rightarrow> st
      | Some (oid, result) \<Rightarrow>
          (case op_obj_get_by_id oid st of
             None \<Rightarrow> st
           | Some p \<Rightarrow>
               (if op_status_get (Some p) st = op_status_in_progress
                then (case op_add_result env (Some p) result st of
                        (False, st1) \<Rightarrow> st1
                      | (True, st1) \<Rightarrow> op_status_set env (Some p) op_status_done st1)
                else st)))"

definition dscc_op_done :: "smm_env \<Rightarrow> nat \<times> nat \<Rightarrow> smm \<Rightarrow> smm" where
  "dscc_op_done env p st =
     (case find_op p st of
        None \<Rightarrow> st
      | Some x \<Rightarrow>
          (case find_dscc (fst p) st of
             None \<Rightarrow> st
           | Some d \<Rightarrow>
               (let number_of_operations = length (dc_Operations d);
                    count = length (filter (\<lambda>x. op_Status x = ''Done'') (dc_Operations d))
                in if number_of_operations = 0 then st
                   else if count = number_of_operations then dscc_status_done env (Some (fst p)) st
                   else st)))"

record du_args =
  da_Initiator :: cstr
  da_CommandKey :: cstr
  da_Operations :: "htable list"

definition changeDUState :: "smm_env \<Rightarrow> du_args option \<Rightarrow> smm \<Rightarrow> bool \<times> smm" where
  "changeDUState env args st =
     (case args of
        None \<Rightarrow> (False, st)
      | Some a \<Rightarrow>
          (case da_Operations a of
             [] \<Rightarrow> (False, st)
           | operation # _ \<Rightarrow>
               (case op_run env (Some operation) st of
                  (None, st1) \<Rightarrow> (False, st1)
                | (Some operation_id, st1) \<Rightarrow>
                    (if operation_id = 0 then (False, st1)
                     else
                       (case Option.bind (map_of operation ''Type'') op_rpc of
                          None \<Rightarrow> (False, st1)
                        | Some (rpc, keys) \<Rightarrow>
                            (let x = \<lparr>op_index = se_new_op env, op_Type = text_of (map_of operation ''Type''),
                                      op_Status = ''In Progress'', op_ID = operation_id,
                                      op_params = map (\<lambda>k. (k, text_of (map_of operation k))) keys, op_Results = []\<rparr>;
                                 d = \<lparr>dc_index = se_new_index env, dc_Status = [], dc_Initiator = text_of (da_Initiator a),
                                      dc_CommandKey = text_of (da_CommandKey a), dc_Operations = [x]\<rparr>
                             in if se_add_ok env then (True, st1\<lparr>dsccs := dsccs st1 @ [d]\<rparr>) else (False, st1)))))))"

definition monitor_smm :: "smm_env \<Rightarrow> smm \<Rightarrow> bool \<times> smm" where
  "monitor_smm env st =
     (if \<not> se_present env then (False, st)
      else if se_sub_ok env then (True, st\<lparr>smm_subscribed := True\<rparr>) else (False, st))"

definition smm_available_cb :: "smm_env \<Rightarrow> smm \<Rightarrow> smm" where
  "smm_available_cb env st = snd (monitor_smm env st)"

definition smm_init :: "smm_env \<Rightarrow> smm \<Rightarrow> bool \<times> smm" where
  "smm_init env st =
     (if \<not> se_present env
      then (if se_connect_ok env then (True, st\<lparr>smm_waiting := True\<rparr>) else (False, st))
      else monitor_smm env st)"


subsection \<open>The adapter\<close>

datatype OperationStruct =
    OPERATION_TYPE_INSTALL (i_url: cstr) (i_uuid: cstr) (i_username: cstr) (i_password: cstr) (i_executionEnvRef: cstr)
  | OPERATION_TYPE_UPDATE (u_uuid: cstr) (u_version: cstr) (u_url: cstr) (u_username: cstr) (u_password: cstr)
  | OPERATION_TYPE_UNINSTALL (n_uuid: cstr) (n_version: cstr) (n_executionEnvRef: cstr)
  | OPERATION_TYPE_OTHER

text \<open>\<open>amxc_var_add_key\<close> for each member; \<open>se_null_text\<close> is what is read back for a null pointer.\<close>

definition add_keys :: "smm_env \<Rightarrow> (string \<times> cstr) list \<Rightarrow> htable" where
  "add_keys env kvs =
     List.map_filter (\<lambda>(k, v). map_option (Pair k) (case v of None \<Rightarrow> se_null_text env | Some s \<Rightarrow> Some s)) kvs"

fun operation_table :: "smm_env \<Rightarrow> OperationStruct \<Rightarrow> htable option" where
  "operation_table env (OPERATION_TYPE_INSTALL url uuid username password executionEnvRef) =
     Some (add_keys env [(''Type'', Some ''Install''), (''URL'', url), (''UUID'', uuid), (''Username'', username),
       (''Password'', password), (''ExecutionEnvRef'', executionEnvRef)])"
| "operation_table env (OPERATION_TYPE_UPDATE uuid version url username password) =
     Some (add_keys env [(''Type'', Some ''Update''), (''UUID'', uuid), (''Version'', version), (''URL'', url),
       (''Username'', username), (''Password'', password)])"
| "operation_table env (OPERATION_TYPE_UNINSTALL uuid version executionEnvRef) =
     Some (add_keys env [(''Type'', Some ''Uninstall''), (''UUID'', uuid), (''Version'', version),
       (''ExecutionEnvRef'', executionEnvRef)])"
| "operation_table env OPERATION_TYPE_OTHER = None"

definition DM_ENG_FAULTCODE_9002 :: nat where
  "DM_ENG_FAULTCODE_9002 = 9002"

definition DM_ENG_Device_DoChangeDUState ::
  "smm_env \<Rightarrow> OperationStruct option \<Rightarrow> cstr \<Rightarrow> smm \<Rightarrow> nat \<times> smm" where
  "DM_ENG_Device_DoChangeDUState env operations commandKey st =
     (case (commandKey, operations) of
        (Some key, Some x) \<Rightarrow>
          (case operation_table env x of
             None \<Rightarrow> (DM_ENG_FAULTCODE_9002, st)
           | Some t \<Rightarrow>
               (if \<not> se_bus_ok env then (DM_ENG_FAULTCODE_9002, st)
                else (case changeDUState env (Some \<lparr>da_Initiator = Some ''ACS'', da_CommandKey = Some key,
                                                   da_Operations = [t]\<rparr>) st of
                        (True, st1) \<Rightarrow> (0, st1)
                      | (False, st1) \<Rightarrow> (DM_ENG_FAULTCODE_9002, st1))))
      | _ \<Rightarrow> (DM_ENG_FAULTCODE_9002, st))"

definition dscc_results :: "dscc \<Rightarrow> result_inst list" where
  "dscc_results d = concat (map op_Results (dc_Operations d))"

definition handle_dustatechangecomplete :: "smm_env \<Rightarrow> nat option \<Rightarrow> smm \<Rightarrow> smm" where
  "handle_dustatechangecomplete env path st =
     (case path of
        None \<Rightarrow> st
      | Some i \<Rightarrow>
          (if \<not> se_get_ok env then st
           else (case find_dscc i st of
                   None \<Rightarrow> st
                 | Some d \<Rightarrow>
                     (if dscc_results d = [] \<and> se_empty_null env then st
                      else if \<not> se_inform_ok env then st
                      else st\<lparr>du_informs := du_informs st @ [(dscc_results d, dc_CommandKey d, i)]\<rparr>))))"

definition differ_dustatechangecomplete_handling :: "nat option \<Rightarrow> smm \<Rightarrow> smm" where
  "differ_dustatechangecomplete_handling path st =
     (case path of None \<Rightarrow> st | Some i \<Rightarrow> st\<lparr>du_timers := du_timers st @ [i]\<rparr>)"

definition dustatechangecomplete_notification :: "smm_env \<Rightarrow> cstr \<Rightarrow> nat option \<Rightarrow> smm \<Rightarrow> smm" where
  "dustatechangecomplete_notification env status obj_path st =
     (case (status, obj_path) of
        (Some s, Some i) \<Rightarrow> (if s = ''Done'' then handle_dustatechangecomplete env (Some i) st else st)
      | _ \<Rightarrow> st)"

definition DM_AmxChangeDUState_init :: "smm_env \<Rightarrow> smm \<Rightarrow> bool \<times> smm" where
  "DM_AmxChangeDUState_init env st =
     (if \<not> se_bus_ok env then (False, st)
      else
        (let found = (if se_get_ok env
                      then map dc_index (filter (\<lambda>d. dc_Initiator d = ''ACS'' \<and> dc_Status d = ''Done'') (dsccs st)) else []);
             st1 = foldl (\<lambda>s i. differ_dustatechangecomplete_handling (Some i) s) st found
         in (se_sub_ok env, if se_sub_ok env then st1\<lparr>du_subscribed := True\<rparr> else st1)))"

definition DM_AmxChangeDUState_clean :: "smm \<Rightarrow> smm" where
  "DM_AmxChangeDUState_clean st = st\<lparr>du_subscribed := False\<rparr>"

text \<open>DM\_DeviceAdapter.c: the ACS has acknowledged the message.\<close>

definition DM_ENG_Device_DUStateChangeCompleteAcknowledged :: "smm_env \<Rightarrow> nat \<Rightarrow> smm \<Rightarrow> int \<times> smm" where
  "DM_ENG_Device_DUStateChangeCompleteAcknowledged env path st =
     (if se_del_ok env \<and> find_dscc path st \<noteq> None
      then (0, st\<lparr>dsccs := filter (\<lambda>d. dc_index d \<noteq> path) (dsccs st)\<rparr>)
      else (-1, st))"

subsection \<open>Events\<close>

text \<open>
  \<open>Du_Deliver\<close> delivers the oldest event of the data model: that of an operation to \<open>dscc_op_done\<close> when its new status is
  \<open>Done\<close>, that of an instance that the ACS asked for to the adapter if it has subscribed. \<open>Du_Call\<close> is a call of the
  plugin's procedure by another client of the bus. \<open>Du_Stop\<close> is the end of the
  daemon, whose timers end with it.
\<close>

datatype du_input =
    Du_Request "OperationStruct option" cstr
  | Du_Call "du_args option"
  | Du_Result "(nat \<times> op_result_struct option) option"
  | Du_Deliver
  | Du_Timer nat
  | Du_Ack nat
  | Du_Stop
  | Du_Start
  | Smm_Available

fun deliver_smm :: "smm_env \<Rightarrow> smm_event \<Rightarrow> smm \<Rightarrow> smm" where
  "deliver_smm env (Op_Changed i j v) st = (if v = ''Done'' then dscc_op_done env (i, j) st else st)"
| "deliver_smm env (Dscc_Changed i v) st =
     (case find_dscc i st of
        None \<Rightarrow> st
      | Some d \<Rightarrow>
          (if du_subscribed st \<and> dc_Initiator d = ''ACS''
           then dustatechangecomplete_notification env (Some v) (Some i) st else st))"

fun smm_step :: "smm \<Rightarrow> smm_env \<times> du_input \<Rightarrow> smm" where
  "smm_step st (env, Du_Request x key) = snd (DM_ENG_Device_DoChangeDUState env x key st)"
| "smm_step st (env, Du_Call args) = snd (changeDUState env args st)"
| "smm_step st (env, Du_Result data) = (if smm_subscribed st then op_handle_results env data st else st)"
| "smm_step st (env, Du_Deliver) =
     (case smm_events st of [] \<Rightarrow> st | e # es \<Rightarrow> deliver_smm env e (st\<lparr>smm_events := es\<rparr>))"
| "smm_step st (env, Du_Timer k) =
     (if k < length (du_timers st)
      then handle_dustatechangecomplete env (Some (du_timers st ! k))
             (st\<lparr>du_timers := take k (du_timers st) @ drop (Suc k) (du_timers st)\<rparr>)
      else st)"
| "smm_step st (env, Du_Ack i) = snd (DM_ENG_Device_DUStateChangeCompleteAcknowledged env i st)"
| "smm_step st (env, Du_Stop) = (DM_AmxChangeDUState_clean st)\<lparr>du_timers := []\<rparr>"
| "smm_step st (env, Du_Start) = snd (DM_AmxChangeDUState_init env st)"
| "smm_step st (env, Smm_Available) = smm_available_cb env st"


subsection \<open>The tables are well formed\<close>

fun op_wf :: "du_operation \<Rightarrow> bool" where
  "op_wf x \<longleftrightarrow> op_ID x \<noteq> 0 \<and> (op_Status x = ''In Progress'' \<or> op_Status x = ''Done'' \<and> op_Results x \<noteq> []) \<and>
     (case op_rpc (op_Type x) of None \<Rightarrow> False | Some (rpc, keys) \<Rightarrow> map fst (op_params x) = keys)"

declare op_wf.simps [simp del]

fun dscc_wf :: "dscc \<Rightarrow> bool" where
  "dscc_wf d \<longleftrightarrow>
     (case dc_Operations d of
        [x] \<Rightarrow> op_wf x \<and> (dc_Status d = [] \<or> dc_Status d = ''Done'' \<and> op_Status x = ''Done'')
      | _ \<Rightarrow> False)"

declare dscc_wf.simps [simp del]

definition smm_wf :: "smm \<Rightarrow> bool" where
  "smm_wf st \<longleftrightarrow> distinct (map dc_index (dsccs st)) \<and> list_all dscc_wf (dsccs st)"

text \<open>A new instance gets an index that is not in use.\<close>

fun smm_ok :: "smm \<Rightarrow> smm_env \<times> du_input \<Rightarrow> bool" where
  "smm_ok st (env, inp) \<longleftrightarrow> se_new_index env \<notin> dc_index ` set (dsccs st)"

named_theorems smm_frame \<open>what the handlers leave alone\<close>

lemma dscc_wf_single: "dscc_wf d \<Longrightarrow> \<exists>x. dc_Operations d = [x]"
  by (auto simp: dscc_wf.simps split: list.splits)

lemma upd_dscc_indices [simp]:
  "(\<And>d. dc_index (f d) = dc_index d) \<Longrightarrow> map dc_index (dsccs (upd_dscc i f st)) = map dc_index (dsccs st)"
  by (simp add: upd_dscc_def)

lemma upd_dscc_frame [simp]:
  "smm_events (upd_dscc i f st) = smm_events st" "du_timers (upd_dscc i f st) = du_timers st"
  "du_informs (upd_dscc i f st) = du_informs st" "du_subscribed (upd_dscc i f st) = du_subscribed st"
  by (simp_all add: upd_dscc_def)

lemma upd_op_frame [simp]:
  "smm_events (upd_op p f st) = smm_events st" "du_timers (upd_op p f st) = du_timers st"
  "du_informs (upd_op p f st) = du_informs st" "du_subscribed (upd_op p f st) = du_subscribed st"
  by (simp_all add: upd_op_def)

lemma upd_dscc_all:
  assumes "\<forall>d\<in>set (dsccs st). Q d" "\<And>d. d \<in> set (dsccs st) \<Longrightarrow> dc_index d = i \<Longrightarrow> Q d \<Longrightarrow> Q (f d)"
  shows "\<forall>d\<in>set (dsccs (upd_dscc i f st)). Q d"
  using assms by (auto simp: upd_dscc_def)

lemma find_dscc_in: "find_dscc i st = Some d \<Longrightarrow> d \<in> set (dsccs st) \<and> dc_index d = i"
  by (auto simp: find_dscc_def find_Some_iff in_set_conv_nth)

lemma find_dscc_index:
  assumes "distinct (map dc_index (dsccs st))" "d \<in> set (dsccs st)"
  shows "find_dscc (dc_index d) st = Some d"
proof -
  have "find (\<lambda>x. dc_index x = dc_index d) ds = Some d" if "distinct (map dc_index ds)" "d \<in> set ds" for ds
    using that by (induction ds) auto
  with assms show ?thesis by (simp add: find_dscc_def)
qed

lemma find_op_in:
  assumes "smm_wf st" "find_op p st = Some x"
  obtains d where "d \<in> set (dsccs st)" "dc_index d = fst p" "dc_Operations d = [x]" "op_index x = snd p"
proof -
  from assms(2) obtain d where f: "find_dscc (fst p) st = Some d" "find (\<lambda>x. op_index x = snd p) (dc_Operations d) = Some x"
    by (auto simp: find_op_def split: option.splits)
  from find_dscc_in [OF f(1)] assms(1) have d: "d \<in> set (dsccs st)" "dc_index d = fst p" "dscc_wf d"
    by (auto simp: smm_wf_def list_all_iff)
  from dscc_wf_single [OF d(3)] f(2) that d show thesis by (auto split: if_splits)
qed

lemma ops_by_id_in: "ops_by_id oid st = p # ps \<Longrightarrow>
  \<exists>d\<in>set (dsccs st). \<exists>x\<in>set (dc_Operations d). p = (dc_index d, op_index x) \<and> op_ID x = oid"
proof -
  assume "ops_by_id oid st = p # ps"
  then have "p \<in> set (ops_by_id oid st)" by simp
  then show ?thesis by (auto simp: ops_by_id_def)
qed

lemma set_status_wf:
  assumes "smm_wf st" "find_dscc i st = Some d" "\<forall>x\<in>set (dc_Operations d). op_Status x = ''Done''"
  shows "smm_wf (upd_dscc i (\<lambda>d. d\<lparr>dc_Status := ''Done''\<rparr>) st)"
proof -
  have "\<forall>d\<in>set (dsccs (upd_dscc i (\<lambda>d. d\<lparr>dc_Status := ''Done''\<rparr>) st)). dscc_wf d"
  proof (rule upd_dscc_all)
    fix e assume e: "e \<in> set (dsccs st)" "dc_index e = i" "dscc_wf e"
    then have "e = d" using assms(1,2) find_dscc_index [of st e] by (simp add: smm_wf_def)
    with e(3) assms(3) show "dscc_wf (e\<lparr>dc_Status := ''Done''\<rparr>)"
      by (auto simp: dscc_wf.simps split: list.splits)
  qed (use assms(1) in \<open>simp add: smm_wf_def list_all_iff\<close>)
  with assms(1) show ?thesis by (simp add: smm_wf_def list_all_iff)
qed

lemma upd_op_wf:
  assumes "smm_wf st" "\<And>x. op_wf x \<Longrightarrow> op_wf (f x)" "\<And>x. op_Status x = ''Done'' \<Longrightarrow> op_Status (f x) = ''Done''"
  shows "smm_wf (upd_op p f st)"
proof -
  have "\<forall>d\<in>set (dsccs (upd_op p f st)). dscc_wf d"
    unfolding upd_op_def
  proof (rule upd_dscc_all)
    fix e assume "dscc_wf e"
    with assms(2,3) show "dscc_wf (e\<lparr>dc_Operations := map (\<lambda>x. if op_index x = snd p then f x else x) (dc_Operations e)\<rparr>)"
      by (auto simp: dscc_wf.simps split: list.splits)
  qed (use assms(1) in \<open>simp add: smm_wf_def list_all_iff\<close>)
  with assms(1) show ?thesis by (simp add: smm_wf_def list_all_iff upd_op_def)
qed

lemma raise_smm_fields [simp]:
  "dsccs (raise_smm e st) = dsccs st" "smm_events (raise_smm e st) = smm_events st @ [e]"
  "du_timers (raise_smm e st) = du_timers st" "du_informs (raise_smm e st) = du_informs st"
  "du_subscribed (raise_smm e st) = du_subscribed st"
  by (simp_all add: raise_smm_def)

lemma smm_wf_updates [simp]:
  "smm_wf (raise_smm e st) = smm_wf st" "smm_wf (st\<lparr>smm_events := es\<rparr>) = smm_wf st"
  "smm_wf (st\<lparr>du_timers := ts\<rparr>) = smm_wf st" "smm_wf (st\<lparr>du_subscribed := b\<rparr>) = smm_wf st"
  "smm_wf (st\<lparr>smm_subscribed := b\<rparr>) = smm_wf st" "smm_wf (st\<lparr>du_informs := is\<rparr>) = smm_wf st"
  by (simp_all add: smm_wf_def raise_smm_def)

lemma op_run_dsccs [simp]: "op_run env t st = (r, st') \<Longrightarrow> dsccs st' = dsccs st"
  by (auto simp: op_run_def Let_def split: option.splits prod.splits if_splits)

lemma handle_complete_dsccs [simp]: "dsccs (handle_dustatechangecomplete env p st) = dsccs st"
  by (auto simp: handle_dustatechangecomplete_def split: option.splits)

lemma handle_complete_wf [simp]: "smm_wf (handle_dustatechangecomplete env p st) = smm_wf st"
  by (simp add: smm_wf_def)

lemma init_dsccs [simp]: "dsccs (snd (DM_AmxChangeDUState_init env st)) = dsccs st"
proof -
  have "dsccs (foldl (\<lambda>s i. differ_dustatechangecomplete_handling (Some i) s) st is) = dsccs st" for "is"
    by (induction "is" arbitrary: st) (auto simp: differ_dustatechangecomplete_handling_def)
  then show ?thesis by (simp add: DM_AmxChangeDUState_init_def Let_def)
qed

lemma changeDUState_cases:
  obtains (refused) "fst (changeDUState env args st) = False" "dsccs (snd (changeDUState env args st)) = dsccs st"
  | (accepted) d where "fst (changeDUState env args st)" "dsccs (snd (changeDUState env args st)) = dsccs st @ [d]" "dscc_wf d"
      "dc_index d = se_new_index env" "dc_Status d = []" "\<forall>x\<in>set (dc_Operations d). op_Status x = ''In Progress'' \<and> op_Results x = []"
proof (cases "fst (changeDUState env args st)")
  case False
  then show thesis
    using refused
    by (auto simp: changeDUState_def Let_def split: option.splits list.splits prod.splits if_splits)
next
  case True
  then show thesis
    using accepted
    by (auto simp: changeDUState_def Let_def dscc_wf.simps op_wf.simps text_of_def comp_def bind_eq_Some_conv
        split: option.splits list.splits prod.splits if_splits)
qed


lemma status_done_wf:
  assumes "smm_wf st" "find_dscc i st = Some d" "\<forall>x\<in>set (dc_Operations d). op_Status x = ''Done''"
  shows "smm_wf (dscc_status_done env (Some i) st)"
  using set_status_wf [OF assms] assms by (simp add: dscc_status_done_def)

lemma op_done_cases:
  obtains (same) "dscc_op_done env p st = st"
  | (completed) d where "find_dscc (fst p) st = Some d" "\<forall>x\<in>set (dc_Operations d). op_Status x = ''Done''"
      "dscc_op_done env p st = dscc_status_done env (Some (fst p)) st"
proof (cases "find_op p st")
  case None
  then show thesis using same by (simp add: dscc_op_done_def)
next
  case (Some x)
  then obtain d where d: "find_dscc (fst p) st = Some d" by (auto simp: find_op_def split: option.splits)
  show thesis
  proof (cases "\<forall>x\<in>set (dc_Operations d). op_Status x = ''Done''")
    case True
    then have "length (filter (\<lambda>x. op_Status x = ''Done'') (dc_Operations d)) = length (dc_Operations d)" by simp
    then show thesis
      using True d Some same completed by (cases "dc_Operations d = []") (auto simp: dscc_op_done_def Let_def)
  next
    case False
    then obtain x where "x \<in> set (dc_Operations d)" "op_Status x \<noteq> ''Done''" by blast
    from length_filter_less [OF this(1), of "\<lambda>x. op_Status x = ''Done''"] this(2)
    have "length (filter (\<lambda>x. op_Status x = ''Done'') (dc_Operations d)) \<noteq> length (dc_Operations d)" by simp
    then show thesis using d Some same by (auto simp: dscc_op_done_def Let_def)
  qed
qed

lemma dscc_op_done_wf: "smm_wf st \<Longrightarrow> smm_wf (dscc_op_done env p st)"
  by (cases rule: op_done_cases [of env p st]) (simp_all add: status_done_wf)

definition with_result :: "op_result_struct \<Rightarrow> du_operation \<Rightarrow> du_operation" where
  "with_result r x = x\<lparr>op_Results := op_Results x @ [new_result r]\<rparr>"

definition finished_op :: "op_result_struct \<Rightarrow> du_operation \<Rightarrow> du_operation" where
  "finished_op r x = (with_result r x)\<lparr>op_Status := ''Done''\<rparr>"

lemma with_result_simps [simp]:
  "op_index (with_result r x) = op_index x" "op_Status (with_result r x) = op_Status x"
  "op_index (finished_op r x) = op_index x" "op_Status (finished_op r x) = ''Done''"
  "op_Results (finished_op r x) = op_Results x @ [new_result r]"
  "op_Results (with_result r x) = op_Results x @ [new_result r]"
  "op_ID (finished_op r x) = op_ID x" "op_ID (with_result r x) = op_ID x"
  "op_Type (finished_op r x) = op_Type x" "op_Type (with_result r x) = op_Type x"
  "op_params (finished_op r x) = op_params x" "op_params (with_result r x) = op_params x"
  by (simp_all add: with_result_def finished_op_def)

lemma find_op_upd:
  assumes "\<And>x. op_index (f x) = op_index x"
  shows "find_op p (upd_op p f st) = map_option f (find_op p st)"
proof -
  have find_upd: "find (\<lambda>x. k x = i) (map (\<lambda>x. if k x = i then g x else x) xs) = map_option g (find (\<lambda>x. k x = i) xs)"
    if "\<And>x. k (g x) = k x" for k :: "'a \<Rightarrow> nat" and g i xs
    using that by (induction xs) auto
  show ?thesis
    using assms
    by (simp add: find_op_def upd_op_def upd_dscc_def find_dscc_def find_upd split: option.splits)
qed

lemma upd_op_twice:
  assumes "\<And>x. op_index (f x) = op_index x"
  shows "upd_op p g (upd_op p f st) = upd_op p (\<lambda>x. g (f x)) st"
  using assms by (auto simp: upd_op_def upd_dscc_def comp_def intro!: arg_cong [where f = "\<lambda>ds. st\<lparr>dsccs := ds\<rparr>"])

lemma handle_results_cases:
  obtains (same) "op_handle_results env data st = st"
  | (added) p r where "op_handle_results env data st = upd_op p (with_result r) st" "\<not> se_set_ok env"
  | (finished) p x r where "find_op p st = Some x" "op_Status x = ''In Progress''"
      "op_handle_results env data st = raise_smm (Op_Changed (fst p) (snd p) ''Done'') (upd_op p (finished_op r) st)"
proof (cases "\<exists>oid r p x. data = Some (oid, Some r) \<and> op_obj_get_by_id oid st = Some p \<and> find_op p st = Some x \<and>
    op_Status x = ''In Progress'' \<and> se_add_ok env")
  case True
  then obtain oid r p x where h: "data = Some (oid, Some r)" "op_obj_get_by_id oid st = Some p" "find_op p st = Some x"
    "op_Status x = ''In Progress''" "se_add_ok env" by blast
  have r: "op_handle_results env data st = op_status_set env (Some p) op_status_done (upd_op p (with_result r) st)"
    using h by (simp add: op_handle_results_def op_status_get_def op_add_result_def with_result_def [abs_def])
  have "upd_op p (\<lambda>x. x\<lparr>op_Status := ''Done''\<rparr>) (upd_op p (with_result r) st) = upd_op p (finished_op r) st"
    by (simp add: upd_op_twice finished_op_def [abs_def])
  with r h show thesis
    using added finished [of p x r] by (cases "se_set_ok env") (auto simp: op_status_set_def find_op_upd Let_def)
next
  case False
  then have "op_handle_results env data st = st"
    by (auto simp: op_handle_results_def op_status_get_def op_add_result_def split: option.splits)
  then show thesis by (rule same)
qed

lemma handle_results_wf:
  assumes "smm_wf st"
  shows "smm_wf (op_handle_results env data st)"
proof (cases rule: handle_results_cases [of env data st])
  case (added p r)
  with assms show ?thesis by (auto simp: op_wf.simps intro!: upd_op_wf split: option.splits)
next
  case (finished p x r)
  have "smm_wf (upd_op p (finished_op r) st)"
    by (rule upd_op_wf [OF assms]) (auto simp: op_wf.simps split: option.splits)
  with finished show ?thesis by simp
qed (simp add: assms)

lemma changeDUState_wf:
  assumes "smm_wf st" "se_new_index env \<notin> dc_index ` set (dsccs st)"
  shows "smm_wf (snd (changeDUState env args st))"
  by (cases rule: changeDUState_cases [of env args st]) (use assms in \<open>auto simp: smm_wf_def\<close>)

lemma DoChangeDUState_snd:
  "snd (DM_ENG_Device_DoChangeDUState env x key st) =
     (case (key, Option.bind x (operation_table env)) of
        (Some k, Some t) \<Rightarrow>
          (if se_bus_ok env
           then snd (changeDUState env (Some \<lparr>da_Initiator = Some ''ACS'', da_CommandKey = Some k, da_Operations = [t]\<rparr>) st)
           else st)
      | _ \<Rightarrow> st)"
  by (auto simp: DM_ENG_Device_DoChangeDUState_def split: option.splits prod.splits bool.splits)

lemma smm_step_wf:
  assumes "smm_wf st" "smm_ok st e"
  shows "smm_wf (smm_step st e)"
proof (cases "(st, e)" rule: smm_step.cases)
  case (1 _ env x key)
  with assms changeDUState_wf [of st env] show ?thesis
    by (simp add: DoChangeDUState_snd split: option.splits)
next
  case (2 _ env args)
  with assms show ?thesis by (simp add: changeDUState_wf)
next
  case (3 _ env data)
  with assms show ?thesis by (simp add: handle_results_wf)
next
  case (4 _ env)
  have "smm_wf (deliver_smm env ev s)" if "smm_wf s" for ev s
    using that dscc_op_done_wf
    by (cases ev) (auto simp: dustatechangecomplete_notification_def split: option.splits)
  with 4 assms show ?thesis by (auto split: list.splits)
next
  case (6 _ env i)
  with assms show ?thesis
    by (auto simp: DM_ENG_Device_DUStateChangeCompleteAcknowledged_def smm_wf_def list_all_iff distinct_map_filter)
next
  case (8 _ env)
  with assms show ?thesis by (simp add: smm_wf_def)
qed (use assms in \<open>auto simp: DM_AmxChangeDUState_clean_def smm_available_cb_def monitor_smm_def\<close>)

interpretation smm_tables: event_system smm_step smm_ok smm_wf
  by unfold_locales (rule smm_step_wf)



definition example_smm_env :: smm_env where
  "example_smm_env =
     \<lparr>se_present = True, se_sub_ok = True, se_connect_ok = True, se_du_call = (\<lambda>rpc args. Some 5), se_add_ok = True,
      se_set_ok = True, se_new_index = 1, se_new_op = 1, se_null_text = None, se_bus_ok = True, se_get_ok = True,
      se_empty_null = True, se_inform_ok = True, se_del_ok = True\<rparr>"

definition example_smm :: smm where
  "example_smm =
     \<lparr>dsccs = [], smm_events = [], du_calls = [], smm_subscribed = True, smm_waiting = False, smm_null_deref = False,
      du_subscribed = True, du_timers = [], du_informs = []\<rparr>"

definition example_install :: OperationStruct where
  "example_install = OPERATION_TYPE_INSTALL (Some ''u'') (Some ''1'') (Some ''n'') (Some ''p'') (Some ''e'')"

definition example_du_result :: op_result_struct where
  "example_du_result =
     \<lparr>rs_CurrentState = Some ''Installed'', rs_DeploymentUnitRef = None, rs_ExecutionUnitRefList = None, rs_FaultCode = 0,
      rs_FaultString = None, rs_Resolved = True, rs_StartTime = None, rs_CompleteTime = Some 3, rs_UUID = Some ''1'',
      rs_Version = None\<rparr>"


subsection \<open>No state change is lost\<close>

text \<open>
  Where a state change that the ACS asked for stands: its operation runs; or has ended, with the event that makes the
  instance \<open>Done\<close> still queued; or the instance is \<open>Done\<close> with its one result, and the adapter is not running, is to be
  notified, has a timer for it or has handed exactly this result to the engine.
\<close>

definition stage :: "smm \<Rightarrow> dscc \<Rightarrow> bool" where
  "stage st d \<longleftrightarrow>
     (case dc_Operations d of
        [x] \<Rightarrow>
          op_Status x = ''In Progress'' \<and> op_Results x = [] \<or>
          op_Status x = ''Done'' \<and> length (op_Results x) = 1 \<and> dc_Status d = [] \<and>
            Op_Changed (dc_index d) (op_index x) ''Done'' \<in> set (smm_events st) \<or>
          op_Status x = ''Done'' \<and> length (op_Results x) = 1 \<and> dc_Status d = ''Done'' \<and>
            (\<not> du_subscribed st \<or> Dscc_Changed (dc_index d) ''Done'' \<in> set (smm_events st) \<or>
             dc_index d \<in> set (du_timers st) \<or> (op_Results x, dc_CommandKey d, dc_index d) \<in> set (du_informs st))
      | _ \<Rightarrow> False)"

definition all_staged :: "smm \<Rightarrow> bool" where
  "all_staged st \<longleftrightarrow> smm_wf st \<and> list_all (\<lambda>d. dc_Initiator d = ''ACS'' \<longrightarrow> stage st d) (dsccs st)"

text \<open>Transactions are applied and reads are answered; everything else may fail.\<close>

definition staged_ok :: "smm \<Rightarrow> smm_env \<times> du_input \<Rightarrow> bool" where
  "staged_ok st e \<longleftrightarrow> smm_ok st e \<and> se_set_ok (fst e) \<and> se_get_ok (fst e) \<and> se_inform_ok (fst e)"

lemma stage_mono:
  assumes "stage st d" "set (smm_events st) \<subseteq> set (smm_events st')" "set (du_timers st) \<subseteq> set (du_timers st')"
    and "set (du_informs st) \<subseteq> set (du_informs st')" "du_subscribed st' \<Longrightarrow> du_subscribed st"
  shows "stage st' d"
  using assms by (auto simp: stage_def split: list.splits)

lemma all_staged_mono:
  assumes "all_staged st" "set (dsccs st') \<subseteq> set (dsccs st)" "smm_wf st'" "set (smm_events st) \<subseteq> set (smm_events st')"
    and "set (du_timers st) \<subseteq> set (du_timers st')" "set (du_informs st) \<subseteq> set (du_informs st')"
    and "du_subscribed st' \<Longrightarrow> du_subscribed st"
  shows "all_staged st'"
  using assms stage_mono [of st _ st'] by (auto simp: all_staged_def list_all_iff)

lemma all_staged_wf: "all_staged st \<Longrightarrow> smm_wf st"
  by (simp add: all_staged_def)

lemma handle_complete_informs:
  assumes "se_get_ok env" "se_inform_ok env" "find_dscc i st = Some d" "dscc_results d \<noteq> []"
  shows "handle_dustatechangecomplete env (Some i) st = st\<lparr>du_informs := du_informs st @ [(dscc_results d, dc_CommandKey d, i)]\<rparr>"
  using assms by (simp add: handle_dustatechangecomplete_def)

lemma handle_complete_frame [simp]:
  "smm_events (handle_dustatechangecomplete env p st) = smm_events st"
  "du_timers (handle_dustatechangecomplete env p st) = du_timers st"
  "du_subscribed (handle_dustatechangecomplete env p st) = du_subscribed st"
  "set (du_informs st) \<subseteq> set (du_informs (handle_dustatechangecomplete env p st))"
  by (auto simp: handle_dustatechangecomplete_def split: option.splits)

text \<open>One entry may be taken from the queue or the timers when the instance it names is handed to the engine.\<close>

lemma handle_complete_staged:
  assumes "se_get_ok env" "se_inform_ok env" "smm_wf st"
    and "\<forall>d\<in>set (dsccs st). dc_Initiator d = ''ACS'' \<longrightarrow> stage st d \<or>
      dc_index d = i \<and> dc_Status d = ''Done'' \<and> (\<exists>x. dc_Operations d = [x] \<and> op_Status x = ''Done'' \<and> length (op_Results x) = 1)"
  shows "all_staged (handle_dustatechangecomplete env (Some i) st)"
proof -
  have "stage (handle_dustatechangecomplete env (Some i) st) d"
    if d: "d \<in> set (dsccs st)" "dc_Initiator d = ''ACS''" for d
  proof (cases "stage st d")
    case True
    then show ?thesis by (rule stage_mono) simp_all
  next
    case False
    with assms(4) d obtain x where x: "dc_index d = i" "dc_Status d = ''Done''" "dc_Operations d = [x]" "op_Status x = ''Done''"
      "length (op_Results x) = 1" by blast
    with d(1) assms(3) have "find_dscc i st = Some d" using find_dscc_index by (auto simp: smm_wf_def)
    moreover from x(5) have "op_Results x \<noteq> []" by auto
    ultimately show ?thesis
      using x handle_complete_informs [OF assms(1,2), of i st d] by (auto simp: stage_def dscc_results_def)
  qed
  with assms(3) show ?thesis by (auto simp: all_staged_def list_all_iff)
qed


text \<open>An instance whose operation has ended with one result, and which is not \<open>Done\<close> yet.\<close>

definition completing :: "dscc \<Rightarrow> bool" where
  "completing d \<longleftrightarrow> dc_Status d = [] \<and> (\<exists>x. dc_Operations d = [x] \<and> op_Status x = ''Done'' \<and> length (op_Results x) = 1)"

lemma status_done_staged:
  assumes "se_set_ok env" "smm_wf st" "find_dscc i st = Some c" "\<forall>x\<in>set (dc_Operations c). op_Status x = ''Done''"
    and "\<forall>d\<in>set (dsccs st). dc_Initiator d = ''ACS'' \<longrightarrow> stage st d \<or> dc_index d = i \<and> completing d"
  shows "all_staged (dscc_status_done env (Some i) st)"
proof -
  have wf: "smm_wf (dscc_status_done env (Some i) st)" by (rule status_done_wf [OF assms(2-4)])
  let ?st' = "raise_smm (Dscc_Changed i ''Done'') (upd_dscc i (\<lambda>d. d\<lparr>dc_Status := ''Done''\<rparr>) st)"
  have keep: "stage ?st' d" if "stage st d" for d using that by (rule stage_mono) auto
  have c: "c \<in> set (dsccs st)" "dc_index c = i" "dscc_wf c"
    using find_dscc_in [OF assms(3)] assms(2) by (auto simp: smm_wf_def list_all_iff)
  have only: "d = c" if "d \<in> set (dsccs st)" "dc_index d = i" for d
    using that c find_dscc_index [of st] assms(2) by (metis option.inject smm_wf_def)
  show ?thesis
  proof (cases "dc_Status c = ''Done''")
    case True
    then have "dscc_status_done env (Some i) st = st" using assms(3) by (simp add: dscc_status_done_def)
    moreover have "\<not> completing c" using True by (simp add: completing_def)
    ultimately show ?thesis using assms(2,5) only by (auto simp: all_staged_def list_all_iff)
  next
    case False
    then have eq: "dscc_status_done env (Some i) st = ?st'" using assms(1,3) by (simp add: dscc_status_done_def)
    have "stage ?st' (c\<lparr>dc_Status := ''Done''\<rparr>)" if "dc_Initiator c = ''ACS''"
      using assms(4,5) c that False
      by (auto simp: stage_def completing_def dscc_wf.simps split: list.splits)
    with keep only assms(5) have "\<forall>d\<in>set (dsccs ?st'). dc_Initiator d = ''ACS'' \<longrightarrow> stage ?st' d"
      by (auto simp: upd_dscc_def)
    with wf eq show ?thesis by (simp add: all_staged_def list_all_iff)
  qed
qed

lemma op_done_staged:
  assumes "se_set_ok env" "smm_wf st"
    and "\<forall>d\<in>set (dsccs st). dc_Initiator d = ''ACS'' \<longrightarrow>
      stage st d \<or> completing d \<and> dc_index d = fst p \<and> (\<exists>x. dc_Operations d = [x] \<and> op_index x = snd p)"
  shows "all_staged (dscc_op_done env p st)"
proof (cases "\<exists>d\<in>set (dsccs st). dc_index d = fst p \<and> completing d \<and> (\<exists>x. dc_Operations d = [x] \<and> op_index x = snd p)")
  case True
  then obtain d x where d: "d \<in> set (dsccs st)" "dc_index d = fst p" "completing d" "dc_Operations d = [x]" "op_index x = snd p"
    by blast
  from find_dscc_index [of st d] d(1,2) assms(2) have f: "find_dscc (fst p) st = Some d" by (simp add: smm_wf_def)
  then have "find_op p st = Some x" using d by (simp add: find_op_def)
  moreover have x: "op_Status x = ''Done''" using d by (simp add: completing_def)
  ultimately have "dscc_op_done env p st = dscc_status_done env (Some (fst p)) st"
    using f d by (simp add: dscc_op_done_def)
  with status_done_staged [OF assms(1,2) f] assms(3) d x show ?thesis by auto
next
  case False
  with assms(3) have all: "\<forall>d\<in>set (dsccs st). dc_Initiator d = ''ACS'' \<longrightarrow> stage st d" by blast
  then have same: "all_staged st" using assms(2) by (simp add: all_staged_def list_all_iff)
  show ?thesis
    by (cases rule: op_done_cases [of env p st]) (use same all status_done_staged [OF assms(1,2)] in auto)
qed

lemma handle_results_staged:
  assumes "all_staged st" "se_set_ok env"
  shows "all_staged (op_handle_results env data st)"
proof (cases rule: handle_results_cases [of env data st])
  case (finished p x r)
  note wf = all_staged_wf [OF assms(1)]
  let ?st' = "raise_smm (Op_Changed (fst p) (snd p) ''Done'') (upd_op p (finished_op r) st)"
  obtain c where c: "c \<in> set (dsccs st)" "dc_index c = fst p" "dc_Operations c = [x]" "op_index x = snd p"
    using find_op_in [OF wf finished(1)] .
  have keep: "stage ?st' d" if "stage st d" for d using that by (rule stage_mono) auto
  have only: "d = c" if "d \<in> set (dsccs st)" "dc_index d = fst p" for d
    using that c find_dscc_index [of st] wf by (metis option.inject smm_wf_def)
  have "dscc_wf c" using wf c(1) by (simp add: smm_wf_def list_all_iff)
  then have "dc_Status c = []" using c(3) finished(2) by (simp add: dscc_wf.simps)
  moreover have "op_Results x = []" if "dc_Initiator c = ''ACS''"
  proof -
    have "stage st c" using assms(1) c(1) that by (simp add: all_staged_def list_all_iff)
    with c(3) finished(2) show ?thesis by (simp add: stage_def)
  qed
  ultimately have "stage ?st' (c\<lparr>dc_Operations := [finished_op r x]\<rparr>)" if "dc_Initiator c = ''ACS''"
    using c that by (simp add: stage_def)
  moreover have "\<forall>d\<in>set (dsccs st). dc_Initiator d = ''ACS'' \<longrightarrow> stage ?st' d"
    using assms(1) keep unfolding all_staged_def list_all_iff by blast
  moreover have "set (dsccs ?st') \<subseteq> insert (c\<lparr>dc_Operations := [finished_op r x]\<rparr>) (set (dsccs st))"
    using only c(3,4) by (auto simp: upd_op_def upd_dscc_def)
  ultimately have "\<forall>d\<in>set (dsccs ?st'). dc_Initiator d = ''ACS'' \<longrightarrow> stage ?st' d" by auto
  with handle_results_wf [OF wf, of env data] finished(3) show ?thesis by (simp add: all_staged_def list_all_iff)
qed (use assms in simp_all)


lemma deliver_staged:
  assumes "all_staged st" "smm_events st = e # es" "se_set_ok env" "se_get_ok env" "se_inform_ok env"
  shows "all_staged (deliver_smm env e (st\<lparr>smm_events := es\<rparr>))"
proof -
  let ?st = "st\<lparr>smm_events := es\<rparr>"
  have wf: "smm_wf ?st" using assms(1) by (simp add: all_staged_def)
  have old: "stage st d" if "d \<in> set (dsccs ?st)" "dc_Initiator d = ''ACS''" for d
    using assms(1) that by (simp add: all_staged_def list_all_iff)
  have other: "all_staged ?st" if h: "\<And>d x. d \<in> set (dsccs ?st) \<Longrightarrow> dc_Initiator d = ''ACS'' \<Longrightarrow> dc_Operations d = [x] \<Longrightarrow>
      e = Op_Changed (dc_index d) (op_index x) ''Done'' \<or> e = Dscc_Changed (dc_index d) ''Done'' \<Longrightarrow> stage ?st d"
  proof -
    have "stage ?st d" if d: "d \<in> set (dsccs ?st)" "dc_Initiator d = ''ACS''" for d
      using old [OF d] h [OF d] assms(2) by (auto simp: stage_def split: list.splits)
    with wf show ?thesis by (simp add: all_staged_def list_all_iff)
  qed
  show ?thesis
  proof (cases e)
    case (Op_Changed i j v)
    have "stage ?st d \<or> completing d \<and> dc_index d = i \<and> (\<exists>x. dc_Operations d = [x] \<and> op_index x = j)"
      if "d \<in> set (dsccs ?st)" "dc_Initiator d = ''ACS''" for d
      using old [OF that] assms(2) Op_Changed by (auto simp: stage_def completing_def split: list.splits)
    then have "all_staged (dscc_op_done env (i, j) ?st)" by (intro op_done_staged [OF assms(3) wf]) simp
    moreover have "all_staged ?st" if "v \<noteq> ''Done''" using that Op_Changed by (intro other) simp
    ultimately show ?thesis using Op_Changed by simp
  next
    case (Dscc_Changed i v)
    have cases: "stage ?st d \<or> v = ''Done'' \<and> dc_index d = i \<and> dc_Status d = ''Done'' \<and> du_subscribed ?st \<and>
        (\<exists>x. dc_Operations d = [x] \<and> op_Status x = ''Done'' \<and> length (op_Results x) = 1)"
      if "d \<in> set (dsccs ?st)" "dc_Initiator d = ''ACS''" for d
      using old [OF that] assms(2) Dscc_Changed by (auto simp: stage_def split: list.splits)
    show ?thesis
    proof (cases "\<forall>d\<in>set (dsccs ?st). dc_Initiator d = ''ACS'' \<longrightarrow> stage ?st d")
      case True
      then have "all_staged (handle_dustatechangecomplete env (Some i) ?st)"
        by (intro handle_complete_staged [OF assms(4,5) wf]) blast
      moreover have "all_staged ?st" using True wf by (simp add: all_staged_def list_all_iff)
      ultimately show ?thesis
        using Dscc_Changed by (auto simp: dustatechangecomplete_notification_def split: option.splits)
    next
      case False
      then obtain d where d: "d \<in> set (dsccs ?st)" "dc_Initiator d = ''ACS''" "v = ''Done''" "dc_index d = i" "du_subscribed ?st"
        using cases by blast
      from find_dscc_index [of ?st d] d wf have "find_dscc i ?st = Some d" by (simp add: smm_wf_def)
      with d Dscc_Changed have "deliver_smm env e ?st = handle_dustatechangecomplete env (Some i) ?st"
        by (simp add: dustatechangecomplete_notification_def)
      moreover have "all_staged (handle_dustatechangecomplete env (Some i) ?st)"
        using cases by (intro handle_complete_staged [OF assms(4,5) wf]) blast
      ultimately show ?thesis by simp
    qed
  qed
qed

definition du_rest :: "smm \<Rightarrow> smm_event list \<times> nat list \<times> (result_inst list \<times> string \<times> nat) list \<times> bool \<times> bool" where
  "du_rest st = (smm_events st, du_timers st, du_informs st, du_subscribed st, smm_subscribed st)"

lemma op_run_rest: "du_rest (snd (op_run env t st)) = du_rest st"
  by (auto simp: op_run_def du_rest_def Let_def split: option.splits)

lemma changeDUState_rest: "du_rest (snd (changeDUState env args st)) = du_rest st"
proof -
  have dsccs: "du_rest (s\<lparr>dsccs := ds\<rparr>) = du_rest s" for s ds by (simp add: du_rest_def)
  show ?thesis
  proof (cases "\<exists>a t ts. args = Some a \<and> da_Operations a = t # ts")
    case True
    then obtain a t ts where a: "args = Some a" "da_Operations a = t # ts" by blast
    obtain r st1 where "op_run env (Some t) st = (r, st1)" by fastforce
    with a op_run_rest [of env "Some t" st] dsccs show ?thesis
      by (simp add: changeDUState_def Let_def split: option.splits)
  qed (auto simp: changeDUState_def split: option.splits list.splits)
qed

lemma changeDUState_fields:
  "smm_events (snd (changeDUState env args st)) = smm_events st" "du_timers (snd (changeDUState env args st)) = du_timers st"
  "du_informs (snd (changeDUState env args st)) = du_informs st" "du_subscribed (snd (changeDUState env args st)) = du_subscribed st"
  "smm_subscribed (snd (changeDUState env args st)) = smm_subscribed st"
  using changeDUState_rest [of env args st] by (simp_all add: du_rest_def)

lemma changeDUState_staged:
  assumes "all_staged st" "se_new_index env \<notin> dc_index ` set (dsccs st)"
  shows "all_staged (snd (changeDUState env args st))"
proof (cases rule: changeDUState_cases [of env args st])
  case refused
  then show ?thesis
    using assms changeDUState_wf [OF all_staged_wf [OF assms(1)] assms(2), of args]
    by (intro all_staged_mono [OF assms(1)]) (simp_all add: changeDUState_fields)
next
  case (accepted d)
  let ?st' = "snd (changeDUState env args st)"
  have "\<forall>d\<in>set (dsccs st). dc_Initiator d = ''ACS'' \<longrightarrow> stage ?st' d"
    using assms(1) stage_mono [of st _ ?st'] by (auto simp: all_staged_def list_all_iff changeDUState_fields)
  moreover have "stage ?st' d" using dscc_wf_single [OF accepted(3)] accepted(6) by (auto simp: stage_def)
  ultimately show ?thesis
    using changeDUState_wf [OF all_staged_wf [OF assms(1)] assms(2), of args] accepted(2)
    by (auto simp: all_staged_def list_all_iff)
qed

lemma differ_all: "foldl (\<lambda>s i. differ_dustatechangecomplete_handling (Some i) s) st is = st\<lparr>du_timers := du_timers st @ is\<rparr>"
  by (induction "is" arbitrary: st) (simp_all add: differ_dustatechangecomplete_handling_def)

lemma init_staged:
  assumes "all_staged st" "se_get_ok env"
  shows "all_staged (snd (DM_AmxChangeDUState_init env st))"
proof -
  let ?st' = "snd (DM_AmxChangeDUState_init env st)"
  have "stage ?st' d" if "d \<in> set (dsccs st)" "dc_Initiator d = ''ACS''" for d
  proof -
    have "stage st d" using assms(1) that by (simp add: all_staged_def list_all_iff)
    with that assms(2) show ?thesis
      by (auto simp: stage_def DM_AmxChangeDUState_init_def Let_def differ_all split: list.splits)
  qed
  with all_staged_wf [OF assms(1)] show ?thesis by (simp add: all_staged_def list_all_iff smm_wf_def)
qed

lemma timer_staged:
  assumes "all_staged st" "k < length (du_timers st)" "se_get_ok env" "se_inform_ok env"
  shows "all_staged (smm_step st (env, Du_Timer k))"
proof -
  let ?st = "st\<lparr>du_timers := take k (du_timers st) @ drop (Suc k) (du_timers st)\<rparr>"
  let ?i = "du_timers st ! k"
  have ts: "set (du_timers st) = insert ?i (set (take k (du_timers st) @ drop (Suc k) (du_timers st)))"
    by (subst id_take_nth_drop [OF assms(2)]) auto
  have "stage ?st d \<or> dc_index d = ?i \<and> dc_Status d = ''Done'' \<and>
      (\<exists>x. dc_Operations d = [x] \<and> op_Status x = ''Done'' \<and> length (op_Results x) = 1)"
    if "d \<in> set (dsccs st)" "dc_Initiator d = ''ACS''" for d
  proof -
    have "stage st d" using assms(1) that by (simp add: all_staged_def list_all_iff)
    with ts show ?thesis by (auto simp: stage_def split: list.splits)
  qed
  then have "all_staged (handle_dustatechangecomplete env (Some ?i) ?st)"
    using all_staged_wf [OF assms(1)] by (intro handle_complete_staged [OF assms(3,4)]) simp_all
  with assms(2) show ?thesis by simp
qed

lemma smm_step_staged:
  assumes "all_staged st" "staged_ok st e"
  shows "all_staged (smm_step st e)"
proof (cases "(st, e)" rule: smm_step.cases)
  case (1 _ env x key)
  with assms show ?thesis
    by (auto simp: staged_ok_def DoChangeDUState_snd changeDUState_staged split: option.splits)
next
  case (5 _ env k)
  with assms timer_staged [of st k env] show ?thesis by (auto simp: staged_ok_def)
next
  case (6 _ env i)
  have "smm_wf (smm_step st e)" using assms smm_step_wf [of st e] by (simp add: staged_ok_def all_staged_def)
  with 6 show ?thesis
    by (intro all_staged_mono [OF assms(1)]) (auto simp: DM_ENG_Device_DUStateChangeCompleteAcknowledged_def split: if_splits)
next
  case (7 _ env)
  have "stage (st\<lparr>du_subscribed := False, du_timers := []\<rparr>) d" if "stage st d" for d
    using that by (auto simp: stage_def split: list.splits)
  with 7 assms(1) show ?thesis by (simp add: DM_AmxChangeDUState_clean_def all_staged_def list_all_iff)
next
  case (9 _ env)
  have "all_staged (st\<lparr>smm_subscribed := True\<rparr>)"
    by (rule all_staged_mono [OF assms(1)]) (use assms(1) in \<open>auto simp: all_staged_def\<close>)
  with 9 assms(1) show ?thesis by (simp add: smm_available_cb_def monitor_smm_def)
qed (use assms deliver_staged in
    \<open>auto simp: staged_ok_def changeDUState_staged handle_results_staged init_staged split: list.splits\<close>)

interpretation smm_stages: event_system smm_step staged_ok all_staged
  by unfold_locales (rule smm_step_staged)


text \<open>Property C30. No state change that the ACS asked for is lost, in any interleaving of requests of the ACS and of others,
  results, deliveries, timers, acknowledgements and restarts of the daemon, provided the data model applies its transactions
  and the engine accepts the message: each instance has its operation in progress, or an event that takes it further, or is
  reported with its only result, or is left for the next start of the adapter, which looks for instances that are \<open>Done\<close>.\<close>

theorem du_change_never_lost:
  assumes "all_staged st" "enabled_run staged_ok smm_step st es"
  shows "all_staged (foldl smm_step st es)"
  using assms by (rule smm_stages.run_inv)

theorem du_change_never_lost_witness:
  "let st = foldl smm_step example_smm
     [(example_smm_env, Du_Request (Some example_install) (Some ''k'')),
      (example_smm_env\<lparr>se_new_index := 2\<rparr>, Du_Result (Some (5, Some example_du_result))),
      (example_smm_env\<lparr>se_new_index := 2\<rparr>, Du_Deliver), (example_smm_env\<lparr>se_new_index := 2\<rparr>, Du_Stop)]
   in all_staged st \<and> map dc_Status (dsccs st) = [''Done''] \<and> du_informs st = []"
proof -
  let ?es = "[(example_smm_env, Du_Request (Some example_install) (Some ''k'')),
      (example_smm_env\<lparr>se_new_index := 2\<rparr>, Du_Result (Some (5, Some example_du_result))),
      (example_smm_env\<lparr>se_new_index := 2\<rparr>, Du_Deliver), (example_smm_env\<lparr>se_new_index := 2\<rparr>, Du_Stop)]"
  have "all_staged example_smm" "enabled_run staged_ok smm_step example_smm ?es" by code_simp+
  from du_change_never_lost [OF this] have "all_staged (foldl smm_step example_smm ?es)" .
  moreover have "map dc_Status (dsccs (foldl smm_step example_smm ?es)) = [''Done'']"
    "du_informs (foldl smm_step example_smm ?es) = []" by code_simp+
  ultimately show ?thesis by (simp add: Let_def)
qed

subsection \<open>From the request to the message\<close>

lemma find_dscc_last:
  "i \<notin> dc_index ` set (dsccs st) \<Longrightarrow> dsccs st' = dsccs st @ [d] \<Longrightarrow> dc_index d = i \<Longrightarrow> find_dscc i st' = Some d"
proof -
  assume h: "i \<notin> dc_index ` set (dsccs st)" "dsccs st' = dsccs st @ [d]" "dc_index d = i"
  then have "\<forall>e\<in>set (dsccs st). dc_index e \<noteq> i" by blast
  from find_append_fresh [of "dsccs st" "\<lambda>e. dc_index e = i", OF this h(3)] h(2) show ?thesis by (simp add: find_dscc_def)
qed

lemma ops_by_id_fresh:
  assumes "oid \<notin> op_ID ` (\<Union>d\<in>set (dsccs st). set (dc_Operations d))"
  shows "ops_by_id oid st = []"
  using assms by (auto simp: ops_by_id_def filter_empty_conv)

lemma accepted_request:
  assumes "DM_ENG_Device_DoChangeDUState env x key st = (0, st1)"
  obtains d y k rpc args where "key = Some k" "st1 = st\<lparr>du_calls := du_calls st @ [(rpc, args)], dsccs := dsccs st @ [d]\<rparr>"
    "dc_index d = se_new_index env" "dc_Status d = []" "dc_Initiator d = ''ACS''" "dc_CommandKey d = k"
    "dc_Operations d = [y]" "op_index y = se_new_op env" "op_Status y = ''In Progress''" "op_Results y = []"
    "se_du_call env rpc args = Some (op_ID y)" "op_ID y \<noteq> 0"
proof -
  from assms obtain k z t where k: "key = Some k" "x = Some z" "operation_table env z = Some t"
    and c: "changeDUState env (Some \<lparr>da_Initiator = Some ''ACS'', da_CommandKey = Some k, da_Operations = [t]\<rparr>) st = (True, st1)"
    by (auto simp: DM_ENG_Device_DoChangeDUState_def DM_ENG_FAULTCODE_9002_def split: option.splits if_splits prod.splits bool.splits)
  from c obtain oid st2 where r: "op_run env (Some t) st = (Some oid, st2)" "oid \<noteq> 0"
    by (auto simp: changeDUState_def split: option.splits prod.splits if_splits)
  from r(1) obtain type where type: "map_of t ''Type'' = Some type"
    by (cases "map_of t ''Type''") (simp_all add: op_run_def)
  with r(1) obtain rpc needed where rpc: "op_rpc type = Some (rpc, needed)"
    by (cases "op_rpc type") (auto simp: op_run_def)
  from r(1) type rpc obtain args where o: "se_du_call env rpc args = Some oid" "st2 = st\<lparr>du_calls := du_calls st @ [(rpc, args)]\<rparr>"
    "Option.bind (map_of t ''Type'') op_rpc = Some (rpc, needed)"
    by (auto simp: op_run_def Let_def split: if_splits)
  let ?y = "\<lparr>op_index = se_new_op env, op_Type = text_of (map_of t ''Type''), op_Status = ''In Progress'', op_ID = oid,
      op_params = map (\<lambda>k. (k, text_of (map_of t k))) needed, op_Results = []\<rparr>"
  let ?d = "\<lparr>dc_index = se_new_index env, dc_Status = [], dc_Initiator = ''ACS'', dc_CommandKey = k, dc_Operations = [?y]\<rparr>"
  have "st1 = st2\<lparr>dsccs := dsccs st2 @ [?d]\<rparr>"
    using c r o(3) by (simp add: changeDUState_def Let_def text_of_def split: if_splits)
  with o(2) have "st1 = st\<lparr>du_calls := du_calls st @ [(rpc, args)], dsccs := dsccs st @ [?d]\<rparr>" by simp
  from that [OF k(1) this, of ?y] o(1) r(2) show thesis by simp
qed


text \<open>Property C28. ChangeDUState end to end: when the plugin accepts a request of the ACS, the software module manager is called
  once; if it then reports the result of the operation it announced (under an identifier that no other operation of the table
  has), and the data model delivers its two events, the engine is given exactly one message, with the command key of the
  request and this result; the acknowledgement of the ACS removes the instance, and the table is as before.\<close>

theorem du_change_reported:
  assumes "DM_ENG_Device_DoChangeDUState env x key st = (0, st1)" "se_new_index env \<notin> dc_index ` set (dsccs st)"
    and "smm_subscribed st" "du_subscribed st" "smm_events st = []"
    and "du_calls st1 = du_calls st @ [c]" "se_du_call env (fst c) (snd c) = Some oid"
    and "oid \<notin> op_ID ` (\<Union>d\<in>set (dsccs st). set (dc_Operations d))"
    and "se_add_ok env'" "se_set_ok env'" "se_get_ok env'" "se_inform_ok env'" "se_del_ok env'"
    and "st2 = foldl smm_step st1 [(env', Du_Result (Some (oid, Some r))), (env', Du_Deliver), (env', Du_Deliver)]"
  shows "du_informs st2 = du_informs st @ [([new_result r], the key, se_new_index env)] \<and> smm_events st2 = [] \<and>
    dsccs (smm_step st2 (env', Du_Ack (se_new_index env))) = dsccs st"
proof -
  from accepted_request [OF assms(1)] obtain d y k rpc args where a: "key = Some k"
    "st1 = st\<lparr>du_calls := du_calls st @ [(rpc, args)], dsccs := dsccs st @ [d]\<rparr>"
    "dc_index d = se_new_index env" "dc_Status d = []" "dc_Initiator d = ''ACS''" "dc_CommandKey d = k"
    "dc_Operations d = [y]" "op_index y = se_new_op env" "op_Status y = ''In Progress''" "op_Results y = []"
    "se_du_call env rpc args = Some (op_ID y)" "op_ID y \<noteq> 0" .
  let ?i = "se_new_index env" and ?j = "se_new_op env"
  have oid: "oid = op_ID y" using assms(6,7) a(2,11) by auto
  let ?d1 = "d\<lparr>dc_Operations := [finished_op r y]\<rparr>"
  let ?d2 = "?d1\<lparr>dc_Status := ''Done''\<rparr>"
  note fd = find_dscc_last [OF assms(2) _ a(3)]
  have upd: "map (\<lambda>e. if dc_index e = ?i then f e else e) (dsccs st @ [e']) = dsccs st @ [f e']" if "dc_index e' = ?i" for f e'
    using assms(2) that by (auto simp: image_iff intro!: map_idI)
  have f1: "find_dscc ?i st1 = Some d" using find_dscc_last [OF assms(2) _ a(3)] a(2) by simp
  have "ops_by_id oid st1 = [(?i, ?j)]"
    using ops_by_id_fresh [OF assms(8)] a(2,3,7,8) oid by (simp add: ops_by_id_def)
  then have g: "op_obj_get_by_id oid st1 = Some (?i, ?j)" using a(12) oid by (simp add: op_obj_get_by_id_def)
  have fo: "find_op (?i, ?j) st1 = Some y" using f1 a(7,8) by (simp add: find_op_def)
  have s1: "smm_step st1 (env', Du_Result (Some (oid, Some r))) =
      raise_smm (Op_Changed ?i ?j ''Done'') (st1\<lparr>dsccs := dsccs st @ [?d1]\<rparr>)" (is "_ = ?s1")
  proof -
    have "upd_op (?i, ?j) (\<lambda>x. x\<lparr>op_Status := ''Done''\<rparr>) (upd_op (?i, ?j) (with_result r) st1) = upd_op (?i, ?j) (finished_op r) st1"
      by (simp add: upd_op_twice finished_op_def [abs_def])
    also have "\<dots> = st1\<lparr>dsccs := dsccs st @ [?d1]\<rparr>" using upd [of d] a by (simp add: upd_op_def upd_dscc_def)
    finally show ?thesis
      using g fo a(2,9) assms(3,9,10)
      by (simp add: op_handle_results_def op_status_get_def op_add_result_def op_status_set_def find_op_upd
          with_result_def [symmetric, abs_def] Let_def)
  qed
  have ev: "smm_events st1 = []" "du_informs st1 = du_informs st" "du_subscribed st1" using a(2) assms(4,5) by simp_all
  have s2: "smm_step ?s1 (env', Du_Deliver) = raise_smm (Dscc_Changed ?i ''Done'') (st1\<lparr>dsccs := dsccs st @ [?d2]\<rparr>)" (is "_ = ?s2")
  proof -
    let ?s = "st1\<lparr>dsccs := dsccs st @ [?d1], smm_events := []\<rparr>"
    have "find_dscc ?i ?s = Some ?d1" using a(3) by (intro find_dscc_last [OF assms(2)]) simp_all
    moreover from this have "find_op (?i, ?j) ?s = Some (finished_op r y)" using a(8) by (simp add: find_op_def)
    ultimately show ?thesis
      using upd [of ?d1] a(3,4) assms(10) ev
      by (simp add: raise_smm_def dscc_op_done_def dscc_status_done_def upd_dscc_def)
  qed
  have s3: "smm_step ?s2 (env', Du_Deliver) =
      st1\<lparr>dsccs := dsccs st @ [?d2], du_informs := du_informs st @ [([new_result r], k, ?i)]\<rparr>" (is "_ = ?s3")
  proof -
    let ?s = "st1\<lparr>dsccs := dsccs st @ [?d2], smm_events := []\<rparr>"
    have "find_dscc ?i ?s = Some ?d2" using a(3) by (intro find_dscc_last [OF assms(2)]) simp_all
    then show ?thesis
      using a(5,6,10) assms(11,12) ev
      by (simp add: raise_smm_def dustatechangecomplete_notification_def handle_complete_informs dscc_results_def)
  qed
  have "find_dscc ?i ?s3 = Some ?d2" using a(3) by (intro find_dscc_last [OF assms(2)]) simp_all
  moreover have "\<forall>e\<in>set (dsccs st). dc_index e \<noteq> ?i" using assms(2) by (metis imageI)
  then have "filter (\<lambda>e. dc_index e \<noteq> ?i) (dsccs st) = dsccs st" by (simp add: filter_id_conv)
  ultimately have "dsccs (smm_step ?s3 (env', Du_Ack ?i)) = dsccs st"
    using assms(13) a(3) by (simp add: DM_ENG_Device_DUStateChangeCompleteAcknowledged_def)
  with s1 s2 s3 assms(14) a(1) ev show ?thesis by simp
qed


theorem du_change_reported_witness:
  "let st1 = snd (DM_ENG_Device_DoChangeDUState example_smm_env (Some example_install) (Some ''k'') example_smm);
       st2 = foldl smm_step st1 [(example_smm_env, Du_Result (Some (5, Some example_du_result))),
         (example_smm_env, Du_Deliver), (example_smm_env, Du_Deliver)]
   in du_informs st2 = [([new_result example_du_result], ''k'', 1)] \<and>
      dsccs (smm_step st2 (example_smm_env, Du_Ack 1)) = []"
proof -
  let ?q = "DM_ENG_Device_DoChangeDUState example_smm_env (Some example_install) (Some ''k'') example_smm"
  let ?st2 = "foldl smm_step (snd ?q) [(example_smm_env, Du_Result (Some (5, Some example_du_result))),
         (example_smm_env, Du_Deliver), (example_smm_env, Du_Deliver)]"
  have q: "?q = (0, snd ?q)" by (rule prod_eqI) (code_simp, simp)
  have c: "du_calls (snd ?q) = du_calls example_smm @ [last (du_calls (snd ?q))]" by code_simp
  have o: "se_du_call example_smm_env (fst (last (du_calls (snd ?q)))) (snd (last (du_calls (snd ?q)))) = Some 5" by code_simp
  have "du_informs ?st2 = du_informs example_smm @ [([new_result example_du_result], the (Some ''k''), se_new_index example_smm_env)] \<and>
      smm_events ?st2 = [] \<and> dsccs (smm_step ?st2 (example_smm_env, Du_Ack (se_new_index example_smm_env))) = dsccs example_smm"
    by (rule du_change_reported [OF q _ _ _ _ c o _ _ _ _ _ _ refl]) (simp_all add: example_smm_def example_smm_env_def)
  then show ?thesis by (simp add: Let_def example_smm_def example_smm_env_def)
qed

text \<open>A result is given to the first operation with its identifier. When the software module manager starts again and
  uses an identifier that an instance not acknowledged yet still has, the result of the new operation is dropped.\<close>

lemma reused_id_result_dropped:
  assumes "op_obj_get_by_id oid st = Some p" "find_op p st = Some x" "op_Status x = ''Done''"
  shows "op_handle_results env (Some (oid, r)) st = st"
  using assms by (simp add: op_handle_results_def op_status_get_def)

end
