(* ===== verification/Acs_Notifications.thy ===== *)
theory Acs_Notifications
  imports Subscriptions Get_Values
begin

section \<open>Notifications for the ACS (DM\_AmxACSConnection.c)\<close>

text \<open>
  The parameters that the ACS wants to be told about. A subscription is kept twice: on the bus, through the list of
  theory \<open>Subscriptions\<close>, for the modes that need an immediate notification, and as an instance of
  \<open>ManagementServer.Subscription\<close> (path, type and last value), which survives a restart. A change of an object arrives with a
  table of its changed parameters; the changes are recorded in the instances and handed to the inform scheduler of the engine
  (\<open>changed_params\<close>). The attribute cache of the engine, the access rules and the bus are fields of \<open>acs_env\<close>.
\<close>

subsection \<open>State\<close>

datatype DM_ENG_NotificationMode =
    DM_ENG_NotificationMode_OFF | DM_ENG_NotificationMode_PASSIVE | DM_ENG_NotificationMode_ACTIVE
  | DM_ENG_NotificationMode_FORCED | DM_ENG_NotificationMode_other

datatype acs_callback = ACSConnectionHandleNotification

record acs_sub =
  as_Path :: string
  as_Type :: string
  as_Value :: cstr

record acs_conn =
  acs_connected :: "(string \<times> string) option"
  acsSubsList :: "acs_callback subs"
  acs_table :: "acs_sub list"
  changed_params :: "(pvs \<times> DM_ENG_NotificationMode) list"

record acs_env =
  an_be_load :: "string \<Rightarrow> bool"
  an_connect :: "string \<Rightarrow> bool"
  an_sub :: sub_env
  an_gpv :: gpv_env
  an_filter :: "(string \<times> cstr) list \<Rightarrow> (string \<times> cstr) list"
  an_path :: "int \<Rightarrow> cstr"
  an_cached :: "string \<Rightarrow> cstr \<Rightarrow> bool"
  an_mode :: "string \<Rightarrow> DM_ENG_NotificationMode"
  an_mode_text :: "DM_ENG_NotificationMode \<Rightarrow> string"
  an_allowed :: "string \<Rightarrow> bool"
  an_value :: "string \<Rightarrow> cstr option"
  an_get_ok :: bool
  an_add_ok :: bool
  an_set_ok :: bool
  an_del_ok :: bool
  an_ip_bus :: bool
  an_inet_pton6 :: "string \<Rightarrow> bool"
  an_ip_get :: "string \<Rightarrow> cstr option"
  an_prefix :: string

subsection \<open>Changes\<close>

definition update_where :: "string \<Rightarrow> (acs_sub \<Rightarrow> acs_sub) \<Rightarrow> acs_conn \<Rightarrow> acs_conn" where
  "update_where path f st = st\<lparr>acs_table := map (\<lambda>s. if as_Path s = path then f s else s) (acs_table st)\<rparr>"

definition set_subscription_new_value :: "acs_env \<Rightarrow> string \<Rightarrow> cstr \<Rightarrow> acs_conn \<Rightarrow> acs_conn" where
  "set_subscription_new_value env path value st =
     (if an_set_ok env then update_where path (\<lambda>s. s\<lparr>as_Value := value\<rparr>) st else st)"

definition announce :: "acs_env \<Rightarrow> string \<Rightarrow> pvs list \<Rightarrow> acs_conn \<Rightarrow> acs_conn" where
  "announce env acs_path pvsList st =
     st\<lparr>changed_params := changed_params st @ map (\<lambda>p. (p, an_mode env acs_path)) pvsList\<rparr>"

text \<open>The loop over the changed parameters. The variable \<open>id\<close> is not reset for a new parameter: \<open>uid\<close> is its value
  when the parameter is looked up.\<close>

definition matching_info :: "sub_info list \<Rightarrow> string \<Rightarrow> sub_info option" where
  "matching_info infos key = find (\<lambda>i. si_parameter i = Some key) infos"

fun notification_loop :: "acs_env \<Rightarrow> sub_info list \<Rightarrow> int \<Rightarrow> (string \<times> cstr) list \<Rightarrow> acs_conn \<Rightarrow> acs_conn" where
  "notification_loop env infos uid [] st = st"
| "notification_loop env infos uid ((key, value) # ps) st =
     (let uid' = (case matching_info infos key of None \<Rightarrow> uid | Some i \<Rightarrow> si_uniqueID i) in
      if uid' = -1 then st
      else
        (case an_path env uid' of
           None \<Rightarrow> st
         | Some acs_path \<Rightarrow>
             (if prefix ''Device.IP.Interface.'' acs_path \<and> str_empty value then st
              else
                (let st1 = set_subscription_new_value env acs_path value st in
                 if an_cached env acs_path value then notification_loop env infos uid' ps st1
                 else
                   (case DM_ENG_Device_GetParameterValues_GetValues (an_gpv env) acs_path [] of
                      (e, pvsList) \<Rightarrow>
                        (if e \<noteq> DM_OK then st1
                         else notification_loop env infos uid' ps (announce env acs_path pvsList st1)))))))"

definition DM_ENG_Device_ACSConnectionHandleNotification ::
  "acs_env \<Rightarrow> string \<Rightarrow> (string \<times> cstr) list \<Rightarrow> acs_conn \<Rightarrow> acs_conn" where
  "DM_ENG_Device_ACSConnectionHandleNotification env path data st =
     (case DM_ENG_Device_Common_FindSubscription (slist (acsSubsList st)) path of
        None \<Rightarrow> st
      | Some sub \<Rightarrow> notification_loop env (s_infos sub) (-1) (an_filter env data) st)"

subsection \<open>The connection\<close>

definition DM_ENG_Device_Common_AmxConnect :: "acs_env \<Rightarrow> cstr \<Rightarrow> cstr \<Rightarrow> (string \<times> string) option" where
  "DM_ENG_Device_Common_AmxConnect env backend uri =
     (let backend_ptr = (if str_empty backend then ''/usr/bin/mods/amxb/mod-amxb-ubus.so'' else the backend);
          uri_ptr = (if str_empty uri then ''ubus:/var/run/ubus/ubus.sock'' else the uri)
      in if \<not> an_be_load env backend_ptr then None
         else if \<not> an_connect env uri_ptr then None
         else Some (backend_ptr, uri_ptr))"

definition DM_ENG_Device_ACSConnectionHandleGetwaninterface :: "acs_env \<Rightarrow> cstr \<Rightarrow> cstr" where
  "DM_ENG_Device_ACSConnectionHandleGetwaninterface env ipaddress =
     (if str_empty ipaddress \<or> ipaddress = Some ''0.0.0.0'' then None
      else if \<not> an_ip_bus env then None
      else
        (let ip = the ipaddress;
             path = ''IP.Interface.*.'' @ (if an_inet_pton6 env ip then ''IPv6Address'' else ''IPv4Address'') @
                    ''.[IPAddress=='' @ [CHR 0x27] @ ip @ [CHR 0x27] @ '']''
         in case an_ip_get env path of
              None \<Rightarrow> None
            | Some key \<Rightarrow>
                (if str_empty key then None else Some (an_prefix env @ the key @ ''IPAddress''))))"

definition DM_ENG_Device_ACSConnectionInitialize :: "acs_env \<Rightarrow> cstr \<Rightarrow> cstr \<Rightarrow> acs_conn \<Rightarrow> bool \<times> acs_conn" where
  "DM_ENG_Device_ACSConnectionInitialize env backend uri st =
     (case DM_ENG_Device_Common_AmxConnect env backend uri of
        None \<Rightarrow> (False, st)
      | Some c \<Rightarrow>
          (True, st\<lparr>acs_connected := Some c, acsSubsList := (acsSubsList st)\<lparr>slist := []\<rparr>\<rparr>))"

definition DM_ENG_Device_ACSConnectionCleanup :: "acs_env \<Rightarrow> acs_conn \<Rightarrow> acs_conn" where
  "DM_ENG_Device_ACSConnectionCleanup env st =
     st\<lparr>acsSubsList := DM_ENG_Device_Common_Cleanup_Subscription (Some (an_sub env)) (acsSubsList st),
        acs_connected := None\<rparr>"

subsection \<open>Subscriptions\<close>

definition find_subscription_by_path :: "acs_env \<Rightarrow> string \<Rightarrow> acs_conn \<Rightarrow> acs_sub option" where
  "find_subscription_by_path env path st =
     (if \<not> an_get_ok env then None else find (\<lambda>s. as_Path s = path) (acs_table st))"

definition get_subscription_value :: "acs_env \<Rightarrow> string \<Rightarrow> cstr option" where
  "get_subscription_value env path = an_value env path"

definition add_subscription_to_dm :: "acs_env \<Rightarrow> string \<Rightarrow> DM_ENG_NotificationMode \<Rightarrow> acs_conn \<Rightarrow> acs_conn" where
  "add_subscription_to_dm env path mode st =
     (let sub = \<lparr>as_Path = path, as_Type = an_mode_text env mode,
                 as_Value = (case get_subscription_value env path of None \<Rightarrow> Some [] | Some v \<Rightarrow> v)\<rparr>
      in if an_add_ok env then st\<lparr>acs_table := acs_table st @ [sub]\<rparr> else st)"

definition remove_subscription_from_dm :: "acs_env \<Rightarrow> string \<Rightarrow> acs_conn \<Rightarrow> acs_conn" where
  "remove_subscription_from_dm env subscriptionPath st =
     (if an_del_ok env then st\<lparr>acs_table := filter (\<lambda>s. as_Path s \<noteq> subscriptionPath) (acs_table st)\<rparr> else st)"

text \<open>The result is the status of \<open>amxb_set\<close> read as a truth value.\<close>

definition update_subscription_in_dm ::
  "acs_env \<Rightarrow> string \<Rightarrow> string \<Rightarrow> DM_ENG_NotificationMode \<Rightarrow> acs_conn \<Rightarrow> bool \<times> acs_conn" where
  "update_subscription_in_dm env subscriptionPath notification_mode mode st =
     (if notification_mode \<noteq> an_mode_text env mode
      then (if an_set_ok env
            then (False, update_where subscriptionPath (\<lambda>s. s\<lparr>as_Type := an_mode_text env mode\<rparr>) st)
            else (True, st))
      else (False, st))"

definition DM_ENG_Device_ACSConnectionAddSubscription ::
  "acs_env \<Rightarrow> cstr \<Rightarrow> DM_ENG_NotificationMode \<Rightarrow> acs_conn \<Rightarrow> bool \<times> int option \<times> acs_conn" where
  "DM_ENG_Device_ACSConnectionAddSubscription env subscriptionPath mode st =
     (if \<not> DM_ENG_Device_Common_IsValidPath subscriptionPath then (False, None, st)
      else
        (let path = the subscriptionPath in
         if \<not> an_allowed env path then (False, None, st)
         else
           (let (rc, uid, subs) =
                  (if mode = DM_ENG_NotificationMode_FORCED \<or> mode = DM_ENG_NotificationMode_ACTIVE
                   then DM_ENG_Device_Common_AddSubscription (an_sub env) path object_changed_filter
                          (Some ACSConnectionHandleNotification) (acsSubsList st)
                   else (0, None, acsSubsList st));
                st1 = st\<lparr>acsSubsList := subs\<rparr>
            in if rc \<noteq> 0 then (False, uid, st1)
               else if mode = DM_ENG_NotificationMode_FORCED then (False, uid, st1)
               else
                 (case find_subscription_by_path env path st1 of
                    None \<Rightarrow> (True, uid, add_subscription_to_dm env path mode st1)
                  | Some sub \<Rightarrow>
                      (case update_subscription_in_dm env path (as_Type sub) mode st1 of
                         (ret, st2) \<Rightarrow> (ret, uid, st2))))))"

definition DM_ENG_Device_ACSConnectionRemoveSubscription :: "acs_env \<Rightarrow> string \<Rightarrow> int \<Rightarrow> acs_conn \<Rightarrow> bool \<times> acs_conn" where
  "DM_ENG_Device_ACSConnectionRemoveSubscription env subscriptionPath subscriptionID st =
     (let st1 = remove_subscription_from_dm env subscriptionPath st in
      case DM_ENG_Device_Common_DeleteSubscription (an_sub env) subscriptionID (acsSubsList st1) of
        (rc, subs) \<Rightarrow> (rc = 0, st1\<lparr>acsSubsList := subs\<rparr>))"

definition DM_ENG_Device_ACSConnectionGetSubscriptions :: "acs_env \<Rightarrow> acs_conn \<Rightarrow> (string \<times> string) list option" where
  "DM_ENG_Device_ACSConnectionGetSubscriptions env st =
     (if \<not> an_get_ok env then None else Some (map (\<lambda>s. (as_Path s, as_Type s)) (acs_table st)))"


subsection \<open>The instances refine a map of paths to types\<close>

datatype acs_event =
    Acs_Add cstr DM_ENG_NotificationMode
  | Acs_Remove string int
  | Acs_Notify string "(string \<times> cstr) list"

fun acs_step :: "acs_conn \<Rightarrow> acs_env \<times> acs_event \<Rightarrow> acs_conn" where
  "acs_step st (env, Acs_Add path mode) = snd (snd (DM_ENG_Device_ACSConnectionAddSubscription env path mode st))"
| "acs_step st (env, Acs_Remove path uid) = snd (DM_ENG_Device_ACSConnectionRemoveSubscription env path uid st)"
| "acs_step st (env, Acs_Notify path data) = DM_ENG_Device_ACSConnectionHandleNotification env path data st"

text \<open>The bus accepts the subscription and carries out what it is asked for.\<close>

fun bus_accepts :: "acs_conn \<Rightarrow> acs_env \<Rightarrow> cstr \<Rightarrow> DM_ENG_NotificationMode \<Rightarrow> bool" where
  "bus_accepts st env path mode \<longleftrightarrow>
     (mode = DM_ENG_NotificationMode_FORCED \<or> mode = DM_ENG_NotificationMode_ACTIVE \<longrightarrow>
      fst (DM_ENG_Device_Common_AddSubscription (an_sub env) (the path) object_changed_filter
             (Some ACSConnectionHandleNotification) (acsSubsList st)) = 0)"

fun acs_ok :: "acs_conn \<Rightarrow> acs_env \<times> acs_event \<Rightarrow> bool" where
  "acs_ok st (env, Acs_Add path mode) \<longleftrightarrow> an_get_ok env \<and> an_add_ok env \<and> an_set_ok env \<and> bus_accepts st env path mode"
| "acs_ok st (env, Acs_Remove path uid) \<longleftrightarrow> an_del_ok env"
| "acs_ok st (env, Acs_Notify path data) \<longleftrightarrow> True"

fun acs_spec :: "(string \<rightharpoonup> string) \<Rightarrow> acs_env \<times> acs_event \<Rightarrow> (string \<rightharpoonup> string)" where
  "acs_spec m (env, Acs_Add path mode) =
     (if DM_ENG_Device_Common_IsValidPath path \<and> an_allowed env (the path) \<and> mode \<noteq> DM_ENG_NotificationMode_FORCED
      then m(the path \<mapsto> an_mode_text env mode) else m)"
| "acs_spec m (env, Acs_Remove path uid) = m(path := None)"
| "acs_spec m (env, Acs_Notify path data) = m"

definition sub_types :: "acs_conn \<Rightarrow> string \<rightharpoonup> string" where
  "sub_types st = map_of (map (\<lambda>s. (as_Path s, as_Type s)) (acs_table st))"

lemma sub_types_cong: "acs_table st' = acs_table st \<Longrightarrow> sub_types st' = sub_types st"
  by (simp add: sub_types_def)

lemma find_sub_types: "find (\<lambda>s. as_Path s = path) ss = Some s \<Longrightarrow> map_of (map (\<lambda>s. (as_Path s, as_Type s)) ss) path = Some (as_Type s)"
  by (induction ss) (auto split: if_splits)

lemma find_none_sub_types: "find (\<lambda>s. as_Path s = path) ss = None \<Longrightarrow> map_of (map (\<lambda>s. (as_Path s, as_Type s)) ss) path = None"
  by (induction ss) (auto split: if_splits)

lemma update_where_types:
  assumes "sub_types st path \<noteq> None"
  shows "sub_types (update_where path (\<lambda>s. s\<lparr>as_Type := t\<rparr>) st) = (sub_types st)(path \<mapsto> t)"
proof -
  have "map_of (map (\<lambda>s. (as_Path s, as_Type s)) (map (\<lambda>s. if as_Path s = path then s\<lparr>as_Type := t\<rparr> else s) ss)) =
      (let m = map_of (map (\<lambda>s. (as_Path s, as_Type s)) ss) in m(path := map_option (\<lambda>_. t) (m path)))"
    for ss by (induction ss) (auto simp: Let_def fun_eq_iff)
  from this [of "acs_table st"] assms show ?thesis by (auto simp: sub_types_def update_where_def Let_def fun_eq_iff)
qed

lemma value_types: "sub_types (set_subscription_new_value env path v st) = sub_types st"
proof -
  have "map (\<lambda>s. (as_Path s, as_Type s)) (map (\<lambda>s. if as_Path s = path then s\<lparr>as_Value := v\<rparr> else s) ss) =
      map (\<lambda>s. (as_Path s, as_Type s)) ss" for ss by simp
  from arg_cong [OF this, of map_of "acs_table st"] show ?thesis
    by (simp add: sub_types_def set_subscription_new_value_def update_where_def)
qed

lemma notification_types: "sub_types (notification_loop env infos uid ps st) = sub_types st"
proof (induction ps arbitrary: uid st)
  case (Cons p ps)
  have "sub_types (announce env a l s) = sub_types s" for a l s by (simp add: sub_types_def announce_def)
  with Cons.IH show ?case by (cases p) (simp add: Let_def value_types split: option.splits prod.splits)
qed simp

lemma add_types:
  assumes "acs_ok st (env, Acs_Add path mode)"
  shows "sub_types (acs_step st (env, Acs_Add path mode)) = acs_spec (sub_types st) (env, Acs_Add path mode)"
proof (cases "DM_ENG_Device_Common_IsValidPath path \<and> an_allowed env (the path)")
  case True
  obtain rc uid subs where a: "(if mode = DM_ENG_NotificationMode_FORCED \<or> mode = DM_ENG_NotificationMode_ACTIVE
       then DM_ENG_Device_Common_AddSubscription (an_sub env) (the path) object_changed_filter
              (Some ACSConnectionHandleNotification) (acsSubsList st)
       else (0, None, acsSubsList st)) = (rc, uid, subs)" by (metis surj_pair)
  then have rc: "rc = 0" using assms by (auto split: if_splits)
  let ?st1 = "st\<lparr>acsSubsList := subs\<rparr>"
  have t1: "sub_types ?st1 = sub_types st" by (simp add: sub_types_def)
  show ?thesis
  proof (cases "mode = DM_ENG_NotificationMode_FORCED")
    case forced: True
    with True a rc t1 show ?thesis by (simp add: DM_ENG_Device_ACSConnectionAddSubscription_def)
  next
    case False
    let ?f = "find (\<lambda>s. as_Path s = the path) (acs_table st)"
    show ?thesis
    proof (cases ?f)
      case None
      have "map_of (xs @ [(k, v)]) = (map_of xs)(k \<mapsto> v)" if "map_of xs k = None" for xs k and v :: string
        using that by (auto simp: fun_eq_iff map_add_def split: option.splits)
      with None find_none_sub_types [OF None] True False a rc assms show ?thesis
        by (simp add: DM_ENG_Device_ACSConnectionAddSubscription_def find_subscription_by_path_def
            add_subscription_to_dm_def Let_def sub_types_def)
    next
      case (Some s)
      have "sub_types ?st1 (the path) = Some (as_Type s)" using find_sub_types [OF Some] by (simp add: sub_types_def)
      moreover from this have "sub_types st = (sub_types st)(the path \<mapsto> as_Type s)" using t1 by (auto simp: fun_eq_iff)
      ultimately show ?thesis
        using Some True False a rc assms t1 update_where_types [of ?st1 "the path" "an_mode_text env mode"]
        by (simp add: DM_ENG_Device_ACSConnectionAddSubscription_def find_subscription_by_path_def
            update_subscription_in_dm_def Let_def) metis
    qed
  qed
qed (auto simp: DM_ENG_Device_ACSConnectionAddSubscription_def)

lemma remove_types:
  assumes "an_del_ok env"
  shows "sub_types (acs_step st (env, Acs_Remove path uid)) = (sub_types st)(path := None)"
proof -
  have "map_of (map (\<lambda>s. (as_Path s, as_Type s)) (filter (\<lambda>s. as_Path s \<noteq> path) ss)) =
      (map_of (map (\<lambda>s. (as_Path s, as_Type s)) ss))(path := None)" for ss
    by (induction ss) (auto simp: fun_eq_iff)
  with assms show ?thesis
    by (simp add: DM_ENG_Device_ACSConnectionRemoveSubscription_def remove_subscription_from_dm_def sub_types_def
        split: prod.splits)
qed

lemma acs_step_refines: "acs_ok st e \<Longrightarrow> sub_types (acs_step st e) = acs_spec (sub_types st) e"
proof (cases "(st, e)" rule: acs_step.cases)
  case (3 _ env path data)
  then show ?thesis
    by (simp add: DM_ENG_Device_ACSConnectionHandleNotification_def notification_types split: option.splits)
qed (use add_types remove_types in \<open>auto simp del: acs_step.simps acs_spec.simps(1)\<close>)

text \<open>Property C31. The instances of \<open>ManagementServer.Subscription\<close> refine a map of paths to notification types, in any run of
  requests and notifications in which the bus does what it is asked: adding a path that is valid and allowed sets its
  type, whether it was there or not, except for the mode \<open>FORCED\<close>, which leaves no instance; removing a path removes
  every instance of it; a changed value touches no path or type, and reading the table returns the map.\<close>

theorem acs_subscriptions_refine:
  assumes "enabled_run acs_ok acs_step st es"
  shows "sub_types (foldl acs_step st es) = foldl acs_spec (sub_types st) es \<and>
    (an_get_ok env \<longrightarrow> map_of (the (DM_ENG_Device_ACSConnectionGetSubscriptions env (foldl acs_step st es))) =
       foldl acs_spec (sub_types st) es)"
proof -
  have "sub_types (foldl acs_step st es) = foldl acs_spec (sub_types st) es"
    using assms by (induction es arbitrary: st) (simp_all add: acs_step_refines)
  then show ?thesis by (simp add: DM_ENG_Device_ACSConnectionGetSubscriptions_def sub_types_def)
qed


subsection \<open>What a change of an object announces\<close>

text \<open>A changed parameter for which all goes well: it has an info of its own, the cache knows the path, and its values
  can be read.\<close>

definition change_ok :: "acs_env \<Rightarrow> sub_info list \<Rightarrow> string \<times> cstr \<Rightarrow> bool" where
  "change_ok env infos c \<longleftrightarrow>
     (case matching_info infos (fst c) of
        None \<Rightarrow> False
      | Some i \<Rightarrow>
          si_uniqueID i \<noteq> -1 \<and>
          (case an_path env (si_uniqueID i) of
             None \<Rightarrow> False
           | Some p \<Rightarrow>
               \<not> (prefix ''Device.IP.Interface.'' p \<and> str_empty (snd c)) \<and>
               fst (DM_ENG_Device_GetParameterValues_GetValues (an_gpv env) p []) = DM_OK))"

definition change_path :: "acs_env \<Rightarrow> sub_info list \<Rightarrow> string \<times> cstr \<Rightarrow> string" where
  "change_path env infos c = the (an_path env (si_uniqueID (the (matching_info infos (fst c)))))"

definition change_news :: "acs_env \<Rightarrow> sub_info list \<Rightarrow> string \<times> cstr \<Rightarrow> (pvs \<times> DM_ENG_NotificationMode) list" where
  "change_news env infos c =
     (let p = change_path env infos c in
      if an_cached env p (snd c) then []
      else map (\<lambda>v. (v, an_mode env p)) (snd (DM_ENG_Device_GetParameterValues_GetValues (an_gpv env) p [])))"

fun last_change :: "acs_env \<Rightarrow> sub_info list \<Rightarrow> (string \<times> cstr) list \<Rightarrow> string \<Rightarrow> cstr option" where
  "last_change env infos [] p = None"
| "last_change env infos (c # cs) p =
     (case last_change env infos cs p of
        Some v \<Rightarrow> Some v
      | None \<Rightarrow> if change_path env infos c = p then Some (snd c) else None)"

definition with_values :: "(string \<Rightarrow> cstr option) \<Rightarrow> acs_sub list \<Rightarrow> acs_sub list" where
  "with_values f = map (\<lambda>s. case f (as_Path s) of None \<Rightarrow> s | Some v \<Rightarrow> s\<lparr>as_Value := v\<rparr>)"

lemma notification_loop_ok:
  assumes "\<forall>c\<in>set cs. change_ok env infos c" "an_set_ok env"
  shows "changed_params (notification_loop env infos uid cs st) =
      changed_params st @ concat (map (change_news env infos) cs) \<and>
    acs_table (notification_loop env infos uid cs st) = with_values (last_change env infos cs) (acs_table st)"
  using assms(1)
proof (induction cs arbitrary: uid st)
  case Nil
  show ?case by (simp add: with_values_def)
next
  case (Cons c cs)
  obtain key v where c: "c = (key, v)" by (cases c)
  from Cons.prems c obtain i p where i: "matching_info infos key = Some i" "si_uniqueID i \<noteq> -1" "an_path env (si_uniqueID i) = Some p"
    "\<not> (prefix ''Device.IP.Interface.'' p \<and> str_empty v)" "fst (DM_ENG_Device_GetParameterValues_GetValues (an_gpv env) p []) = DM_OK"
    by (auto simp: change_ok_def split: option.splits)
  obtain e l where g: "DM_ENG_Device_GetParameterValues_GetValues (an_gpv env) p [] = (e, l)" by (metis surj_pair)
  with i(5) have e: "e = DM_OK" by simp
  have p: "change_path env infos c = p" using i c by (simp add: change_path_def)
  let ?st1 = "set_subscription_new_value env p v st"
  let ?st2 = "if an_cached env p v then ?st1 else announce env p l ?st1"
  have step: "notification_loop env infos uid (c # cs) st = notification_loop env infos (si_uniqueID i) cs ?st2"
    using c i g e by (auto simp: Let_def)
  have "changed_params ?st2 = changed_params st @ change_news env infos c"
    using p c g by (simp add: change_news_def Let_def announce_def set_subscription_new_value_def update_where_def)
  moreover have "acs_table ?st2 = map (\<lambda>s. if as_Path s = p then s\<lparr>as_Value := v\<rparr> else s) (acs_table st)"
    using assms(2) by (simp add: announce_def set_subscription_new_value_def update_where_def)
  moreover have "with_values (last_change env infos cs) (map (\<lambda>s. if as_Path s = p then s\<lparr>as_Value := v\<rparr> else s) ss) =
      with_values (last_change env infos (c # cs)) ss" for ss
    using p c by (auto simp: with_values_def split: option.splits)
  ultimately show ?case using Cons.IH [of "si_uniqueID i" ?st2] Cons.prems step by (simp del: last_change.simps)
qed



text \<open>The result of AddSubscription does not tell whether it worked, as its documentation says: with a path that
  is valid, allowed and accepted by the bus it is false for the mode \<open>FORCED\<close>, true for a path that has no instance
  (even if the instance could not be added), and for a path that has one it is true exactly when the instance could not be
  given its new type.\<close>

theorem add_subscription_result:
  assumes "DM_ENG_Device_Common_IsValidPath (Some path)" "an_allowed env path" "an_get_ok env" "bus_accepts st env (Some path) mode"
  shows "fst (DM_ENG_Device_ACSConnectionAddSubscription env (Some path) mode st) \<longleftrightarrow>
    mode \<noteq> DM_ENG_NotificationMode_FORCED \<and>
    (case find (\<lambda>s. as_Path s = path) (acs_table st) of
       None \<Rightarrow> True
     | Some s \<Rightarrow> as_Type s \<noteq> an_mode_text env mode \<and> \<not> an_set_ok env)"
proof -
  obtain rc uid subs where a: "(if mode = DM_ENG_NotificationMode_FORCED \<or> mode = DM_ENG_NotificationMode_ACTIVE
       then DM_ENG_Device_Common_AddSubscription (an_sub env) path object_changed_filter
              (Some ACSConnectionHandleNotification) (acsSubsList st)
       else (0, None, acsSubsList st)) = (rc, uid, subs)" by (metis surj_pair)
  then have "rc = 0" using assms(4) by (auto split: if_splits)
  with a assms(1-3) show ?thesis
    by (simp add: DM_ENG_Device_ACSConnectionAddSubscription_def find_subscription_by_path_def update_subscription_in_dm_def
        Let_def split: option.splits)
qed


subsection \<open>Examples\<close>

definition example_acs_env :: acs_env where
  "example_acs_env =
     \<lparr>an_be_load = (\<lambda>b. True), an_connect = (\<lambda>u. True), an_sub = example_sub_env 1, an_gpv = example_gpv_env,
      an_filter = (\<lambda>ps. ps), an_path = (\<lambda>i. if i = 7 then Some ''Device.X.A'' else None), an_cached = (\<lambda>p v. False),
      an_mode = (\<lambda>p. DM_ENG_NotificationMode_ACTIVE),
      an_mode_text = (\<lambda>m. if m = DM_ENG_NotificationMode_ACTIVE then ''Active'' else ''Passive''), an_allowed = (\<lambda>p. True),
      an_value = (\<lambda>p. Some (Some ''0'')), an_get_ok = True, an_add_ok = True, an_set_ok = True, an_del_ok = True,
      an_ip_bus = True, an_inet_pton6 = (\<lambda>a. False), an_ip_get = (\<lambda>p. None), an_prefix = ''Device.''\<rparr>"

definition example_acs :: acs_conn where
  "example_acs =
     \<lparr>acs_connected = None,
      acsSubsList = \<lparr>slist = [\<lparr>s_addr = 4, s_objectpath = ''Device.X.'', s_cb = Some ACSConnectionHandleNotification,
        s_infos = [\<lparr>si_parameter = Some ''A'', si_uniqueID = 7\<rparr>]\<rparr>], bus = [4], freed_subs = []\<rparr>,
      acs_table = [\<lparr>as_Path = ''Device.X.A'', as_Type = ''Active'', as_Value = Some ''0''\<rparr>], changed_params = []\<rparr>"

theorem acs_subscriptions_refine_witness:
  "sub_types (foldl acs_step example_acs
     [(example_acs_env, Acs_Add (Some ''Device.IP.Enable'') DM_ENG_NotificationMode_ACTIVE),
      (example_acs_env, Acs_Add (Some ''Device.X.A'') DM_ENG_NotificationMode_PASSIVE),
      (example_acs_env, Acs_Remove ''Device.IP.Enable'' 0)]) ''Device.X.A'' = Some ''Passive''"
proof -
  let ?es = "[(example_acs_env, Acs_Add (Some ''Device.IP.Enable'') DM_ENG_NotificationMode_ACTIVE),
      (example_acs_env, Acs_Add (Some ''Device.X.A'') DM_ENG_NotificationMode_PASSIVE),
      (example_acs_env, Acs_Remove ''Device.IP.Enable'' 0)]"
  have "enabled_run acs_ok acs_step example_acs ?es" by code_simp
  then have "sub_types (foldl acs_step example_acs ?es) = foldl acs_spec (sub_types example_acs) ?es"
    by (rule acs_subscriptions_refine [THEN conjunct1])
  moreover have "foldl acs_spec (sub_types example_acs) ?es ''Device.X.A'' = Some ''Passive''" by code_simp
  ultimately show ?thesis by simp
qed

lemma example_acs_sub:
  "DM_ENG_Device_Common_FindSubscription (slist (acsSubsList example_acs)) ''Device.X.'' = Some (hd (slist (acsSubsList example_acs)))"
  by code_simp



theorem add_subscription_result_witness:
  "\<not> fst (DM_ENG_Device_ACSConnectionAddSubscription example_acs_env (Some ''Device.X.A'') DM_ENG_NotificationMode_PASSIVE example_acs)
   \<and> fst (DM_ENG_Device_ACSConnectionAddSubscription (example_acs_env\<lparr>an_set_ok := False\<rparr>) (Some ''Device.X.A'')
       DM_ENG_NotificationMode_PASSIVE example_acs)"
proof -
  have 1: "DM_ENG_Device_Common_IsValidPath (Some ''Device.X.A'')" by code_simp
  show ?thesis
    using add_subscription_result [OF 1, of example_acs_env example_acs DM_ENG_NotificationMode_PASSIVE]
      add_subscription_result [OF 1, of "example_acs_env\<lparr>an_set_ok := False\<rparr>" example_acs DM_ENG_NotificationMode_PASSIVE]
    by (simp add: example_acs_env_def example_acs_def)
qed

end
