(* ===== verification/System_Connection.thy ===== *)
theory System_Connection
  imports Acs_Notifications
begin

section \<open>The connection to the system (DM\_AmxSystemConnection.c)\<close>

text \<open>
  The adapter's second connection: the configuration parameters of the engine, which it reads and writes in the data
  model; the start, which waits at random and then for the device to be up; and the changes of the data model that
  the engine must hear of. What the adapter asks of the engine is appended to \<open>sys_log\<close>, the parameters of the data
  model are the map \<open>sys_store\<close> from their paths. The bus, the engine, the random device and the answers of the data model
  while the device starts are fields of \<open>sys_env\<close>.
\<close>

subsection \<open>Names\<close>

text \<open>The identifiers of the engine that the two tables name; all others are \<open>DM_ENG_PARAMETER_OTHER\<close>.\<close>

datatype (plugins only: code size) DM_ENG_SystemParameter_t =
    DM_ENG_USERNAME | DM_ENG_PASSWORD | DM_ENG_URL | DM_ENG_PERIODICINFORMINTERVAL | DM_ENG_PERIODICINFORMTIME
  | DM_ENG_PERIODICINFORMENABLE | DM_ENG_PERIODICINFORMCOUNTER | DM_ENG_INFORMFAILURECOUNT | DM_ENG_PARAMETERKEY
  | DM_ENG_ENABLECWMP | DM_ENG_DEFAULTACTIVENOTIFICATIONTHROTTLE | DM_ENG_MANAGEABLEDEVICENOTIFICATIONLIMIT
  | DM_ENG_INSTANCEWILDCARDSSUPPORTED | DM_ENG_CONNECTIONREQUESTUSERNAME | DM_ENG_CONNECTIONREQUESTPASSWORD
  | DM_ENG_CONNECTIONREQUESTURL | DM_ENG_INTERFACE | DM_ENG_MAXDOWNLOADDELAY | DM_ENG_MAXUPLOADDELAY
  | DM_ENG_BOOTPERSISTENTSCHEDULEINFORM | DM_ENG_MAXDOWNLOADS | DM_ENG_MAXDOWNLOADSERRORCODE
  | DM_ENG_INSTANCEMODE | DM_ENG_AUTOCREATEINSTANCES | DM_ENG_VERIFYPARAMETERTYPE
  | DM_ENG_ACCEPTUNSIGNEDINTASBOOLEAN | DM_ENG_MANUFACTURER | DM_ENG_MANUFACTUREROUI | DM_ENG_SERIALNUMBER
  | DM_ENG_PRODUCTCLASS | DM_ENG_NTPSTATUS | DM_ENG_ACSIPAFFINITY | DM_ENG_ACSADDRFAMILY
  | DM_ENG_ALLOWCONNECTIONREQUESTFROMADDRESS | DM_ENG_DATAMODEL | DM_ENG_DATAMODELURL | DM_ENG_MAXSTARTUPDELAY
  | DM_ENG_SSLACCEPTSELFSIGNED | DM_ENG_SSLVERIFYHOSTNAME | DM_ENG_SSLACCEPTEXPIRED
  | DM_ENG_SSLVERIFYPARTIALCHAIN | DM_ENG_PERSISTENTRPCPATH | DM_ENG_UPGRADEBOOTDELAY | DM_ENG_SESSIONTIMEOUT
  | DM_ENG_VERIFYSUPPORTEDACSMETHODS | DM_ENG_INHIBIT_VALUE_CHANGE_UPON_BOOT | DM_ENG_ACSEVENTS
  | DM_ENG_DELIVEREDEVENTS | DM_ENG_BLOCKEDEVENTS | DM_ENG_ALLOWMULTIPLESCHEDULEINFORM | DM_ENG_HEARTBEATENABLE
  | DM_ENG_HEARTBEATINITIATIONTIME | DM_ENG_HEARTBEATREPORTINGINTERVAL | DM_ENG_CONNECTIONREQUESTHOST
  | DM_ENG_CONNECTIONREQUESTPORT | DM_ENG_CONNECTIONREQUESTPATH | DM_ENG_CONNECTIONREQUESTPATHTYPE
  | DM_ENG_FREQCONNECTIONREQUEST | DM_ENG_LOCALIPADDRESS | DM_ENG_MAXCONNECTIONREQUEST | DM_ENG_REBOOTBYACS
  | DM_ENG_LASTSESSION | DM_ENG_BOOTSTRAPSENT | DM_ENG_FACTORYRESETOCCURRED | DM_ENG_SESSIONSTATUS
  | DM_ENG_REBOOTCOMMANDKEY | DM_ENG_ACSIPTTL | DM_ENG_ACSIP | DM_ENG_ACSIPLIST
  | DM_ENG_GETPARAMETERVALUEREQUESTS | DM_ENG_SESSIONSSINCEBOOT | DM_ENG_SMM_MAPPING
  | DM_ENG_ALIASBASEDADDRESSING | DM_ENG_PARAMETER_OTHER

definition DM_ENG_Device_ConvertToObjectName :: "DM_ENG_SystemParameter_t \<Rightarrow> cstr" where
  "DM_ENG_Device_ConvertToObjectName parameter =
     (case parameter of
        DM_ENG_USERNAME \<Rightarrow> Some ''Device.ManagementServer.''
      | DM_ENG_PASSWORD \<Rightarrow> Some ''Device.ManagementServer.''
      | DM_ENG_URL \<Rightarrow> Some ''Device.ManagementServer.''
      | DM_ENG_PERIODICINFORMINTERVAL \<Rightarrow> Some ''Device.ManagementServer.''
      | DM_ENG_PERIODICINFORMTIME \<Rightarrow> Some ''Device.ManagementServer.''
      | DM_ENG_PERIODICINFORMENABLE \<Rightarrow> Some ''Device.ManagementServer.''
      | DM_ENG_PERIODICINFORMCOUNTER \<Rightarrow> Some ''Device.ManagementServer.''
      | DM_ENG_INFORMFAILURECOUNT \<Rightarrow> Some ''Device.ManagementServer.''
      | DM_ENG_PARAMETERKEY \<Rightarrow> Some ''Device.ManagementServer.''
      | DM_ENG_ENABLECWMP \<Rightarrow> Some ''Device.ManagementServer.''
      | DM_ENG_DEFAULTACTIVENOTIFICATIONTHROTTLE \<Rightarrow> Some ''Device.ManagementServer.''
      | DM_ENG_MANAGEABLEDEVICENOTIFICATIONLIMIT \<Rightarrow> Some ''Device.ManagementServer.''
      | DM_ENG_INSTANCEWILDCARDSSUPPORTED \<Rightarrow> Some ''Device.ManagementServer.''
      | DM_ENG_CONNECTIONREQUESTUSERNAME \<Rightarrow> Some ''Device.ManagementServer.''
      | DM_ENG_CONNECTIONREQUESTPASSWORD \<Rightarrow> Some ''Device.ManagementServer.''
      | DM_ENG_CONNECTIONREQUESTURL \<Rightarrow> Some ''Device.ManagementServer.''
      | DM_ENG_INTERFACE \<Rightarrow> Some ''Device.ManagementServer.''
      | DM_ENG_MAXDOWNLOADDELAY \<Rightarrow> Some ''Device.ManagementServer.''
      | DM_ENG_MAXUPLOADDELAY \<Rightarrow> Some ''Device.ManagementServer.''
      | DM_ENG_BOOTPERSISTENTSCHEDULEINFORM \<Rightarrow> Some ''Device.ManagementServer.''
      | DM_ENG_MAXDOWNLOADS \<Rightarrow> Some ''Device.ManagementServer.''
      | DM_ENG_MAXDOWNLOADSERRORCODE \<Rightarrow> Some ''Device.ManagementServer.''
      | DM_ENG_INSTANCEMODE \<Rightarrow> Some ''Device.ManagementServer.''
      | DM_ENG_AUTOCREATEINSTANCES \<Rightarrow> Some ''Device.ManagementServer.''
      | DM_ENG_VERIFYPARAMETERTYPE \<Rightarrow> Some ''Device.ManagementServer.''
      | DM_ENG_ACCEPTUNSIGNEDINTASBOOLEAN \<Rightarrow> Some ''Device.ManagementServer.''
      | DM_ENG_MANUFACTURER \<Rightarrow> Some ''Device.DeviceInfo.''
      | DM_ENG_MANUFACTUREROUI \<Rightarrow> Some ''Device.DeviceInfo.''
      | DM_ENG_SERIALNUMBER \<Rightarrow> Some ''Device.DeviceInfo.''
      | DM_ENG_PRODUCTCLASS \<Rightarrow> Some ''Device.DeviceInfo.''
      | DM_ENG_NTPSTATUS \<Rightarrow> Some ''Device.Time.''
      | DM_ENG_ACSIPAFFINITY \<Rightarrow> Some ''Device.ManagementServer.InternalSettings.''
      | DM_ENG_ACSADDRFAMILY \<Rightarrow> Some ''Device.ManagementServer.InternalSettings.''
      | DM_ENG_ALLOWCONNECTIONREQUESTFROMADDRESS \<Rightarrow> Some ''Device.ManagementServer.InternalSettings.''
      | DM_ENG_DATAMODEL \<Rightarrow> Some ''Device.ManagementServer.InternalSettings.''
      | DM_ENG_DATAMODELURL \<Rightarrow> Some ''Device.ManagementServer.InternalSettings.''
      | DM_ENG_MAXSTARTUPDELAY \<Rightarrow> Some ''Device.ManagementServer.InternalSettings.''
      | DM_ENG_SSLACCEPTSELFSIGNED \<Rightarrow> Some ''Device.ManagementServer.InternalSettings.''
      | DM_ENG_SSLVERIFYHOSTNAME \<Rightarrow> Some ''Device.ManagementServer.InternalSettings.''
      | DM_ENG_SSLACCEPTEXPIRED \<Rightarrow> Some ''Device.ManagementServer.InternalSettings.''
      | DM_ENG_SSLVERIFYPARTIALCHAIN \<Rightarrow> Some ''Device.ManagementServer.InternalSettings.''
      | DM_ENG_PERSISTENTRPCPATH \<Rightarrow> Some ''Device.ManagementServer.InternalSettings.''
      | DM_ENG_UPGRADEBOOTDELAY \<Rightarrow> Some ''Device.ManagementServer.InternalSettings.''
      | DM_ENG_SESSIONTIMEOUT \<Rightarrow> Some ''Device.ManagementServer.InternalSettings.''
      | DM_ENG_VERIFYSUPPORTEDACSMETHODS \<Rightarrow> Some ''Device.ManagementServer.InternalSettings.''
      | DM_ENG_INHIBIT_VALUE_CHANGE_UPON_BOOT \<Rightarrow> Some ''Device.ManagementServer.InternalSettings.''
      | DM_ENG_ACSEVENTS \<Rightarrow> Some ''Device.ManagementServer.InternalSettings.''
      | DM_ENG_DELIVEREDEVENTS \<Rightarrow> Some ''Device.ManagementServer.InternalSettings.''
      | DM_ENG_BLOCKEDEVENTS \<Rightarrow> Some ''Device.ManagementServer.InternalSettings.''
      | DM_ENG_ALLOWMULTIPLESCHEDULEINFORM \<Rightarrow> Some ''Device.ManagementServer.InternalSettings.''
      | DM_ENG_HEARTBEATENABLE \<Rightarrow> Some ''Device.ManagementServer.HeartbeatPolicy.''
      | DM_ENG_HEARTBEATINITIATIONTIME \<Rightarrow> Some ''Device.ManagementServer.HeartbeatPolicy.''
      | DM_ENG_HEARTBEATREPORTINGINTERVAL \<Rightarrow> Some ''Device.ManagementServer.HeartbeatPolicy.''
      | DM_ENG_CONNECTIONREQUESTHOST \<Rightarrow> Some ''Device.ManagementServer.ConnRequest.''
      | DM_ENG_CONNECTIONREQUESTPORT \<Rightarrow> Some ''Device.ManagementServer.ConnRequest.''
      | DM_ENG_CONNECTIONREQUESTPATH \<Rightarrow> Some ''Device.ManagementServer.ConnRequest.''
      | DM_ENG_CONNECTIONREQUESTPATHTYPE \<Rightarrow> Some ''Device.ManagementServer.ConnRequest.''
      | DM_ENG_FREQCONNECTIONREQUEST \<Rightarrow> Some ''Device.ManagementServer.ConnRequest.''
      | DM_ENG_LOCALIPADDRESS \<Rightarrow> Some ''Device.ManagementServer.ConnRequest.''
      | DM_ENG_MAXCONNECTIONREQUEST \<Rightarrow> Some ''Device.ManagementServer.ConnRequest.''
      | DM_ENG_REBOOTBYACS \<Rightarrow> Some ''Device.ManagementServer.State.''
      | DM_ENG_LASTSESSION \<Rightarrow> Some ''Device.ManagementServer.State.''
      | DM_ENG_BOOTSTRAPSENT \<Rightarrow> Some ''Device.ManagementServer.State.''
      | DM_ENG_FACTORYRESETOCCURRED \<Rightarrow> Some ''Device.ManagementServer.State.''
      | DM_ENG_SESSIONSTATUS \<Rightarrow> Some ''Device.ManagementServer.State.''
      | DM_ENG_REBOOTCOMMANDKEY \<Rightarrow> Some ''Device.ManagementServer.State.''
      | DM_ENG_ACSIPTTL \<Rightarrow> Some ''Device.ManagementServer.State.''
      | DM_ENG_ACSIP \<Rightarrow> Some ''Device.ManagementServer.State.''
      | DM_ENG_ACSIPLIST \<Rightarrow> Some ''Device.ManagementServer.State.''
      | DM_ENG_GETPARAMETERVALUEREQUESTS \<Rightarrow> Some ''Device.ManagementServer.Stats.''
      | DM_ENG_SESSIONSSINCEBOOT \<Rightarrow> Some ''Device.ManagementServer.Stats.''
      | DM_ENG_SMM_MAPPING \<Rightarrow> Some ''Device.ManagementServer.SMM.''
      | _ \<Rightarrow> None)"

definition DM_ENG_Device_ConvertToParameterName :: "DM_ENG_SystemParameter_t \<Rightarrow> cstr" where
  "DM_ENG_Device_ConvertToParameterName parameter =
     (case parameter of
        DM_ENG_USERNAME \<Rightarrow> Some ''Username''
      | DM_ENG_PASSWORD \<Rightarrow> Some ''Password''
      | DM_ENG_URL \<Rightarrow> Some ''URL''
      | DM_ENG_ACSIPAFFINITY \<Rightarrow> Some ''ACSIPAffinity''
      | DM_ENG_ACSIPTTL \<Rightarrow> Some ''ACSIPTTL''
      | DM_ENG_ACSADDRFAMILY \<Rightarrow> Some ''ACSAddrFamily''
      | DM_ENG_PERIODICINFORMINTERVAL \<Rightarrow> Some ''PeriodicInformInterval''
      | DM_ENG_PERIODICINFORMTIME \<Rightarrow> Some ''PeriodicInformTime''
      | DM_ENG_PERIODICINFORMENABLE \<Rightarrow> Some ''PeriodicInformEnable''
      | DM_ENG_PERIODICINFORMCOUNTER \<Rightarrow> Some ''PeriodicInformCounter''
      | DM_ENG_PARAMETERKEY \<Rightarrow> Some ''ParameterKey''
      | DM_ENG_ENABLECWMP \<Rightarrow> Some ''EnableCWMP''
      | DM_ENG_DEFAULTACTIVENOTIFICATIONTHROTTLE \<Rightarrow> Some ''DefaultActiveNotificationThrottle''
      | DM_ENG_INSTANCEWILDCARDSSUPPORTED \<Rightarrow> Some ''InstanceWildcardsSupported''
      | DM_ENG_CONNECTIONREQUESTUSERNAME \<Rightarrow> Some ''ConnectionRequestUsername''
      | DM_ENG_CONNECTIONREQUESTURL \<Rightarrow> Some ''ConnectionRequestURL''
      | DM_ENG_CONNECTIONREQUESTPASSWORD \<Rightarrow> Some ''ConnectionRequestPassword''
      | DM_ENG_HEARTBEATENABLE \<Rightarrow> Some ''Enable''
      | DM_ENG_HEARTBEATINITIATIONTIME \<Rightarrow> Some ''InitiationTime''
      | DM_ENG_HEARTBEATREPORTINGINTERVAL \<Rightarrow> Some ''ReportingInterval''
      | DM_ENG_CONNECTIONREQUESTHOST \<Rightarrow> Some ''ConnRequestHost''
      | DM_ENG_CONNECTIONREQUESTPORT \<Rightarrow> Some ''ConnRequestPort''
      | DM_ENG_CONNECTIONREQUESTPATH \<Rightarrow> Some ''ConnRequestPath''
      | DM_ENG_CONNECTIONREQUESTPATHTYPE \<Rightarrow> Some ''ConnRequestPathType''
      | DM_ENG_MAXCONNECTIONREQUEST \<Rightarrow> Some ''MaxConnectionRequest''
      | DM_ENG_FREQCONNECTIONREQUEST \<Rightarrow> Some ''FreqConnectionRequest''
      | DM_ENG_SESSIONTIMEOUT \<Rightarrow> Some ''SessionTimeout''
      | DM_ENG_MANUFACTURER \<Rightarrow> Some ''Manufacturer''
      | DM_ENG_MANUFACTUREROUI \<Rightarrow> Some ''ManufacturerOUI''
      | DM_ENG_SERIALNUMBER \<Rightarrow> Some ''SerialNumber''
      | DM_ENG_PRODUCTCLASS \<Rightarrow> Some ''ProductClass''
      | DM_ENG_MAXSTARTUPDELAY \<Rightarrow> Some ''MaxStartupDelay''
      | DM_ENG_REBOOTCOMMANDKEY \<Rightarrow> Some ''RebootCommandKey''
      | DM_ENG_BOOTSTRAPSENT \<Rightarrow> Some ''BootstrapSent''
      | DM_ENG_FACTORYRESETOCCURRED \<Rightarrow> Some ''BootstrapSent''
      | DM_ENG_REBOOTBYACS \<Rightarrow> Some ''RebootByACS''
      | DM_ENG_SESSIONSTATUS \<Rightarrow> Some ''SessionStatus''
      | DM_ENG_SESSIONSSINCEBOOT \<Rightarrow> Some ''SessionsSinceReboot''
      | DM_ENG_INFORMFAILURECOUNT \<Rightarrow> Some ''InformFailureCount''
      | DM_ENG_LASTSESSION \<Rightarrow> Some ''LastSession''
      | DM_ENG_SSLACCEPTSELFSIGNED \<Rightarrow> Some ''SSLAcceptSelfSigned''
      | DM_ENG_SSLVERIFYHOSTNAME \<Rightarrow> Some ''SSLVerifyHostname''
      | DM_ENG_SSLACCEPTEXPIRED \<Rightarrow> Some ''SSLAcceptExpired''
      | DM_ENG_SSLVERIFYPARTIALCHAIN \<Rightarrow> Some ''SSLVerifyPartialChain''
      | DM_ENG_INTERFACE \<Rightarrow> Some ''Interface''
      | DM_ENG_VERIFYSUPPORTEDACSMETHODS \<Rightarrow> Some ''VerifySupportedACSMethods''
      | DM_ENG_MAXDOWNLOADDELAY \<Rightarrow> Some ''MaxDownloadDelay''
      | DM_ENG_MAXUPLOADDELAY \<Rightarrow> Some ''MaxUploadDelay''
      | DM_ENG_BOOTPERSISTENTSCHEDULEINFORM \<Rightarrow> Some ''BootPersistentScheduleInform''
      | DM_ENG_ACSIP \<Rightarrow> Some ''ACSIP''
      | DM_ENG_ACSIPLIST \<Rightarrow> Some ''ACSIPList''
      | DM_ENG_ALLOWCONNECTIONREQUESTFROMADDRESS \<Rightarrow> Some ''AllowConnectionRequestFromAddress''
      | DM_ENG_GETPARAMETERVALUEREQUESTS \<Rightarrow> Some ''GetParameterValuesRequests''
      | DM_ENG_MAXDOWNLOADS \<Rightarrow> Some ''MaxDownloads''
      | DM_ENG_UPGRADEBOOTDELAY \<Rightarrow> Some ''UpgradeBootDelay''
      | DM_ENG_ACSEVENTS \<Rightarrow> Some ''ACSEvents''
      | DM_ENG_DELIVEREDEVENTS \<Rightarrow> Some ''DeliveredEvents''
      | DM_ENG_BLOCKEDEVENTS \<Rightarrow> Some ''BlockedEvents''
      | DM_ENG_MAXDOWNLOADSERRORCODE \<Rightarrow> Some ''MaxDownloadsErrorCode''
      | DM_ENG_NTPSTATUS \<Rightarrow> Some ''Status''
      | DM_ENG_DATAMODEL \<Rightarrow> Some ''Datamodel''
      | DM_ENG_DATAMODELURL \<Rightarrow> Some ''DatamodelURL''
      | DM_ENG_PERSISTENTRPCPATH \<Rightarrow> Some ''PersistentRPCPath''
      | DM_ENG_ALIASBASEDADDRESSING \<Rightarrow> Some ''AliasBasedAddressing''
      | DM_ENG_INSTANCEMODE \<Rightarrow> Some ''InstanceMode''
      | DM_ENG_AUTOCREATEINSTANCES \<Rightarrow> Some ''AutoCreateInstances''
      | DM_ENG_LOCALIPADDRESS \<Rightarrow> Some ''LocalIPAddress''
      | DM_ENG_INHIBIT_VALUE_CHANGE_UPON_BOOT \<Rightarrow> Some ''InhibitValueChangeUponBoot''
      | DM_ENG_ALLOWMULTIPLESCHEDULEINFORM \<Rightarrow> Some ''AllowMultipleScheduleInform''
      | DM_ENG_VERIFYPARAMETERTYPE \<Rightarrow> Some ''VerifyParameterType''
      | DM_ENG_ACCEPTUNSIGNEDINTASBOOLEAN \<Rightarrow> Some ''AcceptUnsignedIntAsBoolean''
      | DM_ENG_SMM_MAPPING \<Rightarrow> Some ''Mapping''
      | _ \<Rightarrow> None)"

subsection \<open>State\<close>

datatype srv_event = SRV_RESTART | SRV_START | SRV_STOP | URL_CHANGED

datatype diagnostic_t =
    IPPING_DIAGNOSTIC_REQUEST | TRACEROUTE_DIAGNOSTIC_REQUEST | DOWNLOAD_DIAGNOSTIC_REQUEST | UPLOAD_DIAGNOSTIC_REQUEST

datatype engine_action =
    Heartbeat_configure
  | InitializePeriodicInform
  | Engine_event srv_event
  | Scheduler_URLChanged
  | BlockedEventsChanged
  | Send_inform_timer
  | RemoveForcedParameters
  | ParameterValueChanged pvs DM_ENG_NotificationMode
  | Time_synchronized
  | DiagnosticsComplete
  | ClearPendingDiagnostic diagnostic_t
  | SetManagementServerValue DM_ENG_SystemParameter_t string

datatype sys_callback = SystemConnectionHandleParameterChanged

record sys_conn =
  sys_connected :: "(string \<times> string) option"
  systemSubsList :: "sys_callback subs"
  sys_store :: "string \<Rightarrow> cstr"
  sys_log :: "engine_action list"
  instanceAlias :: bool
  sys_slept :: nat
  sys_fault :: bool

record sys_env =
  sy_bus :: acs_env
  sy_sub :: sub_env
  sy_set_ok :: "string \<Rightarrow> bool"
  sy_call_ok :: bool
  sy_get_ok :: "string \<Rightarrow> bool"
  sy_boot_cycle :: "cstr option"
  sy_value :: "DM_ENG_SystemParameter_t \<Rightarrow> cstr option"
  sy_urandom :: "u32 option"
  sy_status :: "nat \<Rightarrow> cstr option"
  sy_pending :: "diagnostic_t \<Rightarrow> bool"

definition MANAGEMENTSERVER_PATH :: string where "MANAGEMENTSERVER_PATH = ''Device.ManagementServer.''"
definition TIME_PATH :: string where "TIME_PATH = ''Device.Time.''"
definition DIAGNOSTICS_PATH :: string where "DIAGNOSTICS_PATH = ''Device.IP.Diagnostics.''"

lemmas sys_paths = MANAGEMENTSERVER_PATH_def TIME_PATH_def DIAGNOSTICS_PATH_def

definition log_sys :: "engine_action list \<Rightarrow> sys_conn \<Rightarrow> sys_conn" where
  "log_sys as st = st\<lparr>sys_log := sys_log st @ as\<rparr>"

subsection \<open>Changes of the data model\<close>

text \<open>A changed parameter: its new value as text and as a truth value.\<close>

record sys_change =
  ch_to :: cstr
  ch_bool :: bool

definition management_server_change :: "cstr \<Rightarrow> string \<times> sys_change \<Rightarrow> sys_conn \<Rightarrow> sys_conn" where
  "management_server_change objpath kc st =
     (case kc of (key, c) \<Rightarrow>
        if key = ''PeriodicInformInterval'' then log_sys [InitializePeriodicInform] st
        else if key = ''PeriodicInformTime'' \<or> key = ''PeriodicInformEnable'' then log_sys [InitializePeriodicInform] st
        else if key = ''URL''
        then log_sys [Engine_event SRV_RESTART, Engine_event URL_CHANGED, Scheduler_URLChanged] st
        else if key = ''AllowConnectionRequestFromUnknownHost'' then log_sys [Engine_event SRV_RESTART] st
        else if key = ''AllowConnectionRequestFromAddress'' then log_sys [Engine_event SRV_RESTART] st
        else if key = ''EnableCWMP''
        then log_sys [Engine_event (if ch_bool c then SRV_START else SRV_STOP), Send_inform_timer] st
        else if key = ''BlockedEvents'' then log_sys [BlockedEventsChanged] st
        else if key = ''InstanceMode''
        then (case ch_to c of
                None \<Rightarrow> st\<lparr>sys_fault := True\<rparr>
              | Some v \<Rightarrow> st\<lparr>instanceAlias := (v = ''InstanceAlias'')\<rparr>)
        else if key = ''ConnRequestHost'' \<or> key = ''ConnRequestPort''
        then log_sys [Engine_event SRV_RESTART, RemoveForcedParameters,
               ParameterValueChanged
                 \<lparr>pv_name = Some ((case objpath of None \<Rightarrow> ''(null)'' | Some p \<Rightarrow> p) @ key),
                  pv_type = DM_ENG_ParameterType_STRING, pv_value = ch_to c\<rparr> DM_ENG_NotificationMode_FORCED] st
        else st)"

definition diagnostic_request :: "string \<Rightarrow> diagnostic_t option" where
  "diagnostic_request objpath =
     (if objpath = ''Device.IP.Diagnostics.IPPing.'' then Some IPPING_DIAGNOSTIC_REQUEST
      else if objpath = ''Device.IP.Diagnostics.TraceRoute.'' then Some TRACEROUTE_DIAGNOSTIC_REQUEST
      else if objpath = ''Device.IP.Diagnostics.DownloadDiagnostics.'' then Some DOWNLOAD_DIAGNOSTIC_REQUEST
      else if objpath = ''Device.IP.Diagnostics.UploadDiagnostics.'' then Some UPLOAD_DIAGNOSTIC_REQUEST
      else None)"

definition DM_ENG_Device_SystemConnectionHandleParameterChanged ::
  "sys_env \<Rightarrow> cstr \<Rightarrow> (cstr \<times> (string \<times> sys_change) list) option \<Rightarrow> sys_conn \<Rightarrow> sys_conn" where
  "DM_ENG_Device_SystemConnectionHandleParameterChanged env path data st =
     (case (path, data) of
        (Some p, Some (objpath, parameters)) \<Rightarrow>
          (if p = MANAGEMENTSERVER_PATH
           then fold (management_server_change objpath) parameters
                  (if objpath = Some ''Device.ManagementServer.HeartbeatPolicy.'' then log_sys [Heartbeat_configure] st else st)
           else if p = TIME_PATH
           then (if Option.bind (map_of parameters ''Status'') ch_to = Some ''Synchronized''
                 then log_sys (Time_synchronized #
                        (case sy_value env DM_ENG_PERIODICINFORMTIME of
                           Some (Some t) \<Rightarrow> if t \<noteq> ''0001-01-01T00:00:00Z'' then [InitializePeriodicInform] else []
                         | _ \<Rightarrow> [])) st
                 else st)
           else if p = DIAGNOSTICS_PATH \<and> objpath \<noteq> None
           then (case diagnostic_request (the objpath) of
                   None \<Rightarrow> st
                 | Some diagnosticRequest \<Rightarrow>
                     (if sy_pending env diagnosticRequest
                      then (case Option.bind (map_of parameters ''DiagnosticsState'') ch_to of
                              None \<Rightarrow> st
                            | Some s \<Rightarrow>
                                (if s = ''Complete'' \<or> s = ''Completed'' \<or> prefix ''Error'' s
                                 then log_sys [DiagnosticsComplete, ClearPendingDiagnostic diagnosticRequest] st else st))
                      else st))
           else st)
      | _ \<Rightarrow> st)"

subsection \<open>Configuration parameters\<close>

definition param_path :: "DM_ENG_SystemParameter_t \<Rightarrow> cstr" where
  "param_path parameter =
     (case (DM_ENG_Device_ConvertToObjectName parameter, DM_ENG_Device_ConvertToParameterName parameter) of
        (Some ob, Some n) \<Rightarrow> Some (ob @ n)
      | _ \<Rightarrow> None)"

definition DM_ENG_Device_SystemConnectionSetParameter ::
  "sys_env \<Rightarrow> DM_ENG_SystemParameter_t \<Rightarrow> string \<Rightarrow> sys_conn \<Rightarrow> bool \<times> sys_conn" where
  "DM_ENG_Device_SystemConnectionSetParameter env parameter pValue st =
     (case (DM_ENG_Device_ConvertToObjectName parameter, DM_ENG_Device_ConvertToParameterName parameter) of
        (Some object_name, Some param_name) \<Rightarrow>
          (let ok = (if param_name = ''ParameterKey'' then sy_call_ok env else sy_set_ok env (object_name @ param_name))
           in if ok then (True, st\<lparr>sys_store := (sys_store st)(object_name @ param_name \<mapsto> pValue)\<rparr>) else (False, st))
      | _ \<Rightarrow> (False, st))"

definition DM_ENG_Device_SystemConnectionGetParameter ::
  "sys_env \<Rightarrow> DM_ENG_SystemParameter_t \<Rightarrow> sys_conn \<Rightarrow> cstr" where
  "DM_ENG_Device_SystemConnectionGetParameter env parameter st =
     (case (DM_ENG_Device_ConvertToObjectName parameter, DM_ENG_Device_ConvertToParameterName parameter) of
        (Some object_name, Some param_name) \<Rightarrow>
          (if sy_get_ok env (object_name @ param_name) then sys_store st (object_name @ param_name) else None)
      | _ \<Rightarrow> None)"

subsection \<open>Start and end\<close>

definition DM_ENG_Device_IsSoftwareReboot :: "sys_env \<Rightarrow> bool" where
  "DM_ENG_Device_IsSoftwareReboot env = (sy_boot_cycle env = Some (Some ''Warm''))"

definition DM_ENG_Device_GetMaxStartupDelay :: "sys_env \<Rightarrow> int" where
  "DM_ENG_Device_GetMaxStartupDelay env =
     (if DM_ENG_Device_IsSoftwareReboot env then 0
      else (case sy_value env DM_ENG_MAXSTARTUPDELAY of Some (Some tmp) \<Rightarrow> atoi tmp | _ \<Rightarrow> 0))"

text \<open>The remainder is computed on unsigned numbers. No upgrade is ever found available (the source has a TODO), so that
  the delay for upgrades is read and not used.\<close>

definition startup_sleep :: "sys_env \<Rightarrow> u32" where
  "startup_sleep env =
     (let max = DM_ENG_Device_GetMaxStartupDelay env;
          upgradesAvailable = (0 :: int);
          upgradeBootDelay = (case sy_value env DM_ENG_UPGRADEBOOTDELAY of Some (Some tmp) \<Rightarrow> atoi tmp | _ \<Rightarrow> 0);
          initialDelay = (if upgradesAvailable \<noteq> 0 then upgradeBootDelay else 0);
          initialDelay = (if initialDelay > 3600 then 3600 else initialDelay);
          r = (case sy_urandom env of None \<Rightarrow> 0 | Some r \<Rightarrow> r);
          max = (if max = 0 then 1 else max);
          randomValue = r mod word_of_int max;
          randomValue = (if randomValue > 3600 then 3600 else randomValue)
      in word_of_int initialDelay + randomValue)"

definition DM_ENG_Device_SystemConnectionSleepBeforeStarting :: "sys_env \<Rightarrow> sys_conn \<Rightarrow> sys_conn" where
  "DM_ENG_Device_SystemConnectionSleepBeforeStarting env st = st\<lparr>sys_slept := sys_slept st + unat (startup_sleep env)\<rparr>"

text \<open>The wait for the device: \<open>sy_status env k\<close> is the answer to the read number \<open>k\<close>, \<open>None\<close> for a read that fails. The
  result is the number of reads and of sleeps of 5 seconds.\<close>

function status_loop :: "sys_env \<Rightarrow> nat \<Rightarrow> nat \<Rightarrow> nat \<times> nat" where
  "status_loop env cnt sleeps =
     (case sy_status env cnt of
        None \<Rightarrow> (Suc cnt, sleeps)
      | Some devstatus \<Rightarrow>
          (if Suc cnt > 24 then (Suc cnt, sleeps)
           else if devstatus \<noteq> None \<and> devstatus \<noteq> Some ''Up'' then status_loop env (Suc cnt) (Suc sleeps)
           else (Suc cnt, sleeps)))"
  by pat_completeness auto
termination
  by (relation "measure (\<lambda>(env, cnt, sleeps). 24 - cnt)") auto

declare status_loop.simps [simp del]

definition add_system_sub :: "sys_env \<Rightarrow> string \<Rightarrow> sys_conn \<Rightarrow> bool \<times> sys_conn" where
  "add_system_sub env path st =
     (case DM_ENG_Device_Common_AddSubscription (sy_sub env) path object_changed_filter
             (Some SystemConnectionHandleParameterChanged) (systemSubsList st) of
        (rc, uid, subs) \<Rightarrow> (rc = 0, st\<lparr>systemSubsList := subs\<rparr>))"

definition DM_ENG_Device_SystemConnectionInitialize :: "(nat \<Rightarrow> sys_env) \<Rightarrow> cstr \<Rightarrow> cstr \<Rightarrow> sys_conn \<Rightarrow> bool \<times> sys_conn" where
  "DM_ENG_Device_SystemConnectionInitialize envs backend uri st =
     (let env = envs 0 in
      case DM_ENG_Device_Common_AmxConnect (sy_bus env) backend uri of
        None \<Rightarrow> (False, st)
      | Some c \<Rightarrow>
          (let st1 = DM_ENG_Device_SystemConnectionSleepBeforeStarting env (st\<lparr>sys_connected := Some c\<rparr>);
               st2 = st1\<lparr>sys_slept := sys_slept st1 + 5 * snd (status_loop env 0 0),
                        systemSubsList := (systemSubsList st1)\<lparr>slist := []\<rparr>\<rparr>
           in case add_system_sub env MANAGEMENTSERVER_PATH st2 of
                (False, st3) \<Rightarrow> (False, st3)
              | (True, st3) \<Rightarrow>
                  (case add_system_sub (envs 1) TIME_PATH st3 of
                     (False, st4) \<Rightarrow> (False, st4)
                   | (True, st4) \<Rightarrow>
                       (case add_system_sub (envs 2) DIAGNOSTICS_PATH st4 of
                          (False, st5) \<Rightarrow> (False, st5)
                        | (True, st5) \<Rightarrow> (True, log_sys [SetManagementServerValue DM_ENG_SESSIONSTATUS ''Idle''] st5)))))"

definition DM_ENG_Device_SystemConnectionCleanup :: "sys_env \<Rightarrow> sys_conn \<Rightarrow> sys_conn" where
  "DM_ENG_Device_SystemConnectionCleanup env st =
     st\<lparr>systemSubsList := DM_ENG_Device_Common_Cleanup_Subscription (Some (sy_sub env)) (systemSubsList st),
        sys_connected := None\<rparr>"


subsection \<open>Configuration parameters are read as they were written\<close>

text \<open>The parameters that have a path of their own.\<close>

definition named_parameters :: "DM_ENG_SystemParameter_t list" where
  "named_parameters =
     [DM_ENG_USERNAME, DM_ENG_PASSWORD, DM_ENG_URL, DM_ENG_PERIODICINFORMINTERVAL, DM_ENG_PERIODICINFORMTIME,
      DM_ENG_PERIODICINFORMENABLE, DM_ENG_PERIODICINFORMCOUNTER, DM_ENG_INFORMFAILURECOUNT,
      DM_ENG_PARAMETERKEY, DM_ENG_ENABLECWMP, DM_ENG_DEFAULTACTIVENOTIFICATIONTHROTTLE,
      DM_ENG_INSTANCEWILDCARDSSUPPORTED, DM_ENG_CONNECTIONREQUESTUSERNAME, DM_ENG_CONNECTIONREQUESTPASSWORD,
      DM_ENG_CONNECTIONREQUESTURL, DM_ENG_INTERFACE, DM_ENG_MAXDOWNLOADDELAY, DM_ENG_MAXUPLOADDELAY,
      DM_ENG_BOOTPERSISTENTSCHEDULEINFORM, DM_ENG_MAXDOWNLOADS, DM_ENG_MAXDOWNLOADSERRORCODE,
      DM_ENG_INSTANCEMODE, DM_ENG_AUTOCREATEINSTANCES, DM_ENG_VERIFYPARAMETERTYPE,
      DM_ENG_ACCEPTUNSIGNEDINTASBOOLEAN, DM_ENG_MANUFACTURER, DM_ENG_MANUFACTUREROUI, DM_ENG_SERIALNUMBER,
      DM_ENG_PRODUCTCLASS, DM_ENG_NTPSTATUS, DM_ENG_ACSIPAFFINITY, DM_ENG_ACSADDRFAMILY,
      DM_ENG_ALLOWCONNECTIONREQUESTFROMADDRESS, DM_ENG_DATAMODEL, DM_ENG_DATAMODELURL, DM_ENG_MAXSTARTUPDELAY,
      DM_ENG_SSLACCEPTSELFSIGNED, DM_ENG_SSLVERIFYHOSTNAME, DM_ENG_SSLACCEPTEXPIRED,
      DM_ENG_SSLVERIFYPARTIALCHAIN, DM_ENG_PERSISTENTRPCPATH, DM_ENG_UPGRADEBOOTDELAY, DM_ENG_SESSIONTIMEOUT,
      DM_ENG_VERIFYSUPPORTEDACSMETHODS, DM_ENG_INHIBIT_VALUE_CHANGE_UPON_BOOT, DM_ENG_ACSEVENTS,
      DM_ENG_DELIVEREDEVENTS, DM_ENG_BLOCKEDEVENTS, DM_ENG_ALLOWMULTIPLESCHEDULEINFORM, DM_ENG_HEARTBEATENABLE,
      DM_ENG_HEARTBEATINITIATIONTIME, DM_ENG_HEARTBEATREPORTINGINTERVAL, DM_ENG_CONNECTIONREQUESTHOST,
      DM_ENG_CONNECTIONREQUESTPORT, DM_ENG_CONNECTIONREQUESTPATH, DM_ENG_CONNECTIONREQUESTPATHTYPE,
      DM_ENG_FREQCONNECTIONREQUEST, DM_ENG_LOCALIPADDRESS, DM_ENG_MAXCONNECTIONREQUEST, DM_ENG_REBOOTBYACS,
      DM_ENG_LASTSESSION, DM_ENG_BOOTSTRAPSENT, DM_ENG_SESSIONSTATUS,
      DM_ENG_REBOOTCOMMANDKEY, DM_ENG_ACSIPTTL, DM_ENG_ACSIP, DM_ENG_ACSIPLIST,
      DM_ENG_GETPARAMETERVALUEREQUESTS, DM_ENG_SESSIONSSINCEBOOT, DM_ENG_SMM_MAPPING]"

lemma named_parameters_complete:
  "p \<in> set named_parameters \<or> p = DM_ENG_FACTORYRESETOCCURRED \<or> p = DM_ENG_MANAGEABLEDEVICENOTIFICATIONLIMIT \<or>
   p = DM_ENG_ALIASBASEDADDRESSING \<or> p = DM_ENG_PARAMETER_OTHER"
  by (cases p) (simp_all only: named_parameters_def list.set insert_iff simp_thms)

lemma param_paths_distinct: "distinct (map (\<lambda>p. map_option rev (param_path p)) named_parameters)"
  by code_simp

lemma unnamed_parameters:
  "param_path DM_ENG_MANAGEABLEDEVICENOTIFICATIONLIMIT = None" "param_path DM_ENG_ALIASBASEDADDRESSING = None"
  "param_path DM_ENG_PARAMETER_OTHER = None"
  by code_simp+

lemma param_path_inj:
  assumes "param_path p = param_path q" "param_path p \<noteq> None" "p \<noteq> DM_ENG_FACTORYRESETOCCURRED" "q \<noteq> DM_ENG_FACTORYRESETOCCURRED"
  shows "p = q"
proof -
  have "p \<in> set named_parameters" "q \<in> set named_parameters"
    using assms named_parameters_complete [of p] named_parameters_complete [of q] unnamed_parameters by metis+
  moreover have "inj_on (\<lambda>p. map_option rev (param_path p)) (set named_parameters)"
    using param_paths_distinct by (simp only: distinct_map)
  ultimately show ?thesis using assms(1) inj_onD [of "\<lambda>p. map_option rev (param_path p)"] by metis
qed

lemma get_parameter_path:
  "DM_ENG_Device_SystemConnectionGetParameter env p st =
     (case param_path p of None \<Rightarrow> None | Some k \<Rightarrow> if sy_get_ok env k then sys_store st k else None)"
  by (simp add: DM_ENG_Device_SystemConnectionGetParameter_def param_path_def split: option.splits)

lemma set_parameter_path:
  "DM_ENG_Device_SystemConnectionSetParameter env p v st = (True, st') \<Longrightarrow>
     \<exists>k. param_path p = Some k \<and> st' = st\<lparr>sys_store := (sys_store st)(k \<mapsto> v)\<rparr>"
  by (auto simp: DM_ENG_Device_SystemConnectionSetParameter_def param_path_def Let_def split: option.splits if_splits)


subsection \<open>The start is bounded\<close>

lemma startup_sleep_bound: "unat (startup_sleep env) \<le> 3600"
proof -
  have "unat (if r > 3600 then 3600 else r) \<le> 3600" for r :: u32
    by (simp add: word_less_nat_alt not_less)
  then show ?thesis by (simp add: startup_sleep_def Let_def)
qed

lemma startup_sleep_max:
  assumes "0 < DM_ENG_Device_GetMaxStartupDelay env" "DM_ENG_Device_GetMaxStartupDelay env < 2 ^ 31"
  shows "int (unat (startup_sleep env)) < DM_ENG_Device_GetMaxStartupDelay env"
proof -
  let ?m = "DM_ENG_Device_GetMaxStartupDelay env"
  have m: "uint (word_of_int ?m :: u32) = ?m" using assms by (simp add: uint_word_of_int take_bit_int_eq_self)
  have "uint (r mod word_of_int ?m) < ?m" for r :: u32
    using assms(1) m by (simp add: uint_mod)
  moreover have "uint (if r > 3600 then 3600 else r) \<le> uint r" for r :: u32
    by (simp add: word_less_def)
  ultimately have less: "uint (if r mod word_of_int ?m > 3600 then 3600 else r mod word_of_int ?m) < ?m" for r :: u32
    using le_less_trans by blast
  have "startup_sleep env = (let x = (case sy_urandom env of None \<Rightarrow> 0 | Some r \<Rightarrow> r) mod word_of_int ?m in if x > 3600 then 3600 else x)"
    using assms(1) by (simp add: startup_sleep_def Let_def)
  moreover have "uint (let x = (case sy_urandom env of None \<Rightarrow> 0 | Some r \<Rightarrow> r) mod word_of_int ?m in if x > 3600 then 3600 else x) < ?m"
    unfolding Let_def by (rule less)
  ultimately have "uint (startup_sleep env) < ?m" by simp
  then show ?thesis by simp
qed

lemma status_loop_bound: "cnt \<le> 24 \<Longrightarrow> snd (status_loop env cnt sleeps) \<le> sleeps + (24 - cnt) \<and> fst (status_loop env cnt sleeps) \<le> 25"
proof (induction env cnt sleeps rule: status_loop.induct)
  case (1 env cnt sleeps)
  then show ?case by (subst (1 2) status_loop.simps) (auto split: option.splits)
qed

lemma status_loop_up:
  assumes "\<And>i. cnt \<le> i \<Longrightarrow> i < k \<Longrightarrow> \<exists>s. sy_status env i = Some (Some s) \<and> s \<noteq> ''Up''" "sy_status env k = Some (Some ''Up'')"
    and "cnt \<le> k" "k < 24"
  shows "status_loop env cnt sleeps = (Suc k, sleeps + (k - cnt))"
  using assms
proof (induction env cnt sleeps rule: status_loop.induct)
  case (1 env cnt sleeps)
  show ?case
  proof (cases "cnt = k")
    case True
    with 1 show ?thesis by (subst status_loop.simps) simp
  next
    case False
    with 1 obtain s where s: "sy_status env cnt = Some (Some s)" "s \<noteq> ''Up''" by (meson le_neq_implies_less order_refl)
    with False 1 have "status_loop env (Suc cnt) (Suc sleeps) = (Suc k, Suc sleeps + (k - Suc cnt))" by simp
    with s False 1(4,5) show ?thesis by (subst status_loop.simps) simp
  qed
qed

lemma add_system_sub_slept: "sys_slept (snd (add_system_sub env p st)) = sys_slept st"
  by (simp add: add_system_sub_def split: prod.splits)

text \<open>The start ends: whatever the bus, the random numbers and the device answer, initialising the system connection
  sleeps at most an hour at random (less than the configured maximum when that is positive, not at all after a
  warm boot) and then reads the status of the device at most 25 times with at most 24 waits of 5 seconds; a device
  that is up at the read number \<open>k\<close> is waited for \<open>5 k\<close> seconds.\<close>

theorem system_start_bounded:
  assumes "DM_ENG_Device_SystemConnectionInitialize envs backend uri st = (ret, st')"
  shows "sys_slept st' \<le> sys_slept st + 3720 \<and>
    (0 < DM_ENG_Device_GetMaxStartupDelay (envs 0) \<and> DM_ENG_Device_GetMaxStartupDelay (envs 0) < 2 ^ 31 \<longrightarrow>
       int (sys_slept st') < int (sys_slept st) + DM_ENG_Device_GetMaxStartupDelay (envs 0) + 5 * int (snd (status_loop (envs 0) 0 0))) \<and>
    (DM_ENG_Device_IsSoftwareReboot (envs 0) \<longrightarrow> sys_slept st' \<le> sys_slept st + 5 * snd (status_loop (envs 0) 0 0)) \<and>
    fst (status_loop (envs 0) 0 0) \<le> 25 \<and>
    (k < 24 \<and> (\<forall>i<k. \<exists>s. sy_status (envs 0) i = Some (Some s) \<and> s \<noteq> ''Up'') \<and> sy_status (envs 0) k = Some (Some ''Up'') \<longrightarrow>
       snd (status_loop (envs 0) 0 0) = k)"
proof -
  let ?w = "unat (startup_sleep (envs 0))" and ?s = "snd (status_loop (envs 0) 0 0)"
  have eq: "sys_slept st' = sys_slept st + ?w + 5 * ?s \<or> sys_slept st' = sys_slept st"
  proof (cases "DM_ENG_Device_Common_AmxConnect (sy_bus (envs 0)) backend uri")
    case None
    with assms show ?thesis by (auto simp: DM_ENG_Device_SystemConnectionInitialize_def)
  next
    case (Some c)
    have sub: "sys_slept s' = sys_slept s" if "add_system_sub env p s = (b, s')" for env p s b s'
      using add_system_sub_slept [of env p s] that by simp
    from assms Some show ?thesis
      by (auto simp: DM_ENG_Device_SystemConnectionInitialize_def Let_def log_sys_def
          DM_ENG_Device_SystemConnectionSleepBeforeStarting_def split: prod.splits bool.splits dest!: sub)
  qed
  have w: "?w \<le> 3600" by (rule startup_sleep_bound)
  have s: "?s \<le> 24" "fst (status_loop (envs 0) 0 0) \<le> 25" using status_loop_bound [of 0 "envs 0" 0] by simp_all
  have soft: "?w = 0" if "DM_ENG_Device_IsSoftwareReboot (envs 0)"
    using that by (simp add: startup_sleep_def DM_ENG_Device_GetMaxStartupDelay_def Let_def)
  have up: "?s = k" if "k < 24" "\<forall>i<k. \<exists>s. sy_status (envs 0) i = Some (Some s) \<and> s \<noteq> ''Up''" "sy_status (envs 0) k = Some (Some ''Up'')"
    using status_loop_up [of 0 k "envs 0" 0] that by simp
  show ?thesis
    using eq w s soft up startup_sleep_max [of "envs 0"] by auto
qed


definition example_sys_env :: "nat \<Rightarrow> sys_env" where
  "example_sys_env a =
     \<lparr>sy_bus = example_acs_env, sy_sub = (example_sub_env a)\<lparr>se_object := (\<lambda>p. p)\<rparr>, sy_set_ok = (\<lambda>p. True), sy_call_ok = True,
      sy_get_ok = (\<lambda>p. True), sy_boot_cycle = Some (Some ''Warm''), sy_value = (\<lambda>p. Some (Some ''9'')), sy_urandom = Some 5,
      sy_status = (\<lambda>k. Some (Some (if k < 2 then ''Booting'' else ''Up''))), sy_pending = (\<lambda>d. True)\<rparr>"

definition example_sys :: sys_conn where
  "example_sys =
     \<lparr>sys_connected = None, systemSubsList = no_subs, sys_store = (\<lambda>p. None), sys_log = [], instanceAlias = False,
      sys_slept = 0, sys_fault = False\<rparr>"


theorem system_start_bounded_witness:
  "sys_slept (snd (DM_ENG_Device_SystemConnectionInitialize example_sys_env None None example_sys)) \<le> 5 * 2"
proof -
  let ?r = "DM_ENG_Device_SystemConnectionInitialize example_sys_env None None example_sys"
  have r: "?r = (fst ?r, snd ?r)" by simp
  have "DM_ENG_Device_IsSoftwareReboot (example_sys_env 0)" by code_simp
  moreover have "\<forall>i<2. \<exists>s. sy_status (example_sys_env 0) i = Some (Some s) \<and> s \<noteq> ''Up''" "sy_status (example_sys_env 0) 2 = Some (Some ''Up'')"
    by (simp_all add: example_sys_env_def)
  ultimately show ?thesis
    using system_start_bounded [OF r, of 2] by (simp add: example_sys_def)
qed

end
