(* ===== verification/Gsdm_Parameters.thy ===== *)
theory Gsdm_Parameters
  imports Get_Values
begin

section \<open>Parameters of the supported data model (DM\_AmxParameter.c, DM\_AmxCommon.c)\<close>

text \<open>
  The newer entry points for values and names. They ask the bus for the supported data model below a path once and keep
  the answers (\<open>gsdm\<close>, with the requests that were made and the entries they gave), read the instances with
  \<open>amxb_get\<close>, and add each object and parameter to a list that is searched by path first. A key that a table of the
  library already has is kept when it is added again, which is what adding without the update flag means. The bus, the
  access rights and the path functions of libamxd are fields of \<open>gsdm_env\<close>; \<open>gd_calls\<close> logs the requests to the bus.
\<close>

subsection \<open>State\<close>

record gsdm_entry =
  ge_writable :: "bool option"
  ge_objects :: "string list option"
  ge_params :: "(string \<times> int \<times> bool) list option"

record gsdm =
  gd_request :: "(string \<times> bool) list"
  gd_response :: "(string \<times> gsdm_entry) list"
  gd_calls :: "(string \<times> bool) list"

record sup_entry =
  su_access :: "bool option"
  su_multi :: bool
  su_params :: "(cstr \<times> int \<times> int) list option"

record gsdm_env = gpv_env +
  gs_supported :: "string \<Rightarrow> bool \<Rightarrow> (string \<times> sup_entry) list option"
  gs_filter :: "string \<Rightarrow> (string \<times> sup_entry) list \<Rightarrow> (string \<times> sup_entry) list"
  gs_last :: "string \<Rightarrow> string \<times> string"
  gs_depth :: "string \<Rightarrow> nat"
  gs_get :: "string \<Rightarrow> bool \<Rightarrow> bus_status \<times> get_response option"
  gs_data_type :: "int \<Rightarrow> DM_ENG_ParameterType"
  gs_null_type :: int

definition no_gsdm :: gsdm where
  "no_gsdm = \<lparr>gd_request = [], gd_response = [], gd_calls = []\<rparr>"

definition no_entry :: gsdm_entry where
  "no_entry = \<lparr>ge_writable = None, ge_objects = None, ge_params = None\<rparr>"

definition upd_entry :: "string \<Rightarrow> (gsdm_entry \<Rightarrow> gsdm_entry) \<Rightarrow> (string \<times> gsdm_entry) list \<Rightarrow> (string \<times> gsdm_entry) list" where
  "upd_entry key f resp = map (\<lambda>(k, e). (k, if k = key then f e else e)) resp"

subsection \<open>The supported data model\<close>

definition DM_ENG_Device_Common_Add_Object_To_Parent ::
  "string \<Rightarrow> string \<Rightarrow> (string \<times> gsdm_entry) list \<Rightarrow> (string \<times> gsdm_entry) list" where
  "DM_ENG_Device_Common_Add_Object_To_Parent parent_path template response =
     (case map_of response parent_path of
        None \<Rightarrow> response
      | Some parent \<Rightarrow>
          (let obs = (case ge_objects parent of None \<Rightarrow> [] | Some os \<Rightarrow> os);
               obs' = (if template \<in> set obs then obs else obs @ [template])
           in upd_entry parent_path (\<lambda>e. e\<lparr>ge_objects := Some obs'\<rparr>) response))"

definition supported_parameters :: "(cstr \<times> int \<times> int) list \<Rightarrow> (string \<times> int \<times> bool) list" where
  "supported_parameters ps =
     map (\<lambda>(n, t, a). (the n, t, a = 1)) (filter (\<lambda>(n, t, a). \<not> str_empty n) ps)"

text \<open>The body of the loop over the keys of the answer.\<close>

definition gsdm_key ::
  "gsdm_env \<Rightarrow> string \<Rightarrow> (string \<times> sup_entry) list \<Rightarrow> string \<Rightarrow> (string \<times> gsdm_entry) list \<Rightarrow> (string \<times> gsdm_entry) list" where
  "gsdm_key env parameter_name table key response =
     (case map_of table key of
        None \<Rightarrow> response
      | Some v \<Rightarrow>
          (let r1 = (if map_of response key = None then response @ [(key, no_entry)] else response);
               r2 = (case su_access v of
                       None \<Rightarrow> r1
                     | Some a \<Rightarrow> upd_entry key (\<lambda>e. case ge_writable e of None \<Rightarrow> e\<lparr>ge_writable := Some a\<rparr> | Some _ \<Rightarrow> e) r1);
               r3 = (if DM_ENG_Device_Common_IsParameterPath (Some parameter_name) then r2
                     else if su_multi v
                     then (let (last1, rest1) = gs_last env key; (ob, rest2) = gs_last env rest1
                           in DM_ENG_Device_Common_Add_Object_To_Parent rest2 ob r2)
                     else if key \<noteq> parameter_name
                     then (let (ob, rest) = gs_last env key in DM_ENG_Device_Common_Add_Object_To_Parent rest ob r2)
                     else r2)
           in case su_params v of
                None \<Rightarrow> r3
              | Some ps \<Rightarrow>
                  (if ps = [] then r3
                   else upd_entry key (\<lambda>e. case ge_params e of None \<Rightarrow> e\<lparr>ge_params := Some (supported_parameters ps)\<rparr> | Some _ \<Rightarrow> e) r3)))"

definition DM_ENG_Device_Common_Get_Gsdm_data :: "gsdm_env \<Rightarrow> string \<Rightarrow> bool \<Rightarrow> gsdm \<Rightarrow> dm_error \<times> gsdm" where
  "DM_ENG_Device_Common_Get_Gsdm_data env parameter_name nextlevel data =
     (if parameter_name = [] then (DM_OK, data)
      else
        (let supported_path = gv_supported_path env parameter_name;
             first = (nextlevel \<or> DM_ENG_Device_Common_IsParameterPath (Some parameter_name))
         in if supported_path = [] then (DM_OK, data)
            else if (supported_path, first) \<in> set (gd_request data) then (DM_OK, data)
            else
              (let data1 = data\<lparr>gd_request := gd_request data @ [(supported_path, first)]\<rparr> in
               if \<not> gv_allowed env parameter_name then (DM_ENG_INVALID_PARAMETER_NAME, data1)
               else
                 (let data2 = data1\<lparr>gd_calls := gd_calls data1 @ [(supported_path, first)]\<rparr> in
                  case gs_supported env supported_path first of
                    None \<Rightarrow> (DM_OK, data2)
                  | Some table \<Rightarrow>
                      (let table = gs_filter env parameter_name table in
                       (DM_OK, data2\<lparr>gd_response :=
                          fold (gsdm_key env parameter_name table) (sorted_keys table) (gd_response data2)\<rparr>))))))"

definition DM_AmxParameter_GetGsdmInfo :: "gsdm_env \<Rightarrow> string \<Rightarrow> gsdm \<Rightarrow> gsdm_entry option" where
  "DM_AmxParameter_GetGsdmInfo env parameter_name data =
     (if parameter_name = [] then None
      else
        (let supported_path = gv_supported_path env parameter_name in
         if supported_path = [] then None
         else (case map_of (gd_response data) supported_path of
                 Some e \<Rightarrow> Some e
               | None \<Rightarrow> (if DM_ENG_Device_Common_EndsWithDot supported_path
                          then map_of (gd_response data) (supported_path @ ''{i}.'') else None))))"

subsection \<open>Parsing an answer of the bus\<close>

type_synonym 'l add_acs_path = "string \<Rightarrow> bool \<Rightarrow> gsdm_entry option \<Rightarrow> gsdm \<Rightarrow> 'l \<Rightarrow> 'l"
type_synonym 'l add_object = "string \<Rightarrow> string \<Rightarrow> bool \<Rightarrow> gsdm_entry \<Rightarrow> gsdm \<Rightarrow> 'l \<Rightarrow> 'l"
type_synonym 'l add_param = "string \<Rightarrow> amx_value \<Rightarrow> string \<Rightarrow> gsdm_entry \<Rightarrow> 'l \<Rightarrow> 'l"

definition listed_path :: "gsdm_env \<Rightarrow> string \<Rightarrow> alias_list \<Rightarrow> string \<Rightarrow> string" where
  "listed_path env acs_path aliases path =
     (case (if gv_instance_alias env
            then DM_ENG_Device_Common_IndexToAlias (amx_env.truncate env) acs_path (Some path) else None) of
        Some alias_path \<Rightarrow> alias_path
      | None \<Rightarrow> (if al_entries aliases \<noteq> [] then DM_ENG_Device_Common_Modify_Path_With_Aliases path aliases else path))"

definition DM_AmxParameter_ParseForEachParameter ::
  "gsdm_env \<Rightarrow> string \<Rightarrow> string \<Rightarrow> 'l add_param option \<Rightarrow> alias_list \<Rightarrow> gsdm_entry \<Rightarrow> string \<times> amx_value \<Rightarrow> 'l \<Rightarrow> 'l" where
  "DM_AmxParameter_ParseForEachParameter env acs_path object_path add_param aliases info param plist =
     (case param of (param_key, param_var) \<Rightarrow>
        (let param_path = listed_path env acs_path aliases (object_path @ param_key) in
         case add_param of None \<Rightarrow> plist | Some f \<Rightarrow> f param_path param_var param_key info plist))"

definition DM_AmxParameter_ParseForEachObject ::
  "gsdm_env \<Rightarrow> string \<Rightarrow> bool \<Rightarrow> gsdm \<Rightarrow> 'l add_object option \<Rightarrow> 'l add_param option \<Rightarrow> alias_list \<Rightarrow>
   string \<times> params_table \<Rightarrow> 'l \<Rightarrow> 'l" where
  "DM_AmxParameter_ParseForEachObject env acs_path nextlevel data add_object add_param aliases ob plist =
     (case ob of (object_path, parameters) \<Rightarrow>
        (case DM_AmxParameter_GetGsdmInfo env object_path data of
           None \<Rightarrow> plist
         | Some info \<Rightarrow>
             (let shown = listed_path env acs_path aliases object_path;
                  l1 = (case add_object of None \<Rightarrow> plist | Some f \<Rightarrow> f acs_path shown nextlevel info data plist)
              in if nextlevel \<and> gs_depth env object_path > gs_depth env acs_path then l1
                 else fold (DM_AmxParameter_ParseForEachParameter env acs_path object_path add_param aliases info) parameters l1)))"

definition path_aliases :: "string \<Rightarrow> alias_list" where
  "path_aliases acs_path =
     (if DM_ENG_Device_Common_Is_Alias_Based acs_path then DM_ENG_Device_Common_Extract_Aliases acs_path
      else \<lparr>al_entries = [], al_total = 0\<rparr>)"

definition DM_AmxParameter_Parse ::
  "gsdm_env \<Rightarrow> string \<Rightarrow> bool \<Rightarrow> get_response option \<Rightarrow> gsdm option \<Rightarrow> 'l add_acs_path option \<Rightarrow> 'l add_object option \<Rightarrow>
   'l add_param option \<Rightarrow> 'l \<Rightarrow> dm_error \<times> 'l" where
  "DM_AmxParameter_Parse env acs_path nextlevel object ext_data add_acs add_object add_param plist =
     (case (case ext_data of
              None \<Rightarrow> DM_ENG_Device_Common_Get_Gsdm_data env acs_path nextlevel no_gsdm
            | Some d \<Rightarrow> (DM_OK, d)) of
        (error, data) \<Rightarrow>
          (if error \<noteq> DM_OK then (error, plist)
           else
             (let aliases = path_aliases acs_path;
                  l1 = (case add_acs of
                          None \<Rightarrow> plist
                        | Some f \<Rightarrow> f acs_path nextlevel (DM_AmxParameter_GetGsdmInfo env acs_path data) data plist)
              in (DM_OK, fold (DM_AmxParameter_ParseForEachObject env acs_path nextlevel data add_object add_param aliases)
                           (case object of None \<Rightarrow> [] | Some r \<Rightarrow> r) l1))))"

definition DM_AmxParameter_AddParameterToPVS :: "gsdm_env \<Rightarrow> pvs list add_param" where
  "DM_AmxParameter_AddParameterToPVS env param_path param_var param_key info pvs_list =
     (if Some param_path \<in> pv_name ` set pvs_list then pvs_list
      else
        (let type = (case ge_params info of
                       None \<Rightarrow> 0
                     | Some ps \<Rightarrow> (case map_of ps param_key of None \<Rightarrow> 0 | Some (t, w) \<Rightarrow> t));
             type = (if type = -1 then gs_null_type env else type)
         in pvs_list @ [\<lparr>pv_name = Some param_path, pv_type = gs_data_type env type, pv_value = av_text param_var\<rparr>]))"

definition DM_AmxParameter_AddSingleObjectToPN ::
  "string \<Rightarrow> gsdm_entry option \<Rightarrow> (string \<times> bool) list \<Rightarrow> (string \<times> bool) list" where
  "DM_AmxParameter_AddSingleObjectToPN object_path info pn_list =
     (if object_path \<in> fst ` set pn_list then pn_list
      else pn_list @ [(object_path, case info of None \<Rightarrow> False | Some e \<Rightarrow> ge_writable e = Some True)])"

fun add_child_objects ::
  "gsdm_env \<Rightarrow> string \<Rightarrow> gsdm \<Rightarrow> string list \<Rightarrow> (string \<times> bool) list \<Rightarrow> (string \<times> bool) list" where
  "add_child_objects env object_path data [] pn_list = pn_list"
| "add_child_objects env object_path data (ob # obs) pn_list =
     (case DM_AmxParameter_GetGsdmInfo env (object_path @ ob) data of
        None \<Rightarrow> pn_list
      | Some info \<Rightarrow>
          add_child_objects env object_path data obs
            (DM_AmxParameter_AddSingleObjectToPN (object_path @ ob) (Some info) pn_list))"

definition DM_AmxParameter_AddObjectsToPN ::
  "gsdm_env \<Rightarrow> string \<Rightarrow> gsdm_entry option \<Rightarrow> gsdm \<Rightarrow> (string \<times> bool) list \<Rightarrow> (string \<times> bool) list" where
  "DM_AmxParameter_AddObjectsToPN env object_path info data pn_list =
     (case Option.bind info ge_objects of
        None \<Rightarrow> pn_list
      | Some obs \<Rightarrow> add_child_objects env object_path data obs pn_list)"

definition DM_AmxParameter_AddAcsPathToPN :: "gsdm_env \<Rightarrow> (string \<times> bool) list add_acs_path" where
  "DM_AmxParameter_AddAcsPathToPN env acs_path nextlevel info data pn_list =
     (if DM_ENG_Device_Common_IsParameterPath (Some acs_path) then pn_list
      else if DM_ENG_Device_Common_IsWildcardPath (Some acs_path) then pn_list
      else DM_AmxParameter_AddObjectsToPN env acs_path info data
             (if nextlevel then pn_list else DM_AmxParameter_AddSingleObjectToPN acs_path info pn_list))"

definition DM_AmxParameter_AddObjectToPN :: "gsdm_env \<Rightarrow> (string \<times> bool) list add_object" where
  "DM_AmxParameter_AddObjectToPN env acs_path object_path nextlevel info data pn_list =
     (if DM_ENG_Device_Common_IsParameterPath (Some acs_path) then pn_list
      else
        (let l1 = (if \<not> nextlevel \<or> acs_path \<noteq> object_path
                   then DM_AmxParameter_AddSingleObjectToPN object_path (Some info) pn_list else pn_list)
         in if nextlevel then l1 else DM_AmxParameter_AddObjectsToPN env object_path (Some info) data l1))"

definition DM_AmxParameter_AddParameterToPN :: "(string \<times> bool) list add_param" where
  "DM_AmxParameter_AddParameterToPN param_path param_var param_key info pn_list =
     (if param_path \<in> fst ` set pn_list then pn_list
      else pn_list @ [(param_path,
        case ge_params info of
          None \<Rightarrow> False
        | Some ps \<Rightarrow> (case map_of ps param_key of None \<Rightarrow> False | Some (t, w) \<Rightarrow> w))])"

definition DM_AmxParameter_ParseValues where
  "DM_AmxParameter_ParseValues env acs_path nextlevel object ext_data pvs_list =
     DM_AmxParameter_Parse env acs_path nextlevel object ext_data None None (Some (DM_AmxParameter_AddParameterToPVS env)) pvs_list"

definition DM_AmxParameter_ParseNames where
  "DM_AmxParameter_ParseNames env acs_path nextlevel object ext_data pn_list =
     DM_AmxParameter_Parse env acs_path nextlevel object ext_data (Some (DM_AmxParameter_AddAcsPathToPN env))
       (Some (DM_AmxParameter_AddObjectToPN env)) (Some DM_AmxParameter_AddParameterToPN) pn_list"

definition DM_AmxParameter_Get ::
  "gsdm_env \<Rightarrow> string \<Rightarrow> bool \<Rightarrow> gsdm option \<Rightarrow>
   (gsdm_env \<Rightarrow> string \<Rightarrow> bool \<Rightarrow> get_response option \<Rightarrow> gsdm option \<Rightarrow> 'l \<Rightarrow> dm_error \<times> 'l) \<Rightarrow> 'l \<Rightarrow> dm_error \<times> 'l" where
  "DM_AmxParameter_Get env path nextlevel data parse_get plist =
     (let path = (if length path = 0 then ''Device.'' else path) in
      if \<not> gv_allowed env path then (DM_ENG_INVALID_PARAMETER_NAME, plist)
      else
        (let is_partialpath = (last path = dot);
             is_wildcardpath = (strstr path ''*'' \<noteq> None);
             deep = (\<not> nextlevel \<and> is_partialpath)
         in case gs_get env path deep of
              (ret, get) \<Rightarrow>
                (if (is_partialpath \<or> is_wildcardpath) \<and> (ret \<noteq> AMXB_STATUS_OK \<or> get = None) then (DM_OK, plist)
                 else if ret \<noteq> AMXB_STATUS_OK
                 then (if ret = AMXB_ERROR_NOT_SUPPORTED_SCHEME then (DM_OK, plist) else (DM_ENG_INVALID_PARAMETER_NAME, plist))
                 else parse_get env path nextlevel (if is_partialpath then map_option (gv_filter env path) get else get) data plist)))"

definition DM_AmxParameter_GetValues :: "gsdm_env \<Rightarrow> string \<Rightarrow> gsdm option \<Rightarrow> pvs list \<Rightarrow> dm_error \<times> pvs list" where
  "DM_AmxParameter_GetValues env path data pvs_list =
     DM_AmxParameter_Get env path False data DM_AmxParameter_ParseValues pvs_list"

definition DM_AmxParameter_GetNames ::
  "gsdm_env \<Rightarrow> string \<Rightarrow> bool \<Rightarrow> gsdm option \<Rightarrow> (string \<times> bool) list \<Rightarrow> dm_error \<times> (string \<times> bool) list" where
  "DM_AmxParameter_GetNames env path nextlevel data pn_list =
     (if length path = 0 \<and> nextlevel then (DM_OK, DM_AmxParameter_AddSingleObjectToPN ''Device.'' None pn_list)
      else if DM_ENG_Device_Common_IsParameterPath (Some path) \<and> nextlevel then (DM_ENG_INVALID_ARGUMENTS, pn_list)
      else DM_AmxParameter_Get env path nextlevel data DM_AmxParameter_ParseNames pn_list)"

subsection \<open>The entry points (DM\_DeviceAdapter.c)\<close>

fun gsdm_loop :: "gsdm_env \<Rightarrow> string list \<Rightarrow> gsdm \<Rightarrow> dm_error \<times> gsdm" where
  "gsdm_loop env [] data = (DM_OK, data)"
| "gsdm_loop env (n # ns) data =
     (case DM_ENG_Device_Common_Get_Gsdm_data env n False data of
        (e, data1) \<Rightarrow> if e \<noteq> DM_OK then (e, data1) else gsdm_loop env ns data1)"

definition DM_ENG_Device_GPV :: "gsdm_env \<Rightarrow> string list \<Rightarrow> pvs list \<Rightarrow> dm_error \<times> gsdm \<times> pvs list" where
  "DM_ENG_Device_GPV env parameterNames pvs_list =
     (if \<not> gv_system_ok env then (DM_ENG_INTERNAL_ERROR, no_gsdm, pvs_list)
      else (case gsdm_loop env parameterNames no_gsdm of
              (e, data) \<Rightarrow>
                (if e \<noteq> DM_OK then (e, data, pvs_list)
                 else (case get_values_loop (\<lambda>n l. DM_AmxParameter_GetValues env n (Some data) l) parameterNames pvs_list of
                         (e', l) \<Rightarrow> (e', data, l)))))"

definition DM_ENG_Device_GPN :: "gsdm_env \<Rightarrow> string \<Rightarrow> bool \<Rightarrow> (string \<times> bool) list \<Rightarrow> dm_error \<times> (string \<times> bool) list" where
  "DM_ENG_Device_GPN env path nextLevel pn_list =
     (if \<not> gv_system_ok env then (DM_ENG_INTERNAL_ERROR, pn_list)
      else DM_AmxParameter_GetNames env path nextLevel None pn_list)"

subsection \<open>Each path once\<close>

lemma gsdm_data_calls:
  assumes "DM_ENG_Device_Common_Get_Gsdm_data env n nl data = (e, data')"
    and "distinct (gd_calls data)" and "set (gd_calls data) \<subseteq> set (gd_request data)"
  shows "distinct (gd_calls data') \<and> set (gd_calls data') \<subseteq> set (gd_request data')"
  using assms by (auto simp: DM_ENG_Device_Common_Get_Gsdm_data_def Let_def split: if_splits option.splits)

lemma gsdm_loop_calls:
  "gsdm_loop env ns data = (e, data') \<Longrightarrow> distinct (gd_calls data) \<Longrightarrow> set (gd_calls data) \<subseteq> set (gd_request data) \<Longrightarrow>
   distinct (gd_calls data') \<and> set (gd_calls data') \<subseteq> set (gd_request data')"
proof (induction ns arbitrary: data)
  case (Cons n ns)
  obtain e1 d1 where "DM_ENG_Device_Common_Get_Gsdm_data env n False data = (e1, d1)" by fastforce
  with Cons gsdm_data_calls [OF this] show ?case by (auto split: if_splits)
qed simp

lemma gsdm_loop_allowed:
  "gsdm_loop env ns data = (DM_OK, data') \<Longrightarrow> n \<in> set ns \<Longrightarrow> n \<noteq> [] \<Longrightarrow> gv_supported_path env n \<noteq> [] \<Longrightarrow>
   (gv_supported_path env n, DM_ENG_Device_Common_IsParameterPath (Some n)) \<in> set (gd_request data')"
proof (induction ns arbitrary: data)
  case (Cons m ns)
  obtain d1 where g: "DM_ENG_Device_Common_Get_Gsdm_data env m False data = (DM_OK, d1)" "gsdm_loop env ns d1 = (DM_OK, data')"
    using Cons.prems(1) by (auto split: prod.splits if_splits)
  have mono: "set (gd_request d) \<subseteq> set (gd_request d')" if "DM_ENG_Device_Common_Get_Gsdm_data env k False d = (x, d')" for k d x d'
    using that by (auto simp: DM_ENG_Device_Common_Get_Gsdm_data_def Let_def split: if_splits option.splits)
  have reqs: "gsdm_loop env ks d = (x, d') \<Longrightarrow> set (gd_request d) \<subseteq> set (gd_request d')" for ks d x d'
    by (induction ks arbitrary: d) (auto split: prod.splits if_splits dest: mono)
  show ?case
  proof (cases "n = m")
    case True
    then have "(gv_supported_path env n, DM_ENG_Device_Common_IsParameterPath (Some n)) \<in> set (gd_request d1)"
      using g(1) Cons.prems(3,4)
      by (auto simp: DM_ENG_Device_Common_Get_Gsdm_data_def Let_def split: if_splits option.splits)
    with reqs [OF g(2)] show ?thesis by blast
  qed (use Cons g in auto)
qed simp

text \<open>The names that an answer of the bus gives for a path, given the entries of the supported data model.\<close>

definition below_path :: "gsdm_env \<Rightarrow> gsdm \<Rightarrow> string \<Rightarrow> string list" where
  "below_path env data name =
     (let path = (if name = [] then ''Device.'' else name);
          aliases = path_aliases path
      in case gs_get env path (last path = dot) of
           (AMXB_STATUS_OK, Some r) \<Rightarrow>
             [listed_path env path aliases (ob @ k).
                (ob, ps) \<leftarrow> (if last path = dot then gv_filter env path r else r),
                DM_AmxParameter_GetGsdmInfo env ob data \<noteq> None, (k, v) \<leftarrow> ps]
         | _ \<Rightarrow> [])"

lemma set_listed:
  "set [g ob k. (ob, ps) \<leftarrow> rows, i ob \<noteq> None, (k, v) \<leftarrow> ps] =
   (\<Union>(ob, ps)\<in>set rows. if i ob = None then {} else (\<lambda>(k, v). g ob k) ` set ps)"
proof (induction rows)
  case (Cons a rows)
  then show ?case by (cases a) (simp del: set_concat)
qed simp

text \<open>What adding a list of names that are looked up first does to the list.\<close>

definition adds_names :: "(pvs list \<Rightarrow> pvs list) \<Rightarrow> string set \<Rightarrow> bool" where
  "adds_names f ns \<longleftrightarrow> (\<forall>l. prefix l (f l) \<and> pv_name ` set (f l) = pv_name ` set l \<union> Some ` ns \<and>
     (distinct (map pv_name l) \<longrightarrow> distinct (map pv_name (f l))))"

lemma adds_nothing [simp]: "adds_names (\<lambda>l. l) {}" "adds_names id {}"
  by (simp_all add: adds_names_def)

lemma adds_comp: "adds_names f a \<Longrightarrow> adds_names g b \<Longrightarrow> adds_names (\<lambda>l. g (f l)) (a \<union> b)"
  unfolding adds_names_def by (metis (no_types, lifting) Un_assoc image_Un prefix_order.trans)

lemma adds_fold:
  assumes "\<And>x. x \<in> set xs \<Longrightarrow> adds_names (f x) (a x)"
  shows "adds_names (fold f xs) (\<Union>x\<in>set xs. a x)"
  using assms
proof (induction xs)
  case (Cons x xs)
  then have "adds_names (f x) (a x)" and "adds_names (fold f xs) (\<Union>x\<in>set xs. a x)" by auto
  then show ?case using adds_comp by fastforce
qed (simp add: adds_names_def)

lemma adds_parameter: "adds_names (DM_AmxParameter_AddParameterToPVS env p v k info) {p}"
  by (auto simp: adds_names_def DM_AmxParameter_AddParameterToPVS_def Let_def)

lemma parse_values_adds:
  assumes "case object of None \<Rightarrow> rows = [] | Some r \<Rightarrow> rows = r"
  shows "\<exists>f. (\<forall>l. DM_AmxParameter_ParseValues env path False object (Some data) l = (DM_OK, f l)) \<and>
     adds_names f (\<Union>(ob, ps)\<in>set rows. if DM_AmxParameter_GetGsdmInfo env ob data = None then {}
                     else (\<lambda>(k, v). listed_path env path (path_aliases path) (ob @ k)) ` set ps)"
proof -
  let ?g = "DM_AmxParameter_ParseForEachObject env path False data None (Some (DM_AmxParameter_AddParameterToPVS env)) (path_aliases path)"
  have "adds_names (?g x) (case x of (ob, ps) \<Rightarrow> if DM_AmxParameter_GetGsdmInfo env ob data = None then {}
                     else (\<lambda>(k, v). listed_path env path (path_aliases path) (ob @ k)) ` set ps)" for x
  proof -
    obtain ob ps where x: "x = (ob, ps)" by fastforce
    show ?thesis
    proof (cases "DM_AmxParameter_GetGsdmInfo env ob data")
      case None
      then have "?g x = (\<lambda>l. l)" by (simp add: x DM_AmxParameter_ParseForEachObject_def fun_eq_iff)
      then show ?thesis using None x by simp
    next
      case (Some info)
      have "adds_names (fold (DM_AmxParameter_ParseForEachParameter env path ob (Some (DM_AmxParameter_AddParameterToPVS env)) (path_aliases path) info) ps)
              (\<Union>p\<in>set ps. case p of (k, v) \<Rightarrow> {listed_path env path (path_aliases path) (ob @ k)})"
      proof (rule adds_fold)
        fix p show "adds_names (DM_AmxParameter_ParseForEachParameter env path ob (Some (DM_AmxParameter_AddParameterToPVS env)) (path_aliases path) info p)
            (case p of (k, v) \<Rightarrow> {listed_path env path (path_aliases path) (ob @ k)})"
          using adds_parameter by (cases p) (simp add: DM_AmxParameter_ParseForEachParameter_def [abs_def] Let_def)
      qed
      moreover have "(\<Union>p\<in>set ps. case p of (k, v) \<Rightarrow> {listed_path env path (path_aliases path) (ob @ k)}) =
          (\<lambda>(k, v). listed_path env path (path_aliases path) (ob @ k)) ` set ps"
        by (auto simp: image_iff split: prod.splits)
      moreover have "?g x = fold (DM_AmxParameter_ParseForEachParameter env path ob (Some (DM_AmxParameter_AddParameterToPVS env)) (path_aliases path) info) ps"
        by (simp add: x DM_AmxParameter_ParseForEachObject_def Some fun_eq_iff)
      ultimately show ?thesis using Some x by simp
    qed
  qed
  then have "adds_names (fold ?g rows) (\<Union>x\<in>set rows. case x of (ob, ps) \<Rightarrow> if DM_AmxParameter_GetGsdmInfo env ob data = None then {}
                     else (\<lambda>(k, v). listed_path env path (path_aliases path) (ob @ k)) ` set ps)"
    by (rule adds_fold)
  moreover have "DM_AmxParameter_ParseValues env path False object (Some data) l = (DM_OK, fold ?g rows l)" for l
    using assms(1) by (cases object) (simp_all add: DM_AmxParameter_ParseValues_def DM_AmxParameter_Parse_def)
  ultimately show ?thesis by (metis (no_types, lifting))
qed

lemma get_values_adds:
  assumes "DM_AmxParameter_GetValues env name (Some data) l = (DM_OK, l')"
  shows "\<exists>f. l' = f l \<and> adds_names f (set (below_path env data name))"
proof -
  define path where "path = (if name = [] then ''Device.'' else name)"
  obtain ret get where g: "gs_get env path (last path = dot) = (ret, get)" by fastforce
  show ?thesis
  proof (cases "ret = AMXB_STATUS_OK \<and> \<not> (get = None \<and> (last path = dot \<or> strstr path ''*'' \<noteq> None))")
    case False
    then have "l' = l" and "below_path env data name = []"
      using assms g by (auto simp: DM_AmxParameter_GetValues_def DM_AmxParameter_Get_def Let_def below_path_def path_def
          split: if_splits bus_status.splits option.splits)
    then show ?thesis using adds_nothing(1) by (metis list.set(1))
  next
    case True
    define ob where "ob = (if last path = dot then map_option (gv_filter env path) get else get)"
    define rows where "rows = (case ob of None \<Rightarrow> [] | Some r \<Rightarrow> r)"
    have "DM_AmxParameter_ParseValues env path False ob (Some data) l = (DM_OK, l')"
      using assms g True
      by (auto simp: DM_AmxParameter_GetValues_def DM_AmxParameter_Get_def Let_def path_def ob_def split: if_splits)
    moreover have "case ob of None \<Rightarrow> rows = [] | Some r \<Rightarrow> rows = r" by (simp add: rows_def split: option.splits)
    moreover have "set (below_path env data name) = (\<Union>(ob, ps)\<in>set rows. if DM_AmxParameter_GetGsdmInfo env ob data = None then {}
        else (\<lambda>(k, v). listed_path env path (path_aliases path) (ob @ k)) ` set ps)"
      using g True unfolding below_path_def Let_def path_def [symmetric]
      by (cases get) (simp_all add: rows_def ob_def set_listed [where i = "\<lambda>ob. DM_AmxParameter_GetGsdmInfo env ob data" and g = "\<lambda>ob k. listed_path env path (path_aliases path) (ob @ k)"]
          del: set_concat not_None_eq)
    ultimately show ?thesis using parse_values_adds [of rows ob env path data] by (metis (no_types, lifting) prod.inject)
  qed
qed

lemma values_loop_adds:
  "get_values_loop (\<lambda>n l. DM_AmxParameter_GetValues env n (Some data) l) ns l = (DM_OK, l') \<Longrightarrow>
   \<exists>f. l' = f l \<and> adds_names f (\<Union>n\<in>set ns. set (below_path env data n))"
proof (induction ns arbitrary: l)
  case (Cons n ns)
  obtain l1 where g: "DM_AmxParameter_GetValues env n (Some data) l = (DM_OK, l1)"
    and r: "get_values_loop (\<lambda>n l. DM_AmxParameter_GetValues env n (Some data) l) ns l1 = (DM_OK, l')"
    using Cons.prems by (auto split: prod.splits if_splits)
  from get_values_adds [OF g] Cons.IH [OF r] obtain f h where
    "l1 = f l" "adds_names f (set (below_path env data n))" "l' = h l1" "adds_names h (\<Union>n\<in>set ns. set (below_path env data n))"
    by blast
  then show ?case using adds_comp [of f _ h] by fastforce
qed (use adds_nothing(1) in auto)


definition example_gsdm_env :: gsdm_env where
  "example_gsdm_env = gpv_env.extend example_gpv_env
     \<lparr>gs_supported = (\<lambda>p first. Some [(''Device.X.'', \<lparr>su_access = Some False, su_multi = False,
          su_params = Some [(Some ''A'', 8, 1), (Some ''B'', 8, 0), (Some [], 8, 0)]\<rparr>)]),
      gs_filter = (\<lambda>p t. t), gs_last = (\<lambda>p. (p, [])), gs_depth = length,
      gs_get = (\<lambda>p deep. (AMXB_STATUS_OK, Some
         (if deep then [(''Device.X.'', [(''A'', \<lparr>av_type = AMXC_VAR_ID_UINT32, av_text = Some ''7''\<rparr>),
                                       (''B'', \<lparr>av_type = AMXC_VAR_ID_UINT32, av_text = Some ''1''\<rparr>)]),
                        (''Device.Y.'', [(''C'', \<lparr>av_type = AMXC_VAR_ID_UINT32, av_text = Some ''2''\<rparr>)])]
          else [(''Device.X.'', [(''A'', \<lparr>av_type = AMXC_VAR_ID_UINT32, av_text = Some ''7''\<rparr>)])]))),
      gs_data_type = (\<lambda>t. DM_ENG_ParameterType_UINT), gs_null_type = 0\<rparr>"


end
