(* ===== verification/Schedule_Download.thy ===== *)
theory Schedule_Download
  imports Transfer_Props
begin

section \<open>ScheduleDownload: the adapter on top of the plugin (DM\_AmxScheduleDownload.c)\<close>

text \<open>
  The remote procedure ScheduleDownload becomes an instance of the plugin (\<open>addScheduleDownload\<close>), whose state machine is
  that of \<open>Transfers\<close>. The adapter hears of the end of the transfer by a notification of the bus about the parameter
  \<open>Status\<close> of \<open>TransferComplete\<close>, or finds it when the daemon starts, and hands a report to the engine; when the ACS has
  acknowledged the report the instance is deleted. \<open>sd_notifs\<close> are the notifications that the bus has not delivered yet,
  \<open>sd_timers\<close> the timers of the engine, \<open>sd_reports\<close> the reports that wait for the acknowledgement.
\<close>

subsection \<open>State\<close>

record tc_report =
  tp_CommandKey :: string
  tp_FaultCode :: u32
  tp_FaultString :: string
  tp_StartTime :: int
  tp_CompleteTime :: int
  tp_path :: string

record sched =
  sd_plugin :: plugin
  sd_bus_ctx :: bool
  sd_subscribed :: bool
  sd_notifs :: "(string \<times> string) list"
  sd_timers :: "string list"
  sd_reports :: "tc_report list"

record sched_env =
  sd_env :: env
  sd_index :: nat
  sd_bus_ok :: bool
  sd_sub_rc :: int
  sd_get_rc :: int
  sd_missing_rc :: int
  sd_report_rc :: int
  sd_del_ok :: bool
  sd_tm_ok :: "int \<Rightarrow> bool"
  sd_mktime :: "int \<Rightarrow> int"

definition inst_path :: "nat \<Rightarrow> string" where
  "inst_path i = ''ManagementServer.Transfers.ScheduleDownload.'' @ dec_text i @ ''.''"

text \<open>The instance at a path of the bus.\<close>

definition inst_at :: "string \<Rightarrow> plugin \<Rightarrow> (nat \<times> transfer) option" where
  "inst_at path p = find (\<lambda>(i, t). inst_path i = path) (downloads p)"

text \<open>\<open>amxc_string_replace\<close> of the first match by nothing.\<close>

definition remove_first :: "string \<Rightarrow> string \<Rightarrow> string" where
  "remove_first s n =
     (case strstr s n of None \<Rightarrow> s | Some t \<Rightarrow> take (length s - length t) s @ drop (length n) t)"

subsection \<open>The remote procedure\<close>

record sched_request =
  sq_commandKey :: cstr
  sq_fileType :: string
  sq_url :: cstr
  sq_username :: cstr
  sq_password :: cstr
  sq_fileSize :: u32
  sq_targetFileName :: cstr
  sq_window1 :: "window_args option"
  sq_window2 :: "window_args option"

definition schedule_args :: "sched_request \<Rightarrow> download_args" where
  "schedule_args rq =
     \<lparr>da_Initiator = Some ''ACS'', da_CommandKey = sq_commandKey rq, da_FileType = sq_fileType rq, da_URL = sq_url rq,
      da_Username = sq_username rq, da_Password = sq_password rq, da_FileSize = sq_fileSize rq,
      da_TargetFileName = sq_targetFileName rq,
      da_TimeWindowList = (case sq_window1 rq of None \<Rightarrow> [] | Some w \<Rightarrow> [w]) @ (case sq_window2 rq of None \<Rightarrow> [] | Some w \<Rightarrow> [w])\<rparr>"

definition DM_ENG_Device_DoScheduleDownload :: "sched_env \<Rightarrow> sched_request \<Rightarrow> sched \<Rightarrow> nat \<times> sched" where
  "DM_ENG_Device_DoScheduleDownload env rq st =
     (if \<not> sd_bus_ctx st then (9002, st)
      else (case addScheduleDownload (sd_env env) (sd_index env) (schedule_args rq) (sd_plugin st) of
              (status, p) \<Rightarrow> (if status = amxd_status_ok then 0 else 9002, st\<lparr>sd_plugin := p\<rparr>)))"

definition DM_ENG_Device_ScheduleDownload :: "sched_env \<Rightarrow> sched_request \<Rightarrow> sched \<Rightarrow> nat \<times> sched" where
  "DM_ENG_Device_ScheduleDownload env rq st = DM_ENG_Device_DoScheduleDownload env rq st"

subsection \<open>The end of a transfer\<close>

definition amxc_tc_to_time_utc :: "sched_env \<Rightarrow> int \<Rightarrow> int" where
  "amxc_tc_to_time_utc env ts = (if sd_tm_ok env ts then sd_mktime env ts else -1)"

definition handle_transfercomplete :: "sched_env \<Rightarrow> string \<Rightarrow> sched \<Rightarrow> int \<times> sched" where
  "handle_transfercomplete env path st =
     (if path = [] then (-1, st)
      else if sd_get_rc env \<noteq> 0 then (sd_get_rc env, st)
      else (case inst_at path (sd_plugin st) of
              None \<Rightarrow> (sd_missing_rc env, st)
            | Some (i, t) \<Rightarrow>
                (case tc_CommandKey t of
                   None \<Rightarrow> (0, st)
                 | Some commandKey \<Rightarrow>
                     (if tc_TransferType t \<noteq> ''ScheduleDownload'' then (0, st)
                      else if sd_report_rc env \<noteq> 0 then (sd_report_rc env, st)
                      else (0, st\<lparr>sd_reports := sd_reports st @
                             [\<lparr>tp_CommandKey = commandKey, tp_FaultCode = tc_FaultCode t, tp_FaultString = tc_FaultString t,
                               tp_StartTime = amxc_tc_to_time_utc env (tc_StartTime t),
                               tp_CompleteTime = amxc_tc_to_time_utc env (tc_CompleteTime t), tp_path = path\<rparr>]\<rparr>)))))"

definition handle_transfercomplete_cb :: "sched_env \<Rightarrow> string \<Rightarrow> sched \<Rightarrow> sched" where
  "handle_transfercomplete_cb env path st = snd (handle_transfercomplete env path st)"

definition differ_transfercomplete_handling :: "string \<Rightarrow> sched \<Rightarrow> sched" where
  "differ_transfercomplete_handling path st =
     (if path = [] then st
      else if path \<in> set (sd_timers st) then st else st\<lparr>sd_timers := sd_timers st @ [path]\<rparr>)"

definition transfercomplete_notification :: "sched_env \<Rightarrow> cstr \<Rightarrow> cstr \<Rightarrow> sched \<Rightarrow> sched" where
  "transfercomplete_notification env status obj_path st =
     (case (status, obj_path) of
        (Some s, Some path) \<Rightarrow>
          (if s = ''Done'' then snd (handle_transfercomplete env (remove_first path ''TransferComplete.'') st) else st)
      | _ \<Rightarrow> st)"

definition from_acs :: "transfer \<Rightarrow> bool" where
  "from_acs t \<longleftrightarrow> tc_Initiator t = Some ''ACS''"

definition DM_AmxScheduleDownload_init :: "sched_env \<Rightarrow> sched \<Rightarrow> int \<times> sched" where
  "DM_AmxScheduleDownload_init env st =
     (if \<not> sd_bus_ok env then (-1, st)
      else
        (let st1 = st\<lparr>sd_bus_ctx := True\<rparr>;
             found = (if sd_get_rc env \<noteq> 0 then []
                      else map (\<lambda>(i, t). inst_path i)
                             (filter (\<lambda>(i, t). from_acs t \<and> tc_Status t = ''Done'') (downloads (sd_plugin st))));
             st2 = fold differ_transfercomplete_handling found st1
         in (sd_sub_rc env, if sd_sub_rc env = 0 then st2\<lparr>sd_subscribed := True\<rparr> else st2)))"

definition DM_AmxScheduleDownload_clean :: "sched \<Rightarrow> sched" where
  "DM_AmxScheduleDownload_clean st = st\<lparr>sd_subscribed := False\<rparr>"

text \<open>DM\_DeviceAdapter.c: the ACS has acknowledged the report; the engine has dropped it.\<close>

definition DM_ENG_Device_TransferDoneAcknowledged :: "sched_env \<Rightarrow> string \<Rightarrow> sched \<Rightarrow> int \<times> sched" where
  "DM_ENG_Device_TransferDoneAcknowledged env uniqueID st =
     (let st1 = st\<lparr>sd_reports := filter (\<lambda>r. tp_path r \<noteq> uniqueID) (sd_reports st)\<rparr> in
      case inst_at uniqueID (sd_plugin st1) of
        None \<Rightarrow> (-1, st1)
      | Some (i, t) \<Rightarrow>
          (if \<not> sd_del_ok env then (-1, st1)
           else (let p = snd (scheduleDownload_del_inst i (sd_plugin st1))
                 in (0, st1\<lparr>sd_plugin := p\<lparr>downloads := filter (\<lambda>(k, t). k \<noteq> i) (downloads p)\<rparr>\<rparr>))))"

subsection \<open>Steps\<close>

text \<open>After a step of the plugin the bus has a notification for each transfer of the ACS whose status has changed.\<close>

definition status_changes :: "plugin \<Rightarrow> plugin \<Rightarrow> (string \<times> string) list" where
  "status_changes p p' =
     [(inst_path i @ ''TransferComplete.'', tc_Status t').
        (i, t') \<leftarrow> downloads p', from_acs t',
        (case get_transfer p i of None \<Rightarrow> False | Some t \<Rightarrow> tc_Status t \<noteq> tc_Status t')]"

definition observe :: "plugin \<Rightarrow> sched \<Rightarrow> sched" where
  "observe p' st =
     st\<lparr>sd_plugin := p',
        sd_notifs := sd_notifs st @ (if sd_subscribed st then status_changes (sd_plugin st) p' else [])\<rparr>"

inductive sched_step :: "(sched_env \<Rightarrow> bool) \<Rightarrow> sched \<Rightarrow> sched \<Rightarrow> bool" for E where
  request: "E env \<Longrightarrow> sd_index env \<notin> fst ` set (downloads (sd_plugin st)) \<Longrightarrow>
     sched_step E st (snd (DM_ENG_Device_ScheduleDownload env rq st))"
| plugin: "plugin_step P (sd_plugin st) p' \<Longrightarrow> sched_step E st (observe p' st)"
| notification: "E env \<Longrightarrow> sd_notifs st = (path, s) # ns \<Longrightarrow>
     sched_step E st (transfercomplete_notification env (Some s) (Some path) (st\<lparr>sd_notifs := ns\<rparr>))"
| timer: "E env \<Longrightarrow> path \<in> set (sd_timers st) \<Longrightarrow>
     sched_step E st (handle_transfercomplete_cb env path (st\<lparr>sd_timers := remove1 path (sd_timers st)\<rparr>))"
| acknowledged: "E env \<Longrightarrow> sched_step E st (snd (DM_ENG_Device_TransferDoneAcknowledged env path st))"
| stop: "sched_step E st ((DM_AmxScheduleDownload_clean st)\<lparr>sd_bus_ctx := False, sd_notifs := [], sd_timers := [], sd_reports := []\<rparr>)"
| start: "E env \<Longrightarrow> \<not> sd_subscribed st \<Longrightarrow> sched_step E st (snd (DM_AmxScheduleDownload_init env st))"

inductive sched_reachable :: "(sched_env \<Rightarrow> bool) \<Rightarrow> sched \<Rightarrow> bool" for E where
  boot: "sched_reachable E \<lparr>sd_plugin = plugin_start, sd_bus_ctx = False, sd_subscribed = False, sd_notifs = [],
     sd_timers = [], sd_reports = []\<rparr>"
| step: "sched_reachable E st \<Longrightarrow> sched_step E st st' \<Longrightarrow> sched_reachable E st'"

subsection \<open>The identity of a transfer never changes\<close>

definition idents :: "plugin \<Rightarrow> (nat \<times> cstr \<times> string \<times> cstr) list" where
  "idents p = map (\<lambda>(i, t). (i, tc_CommandKey t, tc_TransferType t, tc_Initiator t)) (downloads p)"

lemma idents_fst: "map fst (idents p) = map fst (downloads p)"
  by (simp add: idents_def comp_def case_prod_unfold)

named_theorems keeps_idents

lemma idents_upd:
  "(\<And>t. tc_CommandKey (f t) = tc_CommandKey t \<and> tc_TransferType (f t) = tc_TransferType t \<and> tc_Initiator (f t) = tc_Initiator t) \<Longrightarrow>
   idents (upd_transfer i f st) = idents st"
  by (auto simp: idents_def upd_transfer_def)

lemma idents_frame [simp]:
  "idents (st\<lparr>transfer_in_progress := x\<rparr>) = idents st" "idents (st\<lparr>pending := es\<rparr>) = idents st"
  "idents (st\<lparr>mem_error := b\<rparr>) = idents st" "idents (st\<lparr>download_calls := c\<rparr>) = idents st"
  "idents (raise_event evs st) = idents st"
  by (simp_all add: idents_def)

lemma idents_win [keeps_idents]: "idents (upd_win i j f st) = idents st"
  unfolding upd_win_def by (rule idents_upd) (simp add: upd_window_def)

lemma idents_basic [keeps_idents]:
  "idents (transfers_set_status env i s st) = idents st"
  "idents (transfers_update_transfercomplete env i a b c d st) = idents st"
  "idents (upd_transfer i (\<lambda>t. t\<lparr>tr_priv := q\<rparr>) st) = idents st"
  "idents (transfers_firmware_transfer_done i st) = idents st"
  "idents (snd (transfers_firmware_do_firmwareupgrade env i st)) = idents st"
  by (auto simp: transfers_set_status_def transfers_update_transfercomplete_def transfers_firmware_transfer_done_def
      transfers_firmware_do_firmwareupgrade_def upgrade_firmware_def idents_upd split: option.splits)

lemma idents_transfer [keeps_idents]:
  "idents (transfers_start_transfer env i st) = idents st"
  "idents (transfers_transfer_done env i st) = idents st"
  "idents (transfers_timewindow_set_maxretries env i j v st) = idents st"
  "idents (timewindow_set_time_offset env i j n u st) = idents st"
  by (auto simp: transfers_start_transfer_def transfers_transfer_done_def transfers_timewindow_set_maxretries_def
      timewindow_set_time_offset_def case_prod_unfold keeps_idents split: option.splits)

lemma idents_handle [keeps_idents]:
  "idents (transfers_firmwareupgrade_done env i c s st) = idents st"
  "idents (transfers_handle_transfer env i st) = idents st"
  by (auto simp: transfers_firmwareupgrade_done_def transfers_handle_transfer_def Let_def keeps_idents
      split: option.splits cptr.splits)

lemma idents_windows [keeps_idents]:
  "idents (transfers_timewindow_add_info i st) = idents st"
  "idents (transfers_timewindow_start i st) = idents st"
  "idents (transfers_timewindow_save env i st) = idents st"
  unfolding transfers_timewindow_add_info_def transfers_timewindow_start_def transfers_timewindow_save_def
  by (rule both_windows_keeps [where P = "\<lambda>s. idents s = idents st"]; auto simp: timewindow_internal_add_info_def
      timewindow_internal_start_def timewindow_internal_save_def keeps_idents
      split: option.splits cptr.splits timewindow_status.splits)+

lemma idents_add_info [keeps_idents]: "idents (transfers_transfer_add_info i st) = idents st"
  by (auto simp: transfers_transfer_add_info_def Let_def case_prod_unfold keeps_idents split: option.splits)

lemma idents_in_progress [keeps_idents]: "idents (transfers_handle_in_progress_transfer env i st) = idents st"
  by (auto simp: transfers_handle_in_progress_transfer_def handle_pending_upgrade_def keeps_idents split: option.splits)

lemma idents_save [keeps_idents]: "idents (transfers_save env st) = idents st"
  unfolding transfers_save_def by (rule for_each_keeps [where P = "\<lambda>s. idents s = idents st"]) (auto simp: keeps_idents)

lemma idents_notification [keeps_idents]: "idents (firmwareimage_notification env s l st) = idents st"
  by (auto simp: firmwareimage_notification_def Let_def keeps_idents split: option.splits)

lemma idents_event [keeps_idents]: "idents (handle_event env e st) = idents st"
  by (cases e) (auto simp: timewindow_started_def timewindow_ended_def schedule_download_transfer_failed_def
      scheduleDownload_added_def Let_def keeps_idents split: option.splits cptr.splits)

lemma idents_restart [keeps_idents]: "idents (plugin_restart env st) = idents st"
proof (rule restart_keeps [where P = "\<lambda>s. idents s = idents st"])
  show "idents (forget_infos st) = idents st"
    by (auto simp: forget_infos_def transfers_firmware_init_def idents_def)
qed (simp_all add: keeps_idents)

lemma idents_step:
  "plugin_step P p p' \<Longrightarrow> idents p' = idents p \<or>
    (\<exists>i a w ws. i \<notin> fst ` set (downloads p) \<and> downloads p' = downloads p @ [(i, new_transfer a w ws)])"
proof (induction rule: plugin_step.induct)
  case (add env idx st a)
  then show ?case by (auto simp: addScheduleDownload_def split: list.splits)
qed (auto simp: keeps_idents timewindow_start_timer_cb_def timewindow_end_timer_cb_def timewindow_set_status_def
      app_stopped_def split: option.splits)

lemma ident_kept:
  assumes "plugin_step P p p'" "get_transfer p i = Some t" "get_transfer p' i = Some t'"
  shows "tc_CommandKey t' = tc_CommandKey t \<and> tc_TransferType t' = tc_TransferType t \<and> tc_Initiator t' = tc_Initiator t"
proof -
  have m: "map_of (idents q) i = map_option (\<lambda>t. (tc_CommandKey t, tc_TransferType t, tc_Initiator t)) (get_transfer q i)" for q
    unfolding idents_def get_transfer_def by (induction "downloads q") (auto simp: map_of_map)
  from idents_step [OF assms(1)] show ?thesis
  proof (elim disjE exE conjE)
    assume "idents p' = idents p"
    then show ?thesis using m [of p] m [of p'] assms(2,3) by simp
  next
    fix k a w ws
    assume "k \<notin> fst ` set (downloads p)" "downloads p' = downloads p @ [(k, new_transfer a w ws)]"
    then show ?thesis using assms(2,3) by (auto simp: get_transfer_def map_add_def split: option.splits)
  qed
qed

subsection \<open>The paths of the instances\<close>

lemma inst_path_inj: "inst_path i = inst_path k \<Longrightarrow> i = k"
  using dec_text_inj [of i k] by (simp add: inst_path_def)

lemma inst_path_not_Nil [simp]: "inst_path i \<noteq> []"
  by (simp add: inst_path_def)

lemma strstr_skip: "CHR ''T'' \<notin> set ds \<Longrightarrow> strstr (ds @ s) (CHR ''T'' # n) = strstr s (CHR ''T'' # n)"
  by (induction ds) auto

lemma dec_text_no_T: "CHR ''T'' \<notin> set (dec_text i)"
  using dec_text_digits [of i] by (auto simp: list_all_iff is_digit_def)

lemma remove_transfercomplete [simp]: "remove_first (inst_path i @ ''TransferComplete.'') ''TransferComplete.'' = inst_path i"
proof -
  have "strstr (inst_path i @ ''TransferComplete.'') ''TransferComplete.'' = Some ''TransferComplete.''"
    unfolding inst_path_def by (simp add: strstr_skip dec_text_no_T)
  then show ?thesis by (simp add: remove_first_def)
qed

lemma inst_at_path:
  assumes "distinct (map fst (downloads p))" "(i, t) \<in> set (downloads p)"
  shows "inst_at (inst_path i) p = Some (i, t)"
proof -
  have "inst_at (inst_path i) p \<noteq> None"
    unfolding inst_at_def find_None_iff using assms(2) by force
  then obtain x where "inst_at (inst_path i) p = Some x" by blast
  moreover from this have "x \<in> set (downloads p)" "fst x = i"
    by (auto simp: inst_at_def find_Some_iff dest: inst_path_inj) (metis nth_mem)
  ultimately show ?thesis using assms by (metis eq_key_imp_eq_value prod.collapse)
qed

subsection \<open>No report is lost\<close>

definition reportable :: "transfer \<Rightarrow> bool" where
  "reportable t \<longleftrightarrow> from_acs t \<and> tc_CommandKey t \<noteq> None \<and> tc_TransferType t = ''ScheduleDownload''"

definition waiting :: "string \<Rightarrow> sched \<Rightarrow> bool" where
  "waiting path st \<longleftrightarrow> (path @ ''TransferComplete.'', ''Done'') \<in> set (sd_notifs st) \<or> path \<in> set (sd_timers st) \<or>
     path \<in> tp_path ` set (sd_reports st)"

definition sched_inv :: "sched \<Rightarrow> bool" where
  "sched_inv st \<longleftrightarrow> distinct (map fst (downloads (sd_plugin st))) \<and>
     (sd_subscribed st \<longrightarrow> (\<forall>(i, t) \<in> set (downloads (sd_plugin st)).
        reportable t \<and> tc_Status t = ''Done'' \<longrightarrow> waiting (inst_path i) st))"

definition good_sched :: "sched_env \<Rightarrow> bool" where
  "good_sched env \<longleftrightarrow> sd_get_rc env = 0 \<and> sd_report_rc env = 0 \<and> sd_del_ok env"

lemma handle_frame [simp]:
  "sd_plugin (snd (handle_transfercomplete env path st)) = sd_plugin st"
  "sd_notifs (snd (handle_transfercomplete env path st)) = sd_notifs st"
  "sd_timers (snd (handle_transfercomplete env path st)) = sd_timers st"
  "sd_subscribed (snd (handle_transfercomplete env path st)) = sd_subscribed st"
  by (auto simp: handle_transfercomplete_def split: option.splits)

lemma handle_reports_mono: "set (sd_reports st) \<subseteq> set (sd_reports (snd (handle_transfercomplete env path st)))"
  by (auto simp: handle_transfercomplete_def split: option.splits)

lemma handle_reports:
  assumes "good_sched env" "inst_at path (sd_plugin st) = Some (i, t)" "reportable t" "path \<noteq> []"
  shows "sd_reports (snd (handle_transfercomplete env path st)) = sd_reports st @
    [\<lparr>tp_CommandKey = the (tc_CommandKey t), tp_FaultCode = tc_FaultCode t, tp_FaultString = tc_FaultString t,
      tp_StartTime = amxc_tc_to_time_utc env (tc_StartTime t),
      tp_CompleteTime = amxc_tc_to_time_utc env (tc_CompleteTime t), tp_path = path\<rparr>]"
  using assms by (auto simp: handle_transfercomplete_def good_sched_def reportable_def)

lemma handle_keeps_inv:
  assumes "sched_inv st" "good_sched env"
    and "set (sd_notifs st) - X \<subseteq> set (sd_notifs st')" "set (sd_timers st) - {path} \<subseteq> set (sd_timers st')"
    and "sd_plugin st' = sd_plugin st" "sd_subscribed st' = sd_subscribed st" "sd_reports st' = sd_reports st"
    and "\<And>k. (inst_path k @ ''TransferComplete.'', ''Done'') \<in> X \<Longrightarrow> inst_path k = path"
  shows "sched_inv (snd (handle_transfercomplete env path st'))"
proof -
  have "waiting (inst_path i) (snd (handle_transfercomplete env path st'))"
    if w: "waiting (inst_path i) st" and t: "(i, t) \<in> set (downloads (sd_plugin st))" "reportable t" for i t
  proof (cases "path = inst_path i")
    case True
    have "inst_at path (sd_plugin st') = Some (i, t)"
      using inst_at_path [OF _ t(1)] assms(1,5) True by (simp add: sched_inv_def)
    then show ?thesis using handle_reports [OF assms(2) _ t(2)] True by (simp add: waiting_def)
  next
    case False
    then show ?thesis using w assms(3,4,7,8) handle_reports_mono [of st' env path] by (fastforce simp: waiting_def)
  qed
  then show ?thesis using assms(1,5,6) by (fastforce simp: sched_inv_def)
qed

lemma differ_timers [simp]:
  "sd_plugin (fold differ_transfercomplete_handling ps st) = sd_plugin st"
  "sd_subscribed (fold differ_transfercomplete_handling ps st) = sd_subscribed st"
  "set (sd_timers (fold differ_transfercomplete_handling ps st)) = set (sd_timers st) \<union> (set ps - {[]})"
  by (induction ps arbitrary: st) (auto simp: differ_transfercomplete_handling_def)

lemma status_changes_done:
  assumes "(i, t') \<in> set (downloads p')" "from_acs t'" "get_transfer p i = Some t" "tc_Status t \<noteq> tc_Status t'"
  shows "(inst_path i @ ''TransferComplete.'', tc_Status t') \<in> set (status_changes p p')"
  using assms by (force simp: status_changes_def)

lemma observe_keeps_inv:
  assumes "sched_inv st" "plugin_step P (sd_plugin st) p'"
  shows "sched_inv (observe p' st)"
proof -
  let ?p = "sd_plugin st"
  have d: "distinct (map fst (downloads ?p))" using assms(1) by (simp add: sched_inv_def)
  have old: "waiting (inst_path i) (observe p' st)"
    if s: "sd_subscribed st" and t': "(i, t') \<in> set (downloads p')" "reportable t'" "tc_Status t' = ''Done''"
      and t: "(i, t) \<in> set (downloads ?p)" "reportable t" for i t t'
  proof (cases "tc_Status t = ''Done''")
    case True
    then have "waiting (inst_path i) st" using assms(1) s t by (fastforce simp: sched_inv_def)
    then show ?thesis by (auto simp: waiting_def observe_def)
  next
    case False
    then have "(inst_path i @ ''TransferComplete.'', ''Done'') \<in> set (status_changes ?p p')"
      using status_changes_done [OF t'(1), of ?p t] t t' d by (simp add: reportable_def get_transfer_def)
    then show ?thesis using s by (simp add: waiting_def observe_def)
  qed
  from idents_step [OF assms(2)] show ?thesis
  proof (elim disjE exE conjE)
    assume same: "idents p' = idents ?p"
    then have "map fst (downloads p') = map fst (downloads ?p)"
      by (metis idents_fst)
    moreover have "\<exists>t. (i, t) \<in> set (downloads ?p) \<and> reportable t" if "(i, t') \<in> set (downloads p')" "reportable t'" for i t'
    proof -
      have "(i, tc_CommandKey t', tc_TransferType t', tc_Initiator t') \<in> set (idents p')"
        using that(1) by (force simp: idents_def)
      then have "(i, tc_CommandKey t', tc_TransferType t', tc_Initiator t') \<in> set (idents ?p)" by (simp add: same)
      with that(2) show ?thesis by (auto simp: idents_def reportable_def from_acs_def)
    qed
    ultimately show ?thesis
      using d old by (fastforce simp: sched_inv_def observe_def)
  next
    fix i a w ws
    assume n: "i \<notin> fst ` set (downloads ?p)" "downloads p' = downloads ?p @ [(i, new_transfer a w ws)]"
    then have "tc_Status (new_transfer a w ws) \<noteq> ''Done''" by (simp add: new_transfer_def)
    then show ?thesis using d old n by (fastforce simp: sched_inv_def observe_def)
  qed
qed

lemma request_keeps_inv:
  assumes "sched_inv st" "sd_index env \<notin> fst ` set (downloads (sd_plugin st))"
  shows "sched_inv (snd (DM_ENG_Device_ScheduleDownload env rq st))"
  using assms
  by (auto simp: sched_inv_def waiting_def DM_ENG_Device_ScheduleDownload_def DM_ENG_Device_DoScheduleDownload_def
      addScheduleDownload_def new_transfer_def raise_event_def split: list.splits prod.splits)

lemma others_upd: "filter (\<lambda>(k, t). k \<noteq> i) (downloads (upd_transfer i f p)) = filter (\<lambda>(k, t). k \<noteq> i) (downloads p)"
  by (auto simp: upd_transfer_def filter_map comp_def case_prod_unfold intro!: map_idI)

lemma del_inst_others:
  "filter (\<lambda>(k, t). k \<noteq> i) (downloads (snd (scheduleDownload_del_inst i p))) = filter (\<lambda>(k, t). k \<noteq> i) (downloads p)"
proof -
  have "filter (\<lambda>(k, t). k \<noteq> i) (downloads (transfers_timewindow_del_info i q)) = filter (\<lambda>(k, t). k \<noteq> i) (downloads q)" for q
    unfolding transfers_timewindow_del_info_def
    by (rule both_windows_keeps [where P = "\<lambda>s. filter (\<lambda>(k, t). k \<noteq> i) (downloads s) = filter (\<lambda>(k, t). k \<noteq> i) (downloads q)"])
      (auto simp: timewindow_internal_del_info_def upd_win_def others_upd split: option.splits cptr.splits)
  then show ?thesis
    by (auto simp: scheduleDownload_del_inst_def transfers_transfer_del_info_def others_upd split: option.splits cptr.splits)
qed

lemma acknowledged_downloads:
  assumes "good_sched env"
  shows "downloads (sd_plugin (snd (DM_ENG_Device_TransferDoneAcknowledged env path st))) =
    filter (\<lambda>(k, t). inst_path k \<noteq> path) (downloads (sd_plugin st))"
proof (cases "inst_at path (sd_plugin st)")
  case None
  then have "filter (\<lambda>(k, t). inst_path k \<noteq> path) (downloads (sd_plugin st)) = downloads (sd_plugin st)"
    by (auto simp: inst_at_def find_None_iff intro!: filter_True)
  then show ?thesis using None by (simp add: DM_ENG_Device_TransferDoneAcknowledged_def Let_def)
next
  case (Some x)
  obtain i t where x: "x = (i, t)" by fastforce
  then have "inst_path i = path" using Some by (auto simp: inst_at_def find_Some_iff)
  then have "(inst_path k = path) = (k = i)" for k using inst_path_inj by blast
  then show ?thesis using Some x assms
    by (simp add: DM_ENG_Device_TransferDoneAcknowledged_def Let_def good_sched_def del_inst_others)
qed

lemma acknowledged_keeps_inv:
  assumes "sched_inv st" "good_sched env"
  shows "sched_inv (snd (DM_ENG_Device_TransferDoneAcknowledged env path st))"
proof -
  let ?st = "snd (DM_ENG_Device_TransferDoneAcknowledged env path st)"
  have f: "sd_notifs ?st = sd_notifs st" "sd_timers ?st = sd_timers st" "sd_subscribed ?st = sd_subscribed st"
    "sd_reports ?st = filter (\<lambda>r. tp_path r \<noteq> path) (sd_reports st)"
    by (auto simp: DM_ENG_Device_TransferDoneAcknowledged_def Let_def split: option.splits)
  have "waiting q st \<Longrightarrow> q \<noteq> path \<Longrightarrow> waiting q ?st" for q by (auto simp: waiting_def f)
  with assms show ?thesis
    by (fastforce simp: sched_inv_def acknowledged_downloads f distinct_map_filter)
qed

lemma sched_step_inv:
  assumes "sched_step good_sched st st'" "sched_inv st"
  shows "sched_inv st'"
  using assms
proof (induction rule: sched_step.induct)
  case (notification env st path s ns)
  show ?case
  proof (cases "s = ''Done''")
    case True
    have "sched_inv (snd (handle_transfercomplete env (remove_first path ''TransferComplete.'') (st\<lparr>sd_notifs := ns\<rparr>)))"
      by (rule handle_keeps_inv [OF notification.prems notification.hyps(1), where X = "{(path, s)}"])
        (use notification.hyps(2) in auto)
    then show ?thesis using True by (simp add: transfercomplete_notification_def)
  next
    case False
    then show ?thesis
      using notification by (fastforce simp: transfercomplete_notification_def sched_inv_def waiting_def)
  qed
next
  case (timer env path st)
  show ?case unfolding handle_transfercomplete_cb_def
    by (rule handle_keeps_inv [OF timer.prems timer.hyps(1), where X = "{}"]) (auto, metis in_set_remove1)
next
  case (start env st)
  then show ?case
    by (force simp: DM_AmxScheduleDownload_init_def sched_inv_def waiting_def good_sched_def reportable_def Let_def)
next
  case (stop st)
  then show ?case by (simp add: sched_inv_def DM_AmxScheduleDownload_clean_def)
qed (blast intro: observe_keeps_inv request_keeps_inv acknowledged_keeps_inv)+

lemma sched_reachable_inv: "sched_reachable good_sched st \<Longrightarrow> sched_inv st"
proof (induction rule: sched_reachable.induct)
  case boot
  show ?case by (simp add: sched_inv_def plugin_start_def)
qed (rule sched_step_inv)

definition example_sched_env :: sched_env where
  "example_sched_env =
     \<lparr>sd_env = example_env 0, sd_index = 1, sd_bus_ok = True, sd_sub_rc = 0, sd_get_rc = 0, sd_missing_rc = 2,
      sd_report_rc = 0, sd_del_ok = True, sd_tm_ok = (\<lambda>t. True), sd_mktime = id\<rparr>"

lemma example_good: "good_sched example_sched_env"
  by (simp add: example_sched_env_def good_sched_def)

text \<open>Every state of the plugin occurs under a daemon that is subscribed.\<close>

lemma plugin_under_adapter:
  assumes "plugin_reachable P p"
  shows "\<exists>st. sched_reachable good_sched st \<and> sd_subscribed st \<and> sd_plugin st = p"
  using assms
proof (induction rule: plugin_reachable.induct)
  case start
  let ?st = "\<lparr>sd_plugin = plugin_start, sd_bus_ctx = False, sd_subscribed = False, sd_notifs = [], sd_timers = [], sd_reports = []\<rparr>"
  have "sched_reachable good_sched (snd (DM_AmxScheduleDownload_init example_sched_env ?st))"
    using sched_reachable.step [OF sched_reachable.boot] sched_step.start [of good_sched example_sched_env ?st] example_good
    by simp
  moreover have "sd_subscribed (snd (DM_AmxScheduleDownload_init example_sched_env ?st))"
    "sd_plugin (snd (DM_AmxScheduleDownload_init example_sched_env ?st)) = plugin_start"
    by (simp_all add: DM_AmxScheduleDownload_init_def example_sched_env_def Let_def)
  ultimately show ?case by blast
next
  case (step p p')
  then obtain st where "sched_reachable good_sched st" "sd_subscribed st" "sd_plugin st = p" by blast
  then have "sched_reachable good_sched (observe p' st)" "sd_subscribed (observe p' st)" "sd_plugin (observe p' st) = p'"
    using sched_reachable.step sched_step.plugin step.hyps(2) by (blast, simp_all add: observe_def)
  then show ?case by blast
qed

subsection \<open>Properties\<close>

text \<open>
  Property C35. A scheduled download that the ACS asked for is never forgotten: in every state reached with a bus that
  answers and an engine that takes the reports, as long as the daemon is subscribed, a transfer that the plugin has set to
  \<open>Done\<close> has its notification on the way, its timer set (after a restart of the daemon), or its report with the engine
  until the ACS acknowledges it.
\<close>

theorem scheduled_download_never_lost:
  assumes "sched_reachable good_sched st" "sd_subscribed st"
    and "get_transfer (sd_plugin st) i = Some t" "reportable t" "tc_Status t = ''Done''"
  shows "waiting (inst_path i) st"
  using sched_reachable_inv [OF assms(1)] assms(2-)
  by (auto simp: sched_inv_def get_transfer_def dest!: map_of_SomeD)

theorem scheduled_download_never_lost_witness:
  "\<exists>st. sd_plugin st = run_finished \<and> waiting (inst_path 1) st"
proof -
  obtain st where st: "sched_reachable good_sched st" "sd_subscribed st" "sd_plugin st = run_finished"
    using plugin_under_adapter [OF reach_finished] by blast
  have "map_option (\<lambda>t. (reportable t, tc_Status t)) (get_transfer run_finished 1) = Some (True, ''Done'')" by code_simp
  then obtain t where "get_transfer run_finished 1 = Some t" "reportable t" "tc_Status t = ''Done''" by auto
  with scheduled_download_never_lost [OF st(1,2)] st(3) show ?thesis by auto
qed

text \<open>
  Property C36. When a step of the plugin ends a transfer of the ACS, the notification it causes makes the adapter hand one
  report to the engine, with the command key, the fault and the times of the transfer and the path of its instance; the
  acknowledgement for that path deletes exactly this instance and no other.
\<close>

theorem scheduled_download_reported:
  assumes "sched_reachable good_sched st" "sd_subscribed st"
    and "get_transfer (sd_plugin st) i = Some t" "reportable t" "tc_Status t \<noteq> ''Done''"
    and "plugin_step P (sd_plugin st) p'" "get_transfer p' i = Some t'" "tc_Status t' = ''Done''" "good_sched env"
    and "st1 = observe p' st"
    and "st2 = transfercomplete_notification env (Some ''Done'') (Some (inst_path i @ ''TransferComplete.'')) st1"
    and "st3 = snd (DM_ENG_Device_TransferDoneAcknowledged env (inst_path i) st2)"
  shows "(inst_path i @ ''TransferComplete.'', ''Done'') \<in> set (sd_notifs st1) \<and>
    sd_reports st2 = sd_reports st @
      [\<lparr>tp_CommandKey = the (tc_CommandKey t), tp_FaultCode = tc_FaultCode t', tp_FaultString = tc_FaultString t',
        tp_StartTime = amxc_tc_to_time_utc env (tc_StartTime t'),
        tp_CompleteTime = amxc_tc_to_time_utc env (tc_CompleteTime t'), tp_path = inst_path i\<rparr>] \<and>
    downloads (sd_plugin st3) = filter (\<lambda>(k, u). k \<noteq> i) (downloads p')"
proof -
  have inv: "sched_inv st" and inv1: "sched_inv st1"
    using sched_reachable_inv assms(1) observe_keeps_inv [OF _ assms(6)] assms(10) by blast+
  have t': "(i, t') \<in> set (downloads p')" "(i, t) \<in> set (downloads (sd_plugin st))"
    using assms(3,7) by (auto simp: get_transfer_def dest: map_of_SomeD)
  have key: "tc_CommandKey t' = tc_CommandKey t" and rep: "reportable t'"
    using ident_kept [OF assms(6,3,7)] assms(4) by (auto simp: reportable_def from_acs_def)
  have "(inst_path i @ ''TransferComplete.'', ''Done'') \<in> set (sd_notifs st1)"
    using status_changes_done [OF t'(1), of "sd_plugin st" t] rep assms(2,3,5,8,10)
    by (simp add: observe_def reportable_def)
  moreover have at: "inst_at (inst_path i) (sd_plugin st1) = Some (i, t')"
    using inst_at_path inv1 t'(1) assms(10) by (simp add: sched_inv_def observe_def)
  moreover have "sd_reports st1 = sd_reports st" "sd_plugin st1 = p'" by (simp_all add: assms(10) observe_def)
  moreover have "(inst_path k = inst_path i) = (k = i)" for k using inst_path_inj by blast
  ultimately show ?thesis
    using handle_reports [OF assms(9) at rep] key acknowledged_downloads [OF assms(9)]
    by (simp add: assms(11,12) transfercomplete_notification_def)
qed

theorem scheduled_download_reported_witness:
  "\<exists>st t. sd_plugin st = run_upgrading \<and> get_transfer run_finished 1 = Some t \<and>
     map tp_CommandKey (sd_reports (transfercomplete_notification example_sched_env (Some ''Done'')
       (Some (inst_path 1 @ ''TransferComplete.'')) (observe run_finished st))) =
     map tp_CommandKey (sd_reports st) @ [the (tc_CommandKey t)]"
proof -
  obtain st where st: "sched_reachable good_sched st" "sd_subscribed st" "sd_plugin st = run_upgrading"
    using plugin_under_adapter [OF reach_upgrading] by blast
  have "map_option (\<lambda>t. (reportable t, tc_Status t = ''Done'')) (get_transfer run_upgrading 1) = Some (True, False)" by code_simp
  then obtain t where t: "get_transfer (sd_plugin st) 1 = Some t" "reportable t" "tc_Status t \<noteq> ''Done''" by (auto simp: st(3))
  have "map_option tc_Status (get_transfer run_finished 1) = Some ''Done''" by code_simp
  then obtain t' where t': "get_transfer run_finished 1 = Some t'" "tc_Status t' = ''Done''" by auto
  have s: "plugin_step (only_env 0) (sd_plugin st) run_finished"
    unfolding run_finished_def st(3) by (rule plugin_step.restart) (simp add: only_env_def)
  have "tc_CommandKey t' = tc_CommandKey t" using ident_kept [OF s t(1) t'(1)] by simp
  then show ?thesis
    using scheduled_download_reported [OF st(1,2) t s t' example_good refl refl refl] st(3) t' by auto
qed

end
