(* ===== verification/Manageable_Devices.thy ===== *)
theory Manageable_Devices
  imports Prelude
begin

section \<open>Manageable devices (cwmp\_plugin\_manageable\_device.c)\<close>

text \<open>
  The plugin keeps an instance of \<open>ManagementServer.ManageableDevice\<close> for each device of the home network that the ACS
  can manage, with the list of its hosts as a string \<open>h1,h2,...,\<close>. A query to gMap says when a device starts and stops
  matching; a device whose host is not known yet waits in a cache until the physical address of a host changes. The bus,
  the order in which a hash table is walked and the transactions of the data model are fields of \<open>md_env\<close>. An instance is
  named by its index. A table of libamxc is an association list, \<open>None\<close> once it has been cleaned: whether a cleaned
  variant takes keys again (\<open>me_clean_takes\<close>) and whether a null string makes a key (\<open>me_null_key\<close>) are parameters; a key
  that exists is not replaced.
\<close>

subsection \<open>State\<close>

type_synonym var_table = "(string \<times> cstr) list"

record manageable =
  mg_index :: nat
  mg_OUI :: string
  mg_ProductClass :: string
  mg_SerialNumber :: string
  mg_Host :: string

record md_state =
  md_table :: "manageable list"
  md_requests :: "var_table list"
  md_query :: bool
  md_subscribed :: bool
  gmap_retry_timer :: amxp_timer
  host_retry_timer :: amxp_timer
  gmap_timeout :: nat
  host_timeout :: nat

datatype md_write = Md_add | Md_set nat | Md_del nat

record md_env =
  me_apply :: "md_write \<Rightarrow> bool"
  me_new_index :: nat
  me_ms_ok :: bool
  me_order :: "manageable list \<Rightarrow> manageable list"
  me_hosts :: "(string \<times> cstr) list option"
  me_device :: "string \<Rightarrow> cstr option"
  me_gmap_ok :: bool
  me_query_ok :: bool
  me_sub_ok :: bool
  me_alloc_ok :: bool
  me_null_key :: bool
  me_clean_takes :: bool

datatype gmap_query_action =
    gmap_query_expression_start_matching
  | gmap_query_expression_stop_matching
  | gmap_query_device_updated

definition get_char :: "var_table option \<Rightarrow> string \<Rightarrow> cstr" where
  "get_char t k = (case t of None \<Rightarrow> None | Some t \<Rightarrow> (case map_of t k of None \<Rightarrow> None | Some v \<Rightarrow> v))"

definition add_key :: "md_env \<Rightarrow> string \<Rightarrow> cstr \<Rightarrow> var_table option \<Rightarrow> var_table option" where
  "add_key env k v t =
     (case t of
        None \<Rightarrow> (if me_clean_takes env \<and> (v \<noteq> None \<or> me_null_key env) then Some [(k, v)] else None)
      | Some t \<Rightarrow> (if map_of t k \<noteq> None \<or> (v = None \<and> \<not> me_null_key env) then Some t else Some (t @ [(k, v)])))"

definition with_host :: "nat \<Rightarrow> string \<Rightarrow> md_state \<Rightarrow> md_state" where
  "with_host i hosts st =
     st\<lparr>md_table := map (\<lambda>m. if mg_index m = i then m\<lparr>mg_Host := hosts\<rparr> else m) (md_table st)\<rparr>"

subsection \<open>The instances\<close>

definition cwmp_plugin_get_matching_path :: "manageable list \<Rightarrow> string \<Rightarrow> nat option" where
  "cwmp_plugin_get_matching_path htable host_path =
     map_option mg_index (find (\<lambda>m. strstr (mg_Host m) host_path \<noteq> None) htable)"

text \<open>The outer option is the failure of the call.\<close>

definition cwmp_plugin_search_for_manageable_device :: "md_env \<Rightarrow> string \<Rightarrow> md_state \<Rightarrow> nat option option" where
  "cwmp_plugin_search_for_manageable_device env host_path st =
     (if \<not> me_ms_ok env then None
      else Some (cwmp_plugin_get_matching_path (me_order env (md_table st)) host_path))"

definition cwmp_plugin_set_manageable_host_param :: "md_env \<Rightarrow> nat \<Rightarrow> string \<Rightarrow> md_state \<Rightarrow> bool \<times> md_state" where
  "cwmp_plugin_set_manageable_host_param env inst host_list st =
     (if me_apply env (Md_set inst) then (True, with_host inst host_list st) else (False, st))"

definition cwmp_plugin_add_manageable_host :: "md_env \<Rightarrow> manageable \<Rightarrow> string \<Rightarrow> md_state \<Rightarrow> bool \<times> md_state" where
  "cwmp_plugin_add_manageable_host env inst host st =
     (let hosts = mg_Host inst in
      if strstr hosts host \<noteq> None then (True, st)
      else cwmp_plugin_set_manageable_host_param env (mg_index inst) (hosts @ host @ '','') st)"

definition cwmp_plugin_create_manageable_device ::
  "md_env \<Rightarrow> string \<Rightarrow> string \<Rightarrow> string \<Rightarrow> string \<Rightarrow> md_state \<Rightarrow> bool \<times> md_state" where
  "cwmp_plugin_create_manageable_device env moui sn pc host st =
     (if me_apply env Md_add
      then (True, st\<lparr>md_table := md_table st @
             [\<lparr>mg_index = me_new_index env, mg_OUI = moui, mg_ProductClass = pc, mg_SerialNumber = sn,
               mg_Host = host @ '',''\<rparr>]\<rparr>)
      else (False, st))"

definition cwmp_plugin_del_manageable_device :: "md_env \<Rightarrow> nat \<Rightarrow> md_state \<Rightarrow> bool \<times> md_state" where
  "cwmp_plugin_del_manageable_device env index st =
     (if me_apply env (Md_del index)
      then (True, st\<lparr>md_table := filter (\<lambda>m. mg_index m \<noteq> index) (md_table st)\<rparr>) else (False, st))"

definition remaining_hosts :: "string \<Rightarrow> string \<Rightarrow> string" where
  "remaining_hosts host hosts =
     concat (map (\<lambda>val. val @ '','') (filter (\<lambda>val. val \<noteq> [] \<and> val \<noteq> host) (split_fields (CHR '','') hosts)))"

definition cwmp_plugin_update_manageable_device :: "md_env \<Rightarrow> nat option \<Rightarrow> string \<Rightarrow> md_state \<Rightarrow> bool \<times> md_state" where
  "cwmp_plugin_update_manageable_device env manageable host st =
     (case Option.bind manageable (\<lambda>i. find (\<lambda>m. mg_index m = i) (md_table st)) of
        None \<Rightarrow> (False, st)
      | Some inst \<Rightarrow>
          (let new_hosts = remaining_hosts host (mg_Host inst) in
           if strstr new_hosts ''Host'' = None then cwmp_plugin_del_manageable_device env (mg_index inst) st
           else cwmp_plugin_set_manageable_host_param env (mg_index inst) new_hosts st))"

definition cwmp_plugin_add_manageable_device :: "md_env \<Rightarrow> var_table option \<Rightarrow> md_state \<Rightarrow> bool \<times> md_state" where
  "cwmp_plugin_add_manageable_device env info st =
     (case (get_char info ''ManufacturerOUI'', get_char info ''SerialNumber'', get_char info ''ProductClass'', get_char info ''Host'') of
        (Some moui, Some sn, Some pc, Some host) \<Rightarrow>
          (case find (\<lambda>m. mg_OUI m = moui \<and> mg_SerialNumber m = sn \<and> mg_ProductClass m = pc) (md_table st) of
             Some inst \<Rightarrow> cwmp_plugin_add_manageable_host env inst host st
           | None \<Rightarrow> cwmp_plugin_create_manageable_device env moui sn pc host st)
      | _ \<Rightarrow> (False, st))"

subsection \<open>The hosts\<close>

definition strcaseeq :: "string \<Rightarrow> string \<Rightarrow> bool" where
  "strcaseeq a b \<longleftrightarrow> map to_lower a = map to_lower b"

definition cwmp_plugin_search_for_hosts :: "md_env \<Rightarrow> cstr \<Rightarrow> bool \<times> string list" where
  "cwmp_plugin_search_for_hosts env mac =
     (case (mac, me_hosts env) of
        (Some mac, Some hosts) \<Rightarrow>
          (let found = [''Device.'' @ key. (key, phys) \<leftarrow> hosts, (case phys of None \<Rightarrow> False | Some a \<Rightarrow> strcaseeq a mac)]
           in (found \<noteq> [], found))
      | _ \<Rightarrow> (False, []))"

definition cwmp_plugin_search_for_hosts_by_device_key :: "md_env \<Rightarrow> string \<Rightarrow> bool \<times> string list" where
  "cwmp_plugin_search_for_hosts_by_device_key env device_key =
     (case me_device env device_key of
        None \<Rightarrow> (False, [])
      | Some None \<Rightarrow> (False, [])
      | Some (Some physaddress) \<Rightarrow> cwmp_plugin_search_for_hosts env (Some physaddress))"

definition cwmp_plugin_set_manageable_deviceinfo ::
  "md_env \<Rightarrow> var_table option \<Rightarrow> var_table \<Rightarrow> cstr \<Rightarrow> bool \<times> var_table option" where
  "cwmp_plugin_set_manageable_deviceinfo env info device host_path =
     (if device = [] then (False, info)
      else (True,
        add_key env ''ProductClass'' (get_char (Some device) ''ProductClass'')
          (add_key env ''SerialNumber'' (get_char (Some device) ''SerialNumber'')
            (add_key env ''ManufacturerOUI'' (get_char (Some device) ''OUI'')
              (add_key env ''PhysAddress'' (get_char (Some device) ''PhysAddress'')
                (add_key env ''Key'' (get_char (Some device) ''Key'')
                  (add_key env ''Host'' host_path info)))))))"

subsection \<open>The cache\<close>

fun cwmp_plugin_md_cache_find :: "var_table list \<Rightarrow> string \<Rightarrow> string \<Rightarrow> nat option" where
  "cwmp_plugin_md_cache_find [] parameter value = None"
| "cwmp_plugin_md_cache_find (md # mds) parameter value =
     (if get_char (Some md) parameter = Some value then Some 0
      else map_option Suc (cwmp_plugin_md_cache_find mds parameter value))"

definition take_request :: "nat \<Rightarrow> md_state \<Rightarrow> md_state" where
  "take_request n st = st\<lparr>md_requests := take n (md_requests st) @ drop (Suc n) (md_requests st)\<rparr>"

definition cwmp_plugin_add_manageable_device_to_cache :: "md_env \<Rightarrow> var_table option \<Rightarrow> md_state \<Rightarrow> bool \<times> md_state" where
  "cwmp_plugin_add_manageable_device_to_cache env info st =
     (if me_alloc_ok env
      then (True, st\<lparr>md_requests := md_requests st @ [case info of None \<Rightarrow> [] | Some t \<Rightarrow> t]\<rparr>) else (False, st))"

definition cwmp_plugin_clean_manageable_device_cache :: "string \<Rightarrow> md_state \<Rightarrow> md_state" where
  "cwmp_plugin_clean_manageable_device_cache key st =
     (case cwmp_plugin_md_cache_find (md_requests st) ''Key'' key of None \<Rightarrow> st | Some n \<Rightarrow> take_request n st)"

subsection \<open>Events\<close>

fun add_hosts_loop :: "md_env \<Rightarrow> var_table \<Rightarrow> string list \<Rightarrow> var_table option \<Rightarrow> md_state \<Rightarrow> md_state" where
  "add_hosts_loop env device [] info st = st"
| "add_hosts_loop env device (host_path # hs) info st =
     (case cwmp_plugin_set_manageable_deviceinfo env info device (Some host_path) of
        (False, _) \<Rightarrow> st
      | (True, info1) \<Rightarrow>
          (case cwmp_plugin_add_manageable_device env info1 st of
             (False, st1) \<Rightarrow> st1
           | (True, st1) \<Rightarrow> add_hosts_loop env device hs None st1))"

fun drop_hosts_loop :: "md_env \<Rightarrow> string list \<Rightarrow> md_state \<Rightarrow> md_state" where
  "drop_hosts_loop env [] st = st"
| "drop_hosts_loop env (host_path # hs) st =
     (case cwmp_plugin_search_for_manageable_device env host_path st of
        None \<Rightarrow> st
      | Some path \<Rightarrow>
          (case cwmp_plugin_update_manageable_device env path host_path st of
             (False, st1) \<Rightarrow> st1
           | (True, st1) \<Rightarrow> drop_hosts_loop env hs st1))"

definition cwmp_plugin_manageable_query ::
  "md_env \<Rightarrow> cstr \<Rightarrow> var_table option \<Rightarrow> gmap_query_action \<Rightarrow> md_state \<Rightarrow> md_state" where
  "cwmp_plugin_manageable_query env key device action st =
     (case key of
        None \<Rightarrow> st
      | Some key \<Rightarrow>
          (case action of
             gmap_query_expression_start_matching \<Rightarrow>
               (case device of
                  None \<Rightarrow> st
                | Some dev \<Rightarrow>
                    (case cwmp_plugin_search_for_hosts env (get_char device ''PhysAddress'') of
                       (True, host_paths) \<Rightarrow> add_hosts_loop env dev host_paths (Some []) st
                     | (False, _) \<Rightarrow>
                         (case cwmp_plugin_set_manageable_deviceinfo env (Some []) dev None of
                            (False, _) \<Rightarrow> st
                          | (True, info) \<Rightarrow> snd (cwmp_plugin_add_manageable_device_to_cache env info st))))
           | gmap_query_expression_stop_matching \<Rightarrow>
               (let st1 = cwmp_plugin_clean_manageable_device_cache key st in
                case cwmp_plugin_search_for_hosts_by_device_key env key of
                  (False, _) \<Rightarrow> st1
                | (True, host_paths) \<Rightarrow> drop_hosts_loop env host_paths st1)
           | gmap_query_device_updated \<Rightarrow> st))"

definition cwmp_plugin_try_open_gmap_query :: "md_env \<Rightarrow> md_state \<Rightarrow> md_state" where
  "cwmp_plugin_try_open_gmap_query env st =
     (if md_query st then st
      else if me_query_ok env then st\<lparr>md_query := True\<rparr>
      else st\<lparr>gmap_retry_timer := amxp_start (gmap_retry_timer st) (of_nat (gmap_timeout st)),
              gmap_timeout := (if gmap_timeout st < 20000 then gmap_timeout st * 2 else gmap_timeout st)\<rparr>)"

definition cwmp_plugin_host_phys_changed :: "md_env \<Rightarrow> cstr \<Rightarrow> cstr \<Rightarrow> md_state \<Rightarrow> md_state" where
  "cwmp_plugin_host_phys_changed env physaddress path st =
     (if str_empty physaddress then st
      else
        (case cwmp_plugin_md_cache_find (md_requests st) ''PhysAddress'' (the physaddress) of
           None \<Rightarrow> st
         | Some n \<Rightarrow>
             (if str_empty path then st
              else
                (let info = the (add_key env ''Host'' (Some (''Device.'' @ the path)) (Some (md_requests st ! n)));
                     st1 = st\<lparr>md_requests := (md_requests st)[n := info]\<rparr>
                 in case cwmp_plugin_add_manageable_device env (Some info) st1 of
                      (False, st2) \<Rightarrow> st2
                    | (True, st2) \<Rightarrow> take_request n st2))))"

definition cwmp_plugin_try_add_manageabledevice_subscriptions :: "md_env \<Rightarrow> md_state \<Rightarrow> md_state" where
  "cwmp_plugin_try_add_manageabledevice_subscriptions env st =
     (if \<not> me_sub_ok env
      then st\<lparr>host_retry_timer := amxp_start (host_retry_timer st) (of_nat (host_timeout st)),
              host_timeout := (if host_timeout st < 20000 then host_timeout st * 2 else host_timeout st)\<rparr>
      else cwmp_plugin_try_open_gmap_query env (st\<lparr>md_subscribed := True\<rparr>))"

definition cwmp_plugin_manageabledevice_init :: "md_env \<Rightarrow> md_state \<Rightarrow> md_state" where
  "cwmp_plugin_manageabledevice_init env st =
     (if \<not> me_gmap_ok env then st
      else cwmp_plugin_try_add_manageabledevice_subscriptions env
             (st\<lparr>md_requests := [], host_retry_timer := Timer None, gmap_retry_timer := Timer None\<rparr>))"

definition cwmp_plugin_manageabledevice_clean :: "md_state \<Rightarrow> md_state" where
  "cwmp_plugin_manageabledevice_clean st = st\<lparr>md_query := False, md_subscribed := False, md_requests := []\<rparr>"

subsection \<open>Lists of hosts\<close>

definition host_text :: "nat \<Rightarrow> string" where
  "host_text n = ''Device.Hosts.Host.'' @ dec_text n @ ''.''"

definition join_hosts :: "nat list \<Rightarrow> string" where
  "join_hosts ns = concat (map (\<lambda>n. host_text n @ '','') ns)"

lemma dec_text_no: "\<not> is_digit c \<Longrightarrow> c \<notin> set (dec_text n)"
  using dec_text_digits [of n] by (auto simp: list_all_iff)

lemma host_text_chars: "CHR '','' \<notin> set (host_text n)" "CHR ''D'' \<notin> set (tl (host_text n))" "host_text n \<noteq> []"
  by (simp_all add: host_text_def dec_text_no is_digit_def)

lemma host_text_inj: "host_text n = host_text m \<Longrightarrow> n = m"
  using dec_text_inj [of n m] by (simp add: host_text_def)

lemma sublist_host: "sublist (host_text n) (host_text m) \<longleftrightarrow> n = m"
proof
  assume "sublist (host_text n) (host_text m)"
  then obtain p s where e: "host_text m = p @ host_text n @ s" by (auto simp: sublist_def)
  have "p = []"
  proof (rule ccontr)
    assume "p \<noteq> []"
    then have "tl (host_text m) = tl p @ host_text n @ s" using e by (metis tl_append2)
    then have "CHR ''D'' \<in> set (tl (host_text m))" by (simp add: host_text_def)
    then show False using host_text_chars(2) by blast
  qed
  with e have "dec_text m @ CHR ''.'' # [] = dec_text n @ CHR ''.'' # s" by (simp add: host_text_def)
  then have "dec_text m = dec_text n"
    using dec_text_no [of "CHR ''.''"] by (simp add: append_Cons_eq_iff is_digit_def)
  then show "n = m" using dec_text_inj by simp
qed simp

lemma sublist_field: "c \<notin> set x \<Longrightarrow> sublist x (a @ c # b) \<longleftrightarrow> sublist x a \<or> sublist x b"
  by (auto simp: sublist_append sublist_Cons_right prefix_Cons)

lemma join_hosts_simps: "join_hosts [] = []" "join_hosts (n # ns) = host_text n @ CHR '','' # join_hosts ns"
  by (simp_all add: join_hosts_def)

lemma strstr_join: "(\<exists>t. strstr (join_hosts ns) (host_text n) = Some t) \<longleftrightarrow> n \<in> set ns"
  unfolding strstr_Some_iff
  by (induction ns) (auto simp: join_hosts_simps sublist_field host_text_chars sublist_host)

lemma strstr_join_Host: "strstr (join_hosts ns) ''Host'' = None \<longleftrightarrow> ns = []"
proof (cases ns)
  case (Cons n ms)
  have "join_hosts ns = ''Device.Hosts.'' @ ''Host'' @ (''.'' @ dec_text n @ ''.'' @ '','' @ join_hosts ms)"
    by (simp add: Cons join_hosts_simps host_text_def)
  then have "sublist ''Host'' (join_hosts ns)" by (metis sublist_appendI)
  then show ?thesis using strstr_Some_iff [of "join_hosts ns" "''Host''"] Cons by auto
qed (simp add: join_hosts_simps)

lemma split_join_hosts: "split_fields (CHR '','') (join_hosts ns) = map host_text ns @ [[]]"
proof (induction ns)
  case (Cons n ns)
  have "split_fields c (x @ c # y) = x # split_fields c y" if "c \<notin> set x" for c x y
    using that by (induction x) auto
  then show ?case using Cons host_text_chars(1) by (simp add: join_hosts_simps)
qed (simp add: join_hosts_simps)

lemma remaining_join: "remaining_hosts (host_text n) (join_hosts ns) = join_hosts (filter (\<lambda>k. k \<noteq> n) ns)"
proof -
  have "filter (\<lambda>v. v \<noteq> [] \<and> v \<noteq> host_text n) (map host_text ns) = map host_text (filter (\<lambda>k. k \<noteq> n) ns)"
    using host_text_chars(3) host_text_inj by (induction ns) auto
  then have "remaining_hosts (host_text n) (join_hosts ns) =
      concat (map (\<lambda>val. val @ '','') (map host_text (filter (\<lambda>k. k \<noteq> n) ns)))"
    by (simp add: remaining_hosts_def split_join_hosts)
  then show ?thesis by (simp add: join_hosts_def comp_def)
qed

lemma join_append: "join_hosts (ns @ [n]) = join_hosts ns @ host_text n @ '',''"
  by (simp add: join_hosts_def)

subsection \<open>The table as a map of devices to hosts\<close>

type_synonym dev_key = "string \<times> string \<times> string"

definition mkey :: "manageable \<Rightarrow> dev_key" where
  "mkey m = (mg_OUI m, mg_SerialNumber m, mg_ProductClass m)"

definition has_host :: "manageable \<Rightarrow> nat \<Rightarrow> bool" where
  "has_host m n \<longleftrightarrow> strstr (mg_Host m) (host_text n) \<noteq> None"

definition hosts_of :: "md_state \<Rightarrow> dev_key \<Rightarrow> nat set" where
  "hosts_of st k = {n. \<exists>m\<in>set (md_table st). mkey m = k \<and> has_host m n}"

definition one_owner :: "md_state \<Rightarrow> bool" where
  "one_owner st \<longleftrightarrow> (\<forall>k k' n. n \<in> hosts_of st k \<and> n \<in> hosts_of st k' \<longrightarrow> k = k')"

definition md_ok :: "md_state \<Rightarrow> bool" where
  "md_ok st \<longleftrightarrow> distinct (map mg_index (md_table st)) \<and> distinct (map mkey (md_table st)) \<and>
     (\<forall>m\<in>set (md_table st). \<exists>ns. ns \<noteq> [] \<and> mg_Host m = join_hosts ns) \<and>
     one_owner st"

lemma has_host_join: "mg_Host m = join_hosts ns \<Longrightarrow> has_host m n \<longleftrightarrow> n \<in> set ns"
  using strstr_join [of ns n] by (simp add: has_host_def)

lemma md_ok_inj:
  assumes "md_ok st" "x \<in> set (md_table st)" "y \<in> set (md_table st)" "mg_index x = mg_index y \<or> mkey x = mkey y"
  shows "x = y"
  using assms by (auto simp: md_ok_def distinct_map dest: inj_onD)

lemma md_ok_owner: "md_ok st \<Longrightarrow> n \<in> hosts_of st k \<Longrightarrow> n \<in> hosts_of st k' \<Longrightarrow> k = k'"
  unfolding md_ok_def one_owner_def by blast

lemma hosts_with_host:
  assumes "md_ok st" "m \<in> set (md_table st)"
  shows "hosts_of (with_host (mg_index m) (join_hosts ns) st) = (hosts_of st)(mkey m := set ns)"
proof (rule ext)
  fix k
  let ?f = "\<lambda>x. if mg_index x = mg_index m then x\<lparr>mg_Host := join_hosts ns\<rparr> else x"
  have key: "mkey (?f x) = mkey x" for x by (simp add: mkey_def)
  have eq: "x = m" if "x \<in> set (md_table st)" "mkey x = mkey m \<or> mg_index x = mg_index m" for x
    using md_ok_inj [OF assms(1) that(1) assms(2)] that(2) by blast
  have h: "has_host (?f m) n \<longleftrightarrow> n \<in> set ns" for n by (simp add: has_host_join)
  have "hosts_of (with_host (mg_index m) (join_hosts ns) st) k = {n. \<exists>x\<in>set (md_table st). mkey x = k \<and> has_host (?f x) n}"
  proof -
    have "md_table (with_host (mg_index m) (join_hosts ns) st) = map ?f (md_table st)" by (simp add: with_host_def)
    then show ?thesis unfolding hosts_of_def by (simp only: set_map bex_simps key)
  qed
  also have "\<dots> = ((hosts_of st)(mkey m := set ns)) k"
  proof (cases "k = mkey m")
    case True
    then have "(\<exists>x\<in>set (md_table st). mkey x = k \<and> has_host (?f x) n) \<longleftrightarrow> n \<in> set ns" for n
      using eq h assms(2) by metis
    then show ?thesis using True by simp
  next
    case False
    then have "(\<exists>x\<in>set (md_table st). mkey x = k \<and> has_host (?f x) n) \<longleftrightarrow> (\<exists>x\<in>set (md_table st). mkey x = k \<and> has_host x n)" for n
      using eq by (intro bex_cong) auto
    then show ?thesis using False by (simp add: hosts_of_def)
  qed
  finally show "hosts_of (with_host (mg_index m) (join_hosts ns) st) k = ((hosts_of st)(mkey m := set ns)) k" .
qed

lemma with_host_ok:
  assumes "md_ok st" "m \<in> set (md_table st)" "ns \<noteq> []"
    and "\<And>k n. k \<noteq> mkey m \<Longrightarrow> n \<in> set ns \<Longrightarrow> n \<notin> hosts_of st k"
  shows "md_ok (with_host (mg_index m) (join_hosts ns) st)"
proof -
  let ?f = "\<lambda>x. if mg_index x = mg_index m then x\<lparr>mg_Host := join_hosts ns\<rparr> else x"
  have "map mg_index (map ?f (md_table st)) = map mg_index (md_table st)" "map mkey (map ?f (md_table st)) = map mkey (md_table st)"
    by (simp_all add: mkey_def)
  moreover have "\<exists>ns'. ns' \<noteq> [] \<and> mg_Host x = join_hosts ns'" if "x \<in> set (map ?f (md_table st))" for x
    using that assms(1,3) by (auto simp: md_ok_def)
  moreover have "one_owner (with_host (mg_index m) (join_hosts ns) st)"
    unfolding one_owner_def hosts_with_host [OF assms(1,2)]
    using assms(4) md_ok_owner [OF assms(1)] by (metis fun_upd_apply)
  ultimately show ?thesis using assms(1) unfolding md_ok_def by (simp add: with_host_def del: map_map)
qed

definition good_md :: "md_env \<Rightarrow> md_state \<Rightarrow> bool" where
  "good_md env st \<longleftrightarrow> (\<forall>w. me_apply env w) \<and> me_ms_ok env \<and> (\<forall>t. set (me_order env t) = set t) \<and>
     me_new_index env \<notin> mg_index ` set (md_table st)"

lemma create_refines:
  assumes "md_ok st" "good_md env st" "hosts_of st (moui, sn, pc) = {}"
    and "\<And>m. m \<in> set (md_table st) \<Longrightarrow> mkey m \<noteq> (moui, sn, pc)" and "\<And>k. n \<notin> hosts_of st k"
    and "cwmp_plugin_create_manageable_device env moui sn pc (host_text n) st = (ok, st')"
  shows "ok \<and> md_ok st' \<and> hosts_of st' = (hosts_of st)((moui, sn, pc) := {n}) \<and> md_requests st' = md_requests st"
proof -
  let ?m = "\<lparr>mg_index = me_new_index env, mg_OUI = moui, mg_ProductClass = pc, mg_SerialNumber = sn, mg_Host = join_hosts [n]\<rparr>"
  have st': "ok" "st' = st\<lparr>md_table := md_table st @ [?m]\<rparr>"
    using assms(2,6) by (auto simp: cwmp_plugin_create_manageable_device_def good_md_def join_hosts_simps)
  have "mkey ?m = (moui, sn, pc)" "has_host ?m k \<longleftrightarrow> k = n" for k
    using has_host_join [of ?m "[n]" k] by (auto simp: mkey_def)
  then have h: "hosts_of st' = (hosts_of st)((moui, sn, pc) := {n})"
    using assms(3) by (intro ext) (auto simp: hosts_of_def st')
  have "one_owner st'"
    unfolding one_owner_def h using assms(5) md_ok_owner [OF assms(1)] by (metis fun_upd_apply singletonD)
  moreover have "mkey ?m \<notin> mkey ` set (md_table st)" using assms(4) by (auto simp: mkey_def)
  moreover have "\<exists>ns. ns \<noteq> [] \<and> mg_Host ?m = join_hosts ns" by (rule exI [of _ "[n]"]) simp
  ultimately have "md_ok st'"
    using assms(1,2) st' by (auto simp: md_ok_def good_md_def)
  then show ?thesis using h st' by simp
qed

lemma hosts_of_key:
  assumes "md_ok st" "m \<in> set (md_table st)" "mg_Host m = join_hosts ns"
  shows "hosts_of st (mkey m) = set ns"
  using md_ok_inj [OF assms(1) _ assms(2)] assms(2) has_host_join [OF assms(3)] unfolding hosts_of_def by auto

lemma find_index:
  assumes "md_ok st" "m \<in> set (md_table st)"
  shows "find (\<lambda>x. mg_index x = mg_index m) (md_table st) = Some m"
proof -
  have "find (\<lambda>x. mg_index x = mg_index m) (md_table st) \<noteq> None" using assms(2) by (auto simp: find_None_iff)
  then obtain y where y: "find (\<lambda>x. mg_index x = mg_index m) (md_table st) = Some y" by blast
  then have "y \<in> set (md_table st)" "mg_index y = mg_index m" by (auto simp: find_Some_iff)
  then show ?thesis using md_ok_inj [OF assms(1) _ assms(2)] y by blast
qed

lemma delete_refines:
  assumes "md_ok st" "m \<in> set (md_table st)"
  defines "st' \<equiv> st\<lparr>md_table := filter (\<lambda>x. mg_index x \<noteq> mg_index m) (md_table st)\<rparr>"
  shows "md_ok st' \<and> hosts_of st' = (hosts_of st)(mkey m := {})"
proof -
  have eq: "x \<in> set (md_table st) \<Longrightarrow> mg_index x \<noteq> mg_index m \<longleftrightarrow> mkey x \<noteq> mkey m" for x
    using md_ok_inj [OF assms(1) _ assms(2)] by blast
  then have h: "hosts_of st' = (hosts_of st)(mkey m := {})"
    by (intro ext) (auto simp: hosts_of_def st'_def)
  have "one_owner st'"
    unfolding one_owner_def h using md_ok_owner [OF assms(1)] by (metis empty_iff fun_upd_apply)
  then have "md_ok st'" using assms(1) unfolding st'_def by (auto simp: md_ok_def distinct_map_filter)
  then show ?thesis using h by simp
qed

lemma add_device_refines:
  assumes "md_ok st" "good_md env st" "\<And>k'. k' \<noteq> (moui, sn, pc) \<Longrightarrow> n \<notin> hosts_of st k'"
    and "get_char info ''ManufacturerOUI'' = Some moui" "get_char info ''SerialNumber'' = Some sn"
    and "get_char info ''ProductClass'' = Some pc" "get_char info ''Host'' = Some (host_text n)"
    and "cwmp_plugin_add_manageable_device env info st = (ok, st')"
  shows "ok \<and> md_ok st' \<and> hosts_of st' = (hosts_of st)((moui, sn, pc) := insert n (hosts_of st (moui, sn, pc))) \<and>
    md_requests st' = md_requests st"
proof (cases "find (\<lambda>m. mg_OUI m = moui \<and> mg_SerialNumber m = sn \<and> mg_ProductClass m = pc) (md_table st)")
  case None
  then have no: "m \<in> set (md_table st) \<Longrightarrow> mkey m \<noteq> (moui, sn, pc)" for m by (auto simp: find_None_iff mkey_def)
  then have e: "hosts_of st (moui, sn, pc) = {}" by (auto simp: hosts_of_def)
  then have nn: "n \<notin> hosts_of st k" for k using assms(3) by (cases "k = (moui, sn, pc)") auto
  have c: "cwmp_plugin_create_manageable_device env moui sn pc (host_text n) st = (ok, st')"
    using assms(4-8) None by (simp add: cwmp_plugin_add_manageable_device_def)
  show ?thesis using create_refines [OF assms(1,2) e no nn c] e by simp
next
  case (Some m)
  then have m: "m \<in> set (md_table st)" "mkey m = (moui, sn, pc)"
    by (auto simp: find_Some_iff mkey_def)
  then obtain ns where ns: "ns \<noteq> []" "mg_Host m = join_hosts ns" using assms(1) by (auto simp: md_ok_def)
  have set_ns: "hosts_of st (moui, sn, pc) = set ns" using hosts_of_key [OF assms(1) m(1) ns(2)] m(2) by simp
  have a: "cwmp_plugin_add_manageable_host env m (host_text n) st = (ok, st')"
    using assms(4-8) Some by (simp add: cwmp_plugin_add_manageable_device_def)
  show ?thesis
  proof (cases "n \<in> set ns")
    case True
    then have "ok" "st' = st" using a ns strstr_join [of ns n] by (auto simp: cwmp_plugin_add_manageable_host_def Let_def)
    then show ?thesis using True set_ns assms(1) by (simp add: insert_absorb fun_upd_idem)
  next
    case False
    then have "ok" and st': "st' = with_host (mg_index m) (join_hosts (ns @ [n])) st"
      using a ns strstr_join [of ns n] assms(2)
      by (auto simp: cwmp_plugin_add_manageable_host_def cwmp_plugin_set_manageable_host_param_def good_md_def Let_def join_append)
    moreover have "md_ok st'" unfolding st'
    proof (rule with_host_ok [OF assms(1) m(1)])
      fix k j assume "k \<noteq> mkey m" "j \<in> set (ns @ [n])"
      then show "j \<notin> hosts_of st k" using set_ns assms(3) [of k] md_ok_owner [OF assms(1), of j k "(moui, sn, pc)"] m(2) by auto
    qed simp
    ultimately show ?thesis using hosts_with_host [OF assms(1) m(1)] m(2) set_ns by (simp add: with_host_def)
  qed
qed

lemma drop_host_refines:
  assumes "md_ok st" "good_md env st"
  shows "md_ok (drop_hosts_loop env [host_text n] st) \<and>
    hosts_of (drop_hosts_loop env [host_text n] st) = (\<lambda>k. hosts_of st k - {n}) \<and>
    md_requests (drop_hosts_loop env [host_text n] st) = md_requests st"
proof (cases "cwmp_plugin_get_matching_path (me_order env (md_table st)) (host_text n)")
  case None
  then have "drop_hosts_loop env [host_text n] st = st"
    using assms(2) by (simp add: cwmp_plugin_search_for_manageable_device_def cwmp_plugin_update_manageable_device_def good_md_def)
  moreover have "n \<notin> hosts_of st k" for k
    using None assms(2) by (auto simp: cwmp_plugin_get_matching_path_def find_None_iff good_md_def hosts_of_def has_host_def)
  ultimately show ?thesis using assms(1) by auto
next
  case (Some i)
  then obtain m where f: "find (\<lambda>m. strstr (mg_Host m) (host_text n) \<noteq> None) (me_order env (md_table st)) = Some m" "mg_index m = i"
    by (auto simp: cwmp_plugin_get_matching_path_def)
  from f(1) have "m \<in> set (me_order env (md_table st))" "has_host m n"
    by (auto simp: find_Some_iff has_host_def)
  then have m: "m \<in> set (md_table st)" "has_host m n" using assms(2) by (auto simp: good_md_def)
  then obtain ns where ns: "ns \<noteq> []" "mg_Host m = join_hosts ns" using assms(1) by (auto simp: md_ok_def)
  have "find (\<lambda>x. mg_index x = i) (md_table st) = Some m" using find_index [OF assms(1) m(1)] f(2) by simp
  then have d: "drop_hosts_loop env [host_text n] st =
      (let new = filter (\<lambda>k. k \<noteq> n) ns in
       if new = [] then st\<lparr>md_table := filter (\<lambda>x. mg_index x \<noteq> mg_index m) (md_table st)\<rparr>
       else with_host (mg_index m) (join_hosts new) st)"
    using Some assms(2) f(2) ns
    by (simp add: cwmp_plugin_search_for_manageable_device_def cwmp_plugin_update_manageable_device_def good_md_def
        remaining_join strstr_join_Host cwmp_plugin_del_manageable_device_def cwmp_plugin_set_manageable_host_param_def Let_def)
  have set_ns: "hosts_of st (mkey m) = set ns" by (rule hosts_of_key [OF assms(1) m(1) ns(2)])
  have others: "n \<notin> hosts_of st k" if "k \<noteq> mkey m" for k
    using that md_ok_owner [OF assms(1), of n k "mkey m"] m unfolding hosts_of_def by auto
  show ?thesis
  proof (cases "filter (\<lambda>k. k \<noteq> n) ns = []")
    case True
    then have "(hosts_of st)(mkey m := {}) = (\<lambda>k. hosts_of st k - {n})"
      using others set_ns by (intro ext) (auto simp: filter_empty_conv)
    then show ?thesis using d True delete_refines [OF assms(1) m(1)] by simp
  next
    case False
    let ?new = "filter (\<lambda>k. k \<noteq> n) ns"
    have "md_ok (with_host (mg_index m) (join_hosts ?new) st)"
    proof (rule with_host_ok [OF assms(1) m(1) False])
      fix k j assume "k \<noteq> mkey m" "j \<in> set ?new"
      then show "j \<notin> hosts_of st k" using set_ns md_ok_owner [OF assms(1), of j k "mkey m"] by auto
    qed
    moreover have "(hosts_of st)(mkey m := set ?new) = (\<lambda>k. hosts_of st k - {n})"
      using others set_ns by (intro ext) auto
    ultimately show ?thesis using d False hosts_with_host [OF assms(1) m(1)] by (simp add: with_host_def)
  qed
qed

subsection \<open>Devices that come and go\<close>

lemma add_key_Some: "\<exists>t'. add_key env k v (Some t) = Some t'"
  by (simp add: add_key_def)

lemma map_of_add_key:
  "add_key env k v (Some t) = Some t' \<Longrightarrow> map_of t' k' =
     (if k' = k \<and> map_of t k = None then (if v \<noteq> None \<or> me_null_key env then Some v else None) else map_of t k')"
  by (auto simp: add_key_def map_add_def split: if_splits option.splits)

text \<open>A device that has the three parameters by which it is known.\<close>

definition complete_device :: "var_table \<Rightarrow> dev_key \<Rightarrow> bool" where
  "complete_device dev k \<longleftrightarrow> (case k of (moui, sn, pc) \<Rightarrow>
     get_char (Some dev) ''OUI'' = Some moui \<and> get_char (Some dev) ''SerialNumber'' = Some sn \<and>
     get_char (Some dev) ''ProductClass'' = Some pc)"

lemma deviceinfo_fields:
  assumes "complete_device dev (moui, sn, pc)"
  shows "\<exists>t. cwmp_plugin_set_manageable_deviceinfo env (Some []) dev host = (True, Some t) \<and>
    get_char (Some t) ''ManufacturerOUI'' = Some moui \<and> get_char (Some t) ''SerialNumber'' = Some sn \<and>
    get_char (Some t) ''ProductClass'' = Some pc \<and> get_char (Some t) ''Host'' = host \<and>
    get_char (Some t) ''PhysAddress'' = get_char (Some dev) ''PhysAddress'' \<and>
    (map_of t ''Host'' = None \<longleftrightarrow> host = None \<and> \<not> me_null_key env)"
proof -
  let ?d = "\<lambda>k. get_char (Some dev) k"
  obtain t1 where t1: "add_key env ''Host'' host (Some []) = Some t1" using add_key_Some by blast
  obtain t2 where t2: "add_key env ''Key'' (?d ''Key'') (Some t1) = Some t2" using add_key_Some by blast
  obtain t3 where t3: "add_key env ''PhysAddress'' (?d ''PhysAddress'') (Some t2) = Some t3" using add_key_Some by blast
  obtain t4 where t4: "add_key env ''ManufacturerOUI'' (?d ''OUI'') (Some t3) = Some t4" using add_key_Some by blast
  obtain t5 where t5: "add_key env ''SerialNumber'' (?d ''SerialNumber'') (Some t4) = Some t5" using add_key_Some by blast
  obtain t6 where t6: "add_key env ''ProductClass'' (?d ''ProductClass'') (Some t5) = Some t6" using add_key_Some by blast
  note ts = t1 t2 t3 t4 t5 t6
  have "dev \<noteq> []" using assms by (auto simp: complete_device_def get_char_def)
  then have "cwmp_plugin_set_manageable_deviceinfo env (Some []) dev host = (True, Some t6)"
    by (simp add: cwmp_plugin_set_manageable_deviceinfo_def ts)
  moreover have "map_of t6 ''Host'' = (if host \<noteq> None \<or> me_null_key env then Some host else None)"
    "map_of t6 ''ManufacturerOUI'' = Some (Some moui)" "map_of t6 ''SerialNumber'' = Some (Some sn)"
    "map_of t6 ''ProductClass'' = Some (Some pc)"
    "map_of t6 ''PhysAddress'' = (if ?d ''PhysAddress'' \<noteq> None \<or> me_null_key env then Some (?d ''PhysAddress'') else None)"
    using assms by (simp_all add: ts [THEN map_of_add_key] complete_device_def)
  ultimately show ?thesis by (auto simp: get_char_def)
qed

datatype md_call = Found dev_key nat | Gone nat

type_synonym md_input = "md_env \<times> string \<times> var_table \<times> md_call"

fun md_step :: "md_state \<Rightarrow> md_input \<Rightarrow> md_state" where
  "md_step st (env, key, dev, Found k n) =
     cwmp_plugin_manageable_query env (Some key) (Some dev) gmap_query_expression_start_matching st"
| "md_step st (env, key, dev, Gone n) =
     cwmp_plugin_manageable_query env (Some key) (Some dev) gmap_query_expression_stop_matching st"

fun md_enabled :: "md_state \<Rightarrow> md_input \<Rightarrow> bool" where
  "md_enabled st (env, key, dev, Found k n) =
     (good_md env st \<and> complete_device dev k \<and>
      cwmp_plugin_search_for_hosts env (get_char (Some dev) ''PhysAddress'') = (True, [host_text n]) \<and>
      (\<forall>k'. k' \<noteq> k \<longrightarrow> n \<notin> hosts_of st k'))"
| "md_enabled st (env, key, dev, Gone n) =
     (good_md env st \<and> cwmp_plugin_search_for_hosts_by_device_key env key = (True, [host_text n]))"

fun md_spec :: "(dev_key \<Rightarrow> nat set) \<Rightarrow> md_input \<Rightarrow> dev_key \<Rightarrow> nat set" where
  "md_spec H (env, key, dev, Found k n) = H(k := insert n (H k))"
| "md_spec H (env, key, dev, Gone n) = (\<lambda>k. H k - {n})"

lemma found_refines:
  assumes "md_ok st" "md_enabled st (env, key, dev, Found k n)"
  shows "md_ok (md_step st (env, key, dev, Found k n)) \<and>
    hosts_of (md_step st (env, key, dev, Found k n)) = (hosts_of st)(k := insert n (hosts_of st k))"
proof -
  obtain moui sn pc where k: "k = (moui, sn, pc)" by (cases k)
  obtain t where t: "cwmp_plugin_set_manageable_deviceinfo env (Some []) dev (Some (host_text n)) = (True, Some t)"
    "get_char (Some t) ''ManufacturerOUI'' = Some moui" "get_char (Some t) ''SerialNumber'' = Some sn"
    "get_char (Some t) ''ProductClass'' = Some pc" "get_char (Some t) ''Host'' = Some (host_text n)"
    using deviceinfo_fields [of dev moui sn pc env "Some (host_text n)"] assms(2) k by auto
  obtain ok st' where a: "cwmp_plugin_add_manageable_device env (Some t) st = (ok, st')" by fastforce
  have g: "good_md env st" "\<And>k'. k' \<noteq> (moui, sn, pc) \<Longrightarrow> n \<notin> hosts_of st k'" using assms(2) k by auto
  have "ok" "md_ok st'" "hosts_of st' = (hosts_of st)(k := insert n (hosts_of st k))"
    using add_device_refines [OF assms(1) g t(2-5) a] k by auto
  moreover have "md_step st (env, key, dev, Found k n) = st'"
    using assms(2) a t(1) calculation(1) by (simp add: cwmp_plugin_manageable_query_def)
  ultimately show ?thesis by simp
qed

lemma gone_refines:
  assumes "md_ok st" "md_enabled st (env, key, dev, Gone n)"
  shows "md_ok (md_step st (env, key, dev, Gone n)) \<and>
    hosts_of (md_step st (env, key, dev, Gone n)) = (\<lambda>k. hosts_of st k - {n})"
proof -
  define st1 where "st1 = cwmp_plugin_clean_manageable_device_cache key st"
  have t: "md_table st1 = md_table st"
    by (simp add: st1_def cwmp_plugin_clean_manageable_device_cache_def take_request_def split: option.splits)
  then have h: "hosts_of st1 = hosts_of st" by (simp add: hosts_of_def fun_eq_iff)
  then have "md_ok st1" "good_md env st1"
    using assms t by (simp_all add: md_ok_def one_owner_def good_md_def)
  then show ?thesis
    using drop_host_refines [of st1 env n] assms(2) h
    by (simp add: cwmp_plugin_manageable_query_def st1_def [symmetric] Let_def)
qed

lemma md_step_refines:
  assumes "md_ok st" "md_enabled st e"
  shows "md_ok (md_step st e) \<and> hosts_of (md_step st e) = md_spec (hosts_of st) e"
proof -
  obtain env key dev c where e: "e = (env, key, dev, c)" by (metis prod_cases4)
  show ?thesis
  proof (cases c)
    case (Found k n)
    show ?thesis using found_refines [of st env key dev k n] assms unfolding e Found md_spec.simps by blast
  next
    case (Gone n)
    show ?thesis using gone_refines [of st env key dev n] assms unfolding e Gone md_spec.simps by blast
  qed
qed

interpretation devices: refining_system md_step md_enabled md_ok hosts_of md_spec
  by unfold_locales (simp_all add: md_step_refines)


definition example_md_env :: "(string \<times> cstr) list \<Rightarrow> md_env" where
  "example_md_env hosts =
     \<lparr>me_apply = (\<lambda>w. True), me_new_index = 7, me_ms_ok = True, me_order = rev, me_hosts = Some hosts,
      me_device = (\<lambda>k. Some (Some ''0a:1b'')), me_gmap_ok = True, me_query_ok = True, me_sub_ok = True, me_alloc_ok = True,
      me_null_key = False, me_clean_takes = False\<rparr>"

definition example_md :: md_state where
  "example_md = \<lparr>md_table = [], md_requests = [], md_query = False, md_subscribed = False, gmap_retry_timer = No_timer,
     host_retry_timer = No_timer, gmap_timeout = 1000, host_timeout = 1000\<rparr>"

definition example_device :: var_table where
  "example_device = [(''Key'', Some ''ID-1''), (''PhysAddress'', Some ''0a:1b''), (''OUI'', Some ''1883BF''),
     (''SerialNumber'', Some ''115''), (''ProductClass'', Some ''TEST'')]"

lemma example_md_ok: "md_ok example_md" "hosts_of example_md = (\<lambda>k. {})"
  by (auto simp: md_ok_def one_owner_def hosts_of_def example_md_def)

lemma example_md_good: "good_md (example_md_env hs) st \<longleftrightarrow> 7 \<notin> mg_index ` set (md_table st)"
  by (simp add: good_md_def example_md_env_def)


subsection \<open>Devices whose host comes later, and devices with several hosts\<close>

lemma cache_find_snoc:
  "cwmp_plugin_md_cache_find mds p v = None \<Longrightarrow> get_char (Some t) p = Some v \<Longrightarrow>
   cwmp_plugin_md_cache_find (mds @ [t]) p v = Some (length mds)"
  by (induction mds) (auto split: if_splits)

text \<open>
  A device that starts to match before its host is known is kept in the cache; when a host gets the physical address
  of the device, the host is added to the instance of the device and the cache is as before. This needs that a null
  string makes no key in a table: otherwise the key \<open>Host\<close> of the cached entry exists already and stays null.
\<close>

theorem cached_device_added:
  assumes "md_ok st" "good_md env' st" "\<not> me_null_key env" "me_alloc_ok env" "complete_device dev k"
    and "get_char (Some dev) ''PhysAddress'' = Some mac" "mac \<noteq> []" "fst (cwmp_plugin_search_for_hosts env (Some mac)) = False"
    and "cwmp_plugin_md_cache_find (md_requests st) ''PhysAddress'' mac = None"
    and "''Device.'' @ path = host_text n" "\<forall>k'. k' \<noteq> k \<longrightarrow> n \<notin> hosts_of st k'"
    and "st1 = cwmp_plugin_manageable_query env (Some key) (Some dev) gmap_query_expression_start_matching st"
    and "st2 = cwmp_plugin_host_phys_changed env' (Some mac) (Some path) st1"
  shows "md_table st1 = md_table st \<and> length (md_requests st1) = Suc (length (md_requests st)) \<and>
    hosts_of st2 = (hosts_of st)(k := insert n (hosts_of st k)) \<and> md_requests st2 = md_requests st"
proof -
  obtain moui sn pc where k: "k = (moui, sn, pc)" by (cases k)
  obtain t where t: "cwmp_plugin_set_manageable_deviceinfo env (Some []) dev None = (True, Some t)"
    "get_char (Some t) ''ManufacturerOUI'' = Some moui" "get_char (Some t) ''SerialNumber'' = Some sn"
    "get_char (Some t) ''ProductClass'' = Some pc" "get_char (Some t) ''PhysAddress'' = Some mac" "map_of t ''Host'' = None"
    using deviceinfo_fields [of dev moui sn pc env None] assms(3,5,6) k by auto
  have st1: "st1 = st\<lparr>md_requests := md_requests st @ [t]\<rparr>"
    using assms(4,6,8,12) t(1)
    by (auto simp: cwmp_plugin_manageable_query_def cwmp_plugin_add_manageable_device_to_cache_def split: prod.splits)
  let ?t = "t @ [(''Host'', Some (host_text n))]"
  have f: "cwmp_plugin_md_cache_find (md_requests st1) ''PhysAddress'' mac = Some (length (md_requests st))"
    using cache_find_snoc [OF assms(9) t(5)] by (simp add: st1)
  have t': "get_char (Some ?t) ''ManufacturerOUI'' = Some moui" "get_char (Some ?t) ''SerialNumber'' = Some sn"
    "get_char (Some ?t) ''ProductClass'' = Some pc" "get_char (Some ?t) ''Host'' = Some (host_text n)"
    using t(2-6) by (auto simp: get_char_def map_add_def split: option.splits)
  let ?s = "st\<lparr>md_requests := md_requests st @ [?t]\<rparr>"
  have h: "hosts_of ?s = hosts_of st" by (simp add: hosts_of_def fun_eq_iff)
  then have s: "md_ok ?s" "good_md env' ?s" using assms(1,2) by (simp_all add: md_ok_def one_owner_def good_md_def)
  have no: "n \<notin> hosts_of ?s k'" if "k' \<noteq> (moui, sn, pc)" for k' using that assms(11) k unfolding h by blast
  obtain ok st' where a: "cwmp_plugin_add_manageable_device env' (Some ?t) ?s = (ok, st')" by fastforce
  have r: "ok" "hosts_of st' = (hosts_of st)(k := insert n (hosts_of st k))" "md_requests st' = md_requests st @ [?t]"
    using add_device_refines [OF s no t' a] h k by auto
  have "path \<noteq> []" using assms(10) by (auto simp: host_text_def)
  then have "st2 = take_request (length (md_requests st)) st'"
    using assms(7,10,13) f t(6) a r(1)
    by (simp add: cwmp_plugin_host_phys_changed_def add_key_def Let_def st1)
  then show ?thesis using r st1 by (simp add: take_request_def hosts_of_def fun_eq_iff)
qed

text \<open>
  Property C39. The table built for a device is cleaned after its first host has been added and its type is not set
  again. If a cleaned variant takes no keys, the information for the second host is empty, the device counts as
  incomplete, and of the hosts that share the physical address of the device only the first is added.
\<close>

theorem only_first_host_added:
  assumes "\<not> me_clean_takes env" "cwmp_plugin_search_for_hosts env (get_char (Some dev) ''PhysAddress'') = (True, h # hs)"
  shows "cwmp_plugin_manageable_query env (Some key) (Some dev) gmap_query_expression_start_matching st =
    add_hosts_loop env dev [h] (Some []) st"
proof -
  have "add_hosts_loop env dev hs None st1 = st1" for st1
  proof (cases hs)
    case (Cons h2 hs')
    have "add_key env k v None = None" for k v using assms(1) by (simp add: add_key_def)
    then have "snd (cwmp_plugin_set_manageable_deviceinfo env None dev (Some h2)) = None"
      by (simp add: cwmp_plugin_set_manageable_deviceinfo_def)
    then show ?thesis
      by (auto simp: Cons cwmp_plugin_add_manageable_device_def get_char_def split: prod.splits bool.splits)
  qed simp
  then show ?thesis using assms(2)
    by (simp add: cwmp_plugin_manageable_query_def split: prod.splits bool.splits)
qed

theorem only_first_host_added_witness:
  "map mg_Host (md_table (cwmp_plugin_manageable_query
     (example_md_env [(''Hosts.Host.4.'', Some ''0A:1B''), (''Hosts.Host.5.'', Some ''0a:1B'')]) (Some ''ID-1'') (Some example_device)
     gmap_query_expression_start_matching example_md)) = [''Device.Hosts.Host.4.,'']"
proof -
  let ?env = "example_md_env [(''Hosts.Host.4.'', Some ''0A:1B''), (''Hosts.Host.5.'', Some ''0a:1B'')]"
  have "\<not> me_clean_takes ?env" by (simp add: example_md_env_def)
  moreover have "cwmp_plugin_search_for_hosts ?env (get_char (Some example_device) ''PhysAddress'') =
      (True, ''Device.Hosts.Host.4.'' # [''Device.Hosts.Host.5.''])" by code_simp
  moreover have "map mg_Host (md_table (add_hosts_loop ?env example_device [''Device.Hosts.Host.4.''] (Some []) example_md)) =
      [''Device.Hosts.Host.4.,'']" by code_simp
  ultimately show ?thesis using only_first_host_added [of ?env example_device] by simp
qed

subsection \<open>The watch on devices and hosts\<close>

datatype watch_event = Watch_init md_env | Host_timer md_env | Gmap_timer md_env

fun watch_step :: "md_state \<Rightarrow> watch_event \<Rightarrow> md_state" where
  "watch_step st (Watch_init env) = cwmp_plugin_manageabledevice_init env st"
| "watch_step st (Host_timer env) =
     cwmp_plugin_try_add_manageabledevice_subscriptions env (st\<lparr>host_retry_timer := Timer None\<rparr>)"
| "watch_step st (Gmap_timer env) = cwmp_plugin_try_open_gmap_query env (st\<lparr>gmap_retry_timer := Timer None\<rparr>)"

fun watch_enabled :: "md_state \<Rightarrow> watch_event \<Rightarrow> bool" where
  "watch_enabled st (Watch_init env) = False"
| "watch_enabled st (Host_timer env) = (\<exists>ms. host_retry_timer st = Timer (Some ms))"
| "watch_enabled st (Gmap_timer env) = (\<exists>ms. gmap_retry_timer st = Timer (Some ms))"

definition backoff :: "nat set" where
  "backoff = {1000, 2000, 4000, 8000, 16000, 32000}"

definition armed :: "amxp_timer \<Rightarrow> bool" where
  "armed t \<longleftrightarrow> (\<exists>ms\<in>backoff. t = Timer (Some (of_nat ms)))"

definition watch_inv :: "md_state \<Rightarrow> bool" where
  "watch_inv st \<longleftrightarrow> gmap_timeout st \<in> backoff \<and> host_timeout st \<in> backoff \<and>
     gmap_retry_timer st \<noteq> No_timer \<and> host_retry_timer st \<noteq> No_timer \<and>
     (\<not> md_subscribed st \<longrightarrow> armed (host_retry_timer st)) \<and>
     (md_subscribed st \<and> \<not> md_query st \<longrightarrow> armed (gmap_retry_timer st))"

lemma backoff_doubles: "t \<in> backoff \<Longrightarrow> (if t < 20000 then t * 2 else t) \<in> backoff"
  by (auto simp: backoff_def)

lemma retry_timer_armed: "t \<in> backoff \<Longrightarrow> x \<noteq> No_timer \<Longrightarrow> armed (amxp_start x (of_nat t))"
  by (cases x) (auto simp: armed_def)

lemma retry_timer_started [simp]: "amxp_start x v = No_timer \<longleftrightarrow> x = No_timer"
  by (cases x) auto

lemma try_query_inv:
  assumes "gmap_timeout st \<in> backoff" "host_timeout st \<in> backoff" "gmap_retry_timer st \<noteq> No_timer" "host_retry_timer st \<noteq> No_timer"
    and "\<not> md_subscribed st \<longrightarrow> armed (host_retry_timer st)"
  shows "watch_inv (cwmp_plugin_try_open_gmap_query env st)"
  using assms backoff_doubles [OF assms(1)] retry_timer_armed [OF assms(1,3)]
  by (simp add: watch_inv_def cwmp_plugin_try_open_gmap_query_def)

lemma try_subscriptions_inv:
  assumes "gmap_timeout st \<in> backoff" "host_timeout st \<in> backoff" "gmap_retry_timer st \<noteq> No_timer" "host_retry_timer st \<noteq> No_timer"
    and "md_subscribed st \<and> \<not> md_query st \<longrightarrow> armed (gmap_retry_timer st)"
  shows "watch_inv (cwmp_plugin_try_add_manageabledevice_subscriptions env st)"
proof (cases "me_sub_ok env")
  case True
  then show ?thesis
    using assms try_query_inv [of "st\<lparr>md_subscribed := True\<rparr>" env]
    by (simp add: cwmp_plugin_try_add_manageabledevice_subscriptions_def)
next
  case False
  then show ?thesis
    using assms backoff_doubles [OF assms(2)] retry_timer_armed [OF assms(2,4)]
    by (simp add: cwmp_plugin_try_add_manageabledevice_subscriptions_def watch_inv_def)
qed

interpretation watch: event_system watch_step watch_enabled watch_inv
proof
  fix st e assume i: "watch_inv st" "watch_enabled st e"
  show "watch_inv (watch_step st e)"
  proof (cases e)
    case (Host_timer env)
    then show ?thesis using i try_subscriptions_inv [of "st\<lparr>host_retry_timer := Timer None\<rparr>" env] by (simp add: watch_inv_def)
  next
    case (Gmap_timer env)
    then show ?thesis using i try_query_inv [of "st\<lparr>gmap_retry_timer := Timer None\<rparr>" env] by (simp add: watch_inv_def)
  qed (use i in simp)
qed

text \<open>
  After the initialisation, whatever the bus and gMap answer, either the watch is complete (the hosts are
  subscribed to and the query is open) or a timer that tries again is armed, with a delay that doubles from one second
  and never exceeds 32 seconds.
\<close>

theorem device_watch_retried:
  assumes "me_gmap_ok env" "\<not> md_subscribed st" "gmap_timeout st = 1000" "host_timeout st = 1000"
    and "enabled_run watch_enabled watch_step (watch_step st (Watch_init env)) es"
  shows "let st' = foldl watch_step st (Watch_init env # es) in
    (md_subscribed st' \<and> md_query st') \<or> armed (host_retry_timer st') \<or> armed (gmap_retry_timer st')"
proof -
  have "watch_inv (watch_step st (Watch_init env))"
    using assms(1-4) by (auto simp: cwmp_plugin_manageabledevice_init_def backoff_def intro!: try_subscriptions_inv)
  from watch.run_inv [OF this assms(5)] show ?thesis by (auto simp: watch_inv_def Let_def)
qed

theorem device_watch_retried_witness:
  "armed (gmap_retry_timer (foldl watch_step example_md
     [Watch_init ((example_md_env [])\<lparr>me_sub_ok := False\<rparr>), Host_timer ((example_md_env [])\<lparr>me_query_ok := False\<rparr>),
      Gmap_timer ((example_md_env [])\<lparr>me_query_ok := False\<rparr>)]))"
proof -
  let ?e = "(example_md_env [])\<lparr>me_sub_ok := False\<rparr>" and ?f = "(example_md_env [])\<lparr>me_query_ok := False\<rparr>"
  note defs = example_md_def example_md_env_def cwmp_plugin_manageabledevice_init_def
    cwmp_plugin_try_add_manageabledevice_subscriptions_def cwmp_plugin_try_open_gmap_query_def
  have "enabled_run watch_enabled watch_step (watch_step example_md (Watch_init ?e)) [Host_timer ?f, Gmap_timer ?f]"
    by (simp add: defs)
  moreover have "me_gmap_ok ?e" "\<not> md_subscribed example_md" "gmap_timeout example_md = 1000" "host_timeout example_md = 1000"
    by (simp_all add: defs)
  ultimately have "let st' = foldl watch_step example_md (Watch_init ?e # [Host_timer ?f, Gmap_timer ?f]) in
      (md_subscribed st' \<and> md_query st') \<or> armed (host_retry_timer st') \<or> armed (gmap_retry_timer st')"
    using device_watch_retried by blast
  then show ?thesis by (simp add: defs armed_def Let_def)
qed

end
