(* ===== verification/Xmpp.thy ===== *)
theory Xmpp
  imports Prelude
begin

section \<open>Connection requests over XMPP (cwmp\_plugin\_xmpp.c)\<close>

text \<open>
  \<open>ManagementServer.ConnReqXMPPConnection\<close> names an XMPP connection of the device by its path; the plugin keeps
  \<open>ConnReqJabberID\<close> equal to the Jabber identifier of that connection while it is enabled. It follows the parameter by an
  event of the data model, the connection by a subscription to its object and its removal by a subscription to the
  table. \<open>xm_connections\<close> is the table of connections of the XMPP service by path, \<open>xm_queue\<close> holds the events and
  notifications that are not delivered yet. A path given to \<open>amxb_subscribe\<close> is subscribed once.
\<close>

subsection \<open>State\<close>

datatype xmpp_event =
    Cnx_changed cstr cstr
  | Cnx_updated string
  | Cnx_removed string nat

record xmpp =
  ConnReqXMPPConnection :: string
  ConnReqJabberID :: string
  xm_connections :: "string \<Rightarrow> (bool \<times> cstr) option"
  xm_subs :: "string list"
  xm_removal_sub :: bool
  xm_timer :: amxp_timer
  xm_queue :: "xmpp_event list"

record xmpp_env =
  xe_set_ok :: bool
  xe_get_ok :: bool
  xe_sub_ok :: bool
  xe_timer_new_ok :: bool
  xe_timer_start_ok :: bool

definition is_current_cnx :: "cstr \<Rightarrow> xmpp \<Rightarrow> bool" where
  "is_current_cnx cnx st = (if str_empty cnx then False else the cnx = ConnReqXMPPConnection st)"

definition set_connreq_jabber_id :: "xmpp_env \<Rightarrow> cstr \<Rightarrow> xmpp \<Rightarrow> xmpp" where
  "set_connreq_jabber_id env jid st =
     (case jid of None \<Rightarrow> st | Some j \<Rightarrow> (if xe_set_ok env then st\<lparr>ConnReqJabberID := j\<rparr> else st))"

definition update_connreq_jabber_id :: "xmpp_env \<Rightarrow> cstr \<Rightarrow> xmpp \<Rightarrow> xmpp" where
  "update_connreq_jabber_id env cnx st =
     (case cnx of
        None \<Rightarrow> st
      | Some cnx \<Rightarrow>
          (if cnx = [] then set_connreq_jabber_id env (Some []) st
           else if \<not> xe_get_ok env then st
           else (case xm_connections st cnx of
                   None \<Rightarrow> st
                 | Some (enable, jid) \<Rightarrow> set_connreq_jabber_id env (if enable then jid else Some []) st)))"

definition write_connection :: "string \<Rightarrow> xmpp \<Rightarrow> xmpp" where
  "write_connection cnx st =
     (if cnx = ConnReqXMPPConnection st then st
      else st\<lparr>ConnReqXMPPConnection := cnx,
              xm_queue := xm_queue st @ [Cnx_changed (Some (ConnReqXMPPConnection st)) (Some cnx)]\<rparr>)"

definition xmpp_connection_deleted_cb :: "xmpp_env \<Rightarrow> (nat \<times> cstr) option \<Rightarrow> xmpp \<Rightarrow> xmpp" where
  "xmpp_connection_deleted_cb env data st =
     (case data of
        None \<Rightarrow> st
      | Some (index, path) \<Rightarrow>
          (if index = 0 \<or> str_empty path then st
           else if is_current_cnx (Some (the path @ dec_text index @ ''.'')) st \<and> xe_set_ok env
           then write_connection [] st else st))"

definition xmpp_connection_updated_cb :: "xmpp_env \<Rightarrow> cstr option \<Rightarrow> xmpp \<Rightarrow> xmpp" where
  "xmpp_connection_updated_cb env data st =
     (case data of None \<Rightarrow> st | Some cnx \<Rightarrow> update_connreq_jabber_id env cnx st)"

definition xmpp_connection_add_sub :: "xmpp_env \<Rightarrow> cstr \<Rightarrow> xmpp \<Rightarrow> xmpp" where
  "xmpp_connection_add_sub env cnx st =
     (if str_empty cnx then st
      else if xe_sub_ok env then st\<lparr>xm_subs := List.insert (the cnx) (xm_subs st)\<rparr> else st)"

definition xmpp_connection_del_sub :: "cstr \<Rightarrow> xmpp \<Rightarrow> xmpp" where
  "xmpp_connection_del_sub cnx st =
     (if str_empty cnx then st else st\<lparr>xm_subs := removeAll (the cnx) (xm_subs st)\<rparr>)"

definition connreq_xmpp_connection_changed :: "xmpp_env \<Rightarrow> (cstr \<times> cstr) option \<Rightarrow> xmpp \<Rightarrow> xmpp" where
  "connreq_xmpp_connection_changed env data st =
     (case data of
        None \<Rightarrow> st
      | Some (old_cnx, new_cnx) \<Rightarrow>
          update_connreq_jabber_id env new_cnx (xmpp_connection_add_sub env new_cnx (xmpp_connection_del_sub old_cnx st)))"

definition deferred_init_timer_cb_xmpp :: "xmpp_env \<Rightarrow> xmpp \<Rightarrow> xmpp" where
  "deferred_init_timer_cb_xmpp env st =
     (let st1 = (if \<not> xe_sub_ok env then st
                 else (let st1 = st\<lparr>xm_removal_sub := True\<rparr>; cnx = Some (ConnReqXMPPConnection st1)
                       in update_connreq_jabber_id env cnx (xmpp_connection_add_sub env cnx st1)))
      in st1\<lparr>xm_timer := No_timer\<rparr>)"

definition cwmp_plugin_xmpp_init :: "xmpp_env \<Rightarrow> xmpp \<Rightarrow> bool \<times> xmpp" where
  "cwmp_plugin_xmpp_init env st =
     (if \<not> xe_timer_new_ok env then (False, st)
      else if \<not> xe_timer_start_ok env then (False, st\<lparr>xm_timer := Timer None\<rparr>)
      else (True, st\<lparr>xm_timer := Timer (Some 0)\<rparr>))"

subsection \<open>Events\<close>

text \<open>
  \<open>Acs_writes\<close> is a write of the parameter by the ACS, \<open>Service_sets\<close> and \<open>Service_removes\<close> are changes in the table of
  the XMPP service, which the bus tells to the subscribers; \<open>Xmpp_deliver\<close> delivers the oldest event, to a callback that
  is still subscribed.
\<close>

definition XMPP_CONNECTION :: string where
  "XMPP_CONNECTION = ''Device.XMPP.Connection.''"

definition cnx_path :: "nat \<Rightarrow> string" where
  "cnx_path i = XMPP_CONNECTION @ dec_text i @ ''.''"

datatype xmpp_input =
    Acs_writes string
  | Service_sets nat bool string
  | Service_removes nat
  | Xmpp_deliver xmpp_env

definition deliver_xmpp :: "xmpp_env \<Rightarrow> xmpp_event \<Rightarrow> xmpp \<Rightarrow> xmpp" where
  "deliver_xmpp env e st =
     (case e of
        Cnx_changed old new \<Rightarrow> connreq_xmpp_connection_changed env (Some (old, new)) st
      | Cnx_updated path \<Rightarrow> (if path \<in> set (xm_subs st) then xmpp_connection_updated_cb env (Some (Some path)) st else st)
      | Cnx_removed path i \<Rightarrow> xmpp_connection_deleted_cb env (Some (i, Some path)) st)"

fun xmpp_step :: "xmpp \<Rightarrow> xmpp_input \<Rightarrow> xmpp" where
  "xmpp_step st (Acs_writes cnx) = write_connection cnx st"
| "xmpp_step st (Service_sets i enable jid) =
     st\<lparr>xm_connections := (xm_connections st)(cnx_path i \<mapsto> (enable, Some jid)),
        xm_queue := xm_queue st @ (if cnx_path i \<in> set (xm_subs st) then [Cnx_updated (cnx_path i)] else [])\<rparr>"
| "xmpp_step st (Service_removes i) =
     st\<lparr>xm_connections := (xm_connections st)(cnx_path i := None),
        xm_queue := xm_queue st @ (if xm_removal_sub st then [Cnx_removed XMPP_CONNECTION i] else [])\<rparr>"
| "xmpp_step st (Xmpp_deliver env) =
     (case xm_queue st of [] \<Rightarrow> st | e # es \<Rightarrow> deliver_xmpp env e (st\<lparr>xm_queue := es\<rparr>))"

definition good_xmpp :: "xmpp_env \<Rightarrow> bool" where
  "good_xmpp env \<longleftrightarrow> xe_set_ok env \<and> xe_get_ok env \<and> xe_sub_ok env"

fun xmpp_enabled :: "xmpp \<Rightarrow> xmpp_input \<Rightarrow> bool" where
  "xmpp_enabled st (Acs_writes cnx) = (cnx = [] \<or> xm_connections st cnx \<noteq> None)"
| "xmpp_enabled st (Service_sets i enable jid) = (i \<noteq> 0)"
| "xmpp_enabled st (Service_removes i) = (i \<noteq> 0)"
| "xmpp_enabled st (Xmpp_deliver env) = good_xmpp env"

definition expected_id :: "xmpp \<Rightarrow> string" where
  "expected_id st =
     (if ConnReqXMPPConnection st = [] then []
      else (case xm_connections st (ConnReqXMPPConnection st) of Some (True, Some jid) \<Rightarrow> jid | _ \<Rightarrow> []))"

fun is_changed :: "xmpp_event \<Rightarrow> bool" where
  "is_changed (Cnx_changed old new) = True"
| "is_changed e = False"

text \<open>The subscription follows the parameter through the changes that wait: \<open>follows q s c\<close>.\<close>

fun follows :: "xmpp_event list \<Rightarrow> string \<Rightarrow> string \<Rightarrow> bool" where
  "follows [] s c = (s = c)"
| "follows (Cnx_changed old new # q) s c = (old = Some s \<and> (\<exists>n. new = Some n \<and> follows q n c))"
| "follows (e # q) s c = follows q s c"

definition sub_list :: "string \<Rightarrow> string list" where
  "sub_list s = (if s = [] then [] else [s])"

lemma cnx_path_inj: "cnx_path i = cnx_path k \<longleftrightarrow> i = k"
  using dec_text_inj [of i k] by (auto simp: cnx_path_def)

lemma cnx_path_not_Nil [simp]: "cnx_path i \<noteq> []" "[] \<noteq> cnx_path i"
  by (simp_all add: cnx_path_def)

lemma follows_snoc: "follows (q @ [e]) s c \<longleftrightarrow>
    (case e of Cnx_changed old new \<Rightarrow> (\<exists>o'. old = Some o' \<and> follows q s o' \<and> new = Some c) | _ \<Rightarrow> follows q s c)"
proof (induction q arbitrary: s)
  case Nil
  then show ?case by (cases e) auto
next
  case (Cons x q)
  then show ?case by (cases x) (auto split: xmpp_event.splits)
qed

lemma follows_same: "\<not> list_ex is_changed q \<Longrightarrow> follows q s c \<Longrightarrow> s = c"
proof (induction q)
  case (Cons e q)
  then show ?case by (cases e) auto
qed simp

lemma update_frame [simp]:
  "ConnReqXMPPConnection (update_connreq_jabber_id env c st) = ConnReqXMPPConnection st"
  "xm_connections (update_connreq_jabber_id env c st) = xm_connections st"
  "xm_subs (update_connreq_jabber_id env c st) = xm_subs st"
  "xm_removal_sub (update_connreq_jabber_id env c st) = xm_removal_sub st"
  "xm_queue (update_connreq_jabber_id env c st) = xm_queue st"
  by (auto simp: update_connreq_jabber_id_def set_connreq_jabber_id_def split: option.splits)

lemma expected_frame [simp]:
  "expected_id (update_connreq_jabber_id env c st) = expected_id st"
  "expected_id (st\<lparr>xm_queue := q\<rparr>) = expected_id st"
  "expected_id (st\<lparr>xm_subs := ss\<rparr>) = expected_id st"
  "expected_id (st\<lparr>xm_removal_sub := b\<rparr>) = expected_id st"
  "expected_id (st\<lparr>xm_timer := t\<rparr>) = expected_id st"
  by (simp_all add: expected_id_def)

lemma update_id:
  assumes "good_xmpp env" "ConnReqXMPPConnection st = c" "c \<noteq> [] \<Longrightarrow> \<exists>en j. xm_connections st c = Some (en, Some j)"
  shows "ConnReqJabberID (update_connreq_jabber_id env (Some c) st) = expected_id st"
  using assms by (cases "c = []")
    (auto simp: update_connreq_jabber_id_def set_connreq_jabber_id_def expected_id_def good_xmpp_def)

text \<open>The parts of the invariant.\<close>

definition table_ok :: "(string \<Rightarrow> (bool \<times> cstr) option) \<Rightarrow> bool" where
  "table_ok t \<longleftrightarrow> (\<forall>p. t p \<noteq> None \<longrightarrow> (\<exists>i en j. i \<noteq> 0 \<and> p = cnx_path i \<and> t p = Some (en, Some j)))"

definition names_connection :: "(string \<Rightarrow> (bool \<times> cstr) option) \<Rightarrow> xmpp_event list \<Rightarrow> string \<Rightarrow> bool" where
  "names_connection t q c \<longleftrightarrow> (c \<noteq> [] \<longrightarrow> (\<exists>i. i \<noteq> 0 \<and> c = cnx_path i \<and>
     (t c = None \<longrightarrow> Cnx_removed XMPP_CONNECTION i \<in> set q)))"

definition refresh_due :: "xmpp_event list \<Rightarrow> string \<Rightarrow> bool" where
  "refresh_due q c \<longleftrightarrow> list_ex is_changed q \<or> (c \<noteq> [] \<and> Cnx_updated c \<in> set q) \<or>
     (\<exists>i. i \<noteq> 0 \<and> c = cnx_path i \<and> Cnx_removed XMPP_CONNECTION i \<in> set q)"

definition xmpp_ok :: "xmpp \<Rightarrow> bool" where
  "xmpp_ok st \<longleftrightarrow> xm_removal_sub st \<and> table_ok (xm_connections st) \<and>
     (\<exists>s. xm_subs st = sub_list s \<and> follows (xm_queue st) s (ConnReqXMPPConnection st)) \<and>
     names_connection (xm_connections st) (xm_queue st) (ConnReqXMPPConnection st) \<and>
     (ConnReqJabberID st = expected_id st \<or> refresh_due (xm_queue st) (ConnReqXMPPConnection st))"

lemma table_okD:
  "table_ok t \<Longrightarrow> t p \<noteq> None \<Longrightarrow> \<exists>i en j. i \<noteq> 0 \<and> p = cnx_path i \<and> t p = Some (en, Some j)"
  by (simp add: table_ok_def)

lemma names_existing:
  assumes "table_ok t" "c = [] \<or> t c \<noteq> None"
  shows "names_connection t q c"
proof (cases "c = []")
  case False
  then obtain i en j where "i \<noteq> 0" "c = cnx_path i" "t c = Some (en, Some j)" using assms table_okD [of t c] by blast
  then show ?thesis by (auto simp: names_connection_def)
qed (simp add: names_connection_def)

lemma refresh_due_snoc: "refresh_due q c \<Longrightarrow> refresh_due (q @ [e]) c"
  by (auto simp: refresh_due_def)

lemma names_connection_snoc: "names_connection t q c \<Longrightarrow> names_connection t (q @ [e]) c"
  by (auto simp: names_connection_def)

lemma write_ok:
  assumes "xmpp_ok st" "cnx = [] \<or> xm_connections st cnx \<noteq> None"
  shows "xmpp_ok (write_connection cnx st)"
proof (cases "cnx = ConnReqXMPPConnection st")
  case False
  have "table_ok (xm_connections st)" using assms(1) by (simp add: xmpp_ok_def)
  then have n: "names_connection (xm_connections st) (xm_queue (write_connection cnx st)) cnx"
    using assms(2) by (rule names_existing)
  have w: "write_connection cnx st = st\<lparr>ConnReqXMPPConnection := cnx,
      xm_queue := xm_queue st @ [Cnx_changed (Some (ConnReqXMPPConnection st)) (Some cnx)]\<rparr>"
    using False by (simp add: write_connection_def)
  show ?thesis using assms(1) n unfolding w by (simp add: xmpp_ok_def follows_snoc refresh_due_def)
qed (simp add: write_connection_def assms(1))

lemma service_sets_ok:
  assumes "xmpp_ok st" "i \<noteq> 0"
  shows "xmpp_ok (xmpp_step st (Service_sets i enable jid))"
proof -
  let ?st = "xmpp_step st (Service_sets i enable jid)" and ?c = "ConnReqXMPPConnection st"
  obtain s where s: "xm_subs st = sub_list s" "follows (xm_queue st) s ?c" using assms(1) by (auto simp: xmpp_ok_def)
  have "follows (xm_queue ?st) s ?c" using s(2) by (simp add: follows_snoc)
  moreover have "table_ok (xm_connections ?st)" using assms by (auto simp: xmpp_ok_def table_ok_def)
  moreover have "names_connection (xm_connections ?st) (xm_queue ?st) ?c"
    using assms(1) by (fastforce simp: xmpp_ok_def names_connection_def)
  moreover have "ConnReqJabberID ?st = expected_id ?st \<or> refresh_due (xm_queue ?st) ?c"
  proof (cases "?c = cnx_path i")
    case True
    then show ?thesis using s follows_same [OF _ s(2)] by (auto simp: refresh_due_def sub_list_def)
  next
    case False
    then have "expected_id ?st = expected_id st" by (simp add: expected_id_def)
    then show ?thesis using assms(1) by (auto simp: xmpp_ok_def dest: refresh_due_snoc)
  qed
  ultimately show ?thesis using assms(1) s(1) by (auto simp: xmpp_ok_def)
qed

lemma service_removes_ok:
  assumes "xmpp_ok st" "i \<noteq> 0"
  shows "xmpp_ok (xmpp_step st (Service_removes i))"
proof -
  let ?st = "xmpp_step st (Service_removes i)" and ?c = "ConnReqXMPPConnection st"
  have r: "xm_removal_sub st" using assms(1) by (simp add: xmpp_ok_def)
  have "names_connection (xm_connections ?st) (xm_queue ?st) ?c"
    using assms r by (cases "?c = cnx_path i") (auto simp: xmpp_ok_def names_connection_def cnx_path_inj)
  moreover have "ConnReqJabberID ?st = expected_id ?st \<or> refresh_due (xm_queue ?st) ?c"
  proof (cases "?c = cnx_path i")
    case True
    then show ?thesis using r assms(2) by (auto simp: refresh_due_def)
  next
    case False
    then have "expected_id ?st = expected_id st" by (simp add: expected_id_def)
    then show ?thesis using assms(1) r by (auto simp: xmpp_ok_def dest: refresh_due_snoc)
  qed
  ultimately show ?thesis using assms(1) r by (auto simp: xmpp_ok_def table_ok_def follows_snoc)
qed

text \<open>Once the identifier has been read for the current connection only its removal can make it stale.\<close>

lemma refreshed:
  assumes "good_xmpp env" "table_ok (xm_connections st)" "ConnReqXMPPConnection st = c"
    and "names_connection (xm_connections st) q c"
  shows "ConnReqJabberID (update_connreq_jabber_id env (Some c) st) = expected_id st \<or> refresh_due q c"
proof (cases "c = [] \<or> xm_connections st c \<noteq> None")
  case True
  then have "c \<noteq> [] \<Longrightarrow> \<exists>en j. xm_connections st c = Some (en, Some j)" using table_okD [OF assms(2), of c] by blast
  then show ?thesis using update_id [OF assms(1,3)] by blast
next
  case False
  then show ?thesis using assms(4) by (auto simp: names_connection_def refresh_due_def)
qed

lemma deliver_changed_ok:
  assumes "xmpp_ok st" "xm_queue st = Cnx_changed old new # es" "good_xmpp env"
  shows "xmpp_ok (deliver_xmpp env (Cnx_changed old new) (st\<lparr>xm_queue := es\<rparr>))"
proof -
  let ?c = "ConnReqXMPPConnection st"
  obtain s n where s: "xm_subs st = sub_list s" "old = Some s" "new = Some n" "follows es n ?c"
    using assms(1,2) by (auto simp: xmpp_ok_def)
  define st1 where "st1 = xmpp_connection_add_sub env new (xmpp_connection_del_sub old (st\<lparr>xm_queue := es\<rparr>))"
  have st1: "st1 = st\<lparr>xm_queue := es, xm_subs := sub_list n\<rparr>"
    using s assms(3)
    by (cases st) (auto simp: st1_def xmpp_connection_add_sub_def xmpp_connection_del_sub_def sub_list_def good_xmpp_def)
  have d: "deliver_xmpp env (Cnx_changed old new) (st\<lparr>xm_queue := es\<rparr>) = update_connreq_jabber_id env new st1"
    by (simp add: deliver_xmpp_def connreq_xmpp_connection_changed_def st1_def)
  have n: "names_connection (xm_connections st) es ?c"
    using assms(1,2) by (auto simp: xmpp_ok_def names_connection_def)
  have "ConnReqJabberID (update_connreq_jabber_id env new st1) = expected_id st1 \<or> refresh_due es ?c"
  proof (cases "list_ex is_changed es")
    case False
    then have "n = ?c" using follows_same s(4) by blast
    then show ?thesis
      using refreshed [OF assms(3), of st1 ?c es] n s(3) assms(1) by (simp add: st1 xmpp_ok_def)
  qed (simp add: refresh_due_def)
  then show ?thesis using assms(1) n s unfolding d by (auto simp: xmpp_ok_def st1)
qed

lemma deliver_updated_ok:
  assumes "xmpp_ok st" "xm_queue st = Cnx_updated p # es" "good_xmpp env"
  shows "xmpp_ok (deliver_xmpp env (Cnx_updated p) (st\<lparr>xm_queue := es\<rparr>))"
proof -
  let ?c = "ConnReqXMPPConnection st" and ?st = "st\<lparr>xm_queue := es\<rparr>"
  obtain s where s: "xm_subs st = sub_list s" "follows es s ?c" using assms(1,2) by (auto simp: xmpp_ok_def)
  have n: "names_connection (xm_connections st) es ?c"
    using assms(1,2) by (auto simp: xmpp_ok_def names_connection_def)
  show ?thesis
  proof (cases "list_ex is_changed es")
    case True
    then show ?thesis using assms(1) n s
      by (auto simp: xmpp_ok_def deliver_xmpp_def xmpp_connection_updated_cb_def refresh_due_def)
  next
    case False
    then have "s = ?c" using follows_same s(2) by blast
    then have "p \<in> set (xm_subs st) \<Longrightarrow> p = ?c" using s(1) by (auto simp: sub_list_def split: if_splits)
    moreover have "p \<notin> set (xm_subs st) \<Longrightarrow> p \<noteq> ?c \<or> ?c = []" using s(1) \<open>s = ?c\<close> by (auto simp: sub_list_def split: if_splits)
    ultimately show ?thesis
      using assms(1,2) n s refreshed [OF assms(3), of ?st ?c es] False
      by (auto simp: xmpp_ok_def deliver_xmpp_def xmpp_connection_updated_cb_def refresh_due_def)
  qed
qed

lemma deliver_removed_ok:
  assumes "xmpp_ok st" "xm_queue st = Cnx_removed p i # es" "good_xmpp env"
  shows "xmpp_ok (deliver_xmpp env (Cnx_removed p i) (st\<lparr>xm_queue := es\<rparr>))"
proof -
  let ?c = "ConnReqXMPPConnection st" and ?st = "st\<lparr>xm_queue := es\<rparr>"
  have f: "\<exists>s. xm_subs st = sub_list s \<and> follows es s ?c" using assms(1,2) by (auto simp: xmpp_ok_def)
  show ?thesis
  proof (cases "i \<noteq> 0 \<and> p \<noteq> [] \<and> p @ dec_text i @ ''.'' = ?c")
    case True
    then have "?c \<noteq> []" by auto
    then show ?thesis using True assms(1,3) f
      by (auto simp: xmpp_ok_def deliver_xmpp_def xmpp_connection_deleted_cb_def is_current_cnx_def good_xmpp_def
          write_connection_def follows_snoc names_connection_def refresh_due_def)
  next
    case False
    then have same: "deliver_xmpp env (Cnx_removed p i) ?st = ?st"
      by (auto simp: deliver_xmpp_def xmpp_connection_deleted_cb_def is_current_cnx_def)
    have other: "\<not> (p = XMPP_CONNECTION \<and> ?c = cnx_path i \<and> i \<noteq> 0)" using False by (auto simp: cnx_path_def XMPP_CONNECTION_def)
    then have "names_connection (xm_connections st) es ?c"
      using assms(1,2) by (fastforce simp: xmpp_ok_def names_connection_def)
    moreover have "refresh_due (xm_queue st) ?c \<Longrightarrow> refresh_due es ?c"
      using assms(2) other by (auto simp: refresh_due_def)
    ultimately show ?thesis using assms(1) f unfolding same by (auto simp: xmpp_ok_def)
  qed
qed

interpretation xmpp: event_system xmpp_step xmpp_enabled xmpp_ok
proof
  fix st e assume i: "xmpp_ok st" "xmpp_enabled st e"
  show "xmpp_ok (xmpp_step st e)"
  proof (cases e)
    case (Acs_writes cnx)
    then show ?thesis using write_ok [OF i(1)] i(2) by simp
  next
    case (Service_sets k enable jid)
    then show ?thesis using service_sets_ok [OF i(1)] i(2) by simp
  next
    case (Service_removes k)
    then show ?thesis using service_removes_ok [OF i(1)] i(2) by simp
  next
    case (Xmpp_deliver env)
    show ?thesis
    proof (cases "xm_queue st")
      case Nil
      then show ?thesis using i Xmpp_deliver by simp
    next
      case (Cons x es)
      have "good_xmpp env" using i(2) Xmpp_deliver by simp
      then show ?thesis
        using Cons Xmpp_deliver deliver_changed_ok [OF i(1)] deliver_updated_ok [OF i(1)] deliver_removed_ok [OF i(1)]
        by (cases x) auto
    qed
  qed
qed

subsection \<open>Properties\<close>


definition example_xmpp :: xmpp where
  "example_xmpp =
     \<lparr>ConnReqXMPPConnection = [], ConnReqJabberID = ''old'', xm_connections = (\<lambda>p. None), xm_subs = [],
      xm_removal_sub = False, xm_timer = Timer (Some 0), xm_queue = []\<rparr>"

definition example_xmpp_env :: xmpp_env where
  "example_xmpp_env = \<lparr>xe_set_ok = True, xe_get_ok = True, xe_sub_ok = True, xe_timer_new_ok = True, xe_timer_start_ok = True\<rparr>"


text \<open>A parameter that is set to a connection that does not exist keeps the identifier of the one before it.\<close>

theorem missing_connection_keeps_id:
  assumes "xm_connections st cnx = None" "cnx \<noteq> []"
  shows "ConnReqJabberID (connreq_xmpp_connection_changed env (Some (old, Some cnx)) st) = ConnReqJabberID st"
  using assms
  by (auto simp: connreq_xmpp_connection_changed_def update_connreq_jabber_id_def xmpp_connection_add_sub_def
      xmpp_connection_del_sub_def)

text \<open>A reference without the final dot is not recognised when its connection is removed.\<close>

theorem undotted_reference_kept:
  assumes "ConnReqXMPPConnection st = XMPP_CONNECTION @ dec_text i"
  shows "xmpp_connection_deleted_cb env (Some (i, Some XMPP_CONNECTION)) st = st"
  using assms by (simp add: xmpp_connection_deleted_cb_def is_current_cnx_def)

end
