(* ===== verification/Inform_Parameters.thy ===== *)
theory Inform_Parameters
  imports Get_Values
begin

section \<open>Parameters of an Inform (DM\_DeviceAdapter.c)\<close>

text \<open>
  Which parameters an Inform carries beside the forced ones. Each instance of
  Device.ManagementServer.InformParameter names a parameter (or a search path), the events for which it is sent, a
  periodic interval and a count of periodic informs. \<open>ip_env\<close> holds what the bus, the engine and libamxd answer,
  \<open>ip_state\<close> the caller's list, the number of strings that are allocated and two flags for a null pointer that is
  followed and for a string that is cleaned before it is initialised.
\<close>

subsection \<open>Model\<close>

record inform_entry =
  ie_Enable :: bool
  ie_EventList :: cstr
  ie_Interval :: u32
  ie_Count :: u32
  ie_ParameterName :: cstr

record ip_env =
  ip_entries :: "int \<times> inform_entry list option"
  ip_search :: "string \<Rightarrow> int \<times> (string \<times> string list) list option"
  ip_is_search_path :: "string \<Rightarrow> bool"
  ip_get_param :: "string \<Rightarrow> cstr"
  ip_values :: "string \<Rightarrow> pvs list option"
  ip_csv :: "string \<Rightarrow> string list"
  ip_contains_event :: "string list \<Rightarrow> string \<Rightarrow> bool"
  ip_PeriodicInformInterval :: "int \<times> cstr"
  ip_PeriodicInformCounter :: "int \<times> cstr"

record ip_state =
  ip_pvs :: "pvs list"
  ip_live :: nat
  ip_null_deref :: bool
  ip_uninit_clean :: bool

definition DM_ENG_EVENT_VALUE_CHANGE :: string where
  "DM_ENG_EVENT_VALUE_CHANGE = ''4 VALUE CHANGE''"

definition DM_ENG_Device_MatchingEvent :: "ip_env \<Rightarrow> cstr \<Rightarrow> string list \<Rightarrow> ip_state \<Rightarrow> bool \<times> ip_state" where
  "DM_ENG_Device_MatchingEvent env dmEvents eventList st =
     (if str_empty dmEvents then
        (case eventList of
           [] \<Rightarrow> (False, st\<lparr>ip_null_deref := True, ip_uninit_clean := True\<rparr>)
         | eventCode # rest \<Rightarrow>
             (\<not> (eventCode = DM_ENG_EVENT_VALUE_CHANGE \<and> rest = []), st\<lparr>ip_uninit_clean := True\<rparr>))
      else (list_ex (ip_contains_event env eventList) (ip_csv env (the dmEvents)), st))"

text \<open>The engine returns an allocated copy of a parameter of the management server.\<close>

definition allocated :: "cstr \<Rightarrow> nat" where
  "allocated v = (if v = None then 0 else 1)"

definition DM_ENG_Device_MatchingInterval :: "ip_env \<Rightarrow> u32 \<Rightarrow> ip_state \<Rightarrow> bool \<times> ip_state" where
  "DM_ENG_Device_MatchingInterval env interval st =
     (if interval = 0 then (True, st)
      else
        (case ip_PeriodicInformInterval env of
           (rc, v) \<Rightarrow>
             (let st1 = st\<lparr>ip_live := ip_live st + allocated v\<rparr>;
                  ret = (if rc \<noteq> 0 \<or> str_empty v then False else word_of_int (atoi (the v)) = interval)
              in (ret, st1\<lparr>ip_live := ip_live st1 - allocated v\<rparr>))))"

definition DM_ENG_Device_MatchingCount :: "ip_env \<Rightarrow> u32 \<Rightarrow> ip_state \<Rightarrow> bool \<times> ip_state" where
  "DM_ENG_Device_MatchingCount env every st =
     (if every = 0 then (True, st)
      else
        (case ip_PeriodicInformCounter env of
           (rc, v) \<Rightarrow>
             (let st1 = st\<lparr>ip_live := ip_live st + allocated v\<rparr> in
              if rc \<noteq> 0 \<or> str_empty v then (False, st1)
              else (let counter = word_of_int (atoi (the v)) + 1 in (counter mod every = 0, st1)))))"

text \<open>The first value that the engine returns for a path is added to the list.\<close>

definition add_inform_value :: "ip_env \<Rightarrow> string \<Rightarrow> pvs list \<Rightarrow> pvs list" where
  "add_inform_value env path l =
     (case ip_values env path of None \<Rightarrow> l | Some vs \<Rightarrow> l @ take 1 vs)"

definition add_parameter_values :: "ip_env \<Rightarrow> cstr \<Rightarrow> ip_state \<Rightarrow> ip_state" where
  "add_parameter_values env name st =
     (case name of
        None \<Rightarrow> st
      | Some parameterName \<Rightarrow>
          if ip_is_search_path env parameterName then
            (case ip_search env parameterName of
               (rc, search) \<Rightarrow>
                 if rc \<noteq> 0 \<or> search = None then st
                 else st\<lparr>ip_pvs :=
                        fold (\<lambda>(s, kvs). fold (\<lambda>kv. add_inform_value env (s @ kv)) kvs) (the search) (ip_pvs st)\<rparr>)
          else if ip_get_param env parameterName = None then st
          else st\<lparr>ip_pvs := add_inform_value env parameterName (ip_pvs st)\<rparr>)"

definition inform_entry_step :: "ip_env \<Rightarrow> string list \<Rightarrow> inform_entry \<Rightarrow> ip_state \<Rightarrow> ip_state" where
  "inform_entry_step env eventList value st =
     (if \<not> ie_Enable value then st
      else (case DM_ENG_Device_MatchingEvent env (ie_EventList value) eventList st of
              (ev, st1) \<Rightarrow>
                if \<not> ev then st1
                else (case DM_ENG_Device_MatchingInterval env (ie_Interval value) st1 of
                        (iv, st2) \<Rightarrow>
                          if \<not> iv then st2
                          else (case DM_ENG_Device_MatchingCount env (ie_Count value) st2 of
                                  (cn, st3) \<Rightarrow>
                                    if \<not> cn then st3
                                    else add_parameter_values env (ie_ParameterName value) st3))))"

definition DM_ENG_Device_GetInformParameterValues :: "ip_env \<Rightarrow> string list \<Rightarrow> ip_state \<Rightarrow> dm_error \<times> ip_state" where
  "DM_ENG_Device_GetInformParameterValues env eventList st =
     (case ip_entries env of
        (rc, values) \<Rightarrow>
          if rc \<noteq> 0 \<or> values = None then (DM_ENG_INTERNAL_ERROR, st\<lparr>ip_pvs := []\<rparr>)
          else (DM_OK, fold (inform_entry_step env eventList) (the values) st))"

subsection \<open>The parameters that are due\<close>

definition event_due :: "ip_env \<Rightarrow> string list \<Rightarrow> inform_entry \<Rightarrow> bool" where
  "event_due env eventList e =
     (if str_empty (ie_EventList e) then eventList \<noteq> [DM_ENG_EVENT_VALUE_CHANGE]
      else (\<exists>d\<in>set (ip_csv env (the (ie_EventList e))). ip_contains_event env eventList d))"

definition interval_due :: "ip_env \<Rightarrow> inform_entry \<Rightarrow> bool" where
  "interval_due env e \<longleftrightarrow> ie_Interval e = 0 \<or>
     (\<exists>s. ip_PeriodicInformInterval env = (0, Some s) \<and> s \<noteq> [] \<and> word_of_int (atoi s) = ie_Interval e)"

definition count_due :: "ip_env \<Rightarrow> inform_entry \<Rightarrow> bool" where
  "count_due env e \<longleftrightarrow> ie_Count e = 0 \<or>
     (\<exists>s. ip_PeriodicInformCounter env = (0, Some s) \<and> s \<noteq> [] \<and> (word_of_int (atoi s) + 1) mod ie_Count e = 0)"

definition counter_read :: "ip_env \<Rightarrow> string list \<Rightarrow> inform_entry \<Rightarrow> bool" where
  "counter_read env eventList e \<longleftrightarrow>
     ie_Enable e \<and> event_due env eventList e \<and> interval_due env e \<and> ie_Count e \<noteq> 0"

definition inform_paths :: "ip_env \<Rightarrow> inform_entry \<Rightarrow> string list" where
  "inform_paths env e =
     (case ie_ParameterName e of
        None \<Rightarrow> []
      | Some n \<Rightarrow>
          if ip_is_search_path env n
          then (case ip_search env n of
                  (rc, Some objs) \<Rightarrow> if rc = 0 then concat (map (\<lambda>(s, kvs). map ((@) s) kvs) objs) else []
                | (rc, None) \<Rightarrow> [])
          else if ip_get_param env n = None then [] else [n])"

definition first_value :: "ip_env \<Rightarrow> string \<Rightarrow> pvs list" where
  "first_value env p = (case ip_values env p of None \<Rightarrow> [] | Some vs \<Rightarrow> take 1 vs)"

lemma add_inform_value_append: "add_inform_value env p l = l @ first_value env p"
  by (simp add: add_inform_value_def first_value_def split: option.splits)

lemma fold_add_inform_value:
  "fold (\<lambda>kv. add_inform_value env (f kv)) kvs l = l @ concat (map (\<lambda>kv. first_value env (f kv)) kvs)"
  by (induction kvs arbitrary: l) (simp_all add: add_inform_value_append)

lemma fold_add_objects:
  "fold (\<lambda>(s, kvs). fold (\<lambda>kv. add_inform_value env (s @ kv)) kvs) objs l =
   l @ concat (map (first_value env) (concat (map (\<lambda>(s, kvs). map ((@) s) kvs) objs)))"
  by (induction objs arbitrary: l) (auto simp: fold_add_inform_value comp_def)

lemma add_parameter_values_paths:
  "add_parameter_values env (ie_ParameterName e) st =
   st\<lparr>ip_pvs := ip_pvs st @ concat (map (first_value env) (inform_paths env e))\<rparr>"
  by (auto simp: add_parameter_values_def inform_paths_def fold_add_objects add_inform_value_append
      split: option.splits prod.splits)

lemma matching_event_due:
  assumes "eventList \<noteq> []"
  shows "DM_ENG_Device_MatchingEvent env (ie_EventList e) eventList st =
    (event_due env eventList e, st\<lparr>ip_uninit_clean := ip_uninit_clean st \<or> str_empty (ie_EventList e)\<rparr>)"
  using assms by (cases eventList) (auto simp: DM_ENG_Device_MatchingEvent_def event_due_def list_ex_iff)

lemma matching_interval_due:
  "DM_ENG_Device_MatchingInterval env (ie_Interval e) st = (interval_due env e, st)"
  by (cases "ip_PeriodicInformInterval env"; cases "snd (ip_PeriodicInformInterval env)")
    (auto simp: DM_ENG_Device_MatchingInterval_def interval_due_def)

lemma matching_count_due:
  "DM_ENG_Device_MatchingCount env (ie_Count e) st =
   (count_due env e,
    st\<lparr>ip_live := ip_live st + (if ie_Count e = 0 then 0 else allocated (snd (ip_PeriodicInformCounter env)))\<rparr>)"
  by (cases "ip_PeriodicInformCounter env"; cases "snd (ip_PeriodicInformCounter env)")
    (auto simp: DM_ENG_Device_MatchingCount_def count_due_def Let_def)

lemma inform_entry_step_cases:
  assumes "eventList \<noteq> []"
  shows "inform_entry_step env eventList e st =
    st\<lparr>ip_pvs := ip_pvs st @ (if ie_Enable e \<and> event_due env eventList e \<and> interval_due env e \<and> count_due env e
                             then concat (map (first_value env) (inform_paths env e)) else []),
       ip_live := ip_live st + (if counter_read env eventList e
                                then allocated (snd (ip_PeriodicInformCounter env)) else 0),
       ip_uninit_clean := ip_uninit_clean st \<or> (ie_Enable e \<and> str_empty (ie_EventList e))\<rparr>"
  using assms
  by (simp add: inform_entry_step_def matching_event_due matching_interval_due matching_count_due
      add_parameter_values_paths counter_read_def)

lemma inform_loop:
  assumes "eventList \<noteq> []"
  shows "fold (inform_entry_step env eventList) es st =
    st\<lparr>ip_pvs := ip_pvs st @ concat (map (\<lambda>e. concat (map (first_value env) (inform_paths env e)))
         (filter (\<lambda>e. ie_Enable e \<and> event_due env eventList e \<and> interval_due env e \<and> count_due env e) es)),
       ip_live := ip_live st + length (filter (counter_read env eventList) es)
                               * allocated (snd (ip_PeriodicInformCounter env)),
       ip_uninit_clean := ip_uninit_clean st \<or> (\<exists>e\<in>set es. ie_Enable e \<and> str_empty (ie_EventList e))\<rparr>"
  by (induction es arbitrary: st) (auto simp: inform_entry_step_cases [OF assms] add_mult_distrib)

subsection \<open>Correctness\<close>

definition example_entries :: "inform_entry list" where
  "example_entries =
     [\<lparr>ie_Enable = True, ie_EventList = Some ''2 PERIODIC,1 BOOT'', ie_Interval = 0, ie_Count = 3,
        ie_ParameterName = Some ''Device.Time.CurrentLocalTime''\<rparr>,
      \<lparr>ie_Enable = False, ie_EventList = None, ie_Interval = 0, ie_Count = 0, ie_ParameterName = Some ''Device.A.B''\<rparr>,
      \<lparr>ie_Enable = True, ie_EventList = Some ''1 BOOT'', ie_Interval = 0, ie_Count = 0,
        ie_ParameterName = Some ''Device.A.B''\<rparr>,
      \<lparr>ie_Enable = True, ie_EventList = None, ie_Interval = 300, ie_Count = 0,
        ie_ParameterName = Some ''Device.IP.*.Status''\<rparr>]"

definition example_ip_env :: ip_env where
  "example_ip_env = \<lparr>ip_entries = (0, Some example_entries),
     ip_search = (\<lambda>_. (0, Some [(''Device.IP.1.'', [''Status'']), (''Device.IP.2.'', [''Status''])])),
     ip_is_search_path = (\<lambda>p. CHR ''*'' \<in> set p), ip_get_param = Some,
     ip_values = (\<lambda>p. Some [\<lparr>pv_name = Some p, pv_type = DM_ENG_ParameterType_STRING, pv_value = Some ''v''\<rparr>]),
     ip_csv = split_fields (CHR '',''), ip_contains_event = (\<lambda>es e. e \<in> set es),
     ip_PeriodicInformInterval = (0, Some ''300''), ip_PeriodicInformCounter = (0, Some ''5'')\<rparr>"

definition empty_ip_state :: ip_state where
  "empty_ip_state = \<lparr>ip_pvs = [], ip_live = 0, ip_null_deref = False, ip_uninit_clean = False\<rparr>"

text \<open>Property C12. An Inform is given, in the order of the InformParameter instances and after what the list
  holds already, the values of exactly those instances that are enabled, name one of its events (or none, unless it
  is the lone event of a value change), have the present periodic interval or none and whose count divides the number
  of the current periodic inform or is 0; a search path stands for every parameter the bus finds. Nothing else of an
  instance that is not due is looked at.\<close>

theorem inform_carries_due_parameters:
  assumes "ip_entries env = (0, Some es)" "eventList \<noteq> []"
  shows "map_prod id ip_pvs (DM_ENG_Device_GetInformParameterValues env eventList st) =
    (DM_OK, ip_pvs st @ concat (map (\<lambda>e. concat (map (first_value env) (inform_paths env e)))
       (filter (\<lambda>e. ie_Enable e \<and> event_due env eventList e \<and> interval_due env e \<and> count_due env e) es)))"
  using assms by (simp add: DM_ENG_Device_GetInformParameterValues_def inform_loop)

theorem inform_carries_due_parameters_witness:
  "map pv_name (ip_pvs (snd (DM_ENG_Device_GetInformParameterValues example_ip_env [''2 PERIODIC''] empty_ip_state))) =
     [Some ''Device.Time.CurrentLocalTime'', Some ''Device.IP.1.Status'', Some ''Device.IP.2.Status'']"
proof -
  have e: "ip_entries example_ip_env = (0, Some example_entries)" by (simp add: example_ip_env_def)
  have n: "[''2 PERIODIC''] \<noteq> []" by simp
  have c: "atoi ''5'' = 5" "atoi ''300'' = 300" by code_simp+
  have s: "split_fields (CHR '','') ''2 PERIODIC,1 BOOT'' = [''2 PERIODIC'', ''1 BOOT'']"
    "split_fields (CHR '','') ''1 BOOT'' = [''1 BOOT'']" by code_simp+
  show ?thesis
    using arg_cong [where f = "\<lambda>p. map pv_name (snd p)",
        OF inform_carries_due_parameters [OF e n, of empty_ip_state]]
    by (simp add: example_entries_def example_ip_env_def empty_ip_state_def event_due_def interval_due_def
        count_due_def inform_paths_def first_value_def DM_ENG_EVENT_VALUE_CHANGE_def c s)
qed

lemma one_multiple:
  fixes c n :: nat
  assumes "0 < n"
  shows "\<exists>!k. k < n \<and> (c + k) mod n = 0"
proof (rule ex1I [of _ "(n - c mod n) mod n"])
  have "(c + (n - c mod n)) mod n = (c mod n + (n - c mod n)) mod n" by (simp add: mod_add_left_eq)
  with assms show "(n - c mod n) mod n < n \<and> (c + (n - c mod n) mod n) mod n = 0" by (simp add: mod_add_right_eq)
next
  fix k assume k: "k < n \<and> (c + k) mod n = 0"
  then have z: "(c mod n + k) mod n = 0" by (simp add: mod_add_left_eq)
  have "c mod n < n" using assms by simp
  with k have "c mod n + k < 2 * n" by linarith
  moreover obtain q where q: "c mod n + k = n * q" using z by (auto simp: mod_eq_0_iff_dvd)
  ultimately have "q < 2" using assms by simp
  then have "q = 0 \<or> q = 1" by linarith
  then show "k = (n - c mod n) mod n" using q k by (auto simp: mod_less)
qed

lemma of_nat_mod_u32:
  assumes "a < 2 ^ 32" "0 < n" "n < 2 ^ 32"
  shows "(of_nat a mod of_nat n :: u32) = 0 \<longleftrightarrow> a mod n = 0"
proof -
  have "unat (of_nat a mod of_nat n :: u32) = a mod n"
    using assms by (simp add: unat_mod unat_of_nat take_bit_nat_eq_self)
  then show ?thesis by (metis unat_0 unat_eq_zero)
qed



text \<open>The copy of the periodic inform counter is never released: each Inform loses one string for every instance whose
  count is looked at. Where an instance has no event list, a string and a list are cleaned that were not
  initialised.\<close>

theorem inform_counter_leaked:
  assumes "ip_entries env = (0, Some es)" "eventList \<noteq> []" "ip_PeriodicInformCounter env = (0, Some s)"
  shows "ip_live (snd (DM_ENG_Device_GetInformParameterValues env eventList st)) =
    ip_live st + length (filter (counter_read env eventList) es)"
  using assms by (simp add: DM_ENG_Device_GetInformParameterValues_def inform_loop allocated_def)

theorem inform_cleans_uninitialised:
  assumes "ip_entries env = (0, Some es)" "eventList \<noteq> []" "\<not> ip_uninit_clean st"
  shows "ip_uninit_clean (snd (DM_ENG_Device_GetInformParameterValues env eventList st)) \<longleftrightarrow>
    (\<exists>e\<in>set es. ie_Enable e \<and> str_empty (ie_EventList e))"
  using assms by (simp add: DM_ENG_Device_GetInformParameterValues_def inform_loop)

end
