(* ===== verification/Xml_Bodies.thy ===== *)
theory Xml_Bodies
  imports Acs_Notifications Get_Values
begin

section \<open>SOAP bodies of the whole data model (DM\_DeviceAdapter.c, DM\_DeviceAdapter\_prpl.c)\<close>

text \<open>
  GetParameterValues and GetParameterAttributes of the root path are answered with XML that is built while the bus
  table is read. An \<open>xml\<close> is a node of libxml2 with its attributes, children and text; adding a child puts it last.
  \<open>xmlNewChild\<close> reads its content as character data with entity references; what it makes of a text is \<open>xb_content\<close>,
  of which only the documented part is used: a text without an ampersand is kept. \<open>xb_get\<close> is the answer of the bus
  for the whole tree, \<open>xb_described\<close> and \<open>xb_supported\<close> tell whether the bus describes an object, and \<open>xb_cache\<close> is the
  engine's cache of attributes. The counters are 32-bit and printed as signed numbers.
\<close>

subsection \<open>Nodes\<close>

datatype xml = Elem string "(string \<times> string) list" "xml list" string

record xb_env = gpv_env +
  xb_get :: "bus_status \<times> get_response option"
  xb_described :: "string \<Rightarrow> bool"
  xb_has_supported :: "string \<Rightarrow> bool"
  xb_content :: "string \<Rightarrow> string"
  xb_cache :: "string \<Rightarrow> DM_ENG_NotificationMode \<times> string list option"
  xb_mode_text :: "DM_ENG_NotificationMode \<Rightarrow> string"

fun xml_add_child :: "xml \<Rightarrow> xml \<Rightarrow> xml" where
  "xml_add_child c (Elem tag attrs children txt) = Elem tag attrs (children @ [c]) txt"

fun xmlNewProp :: "string \<Rightarrow> string \<Rightarrow> xml \<Rightarrow> xml" where
  "xmlNewProp k v (Elem tag attrs children txt) = Elem tag (attrs @ [(k, v)]) children txt"

definition new_node :: "'a xb_env_scheme \<Rightarrow> string \<Rightarrow> cstr \<Rightarrow> xml" where
  "new_node env tag content = Elem tag [] [] (case content of None \<Rightarrow> [] | Some c \<Rightarrow> xb_content env c)"

subsection \<open>Values\<close>

definition amx_type_to_xml_type :: "amxc_var_id \<Rightarrow> string" where
  "amx_type_to_xml_type type =
     (case type of
        AMXC_VAR_ID_INT8 \<Rightarrow> ''xsd:int''
      | AMXC_VAR_ID_INT16 \<Rightarrow> ''xsd:int''
      | AMXC_VAR_ID_INT32 \<Rightarrow> ''xsd:int''
      | AMXC_VAR_ID_INT64 \<Rightarrow> ''xsd:int''
      | AMXC_VAR_ID_UINT8 \<Rightarrow> ''xsd:unsignedInt''
      | AMXC_VAR_ID_UINT16 \<Rightarrow> ''xsd:unsignedInt''
      | AMXC_VAR_ID_UINT32 \<Rightarrow> ''xsd:unsignedInt''
      | AMXC_VAR_ID_UINT64 \<Rightarrow> ''xsd:unsignedInt''
      | AMXC_VAR_ID_CSTRING \<Rightarrow> ''xsd:string''
      | AMXC_VAR_ID_CSV_STRING \<Rightarrow> ''xsd:string''
      | AMXC_VAR_ID_SSV_STRING \<Rightarrow> ''xsd:string''
      | AMXC_VAR_ID_TIMESTAMP \<Rightarrow> ''xsd:dateTime''
      | AMXC_VAR_ID_BOOL \<Rightarrow> ''xsd:boolean''
      | _ \<Rightarrow> ''xsd:any'')"

definition value_node :: "'a xb_env_scheme \<Rightarrow> string \<Rightarrow> cstr \<Rightarrow> string \<Rightarrow> xml" where
  "value_node env name value type =
     xml_add_child
       (xmlNewProp ''xsi:type'' type
          (new_node env ''Value'' (Some (case value of None \<Rightarrow> [] | Some v \<Rightarrow> v))))
       (xml_add_child (new_node env ''Name'' (Some name)) (new_node env ''ParameterValueStruct'' None))"

definition xml_add_parameter_value_struct ::
  "'a xb_env_scheme \<Rightarrow> string \<Rightarrow> cstr \<Rightarrow> string \<Rightarrow> xml \<Rightarrow> xml" where
  "xml_add_parameter_value_struct env name value type node = xml_add_child (value_node env name value type) node"

definition value_of :: "params_table \<Rightarrow> string \<Rightarrow> cstr" where
  "value_of params n = (case map_of params n of None \<Rightarrow> None | Some v \<Rightarrow> av_text v)"

text \<open>The two nested loops of both builds, which differ in the question whether an object is described and in
  the place of a parameter's type.\<close>

definition add_values ::
  "xb_env \<Rightarrow> (string \<Rightarrow> string \<Rightarrow> amxc_var_id) \<Rightarrow> string \<Rightarrow> params_table \<Rightarrow> xml \<times> u32 \<Rightarrow> xml \<times> u32" where
  "add_values env type_of key params =
     fold (\<lambda>param_key (plist, param_count).
        (xml_add_parameter_value_struct env (shown_name (gpv_env.truncate env) ''Device.'' (key @ param_key))
           (value_of params param_key) (amx_type_to_xml_type (type_of key param_key)) plist,
         param_count + 1))
       (sorted_keys params)"

definition values_body ::
  "xb_env \<Rightarrow> (string \<Rightarrow> bool) \<Rightarrow> (string \<Rightarrow> string \<Rightarrow> amxc_var_id) \<Rightarrow> get_response \<Rightarrow> xml \<Rightarrow> xml" where
  "values_body env described type_of get_result node_body =
     (let rsp_node = new_node env ''cwmp:GetParameterValuesResponse'' None;
          plist_node = new_node env ''ParameterList'' None
      in case fold (\<lambda>key acc.
                 (let param_htable = params_of get_result key in
                  if param_htable = [] \<or> \<not> described key then acc
                  else add_values env type_of key param_htable acc))
               (sorted_keys get_result) (plist_node, 0) of
           (plist, param_count) \<Rightarrow>
             xml_add_child
               (xml_add_child
                  (xmlNewProp ''soap-enc:arrayType''
                     (''cwmp:ParameterValueStruct['' @ int_text (sint param_count) @ '']'') plist) rsp_node)
               node_body)"

definition build_gpv_all_body :: "xb_env \<Rightarrow> xml \<Rightarrow> get_response \<Rightarrow> xml" where
  "build_gpv_all_body env node_body get_result =
     values_body env (xb_described env) (described_type (gpv_env.truncate env)) get_result node_body"

definition build_gpv_all_body_prpl :: "xb_env \<Rightarrow> xml \<Rightarrow> get_response \<Rightarrow> xml" where
  "build_gpv_all_body_prpl env node_body get_result =
     values_body env (xb_has_supported env)
       (\<lambda>key n. case supported_type (gpv_env.truncate env) key n of None \<Rightarrow> AMXC_VAR_ID_other | Some t \<Rightarrow> t)
       get_result node_body"

definition whole_tree :: "xb_env \<Rightarrow> (xml \<Rightarrow> get_response \<Rightarrow> xml) \<Rightarrow> xml \<Rightarrow> dm_error \<times> xml" where
  "whole_tree env build node_body =
     (let path = ''Device.'' in
      if \<not> gv_allowed env path then (DM_ENG_INVALID_PARAMETER_NAME, node_body)
      else
        (case xb_get env of
           (ret, get_result) \<Rightarrow>
             (if ret \<noteq> AMXB_STATUS_OK \<or> get_result = None then
                (if ret = AMXB_ERROR_NOT_SUPPORTED_SCHEME then (DM_OK, node_body)
                 else (DM_ENG_INVALID_PARAMETER_NAME, node_body))
              else (DM_OK, build node_body (gv_filter env path (the get_result))))))"

definition DM_ENG_Device_GetParameterValuesAll :: "xb_env \<Rightarrow> xml \<Rightarrow> dm_error \<times> xml" where
  "DM_ENG_Device_GetParameterValuesAll env node_body = whole_tree env (build_gpv_all_body env) node_body"

definition GetParameterValuesAll_prpl :: "xb_env \<Rightarrow> xml \<Rightarrow> dm_error \<times> xml" where
  "GetParameterValuesAll_prpl env node_body = whole_tree env (build_gpv_all_body_prpl env) node_body"

subsection \<open>Attributes\<close>

definition attribute_node ::
  "'a xb_env_scheme \<Rightarrow> string \<Rightarrow> DM_ENG_NotificationMode \<Rightarrow> string list option \<Rightarrow> xml" where
  "attribute_node env name nm al =
     (let pas_node = xml_add_child (new_node env ''Notification'' (Some (xb_mode_text env nm)))
            (xml_add_child (new_node env ''Name'' (Some name)) (new_node env ''ParameterAttributeStruct'' None));
          (al_node, al_count) =
            fold (\<lambda>a (n, c). (xml_add_child (new_node env ''string'' (Some a)) n, c + 1))
              (case al of None \<Rightarrow> [] | Some as \<Rightarrow> as) (new_node env ''AccessList'' (Some ''''), 0 :: u32)
      in xml_add_child (xmlNewProp ''soap-enc:arrayType'' (''string['' @ int_text (sint al_count) @ '']'') al_node) pas_node)"

definition xml_add_parameter_attribute_struct ::
  "'a xb_env_scheme \<Rightarrow> string \<Rightarrow> DM_ENG_NotificationMode \<Rightarrow> string list option \<Rightarrow> xml \<Rightarrow> xml" where
  "xml_add_parameter_attribute_struct env name nm al node = xml_add_child (attribute_node env name nm al) node"

definition reported_mode :: "DM_ENG_NotificationMode \<Rightarrow> DM_ENG_NotificationMode" where
  "reported_mode nm = (if nm = DM_ENG_NotificationMode_FORCED then DM_ENG_NotificationMode_ACTIVE else nm)"

definition add_attributes :: "xb_env \<Rightarrow> string \<Rightarrow> params_table \<Rightarrow> xml \<times> u32 \<Rightarrow> xml \<times> u32" where
  "add_attributes env key params =
     fold (\<lambda>param_key (plist, param_count).
        (case xb_cache env (key @ param_key) of
           (nm, al) \<Rightarrow>
             (xml_add_parameter_attribute_struct env
                (shown_name (gpv_env.truncate env) ''Device.'' (key @ param_key)) (reported_mode nm) al plist,
              param_count + 1)))
       (map fst params)"

definition build_gpa_all_body :: "xb_env \<Rightarrow> xml \<Rightarrow> get_response \<Rightarrow> xml" where
  "build_gpa_all_body env node_body get_result =
     (let rsp_node = new_node env ''cwmp:GetParameterAttributesResponse'' None;
          plist_node = new_node env ''ParameterList'' None
      in case fold (\<lambda>(key, htable) acc. if htable = [] then acc else add_attributes env key htable acc)
               get_result (plist_node, 0) of
           (plist, param_count) \<Rightarrow>
             xml_add_child
               (xml_add_child
                  (xmlNewProp ''soap-enc:arrayType''
                     (''cwmp:ParameterAttributeStruct['' @ int_text (sint param_count) @ '']'') plist) rsp_node)
               node_body)"

definition DM_ENG_Device_GetParameterAttributesAll :: "xb_env \<Rightarrow> xml \<Rightarrow> dm_error \<times> xml" where
  "DM_ENG_Device_GetParameterAttributesAll env node_body = whole_tree env (build_gpa_all_body env) node_body"

subsection \<open>Reading a body back\<close>

text \<open>What a reader of the message makes of it: the items of an array are believed when the announced number is
  right.\<close>

definition soap_items :: "string \<Rightarrow> xml \<Rightarrow> xml list option" where
  "soap_items item node =
     (case node of Elem _ attrs children _ \<Rightarrow>
        if attrs = [(''soap-enc:arrayType'', item @ ''['' @ dec_text (length children) @ '']'')] then Some children
        else None)"

definition read_value :: "xml \<Rightarrow> (string \<times> string \<times> string) option" where
  "read_value node =
     (case node of
        Elem tag _ [Elem n _ _ name, Elem v [(a, type)] _ val] _ \<Rightarrow>
          if tag = ''ParameterValueStruct'' \<and> n = ''Name'' \<and> v = ''Value'' \<and> a = ''xsi:type''
          then Some (name, val, type) else None
      | _ \<Rightarrow> None)"

definition read_attribute :: "xml \<Rightarrow> (string \<times> string \<times> string list) option" where
  "read_attribute node =
     (case node of
        Elem tag _ [Elem n _ _ name, Elem m _ _ mode, Elem l attrs items _] _ \<Rightarrow>
          if tag = ''ParameterAttributeStruct'' \<and> n = ''Name'' \<and> m = ''Notification'' \<and> l = ''AccessList''
          then map_option (\<lambda>is. (name, mode, map (\<lambda>i. case i of Elem _ _ _ s \<Rightarrow> s) is))
                 (soap_items ''string'' (Elem l attrs items []))
          else None
      | _ \<Rightarrow> None)"

definition read_list :: "string \<Rightarrow> string \<Rightarrow> (xml \<Rightarrow> 'a option) \<Rightarrow> xml \<Rightarrow> 'a list option" where
  "read_list tag item rd node =
     (case node of
        Elem t _ [Elem pl attrs children txt] _ \<Rightarrow>
          if t = tag \<and> pl = ''ParameterList''
          then Option.bind (soap_items item (Elem pl attrs children txt)) (\<lambda>items. those (map rd items)) else None
      | _ \<Rightarrow> None)"

lemma sint_of_nat_u32: "n < 2 ^ 31 \<Longrightarrow> sint (of_nat n :: u32) = int n"
  by (simp add: signed_of_nat signed_take_bit_int_eq_self)

lemma int_text_count: "n < 2 ^ 31 \<Longrightarrow> int_text (sint (of_nat n :: u32)) = dec_text n"
  by (simp add: sint_of_nat_u32 int_text_def)

lemma fold_children:
  "fold (\<lambda>x (p, n). (xml_add_child (f x) p, n + 1)) xs (Elem t a ch tx, n) =
   (Elem t a (ch @ map f xs) tx, n + of_nat (length xs))"
  by (induction xs arbitrary: ch n) (simp_all add: add_ac)

text \<open>A step appends the nodes that \<open>g\<close> lists and counts them.\<close>

definition appends :: "(xml \<times> u32 \<Rightarrow> xml \<times> u32) \<Rightarrow> xml list \<Rightarrow> bool" where
  "appends step new \<longleftrightarrow> (\<forall>t a ch tx n. step (Elem t a ch tx, n) = (Elem t a (ch @ new) tx, n + of_nat (length new)))"

lemma appends_fold:
  assumes "\<And>x. x \<in> set xs \<Longrightarrow> appends (step x) (g x)"
  shows "appends (fold step xs) (concat (map g xs))"
  using assms
proof (induction xs)
  case (Cons x xs)
  then have "appends (step x) (g x)" "appends (fold step xs) (concat (map g xs))" by auto
  then show ?case by (simp add: appends_def add_ac)
qed (simp add: appends_def)

lemma appends_add_values:
  "appends (add_values env type_of key params)
     (map (\<lambda>n. value_node env (shown_name (gpv_env.truncate env) ''Device.'' (key @ n)) (value_of params n)
                 (amx_type_to_xml_type (type_of key n))) (sorted_keys params))"
  by (simp add: appends_def add_values_def xml_add_parameter_value_struct_def fold_children)

lemma appends_add_attributes:
  "appends (add_attributes env key params)
     (map (\<lambda>n. attribute_node env (shown_name (gpv_env.truncate env) ''Device.'' (key @ n))
                 (reported_mode (fst (xb_cache env (key @ n)))) (snd (xb_cache env (key @ n)))) (map fst params))"
  by (simp add: appends_def add_attributes_def xml_add_parameter_attribute_struct_def case_prod_unfold
      fold_children [unfolded case_prod_unfold])

lemma those_map_Some: "(\<And>x. x \<in> set xs \<Longrightarrow> f x = Some (g x)) \<Longrightarrow> those (map f xs) = Some (map g xs)"
  by (induction xs) auto

lemma read_list_body:
  assumes "appends step new" "step (new_node env ''ParameterList'' None, 0) = (plist, n)" "length new < 2 ^ 31"
  shows "read_list tag item rd
      (xml_add_child (xmlNewProp ''soap-enc:arrayType'' (item @ ''['' @ int_text (sint n) @ '']'') plist)
        (new_node env tag None)) = those (map rd new)"
  using assms by (auto simp: appends_def new_node_def read_list_def soap_items_def int_text_count)

subsection \<open>Correctness\<close>

definition plain :: "string \<Rightarrow> bool" where
  "plain s \<longleftrightarrow> CHR ''&'' \<notin> set s"

definition keeps_plain :: "xb_env \<Rightarrow> bool" where
  "keeps_plain env \<longleftrightarrow> (\<forall>s. plain s \<longrightarrow> xb_content env s = s)"

definition listed_values ::
  "xb_env \<Rightarrow> (string \<Rightarrow> bool) \<Rightarrow> (string \<Rightarrow> string \<Rightarrow> amxc_var_id) \<Rightarrow> get_response \<Rightarrow> (string \<times> string \<times> string) list" where
  "listed_values env described type_of t =
     concat (map (\<lambda>key. map (\<lambda>n. (shown_name (gpv_env.truncate env) ''Device.'' (key @ n),
                               (case value_of (params_of t key) n of None \<Rightarrow> [] | Some v \<Rightarrow> v),
                               amx_type_to_xml_type (type_of key n)))
                          (sorted_keys (params_of t key)))
       (filter described (sorted_keys t)))"

lemma read_value_node:
  assumes "keeps_plain env" "plain name" "plain (case value of None \<Rightarrow> [] | Some v \<Rightarrow> v)"
  shows "read_value (value_node env name value type) = Some (name, case value of None \<Rightarrow> [] | Some v \<Rightarrow> v, type)"
  using assms by (simp add: keeps_plain_def value_node_def new_node_def read_value_def)

definition value_nodes ::
  "xb_env \<Rightarrow> (string \<Rightarrow> bool) \<Rightarrow> (string \<Rightarrow> string \<Rightarrow> amxc_var_id) \<Rightarrow> get_response \<Rightarrow> string \<Rightarrow> xml list" where
  "value_nodes env described type_of t key =
     (if described key
      then map (\<lambda>n. value_node env (shown_name (gpv_env.truncate env) ''Device.'' (key @ n)) (value_of (params_of t key) n)
                 (amx_type_to_xml_type (type_of key n))) (sorted_keys (params_of t key))
      else [])"

lemma values_body_reads:
  assumes "keeps_plain env" "length (listed_values env described type_of t) < 2 ^ 31"
    and pl: "\<forall>(name, val, _)\<in>set (listed_values env described type_of t). plain name \<and> plain val"
  shows "\<exists>r. values_body env described type_of t (Elem bt ba bch btx) = Elem bt ba (bch @ [r]) btx \<and>
    read_list ''cwmp:GetParameterValuesResponse'' ''cwmp:ParameterValueStruct'' read_value r =
      Some (listed_values env described type_of t)"
proof -
  let ?step = "\<lambda>key acc. (let param_htable = params_of t key in
     if param_htable = [] \<or> \<not> described key then acc else add_values env type_of key param_htable acc)"
  let ?new = "concat (map (value_nodes env described type_of t) (sorted_keys t))"
  let ?vals = "\<lambda>key. map (\<lambda>n. (shown_name (gpv_env.truncate env) ''Device.'' (key @ n),
                               (case value_of (params_of t key) n of None \<Rightarrow> [] | Some v \<Rightarrow> v),
                               amx_type_to_xml_type (type_of key n)))
                          (sorted_keys (params_of t key))"
  have "appends (?step key) (value_nodes env described type_of t key)" for key
    using appends_add_values [of env type_of key "params_of t key"]
    by (auto simp: appends_def value_nodes_def sorted_keys_def Let_def)
  then have ap: "appends (fold ?step (sorted_keys t)) ?new" by (intro appends_fold)
  obtain plist n where f: "fold ?step (sorted_keys t) (new_node env ''ParameterList'' None, 0) = (plist, n)"
    by fastforce
  have "map read_value (concat (map (value_nodes env described type_of t) ks)) =
      map Some (concat (map ?vals (filter described ks)))"
    if "\<forall>(name, val, _)\<in>set (concat (map ?vals (filter described ks))). plain name \<and> plain val" for ks
    using that by (induction ks) (auto simp: value_nodes_def read_value_node [OF assms(1)])
  from this [OF pl [unfolded listed_values_def]]
  have nodes: "map read_value ?new = map Some (listed_values env described type_of t)"
    by (simp only: listed_values_def)
  then have len: "length ?new = length (listed_values env described type_of t)" by (rule map_eq_imp_length_eq)
  have "those (map read_value ?new) = Some (listed_values env described type_of t)"
    unfolding nodes using those_map_Some [of "listed_values env described type_of t" Some id] by simp
  with read_list_body [OF ap f, of "''cwmp:GetParameterValuesResponse''" "''cwmp:ParameterValueStruct''" read_value]
    len assms(2) f show ?thesis
    by (simp add: values_body_def)
qed


definition sends_tree :: "xb_env \<Rightarrow> get_response \<Rightarrow> bool" where
  "sends_tree env t \<longleftrightarrow> gv_allowed env ''Device.'' \<and>
     (\<exists>r. xb_get env = (AMXB_STATUS_OK, Some r) \<and> t = gv_filter env ''Device.'' r)"

lemma whole_tree_sent: "sends_tree env t \<Longrightarrow> whole_tree env build body = (DM_OK, build body t)"
  by (auto simp: sends_tree_def whole_tree_def)

definition fits_body :: "(string \<times> string \<times> string) list \<Rightarrow> bool" where
  "fits_body l \<longleftrightarrow> length l < 2 ^ 31 \<and> list_all (\<lambda>(name, val, type). plain name \<and> plain val) l"


definition example_xb_env :: xb_env where
  "example_xb_env = gpv_env.extend example_gpv_env
     \<lparr>xb_get = (AMXB_STATUS_OK,
         Some [(''Device.X.'', [(''B'', \<lparr>av_type = AMXC_VAR_ID_UINT32, av_text = Some ''1''\<rparr>),
                              (''A'', \<lparr>av_type = AMXC_VAR_ID_UINT32, av_text = None\<rparr>)]),
               (''Device.'', [])]),
      xb_described = (\<lambda>_. True), xb_has_supported = (\<lambda>_. True), xb_content = (\<lambda>s. s),
      xb_cache = (\<lambda>p. if p = ''Device.X.A'' then (DM_ENG_NotificationMode_FORCED, Some [''Subscriber''])
                      else (DM_ENG_NotificationMode_OFF, None)),
      xb_mode_text = (\<lambda>m. if m = DM_ENG_NotificationMode_ACTIVE then ''2'' else ''0'')\<rparr>"

definition example_tree :: get_response where
  "example_tree = [(''Device.X.'', [(''B'', \<lparr>av_type = AMXC_VAR_ID_UINT32, av_text = Some ''1''\<rparr>),
                              (''A'', \<lparr>av_type = AMXC_VAR_ID_UINT32, av_text = None\<rparr>)]),
               (''Device.'', [])]"

lemma example_xb: "keeps_plain example_xb_env" "sends_tree example_xb_env example_tree"
  by (simp_all add: keeps_plain_def sends_tree_def example_xb_env_def example_gpv_env_def example_tree_def
      gpv_env.extend_def)


text \<open>The build on the supported data model sends the same body when both sources of descriptions agree.\<close>

theorem gpv_all_builds_agree:
  assumes "sends_tree env t" "xb_described env = xb_has_supported env"
    and "described_type (gpv_env.truncate env) =
      (\<lambda>key n. case supported_type (gpv_env.truncate env) key n of None \<Rightarrow> AMXC_VAR_ID_other | Some ty \<Rightarrow> ty)"
  shows "GetParameterValuesAll_prpl env body = DM_ENG_Device_GetParameterValuesAll env body"
  using assms by (simp add: GetParameterValuesAll_prpl_def DM_ENG_Device_GetParameterValuesAll_def whole_tree_sent
      build_gpv_all_body_def build_gpv_all_body_prpl_def)

text \<open>The attributes: the mode that is reported and the list of those who may write.\<close>

definition attribute_entry :: "xb_env \<Rightarrow> string \<Rightarrow> string \<times> string \<times> string list" where
  "attribute_entry env path =
     (shown_name (gpv_env.truncate env) ''Device.'' path,
      xb_mode_text env (reported_mode (fst (xb_cache env path))),
      (case snd (xb_cache env path) of None \<Rightarrow> [] | Some al \<Rightarrow> al))"

definition listed_attributes :: "xb_env \<Rightarrow> get_response \<Rightarrow> (string \<times> string \<times> string list) list" where
  "listed_attributes env t =
     concat (map (\<lambda>(key, params). map (\<lambda>n. attribute_entry env (key @ n)) (map fst params)) t)"

definition fits_attribute :: "string \<times> string \<times> string list \<Rightarrow> bool" where
  "fits_attribute e \<longleftrightarrow> (case e of (name, mode, al) \<Rightarrow> plain name \<and> plain mode \<and> list_all plain al \<and> length al < 2 ^ 31)"

definition fits_attributes :: "(string \<times> string \<times> string list) list \<Rightarrow> bool" where
  "fits_attributes l \<longleftrightarrow> length l < 2 ^ 31 \<and> list_all fits_attribute l"

lemma read_attribute_node:
  assumes "keeps_plain env" "plain name" "plain (xb_mode_text env nm)"
    and "list_all plain (case al of None \<Rightarrow> [] | Some as \<Rightarrow> as)" "length (case al of None \<Rightarrow> [] | Some as \<Rightarrow> as) < 2 ^ 31"
  shows "read_attribute (attribute_node env name nm al) =
    Some (name, xb_mode_text env nm, case al of None \<Rightarrow> [] | Some as \<Rightarrow> as)"
proof -
  let ?al = "case al of None \<Rightarrow> [] | Some as \<Rightarrow> as"
  have "map (\<lambda>i. case i of Elem _ _ _ s \<Rightarrow> s) (map (\<lambda>a. new_node env ''string'' (Some a)) ?al) = ?al"
    using assms(1,4) by (intro map_idI [THEN trans [OF map_map]]) (auto simp: new_node_def keeps_plain_def list_all_iff)
  moreover have "fold (\<lambda>a (n, c). (xml_add_child (new_node env ''string'' (Some a)) n, c + 1)) ?al
      (new_node env ''AccessList'' (Some ''''), 0 :: u32) =
      (Elem ''AccessList'' [] (map (\<lambda>a. new_node env ''string'' (Some a)) ?al) (xb_content env ''''), of_nat (length ?al))"
    by (simp add: new_node_def fold_children)
  ultimately show ?thesis
    using assms(1,2,3) int_text_count [OF assms(5)]
    by (simp add: attribute_node_def read_attribute_def soap_items_def new_node_def keeps_plain_def Let_def)
qed

definition entry_node :: "xb_env \<Rightarrow> string \<Rightarrow> xml" where
  "entry_node env path = attribute_node env (shown_name (gpv_env.truncate env) ''Device.'' path)
     (reported_mode (fst (xb_cache env path))) (snd (xb_cache env path))"

definition attribute_nodes :: "xb_env \<Rightarrow> string \<times> params_table \<Rightarrow> xml list" where
  "attribute_nodes env kp = map (\<lambda>n. entry_node env (fst kp @ n)) (map fst (snd kp))"

lemma read_entry_node:
  assumes "keeps_plain env" "fits_attribute (attribute_entry env path)"
  shows "read_attribute (entry_node env path) = Some (attribute_entry env path)"
  using assms unfolding entry_node_def attribute_entry_def fits_attribute_def
  by (subst read_attribute_node) auto

lemma map_attribute_nodes:
  assumes "keeps_plain env" "list_all fits_attribute (listed_attributes env t)"
  shows "map read_attribute (concat (map (attribute_nodes env) t)) = map Some (listed_attributes env t)"
proof -
  let ?paths = "concat (map (\<lambda>(key, params). map (\<lambda>n. key @ n) (map fst params)) t)"
  have n: "concat (map (attribute_nodes env) t) = map (entry_node env) ?paths"
    by (induction t) (auto simp: attribute_nodes_def)
  have l: "listed_attributes env t = map (attribute_entry env) ?paths"
    by (simp add: listed_attributes_def map_concat comp_def case_prod_unfold)
  show ?thesis using assms(2) unfolding n l by (auto simp: list_all_iff read_entry_node [OF assms(1)])
qed

text \<open>The body built for all attributes reads back: the announced numbers are those of the items, and each
  parameter that the access rules show has its notification mode, a forced one as active, and its access
  list.\<close>

theorem gpa_all_reads_back:
  assumes "keeps_plain env" "sends_tree env t" "fits_attributes (listed_attributes env t)"
  shows "\<exists>r. DM_ENG_Device_GetParameterAttributesAll env (Elem tag attrs [] []) = (DM_OK, Elem tag attrs [r] []) \<and>
    read_list ''cwmp:GetParameterAttributesResponse'' ''cwmp:ParameterAttributeStruct'' read_attribute r =
      Some (listed_attributes env t)"
proof -
  let ?step = "\<lambda>(key, htable) acc. if htable = [] then acc else add_attributes env key htable acc"
  let ?new = "concat (map (attribute_nodes env) t)"
  have "appends (?step kp) (attribute_nodes env kp)" for kp
    using appends_add_attributes [of env "fst kp" "snd kp"]
    by (cases kp) (auto simp: appends_def attribute_nodes_def entry_node_def)
  then have ap: "appends (fold ?step t) ?new" by (intro appends_fold)
  obtain plist n where f: "fold ?step t (new_node env ''ParameterList'' None, 0) = (plist, n)" by fastforce
  have nodes: "map read_attribute ?new = map Some (listed_attributes env t)"
    using assms(1,3) by (intro map_attribute_nodes) (simp_all add: fits_attributes_def)
  then have "length ?new = length (listed_attributes env t)" by (rule map_eq_imp_length_eq)
  moreover have "those (map read_attribute ?new) = Some (listed_attributes env t)"
    unfolding nodes using those_map_Some [of "listed_attributes env t" Some id] by simp
  ultimately show ?thesis
    using read_list_body [OF ap f, of "''cwmp:GetParameterAttributesResponse''" "''cwmp:ParameterAttributeStruct''" read_attribute]
      assms(2,3) f
    by (simp add: DM_ENG_Device_GetParameterAttributesAll_def whole_tree_sent build_gpa_all_body_def fits_attributes_def)
qed

theorem gpa_all_reads_back_witness:
  "\<exists>r. DM_ENG_Device_GetParameterAttributesAll example_xb_env (Elem ''soap:Body'' [] [] []) =
      (DM_OK, Elem ''soap:Body'' [] [r] []) \<and>
    read_list ''cwmp:GetParameterAttributesResponse'' ''cwmp:ParameterAttributeStruct'' read_attribute r =
      Some [(''Device.X.B'', ''0'', []), (''Device.X.A'', ''2'', [''Subscriber''])]"
proof -
  have l: "listed_attributes example_xb_env example_tree =
      [(''Device.X.B'', ''0'', []), (''Device.X.A'', ''2'', [''Subscriber''])]"
    by code_simp
  have "fits_attributes [(''Device.X.B'', ''0'', []), (''Device.X.A'', ''2'', [''Subscriber''])]"
    by (simp add: fits_attributes_def fits_attribute_def plain_def)
  with gpa_all_reads_back [OF example_xb, of "''soap:Body''" "[]"] show ?thesis by (simp only: l)
qed

end
