(* ===== verification/Device_Adapter.thy ===== *)
theory Device_Adapter
  imports System_Connection Schedule_Download Software_Modules Up_Download
begin

section \<open>The adapter as a whole (DM\_DeviceAdapter.c, DM\_AmxReset.c, DM\_AmxRPCInterface.c)\<close>

text \<open>
  The entry points that tie the parts of the adapter together: start and end, the opening of a session, what is loaded
  when the engine is ready, notifications and configuration values, reboot and factory reset, and the procedure by
  which other programs ask for an Inform. \<open>adapter\<close> holds the states of the two connections and of the modules they start, the
  static variables of the file, and \<open>da_live\<close>, the number of strings that are allocated for them or passed through.
  What the engine is told or asked is appended to \<open>da_log\<close>. The engine owns the string it is given for the path of
  the external address.
\<close>

subsection \<open>State\<close>

datatype adapter_action =
    SetExternalIPAddressPath string
  | AddCachedValue string cstr
  | AddAcsEvent string
  | SendEvents cstr bool cstr
  | Bus_call string string "(string \<times> string) list"
  | Bus_set string "(string \<times> string) list"

record adapter =
  da_system :: sys_conn
  da_acs :: acs_conn
  da_prefix :: cstr
  da_vendor_prefix :: cstr
  da_autoCreateInstances :: bool
  da_acl :: cstr
  da_acl_rules :: bool
  persistentRPCPath :: cstr
  externalIPAddress :: cstr
  da_sched :: sched
  da_smm :: smm
  da_ud :: ud
  rpc_bus_ctx :: bool
  rpc_subscribed :: bool
  da_live :: nat
  da_log :: "adapter_action list"

record adapter_env =
  ad_sys :: "nat \<Rightarrow> sys_env"
  ad_acs :: acs_env
  ad_sched :: sched_env
  ad_smm :: smm_env
  ad_ud :: ud_env
  ad_prefix :: cstr
  ad_mgmt :: "DM_ENG_SystemParameter_t \<Rightarrow> int \<times> cstr"
  ad_parse_acl :: "cstr \<Rightarrow> bool"
  ad_informs :: "cstr \<Rightarrow> (string \<times> int) list option"
  ad_new_inform :: "string \<times> int \<Rightarrow> bool"
  ad_rpc_subscribe :: int
  ad_rpc_unsubscribe :: int
  ad_set_rc :: int

definition held :: "cstr \<Rightarrow> nat" where
  "held s = (case s of None \<Rightarrow> 0 | Some _ \<Rightarrow> 1)"

definition log_da :: "adapter_action list \<Rightarrow> adapter \<Rightarrow> adapter" where
  "log_da as st = st\<lparr>da_log := da_log st @ as\<rparr>"

subsection \<open>Requests of other programs\<close>

definition rpc_req_cb :: "cstr \<Rightarrow> cstr \<times> bool \<times> cstr \<Rightarrow> adapter \<Rightarrow> adapter" where
  "rpc_req_cb sig_name data st =
     (if str_empty sig_name then st
      else if the sig_name \<noteq> ''SendInformMessage!''
      then (case data of (events, immediately, source) \<Rightarrow> log_da [SendEvents events immediately source] st)
      else st)"

definition DM_AmxRPCInterface_init :: "adapter_env \<Rightarrow> bool \<Rightarrow> adapter \<Rightarrow> int \<times> adapter" where
  "DM_AmxRPCInterface_init env ctx st =
     (if \<not> ctx then (-1, st)
      else (ad_rpc_subscribe env, st\<lparr>rpc_bus_ctx := True, rpc_subscribed := rpc_subscribed st \<or> ad_rpc_subscribe env = 0\<rparr>))"

definition DM_AmxRPCInterface_clean :: "adapter_env \<Rightarrow> adapter \<Rightarrow> int \<times> adapter" where
  "DM_AmxRPCInterface_clean env st =
     (ad_rpc_unsubscribe env, st\<lparr>rpc_subscribed := rpc_subscribed st \<and> ad_rpc_unsubscribe env \<noteq> 0\<rparr>)"

subsection \<open>Reboot and factory reset\<close>

definition DM_ENG_Device_Reboot_DoReboot :: "adapter \<Rightarrow> adapter" where
  "DM_ENG_Device_Reboot_DoReboot =
     log_da [Bus_call ''Device.'' ''Reboot'' [(''Cause'', ''RemoteReboot''), (''Reason'', ''Initiated by TR-069'')]]"

definition DM_ENG_Device_FactoryReset_DoReset :: "adapter \<Rightarrow> adapter" where
  "DM_ENG_Device_FactoryReset_DoReset =
     log_da [Bus_call ''Device.'' ''FactoryReset''
               [(''Cause'', ''RemoteFactoryReset''), (''Reason'', ''Initiated by TR-069'')]]"

definition DM_ENG_Device_Reboot :: "adapter \<Rightarrow> adapter" where
  "DM_ENG_Device_Reboot st = (if acs_connected (da_acs st) = None then st else DM_ENG_Device_Reboot_DoReboot st)"

definition DM_ENG_Device_FactoryReset :: "adapter \<Rightarrow> adapter" where
  "DM_ENG_Device_FactoryReset st =
     (if acs_connected (da_acs st) = None then st else DM_ENG_Device_FactoryReset_DoReset st)"

subsection \<open>Configuration and notifications\<close>

definition INVALID_PARAMETER_NAME :: int where
  "INVALID_PARAMETER_NAME = 9005"

definition DM_ENG_Device_SetConfigValue ::
  "adapter_env \<Rightarrow> DM_ENG_SystemParameter_t \<Rightarrow> string \<Rightarrow> adapter \<Rightarrow> int \<times> adapter" where
  "DM_ENG_Device_SetConfigValue env parameter pValue st =
     (case DM_ENG_Device_SystemConnectionSetParameter (ad_sys env 0) parameter pValue (da_system st) of
        (ok, sys) \<Rightarrow> (if ok then 0 else INVALID_PARAMETER_NAME, st\<lparr>da_system := sys\<rparr>))"

text \<open>The value is a copy that the caller frees.\<close>

definition DM_ENG_Device_GetConfigValue ::
  "adapter_env \<Rightarrow> DM_ENG_SystemParameter_t \<Rightarrow> adapter \<Rightarrow> int \<times> cstr \<times> adapter" where
  "DM_ENG_Device_GetConfigValue env parameter st =
     (let pResult = DM_ENG_Device_SystemConnectionGetParameter (ad_sys env 0) parameter (da_system st) in
      (if pResult = None then INVALID_PARAMETER_NAME else 0, pResult, st\<lparr>da_live := da_live st + held pResult\<rparr>))"

definition DM_ENG_Device_AddNotification ::
  "adapter_env \<Rightarrow> cstr \<Rightarrow> DM_ENG_NotificationMode \<Rightarrow> adapter \<Rightarrow> int \<times> int option \<times> adapter" where
  "DM_ENG_Device_AddNotification env path mode st =
     (case DM_ENG_Device_ACSConnectionAddSubscription (ad_acs env) path mode (da_acs st) of
        (ok, uid, c) \<Rightarrow> (if ok then 0 else -1, uid, st\<lparr>da_acs := c\<rparr>))"

definition DM_ENG_Device_RemoveNotification :: "adapter_env \<Rightarrow> string \<Rightarrow> int \<Rightarrow> adapter \<Rightarrow> int \<times> adapter" where
  "DM_ENG_Device_RemoveNotification env path subscriptionID st =
     (case DM_ENG_Device_ACSConnectionRemoveSubscription (ad_acs env) path subscriptionID (da_acs st) of
        (ok, c) \<Rightarrow> (if ok then 0 else -1, st\<lparr>da_acs := c\<rparr>))"

definition DM_ENG_Device_GetSubscriptions :: "adapter_env \<Rightarrow> adapter \<Rightarrow> int \<times> (string \<times> string) list" where
  "DM_ENG_Device_GetSubscriptions env st =
     (case DM_ENG_Device_ACSConnectionGetSubscriptions (ad_acs env) (da_acs st) of
        None \<Rightarrow> (-1, []) | Some l \<Rightarrow> (0, l))"

definition DM_ENG_Device_Set ::
  "adapter_env \<Rightarrow> string \<Rightarrow> (string \<times> string) list option \<Rightarrow> bool \<Rightarrow> adapter \<Rightarrow> int \<times> adapter" where
  "DM_ENG_Device_Set env ob values has_ret st =
     (if values = None \<or> \<not> has_ret then (-1, st)
      else (ad_set_rc env, log_da [Bus_set ob (the values)] st))"

definition DM_ENG_Device_GetAllQueuedTransfers :: "adapter_env \<Rightarrow> adapter \<Rightarrow> queued_transfer list option" where
  "DM_ENG_Device_GetAllQueuedTransfers env st =
     (if sys_connected (da_system st) = None then None else DM_ENG_Device_GetQueuedTransfers (ad_ud env) (da_ud st))"

text \<open>A failure of the check is reported as invalid arguments, apart from the results of the procedures.\<close>

definition with_system :: "adapter \<Rightarrow> (ud \<Rightarrow> add_result \<times> ud) \<Rightarrow> add_result option \<times> adapter" where
  "with_system st f =
     (if sys_connected (da_system st) = None then (None, st)
      else (case f (da_ud st) of (e, u) \<Rightarrow> (Some e, st\<lparr>da_ud := u\<rparr>)))"

definition DM_ENG_Device_Download ::
  "adapter_env \<Rightarrow> string \<Rightarrow> cstr \<Rightarrow> cstr \<Rightarrow> cstr \<Rightarrow> cstr \<Rightarrow> nat \<Rightarrow> cstr \<Rightarrow> u32 \<Rightarrow> adapter \<Rightarrow> add_result option \<times> adapter" where
  "DM_ENG_Device_Download env commandkey fileType url username password fileSize targetFileName delayseconds st =
     with_system st (DM_ENG_Device_DoDownload (ad_ud env) commandkey fileType url username password fileSize
                       targetFileName delayseconds)"

definition DM_ENG_Device_Upload ::
  "adapter_env \<Rightarrow> string \<Rightarrow> cstr \<Rightarrow> cstr \<Rightarrow> cstr \<Rightarrow> cstr \<Rightarrow> u32 \<Rightarrow> adapter \<Rightarrow> add_result option \<times> adapter" where
  "DM_ENG_Device_Upload env commandkey fileType url username password delayseconds st =
     with_system st (DM_ENG_Device_DoUpload (ad_ud env) commandkey fileType url username password delayseconds)"

subsection \<open>Start, sessions, end\<close>

definition DM_ENG_Device_Init ::
  "adapter_env \<Rightarrow> cstr \<Rightarrow> cstr \<Rightarrow> cstr \<Rightarrow> cstr \<Rightarrow> cstr \<Rightarrow> adapter \<Rightarrow> bool \<times> adapter" where
  "DM_ENG_Device_Init env rpcPath aclfile vendorPrefix backend uri st =
     (case DM_ENG_Device_SystemConnectionInitialize (ad_sys env) backend uri (da_system st) of
        (ok, sys) \<Rightarrow>
          (let st1 = st\<lparr>da_vendor_prefix := vendorPrefix, da_system := sys\<rparr> in
           if \<not> ok then (False, st1)
           else
             (case DM_ENG_Device_ACSConnectionInitialize (ad_acs env) backend uri (da_acs st1) of
                (ok, acs) \<Rightarrow>
                  (let st2 = st1\<lparr>da_prefix := ad_prefix env, da_acs := acs\<rparr> in
                   if \<not> ok then (False, st2)
                   else
                     (let st3 = (case rpcPath of
                                   None \<Rightarrow> st2
                                 | Some p \<Rightarrow> st2\<lparr>persistentRPCPath := Some p, da_live := da_live st2 + 1\<rparr>);
                          instance_alias = snd (ad_mgmt env DM_ENG_INSTANCEMODE);
                          tmp = snd (ad_mgmt env DM_ENG_AUTOCREATEINSTANCES);
                          st4 = st3\<lparr>da_live := da_live st3 + held instance_alias + held tmp\<rparr>;
                          st5 = st4\<lparr>da_system := (da_system st4)\<lparr>instanceAlias := (instance_alias = Some ''InstanceAlias'')\<rparr>,
                                   da_autoCreateInstances := (case tmp of None \<Rightarrow> True | Some t \<Rightarrow> atoi t \<noteq> 0),
                                   da_acl := aclfile, da_acl_rules := ad_parse_acl env aclfile\<rparr>
                      in (True, st5\<lparr>da_live := da_live st5 - held instance_alias - held tmp\<rparr>))))))"

definition DM_ENG_Device_Release :: "adapter_env \<Rightarrow> adapter \<Rightarrow> adapter" where
  "DM_ENG_Device_Release env st =
     (let st1 = st\<lparr>da_sched := DM_AmxScheduleDownload_clean (da_sched st),
                da_smm := DM_AmxChangeDUState_clean (da_smm st)\<rparr>;
          st2 = snd (DM_AmxRPCInterface_clean env st1);
          st3 = st2\<lparr>da_acs := DM_ENG_Device_ACSConnectionCleanup (ad_acs env) (da_acs st2), da_acl_rules := False,
                  da_system := DM_ENG_Device_SystemConnectionCleanup (ad_sys env 0) (da_system st2)\<rparr>
      in st3\<lparr>persistentRPCPath := None, da_live := da_live st3 - held (persistentRPCPath st3)\<rparr>)"

text \<open>The destructor of the library.\<close>

definition fini :: "adapter \<Rightarrow> adapter" where
  "fini st = st\<lparr>externalIPAddress := None, da_live := da_live st - held (externalIPAddress st)\<rparr>"

definition DM_ENG_Device_OpenSession :: "adapter_env \<Rightarrow> adapter \<Rightarrow> adapter" where
  "DM_ENG_Device_OpenSession env st =
     (if da_prefix st = Some ''InternetGatewayDevice.'' then
        (case DM_ENG_Device_GetConfigValue env DM_ENG_CONNECTIONREQUESTHOST st of
           (rc, ipAddress, st1) \<Rightarrow>
             if rc = -1 then st1
             else st1\<lparr>da_live := da_live st1 - held ipAddress, externalIPAddress := None\<rparr>)
      else if da_prefix st = Some ''Device.'' then
        (case DM_ENG_Device_GetConfigValue env DM_ENG_CONNECTIONREQUESTHOST st of
           (rc, ipAddress, st1) \<Rightarrow>
             if rc = -1 then st1
             else
               (let st2 = (case DM_ENG_Device_ACSConnectionHandleGetwaninterface (ad_acs env) ipAddress of
                             None \<Rightarrow> st1
                           | Some paramName \<Rightarrow>
                               log_da [SetExternalIPAddressPath paramName, AddCachedValue paramName ipAddress] st1)
                in st2\<lparr>da_live := da_live st2 - held (externalIPAddress st2), externalIPAddress := ipAddress\<rparr>))
      else st)"

subsection \<open>What is loaded when the engine is ready\<close>

definition load_inform :: "adapter_env \<Rightarrow> string \<times> int \<Rightarrow> (string \<times> int) list \<times> adapter \<Rightarrow> (string \<times> int) list \<times> adapter" where
  "load_inform env e acc =
     (case (e, acc) of
        ((commandKey, time), (is, st)) \<Rightarrow>
          if \<not> ad_new_inform env e then (is, st) else (is @ [e], log_da [AddAcsEvent commandKey] st))"

definition DM_ENG_Device_LoadScheduleInform ::
  "adapter_env \<Rightarrow> cstr \<Rightarrow> (string \<times> int) list \<times> adapter \<Rightarrow> int \<times> (string \<times> int) list \<times> adapter" where
  "DM_ENG_Device_LoadScheduleInform env rpcpath acc =
     (case ad_informs env rpcpath of
        None \<Rightarrow> (-1, acc)
      | Some es \<Rightarrow> (0, fold (load_inform env) es acc))"

definition DM_ENG_Device_LoadConfig :: "adapter_env \<Rightarrow> adapter \<Rightarrow> int \<times> (string \<times> int) list \<times> adapter" where
  "DM_ENG_Device_LoadConfig env st =
     (let path = persistentRPCPath st;
          st0 = st\<lparr>da_live := da_live st + held path\<rparr>
      in case DM_ENG_Device_LoadScheduleInform env path ([], st0) of
           (_, is, st1) \<Rightarrow>
             (let st2 = st1\<lparr>da_sched := snd (DM_AmxScheduleDownload_init (ad_sched env) (da_sched st1)),
                          da_smm := snd (DM_AmxChangeDUState_init (ad_smm env) (da_smm st1))\<rparr>;
                  st3 = snd (DM_AmxRPCInterface_init env (sys_connected (da_system st2) \<noteq> None) st2);
                  st4 = st3\<lparr>da_live := da_live st3 - held path\<rparr>
              in case DM_ENG_Device_UpDownloadInitialize (ad_ud env) (da_ud st4) of
                   (ok, u) \<Rightarrow> (if ok then 0 else -1, is, st4\<lparr>da_ud := u\<rparr>)))"

subsection \<open>Runs of the adapter\<close>

datatype adapter_event =
    Ad_load adapter_env
  | Ad_session adapter_env
  | Ad_add adapter_env cstr DM_ENG_NotificationMode
  | Ad_remove adapter_env string int
  | Ad_notify adapter_env string "(string \<times> cstr) list"
  | Ad_change adapter_env cstr "(cstr \<times> (string \<times> sys_change) list) option"
  | Ad_config adapter_env DM_ENG_SystemParameter_t string
  | Ad_download adapter_env string cstr cstr cstr cstr nat cstr u32
  | Ad_upload adapter_env string cstr cstr cstr cstr u32
  | Ad_request cstr "cstr \<times> bool \<times> cstr"
  | Ad_reboot
  | Ad_factory_reset

fun adapter_step :: "adapter \<Rightarrow> adapter_event \<Rightarrow> adapter" where
  "adapter_step st (Ad_load env) = snd (snd (DM_ENG_Device_LoadConfig env st))"
| "adapter_step st (Ad_session env) = DM_ENG_Device_OpenSession env st"
| "adapter_step st (Ad_add env path mode) = snd (snd (DM_ENG_Device_AddNotification env path mode st))"
| "adapter_step st (Ad_remove env path uid) = snd (DM_ENG_Device_RemoveNotification env path uid st)"
| "adapter_step st (Ad_notify env path data) =
     st\<lparr>da_acs := DM_ENG_Device_ACSConnectionHandleNotification (ad_acs env) path data (da_acs st)\<rparr>"
| "adapter_step st (Ad_change env path data) =
     st\<lparr>da_system := DM_ENG_Device_SystemConnectionHandleParameterChanged (ad_sys env 0) path data (da_system st)\<rparr>"
| "adapter_step st (Ad_config env parameter v) = snd (DM_ENG_Device_SetConfigValue env parameter v st)"
| "adapter_step st (Ad_download env key ft url user pw sz target delay) =
     snd (DM_ENG_Device_Download env key ft url user pw sz target delay st)"
| "adapter_step st (Ad_upload env key ft url user pw delay) = snd (DM_ENG_Device_Upload env key ft url user pw delay st)"
| "adapter_step st (Ad_request sig_name data) = rpc_req_cb sig_name data st"
| "adapter_step st Ad_reboot = DM_ENG_Device_Reboot st"
| "adapter_step st Ad_factory_reset = DM_ENG_Device_FactoryReset st"

text \<open>Memory does not run out, and a new subscription has an address that is not in use.\<close>

fun adapter_ok :: "adapter \<Rightarrow> adapter_event \<Rightarrow> bool" where
  "adapter_ok st (Ad_add env path mode) =
     (path \<noteq> None \<longrightarrow> sub_ok (acsSubsList (da_acs st))
        (Sub_add (an_sub (ad_acs env)) (the path) object_changed_filter (Some ACSConnectionHandleNotification)))"
| "adapter_ok st e = True"

definition adapter_inv :: "adapter \<Rightarrow> bool" where
  "adapter_inv st \<longleftrightarrow> subs_inv (systemSubsList (da_system st)) \<and> subs_inv (acsSubsList (da_acs st)) \<and>
     da_live st = held (persistentRPCPath st) + held (externalIPAddress st) \<and>
     (externalIPAddress st \<noteq> None \<longrightarrow> da_prefix st = Some ''Device.'')"

lemma held_simps [simp]: "held None = 0" "held (Some s) = 1"
  by (simp_all add: held_def)

lemma set_parameter_subs:
  "systemSubsList (snd (DM_ENG_Device_SystemConnectionSetParameter env parameter v st)) = systemSubsList st"
  by (simp add: DM_ENG_Device_SystemConnectionSetParameter_def Let_def split: option.split)

lemma log_sys_subs [simp]: "systemSubsList (log_sys as st) = systemSubsList st"
  by (simp add: log_sys_def)

lemma management_change_subs: "systemSubsList (management_server_change path kc st) = systemSubsList st"
  by (cases kc) (simp add: management_server_change_def split: option.split)

lemma management_changes_subs: "systemSubsList (fold (management_server_change path) kcs st) = systemSubsList st"
  by (induction kcs arbitrary: st) (simp_all add: management_change_subs)

lemma system_change_subs:
  "systemSubsList (DM_ENG_Device_SystemConnectionHandleParameterChanged env path data st) = systemSubsList st"
  by (auto simp: DM_ENG_Device_SystemConnectionHandleParameterChanged_def management_changes_subs split: option.split)

lemma notification_parts_subs:
  "acsSubsList (set_subscription_new_value env path v st) = acsSubsList st"
  "acsSubsList (announce env path l st) = acsSubsList st"
  by (simp_all add: set_subscription_new_value_def update_where_def announce_def)

lemma notification_loop_subs: "acsSubsList (notification_loop env infos uid ps st) = acsSubsList st"
proof (induction ps arbitrary: uid st)
  case (Cons p ps)
  then show ?case
    by (cases p) (simp add: notification_parts_subs Let_def split: option.split prod.split)
qed simp

lemma notification_subs:
  "acsSubsList (DM_ENG_Device_ACSConnectionHandleNotification env path data st) = acsSubsList st"
  by (simp add: DM_ENG_Device_ACSConnectionHandleNotification_def notification_loop_subs split: option.split)

lemma dm_updates_subs:
  "acsSubsList (add_subscription_to_dm env path mode st) = acsSubsList st"
  "acsSubsList (remove_subscription_from_dm env path st) = acsSubsList st"
  "acsSubsList (snd (update_subscription_in_dm env path text mode st)) = acsSubsList st"
  by (simp_all add: add_subscription_to_dm_def remove_subscription_from_dm_def update_subscription_in_dm_def
      update_where_def split: option.split)

lemma acs_add_subs:
  "acsSubsList (snd (snd (DM_ENG_Device_ACSConnectionAddSubscription env path mode st))) = acsSubsList st \<or>
   acsSubsList (snd (snd (DM_ENG_Device_ACSConnectionAddSubscription env path mode st))) =
     sub_step (acsSubsList st) (Sub_add (an_sub env) (the path) object_changed_filter (Some ACSConnectionHandleNotification)) \<and>
   path \<noteq> None"
  by (cases path)
    (auto simp: DM_ENG_Device_ACSConnectionAddSubscription_def dm_updates_subs DM_ENG_Device_Common_IsValidPath_def Let_def
      case_prod_unfold split: option.split)

lemma acs_remove_subs:
  "acsSubsList (snd (DM_ENG_Device_ACSConnectionRemoveSubscription env path uid st)) =
   sub_step (acsSubsList st) (Sub_delete (an_sub env) uid)"
  by (simp add: DM_ENG_Device_ACSConnectionRemoveSubscription_def dm_updates_subs Let_def case_prod_unfold)

text \<open>What loading leaves alone.\<close>

definition kept :: "adapter \<Rightarrow> sys_conn \<times> acs_conn \<times> cstr \<times> cstr \<times> cstr \<times> nat" where
  "kept st = (da_system st, da_acs st, da_prefix st, persistentRPCPath st, externalIPAddress st, da_live st)"

lemma load_informs:
  "fold (load_inform env) es (is, st) =
   (is @ filter (ad_new_inform env) es,
    st\<lparr>da_log := da_log st @ map (\<lambda>e. AddAcsEvent (fst e)) (filter (ad_new_inform env) es)\<rparr>)"
  by (induction es arbitrary: "is" st) (auto simp: load_inform_def log_da_def)

lemma load_config_eq:
  "DM_ENG_Device_LoadConfig env st =
   (case ad_informs env (persistentRPCPath st) of
      None \<Rightarrow> (if ue_get_ok (ad_ud env) then 0 else -1, [], snd (snd (DM_ENG_Device_LoadConfig env st)))
    | Some es \<Rightarrow> (if ue_get_ok (ad_ud env) then 0 else -1, filter (ad_new_inform env) es,
                  snd (snd (DM_ENG_Device_LoadConfig env st))))"
  by (simp add: DM_ENG_Device_LoadConfig_def DM_ENG_Device_LoadScheduleInform_def load_informs
      DM_ENG_Device_UpDownloadInitialize_def Let_def case_prod_unfold split: option.split)

lemma load_config_state:
  "snd (snd (DM_ENG_Device_LoadConfig env st)) =
   st\<lparr>da_sched := snd (DM_AmxScheduleDownload_init (ad_sched env) (da_sched st)),
      da_smm := snd (DM_AmxChangeDUState_init (ad_smm env) (da_smm st)),
      da_ud := snd (DM_ENG_Device_UpDownloadInitialize (ad_ud env) (da_ud st)),
      rpc_bus_ctx := rpc_bus_ctx st \<or> sys_connected (da_system st) \<noteq> None,
      rpc_subscribed := rpc_subscribed st \<or> (sys_connected (da_system st) \<noteq> None \<and> ad_rpc_subscribe env = 0),
      da_log := da_log st @ (case ad_informs env (persistentRPCPath st) of
          None \<Rightarrow> [] | Some es \<Rightarrow> map (\<lambda>e. AddAcsEvent (fst e)) (filter (ad_new_inform env) es))\<rparr>"
  by (simp add: DM_ENG_Device_LoadConfig_def DM_ENG_Device_LoadScheduleInform_def load_informs DM_AmxRPCInterface_init_def
      Let_def case_prod_unfold split: option.split)

lemma adapter_step_inv:
  assumes inv: "adapter_inv st" and ok: "adapter_ok st e"
  shows "adapter_inv (adapter_step st e)"
proof (cases e)
  case (Ad_load env)
  with inv show ?thesis by (simp add: adapter_inv_def load_config_state)
next
  case (Ad_session env)
  with inv show ?thesis
    by (cases "externalIPAddress st")
      (auto simp: adapter_inv_def DM_ENG_Device_OpenSession_def DM_ENG_Device_GetConfigValue_def log_da_def
        INVALID_PARAMETER_NAME_def Let_def split: option.split)
next
  case (Ad_add env path mode)
  let ?add = "Sub_add (an_sub (ad_acs env)) (the path) object_changed_filter (Some ACSConnectionHandleNotification)"
  have subs: "subs_inv (acsSubsList (da_acs st))" using inv by (simp add: adapter_inv_def)
  have "path \<noteq> None \<longrightarrow> sub_ok (acsSubsList (da_acs st)) ?add" using ok Ad_add by (simp only: adapter_ok.simps)
  then have "path \<noteq> None \<longrightarrow> subs_inv (sub_step (acsSubsList (da_acs st)) ?add)" using add_inv [OF subs] by blast
  then have "subs_inv (acsSubsList (snd (snd (DM_ENG_Device_ACSConnectionAddSubscription (ad_acs env) path mode (da_acs st)))))"
    using acs_add_subs [of "ad_acs env" path mode "da_acs st"] subs by metis
  with inv Ad_add show ?thesis by (simp add: adapter_inv_def DM_ENG_Device_AddNotification_def case_prod_unfold)
next
  case (Ad_remove env path uid)
  have "subs_inv (sub_step (acsSubsList (da_acs st)) (Sub_delete (an_sub (ad_acs env)) uid))"
    using inv by (intro delete_inv) (simp add: adapter_inv_def)
  with inv Ad_remove show ?thesis
    by (simp add: adapter_inv_def DM_ENG_Device_RemoveNotification_def acs_remove_subs case_prod_unfold del: sub_step.simps)
next
  case (Ad_config env parameter v)
  with inv show ?thesis
    by (simp add: adapter_inv_def DM_ENG_Device_SetConfigValue_def set_parameter_subs case_prod_unfold)
next
  case (Ad_request sig_name data)
  with inv show ?thesis by (cases data) (simp add: adapter_inv_def rpc_req_cb_def log_da_def)
next
  case (Ad_download env key ft url user pw sz target delay)
  with inv show ?thesis by (simp add: adapter_inv_def DM_ENG_Device_Download_def with_system_def case_prod_unfold)
next
  case (Ad_upload env key ft url user pw delay)
  with inv show ?thesis by (simp add: adapter_inv_def DM_ENG_Device_Upload_def with_system_def case_prod_unfold)
qed (use inv in \<open>auto simp: adapter_inv_def notification_subs system_change_subs log_da_def DM_ENG_Device_Reboot_def
    DM_ENG_Device_FactoryReset_def DM_ENG_Device_Reboot_DoReboot_def DM_ENG_Device_FactoryReset_DoReset_def\<close>)

interpretation adapter_system: event_system adapter_step adapter_ok adapter_inv
  by unfold_locales (rule adapter_step_inv)

subsection \<open>Start and end\<close>

definition fresh_adapter :: "adapter \<Rightarrow> bool" where
  "fresh_adapter st \<longleftrightarrow> systemSubsList (da_system st) = no_subs \<and> acsSubsList (da_acs st) = no_subs \<and>
     persistentRPCPath st = None \<and> externalIPAddress st = None \<and> da_live st = 0"

text \<open>The three subscriptions of the start get memory, and addresses that differ.\<close>

definition init_ok :: "adapter_env \<Rightarrow> bool" where
  "init_ok env \<longleftrightarrow> (\<forall>k\<in>{0, 1, 2}. se_alloc_info (sy_sub (ad_sys env k)) \<and>
       (\<forall>p\<in>{MANAGEMENTSERVER_PATH, TIME_PATH, DIAGNOSTICS_PATH}. se_object (sy_sub (ad_sys env k)) p \<noteq> ''.'') \<and>
       (\<forall>j\<in>{0, 1, 2}. j < k \<longrightarrow> se_alloc_sub (sy_sub (ad_sys env k)) \<noteq> None \<longrightarrow>
          se_alloc_sub (sy_sub (ad_sys env j)) \<noteq> se_alloc_sub (sy_sub (ad_sys env k))))"

lemma add_system_sub_step:
  "systemSubsList (snd (add_system_sub env path st)) =
   sub_step (systemSubsList st) (Sub_add (sy_sub env) path object_changed_filter (Some SystemConnectionHandleParameterChanged))"
  by (simp add: add_system_sub_def case_prod_unfold)

lemma add_bus:
  "set (bus (sub_step st (Sub_add env path flt cb))) \<subseteq> set (bus st) \<union> set_option (se_alloc_sub env)"
  by (auto simp: DM_ENG_Device_Common_AddSubscription_def add_error_def Let_def split: option.splits)

lemma add_system_sub_inv:
  assumes "subs_inv (systemSubsList st)" "se_alloc_info (sy_sub env)" "se_object (sy_sub env) path \<noteq> ''.''"
    and "set (bus (systemSubsList st)) \<subseteq> A" "set_option (se_alloc_sub (sy_sub env)) \<inter> A = {}"
  shows "subs_inv (systemSubsList (snd (add_system_sub env path st))) \<and>
    set (bus (systemSubsList (snd (add_system_sub env path st)))) \<subseteq> A \<union> set_option (se_alloc_sub (sy_sub env))"
proof -
  let ?e = "Sub_add (sy_sub env) path object_changed_filter (Some SystemConnectionHandleParameterChanged)"
  have "sub_ok (systemSubsList st) ?e" using assms by auto
  with assms(1) have "subs_inv (sub_step (systemSubsList st) ?e)" by (rule add_inv)
  moreover have "set (bus (sub_step (systemSubsList st) ?e)) \<subseteq> A \<union> set_option (se_alloc_sub (sy_sub env))"
    using add_bus [of "systemSubsList st"] assms(4) by blast
  ultimately show ?thesis by (simp only: add_system_sub_step)
qed

definition after_connect :: "sys_env \<Rightarrow> sys_conn \<Rightarrow> string \<times> string \<Rightarrow> sys_conn" where
  "after_connect env st c =
     (let st1 = DM_ENG_Device_SystemConnectionSleepBeforeStarting env (st\<lparr>sys_connected := Some c\<rparr>)
      in st1\<lparr>sys_slept := sys_slept st1 + 5 * snd (status_loop env 0 0),
             systemSubsList := (systemSubsList st1)\<lparr>slist := []\<rparr>\<rparr>)"

lemma system_init_cases:
  fixes envs st
  defines "s1 \<equiv> \<lambda>c. snd (add_system_sub (envs 0) MANAGEMENTSERVER_PATH (after_connect (envs 0) st c))"
  defines "s2 \<equiv> \<lambda>c. snd (add_system_sub (envs 1) TIME_PATH (s1 c))"
  defines "s3 \<equiv> \<lambda>c. snd (add_system_sub (envs 2) DIAGNOSTICS_PATH (s2 c))"
  shows "systemSubsList (snd (DM_ENG_Device_SystemConnectionInitialize envs backend uri st)) \<in>
      {systemSubsList st} \<union> range (\<lambda>c. systemSubsList (s1 c)) \<union> range (\<lambda>c. systemSubsList (s2 c)) \<union>
      range (\<lambda>c. systemSubsList (s3 c))"
proof (cases "DM_ENG_Device_Common_AmxConnect (sy_bus (envs 0)) backend uri")
  case (Some c)
  obtain b1 b2 b3 where r: "add_system_sub (envs 0) MANAGEMENTSERVER_PATH (after_connect (envs 0) st c) = (b1, s1 c)"
    "add_system_sub (envs 1) TIME_PATH (s1 c) = (b2, s2 c)" "add_system_sub (envs 2) DIAGNOSTICS_PATH (s2 c) = (b3, s3 c)"
    unfolding s1_def s2_def s3_def by (metis prod.collapse)
  have "systemSubsList (snd (DM_ENG_Device_SystemConnectionInitialize envs backend uri st)) \<in>
      {systemSubsList (s1 c), systemSubsList (s2 c), systemSubsList (s3 c)}"
    using r [unfolded after_connect_def Let_def]
    by (cases b1; cases b2; cases b3) (simp_all add: DM_ENG_Device_SystemConnectionInitialize_def Some Let_def)
  then show ?thesis by auto
qed (simp add: DM_ENG_Device_SystemConnectionInitialize_def)

lemma system_init_subs:
  assumes "init_ok env" "systemSubsList st = no_subs"
  shows "subs_inv (systemSubsList (snd (DM_ENG_Device_SystemConnectionInitialize (ad_sys env) backend uri st)))"
proof -
  let ?al = "\<lambda>k. set_option (se_alloc_sub (sy_sub (ad_sys env k)))"
  have d: "?al 1 \<inter> ?al 0 = {}" "?al 2 \<inter> (?al 0 \<union> ?al 1) = {}"
    using assms(1) by (auto simp: init_ok_def)
  have ok: "se_alloc_info (sy_sub (ad_sys env k))" "se_object (sy_sub (ad_sys env k)) MANAGEMENTSERVER_PATH \<noteq> ''.''"
    "se_object (sy_sub (ad_sys env k)) TIME_PATH \<noteq> ''.''" "se_object (sy_sub (ad_sys env k)) DIAGNOSTICS_PATH \<noteq> ''.''"
    if "k \<in> {0, 1, 2}" for k
    using assms(1) that unfolding init_ok_def by blast+
  have 0: "subs_inv (no_subs :: sys_callback subs)" by (simp add: subs_inv_def no_subs_def)
  have 1: "subs_inv (systemSubsList (snd (add_system_sub (ad_sys env 0) MANAGEMENTSERVER_PATH s))) \<and>
      set (bus (systemSubsList (snd (add_system_sub (ad_sys env 0) MANAGEMENTSERVER_PATH s)))) \<subseteq> ?al 0"
    if "systemSubsList s = no_subs" for s
    using add_system_sub_inv [of s "ad_sys env 0" MANAGEMENTSERVER_PATH "{}"] ok [of 0] 0 that by (simp add: no_subs_def)
  have 2: "subs_inv (systemSubsList (snd (add_system_sub (ad_sys env 1) TIME_PATH s))) \<and>
      set (bus (systemSubsList (snd (add_system_sub (ad_sys env 1) TIME_PATH s)))) \<subseteq> ?al 0 \<union> ?al 1"
    if "subs_inv (systemSubsList s)" "set (bus (systemSubsList s)) \<subseteq> ?al 0" for s
    using add_system_sub_inv [OF that(1), of "ad_sys env 1" TIME_PATH "?al 0"] ok [of 1] d that(2) by simp
  have 3: "subs_inv (systemSubsList (snd (add_system_sub (ad_sys env 2) DIAGNOSTICS_PATH s)))"
    if "subs_inv (systemSubsList s)" "set (bus (systemSubsList s)) \<subseteq> ?al 0 \<union> ?al 1" for s
    using add_system_sub_inv [OF that(1), of "ad_sys env 2" DIAGNOSTICS_PATH "?al 0 \<union> ?al 1"] ok [of 2] d that(2) by simp
  define s0 where "s0 = after_connect (ad_sys env 0) st"
  have s0: "systemSubsList (s0 c) = no_subs" for c
    using assms(2)
    by (simp add: s0_def after_connect_def DM_ENG_Device_SystemConnectionSleepBeforeStarting_def no_subs_def Let_def)
  define s1 where "s1 = (\<lambda>c. snd (add_system_sub (ad_sys env 0) MANAGEMENTSERVER_PATH (s0 c)))"
  define s2 where "s2 = (\<lambda>c. snd (add_system_sub (ad_sys env 1) TIME_PATH (s1 c)))"
  define s3 where "s3 = (\<lambda>c. snd (add_system_sub (ad_sys env 2) DIAGNOSTICS_PATH (s2 c)))"
  have i1: "subs_inv (systemSubsList (s1 c))" "set (bus (systemSubsList (s1 c))) \<subseteq> ?al 0" for c
    using 1 [OF s0] by (simp_all add: s1_def)
  have i2: "subs_inv (systemSubsList (s2 c))" "set (bus (systemSubsList (s2 c))) \<subseteq> ?al 0 \<union> ?al 1" for c
    using 2 [OF i1] by (simp_all add: s2_def)
  have i3: "subs_inv (systemSubsList (s3 c))" for c
    using 3 [OF i2] by (simp add: s3_def)
  have "systemSubsList (snd (DM_ENG_Device_SystemConnectionInitialize (ad_sys env) backend uri st)) \<in>
      {systemSubsList st} \<union> range (\<lambda>c. systemSubsList (s1 c)) \<union> range (\<lambda>c. systemSubsList (s2 c)) \<union>
      range (\<lambda>c. systemSubsList (s3 c))"
    unfolding s1_def s2_def s3_def s0_def by (rule system_init_cases)
  with i1 i2 i3 assms(2) 0 show ?thesis by auto
qed


lemma init_inv:
  assumes "fresh_adapter st" "init_ok env"
  shows "adapter_inv (snd (DM_ENG_Device_Init env rpcPath aclfile vendorPrefix backend uri st))"
proof -
  have sys: "subs_inv (systemSubsList (snd (DM_ENG_Device_SystemConnectionInitialize (ad_sys env) backend uri (da_system st))))"
    using assms system_init_subs by (simp add: fresh_adapter_def)
  have acs: "acsSubsList (snd (DM_ENG_Device_ACSConnectionInitialize (ad_acs env) backend uri (da_acs st))) = no_subs"
    using assms(1) by (simp add: fresh_adapter_def DM_ENG_Device_ACSConnectionInitialize_def no_subs_def split: option.split)
  have "subs_inv (no_subs :: acs_callback subs)" by (simp add: subs_inv_def no_subs_def)
  with sys acs assms(1) show ?thesis
    by (auto simp: DM_ENG_Device_Init_def adapter_inv_def fresh_adapter_def Let_def case_prod_unfold split: option.split)
qed

lemma cleanup_empty:
  assumes "subs_inv s" "se_unsubscribe env = 0"
  shows "slist (DM_ENG_Device_Common_Cleanup_Subscription (Some env) s) = [] \<and>
    bus (DM_ENG_Device_Common_Cleanup_Subscription (Some env) s) = []"
proof -
  have "slist (DM_ENG_Device_Common_Cleanup_Subscription (Some env) s) = []"
    by (simp add: DM_ENG_Device_Common_Cleanup_Subscription_def Let_def)
  with cleanup_inv [OF assms] show ?thesis by (auto simp: subs_inv_def)
qed

definition nothing_left :: "adapter \<Rightarrow> bool" where
  "nothing_left st \<longleftrightarrow> da_live st = 0 \<and> sys_connected (da_system st) = None \<and> acs_connected (da_acs st) = None \<and>
     bus (systemSubsList (da_system st)) = [] \<and> bus (acsSubsList (da_acs st)) = [] \<and> \<not> da_acl_rules st \<and>
     \<not> sd_subscribed (da_sched st) \<and> \<not> du_subscribed (da_smm st) \<and> \<not> rpc_subscribed st"

definition release_ok :: "adapter_env \<Rightarrow> bool" where
  "release_ok env \<longleftrightarrow> se_unsubscribe (sy_sub (ad_sys env 0)) = 0 \<and> se_unsubscribe (an_sub (ad_acs env)) = 0 \<and>
     ad_rpc_unsubscribe env = 0"

lemma release_nothing_left:
  assumes "adapter_inv st" "release_ok env"
  shows "nothing_left (fini (DM_ENG_Device_Release env st))"
proof -
  have "subs_inv (systemSubsList (da_system st))" "subs_inv (acsSubsList (da_acs st))"
    using assms(1) by (simp_all add: adapter_inv_def)
  with assms show ?thesis
    by (simp add: nothing_left_def fini_def DM_ENG_Device_Release_def DM_AmxRPCInterface_clean_def release_ok_def
        DM_ENG_Device_ACSConnectionCleanup_def DM_ENG_Device_SystemConnectionCleanup_def cleanup_empty
        DM_AmxScheduleDownload_clean_def DM_AmxChangeDUState_clean_def adapter_inv_def Let_def)
qed


text \<open>Property C16. When the engine is ready nothing that was under way before the restart is lost: the scheduled
  informs of the file are handed over in order, each with its event for the ACS; every scheduled download and every change of
  deployment units that ended for the ACS has a timer for its report; and every transfer in the table that can be taken
  up again has its timer.\<close>

theorem load_config_resumes:
  assumes "ad_informs env (persistentRPCPath st) = Some es" "\<forall>e\<in>set es. ad_new_inform env e"
    and "sd_bus_ok (ad_sched env) \<and> sd_get_rc (ad_sched env) = 0" "se_bus_ok (ad_smm env) \<and> se_get_ok (ad_smm env)"
    and "ue_get_ok (ad_ud env)" "DM_ENG_Device_LoadConfig env st = (rc, informs, st')"
  shows "rc = 0 \<and> informs = es \<and> da_log st' = da_log st @ map (\<lambda>e. AddAcsEvent (fst e)) es \<and>
    (\<forall>(i, t)\<in>set (downloads (sd_plugin (da_sched st))).
       from_acs t \<and> tc_Status t = ''Done'' \<longrightarrow> inst_path i \<in> set (sd_timers (da_sched st'))) \<and>
    (\<forall>d\<in>set (dsccs (da_smm st)). dc_Initiator d = ''ACS'' \<and> dc_Status d = ''Done'' \<longrightarrow>
       dc_index d \<in> set (du_timers (da_smm st'))) \<and>
    ud_timers (da_ud st') = ud_timers (da_ud st) @ List.map_filter (resumed (ad_ud env)) (transfers (ud_dm (da_ud st)))"
proof -
  have f: "filter (ad_new_inform env) es = es" using assms(2) by (simp add: filter_id_conv)
  have st': "st' = snd (snd (DM_ENG_Device_LoadConfig env st))" using assms(6) by simp
  have sched: "set paths \<subseteq> set (sd_timers (fold differ_transfercomplete_handling paths s))"
    if "\<forall>p\<in>set paths. p \<noteq> []" for paths s
  proof -
    have mono: "set (sd_timers s) \<subseteq> set (sd_timers (fold differ_transfercomplete_handling ps s))" for ps s
      by (induction ps arbitrary: s) (auto simp: differ_transfercomplete_handling_def subset_iff)
    from that show ?thesis
    proof (induction paths arbitrary: s)
      case (Cons p ps)
      have "p \<in> set (sd_timers (differ_transfercomplete_handling p s))"
        using Cons.prems by (simp add: differ_transfercomplete_handling_def)
      with mono Cons show ?case by fastforce
    qed simp
  qed
  have smm: "set is \<subseteq> set (du_timers (foldl (\<lambda>s i. differ_dustatechangecomplete_handling (Some i) s) s is))" for "is" s
  proof -
    have "du_timers (foldl (\<lambda>s i. differ_dustatechangecomplete_handling (Some i) s) s is) = du_timers s @ is"
      by (induction "is" arbitrary: s) (simp_all add: differ_dustatechangecomplete_handling_def)
    then show ?thesis by simp
  qed
  let ?paths = "map (\<lambda>(i, t). inst_path i) (filter (\<lambda>(i, t). from_acs t \<and> tc_Status t = ''Done'') (downloads (sd_plugin (da_sched st))))"
  have "\<forall>p\<in>set ?paths. p \<noteq> []" by (auto simp: inst_path_def)
  from sched [OF this] have "set ?paths \<subseteq> set (sd_timers (da_sched st'))"
    using assms(3) by (simp add: st' load_config_state DM_AmxScheduleDownload_init_def Let_def)
  then have s: "\<forall>(i, t)\<in>set (downloads (sd_plugin (da_sched st))).
       from_acs t \<and> tc_Status t = ''Done'' \<longrightarrow> inst_path i \<in> set (sd_timers (da_sched st'))" by force
  have d: "dc_index d \<in> set (du_timers (da_smm st'))"
    if "d \<in> set (dsccs (da_smm st))" "dc_Initiator d = ''ACS'' \<and> dc_Status d = ''Done''" for d
    using smm [of "map dc_index (filter (\<lambda>d. dc_Initiator d = ''ACS'' \<and> dc_Status d = ''Done'') (dsccs (da_smm st)))" "da_smm st"]
      assms(4) that
    by (auto simp: st' load_config_state DM_AmxChangeDUState_init_def Let_def)
  have "rc = 0 \<and> informs = es" using load_config_eq [of env st] assms(1,5,6) f by simp
  moreover have "da_log st' = da_log st @ map (\<lambda>e. AddAcsEvent (fst e)) es"
    using assms(1) f by (simp add: st' load_config_state)
  moreover have "ud_timers (da_ud st') = ud_timers (da_ud st) @ List.map_filter (resumed (ad_ud env)) (transfers (ud_dm (da_ud st)))"
    using assms(5) by (simp add: st' load_config_state DM_ENG_Device_UpDownloadInitialize_def initialize_timers Let_def)
  ultimately show ?thesis using s d by blast
qed

text \<open>\<open>DM_ENG_Device_GetConfigValue\<close> answers a failure with a fault code and not with -1, for which \<open>DM_ENG_Device_OpenSession\<close>
  tests: when the host of the connection requests cannot be read, the external address is forgotten instead of
  kept.\<close>

theorem failed_read_forgets_address:
  assumes "da_prefix st = Some ''Device.''"
    and "DM_ENG_Device_SystemConnectionGetParameter (ad_sys env 0) DM_ENG_CONNECTIONREQUESTHOST (da_system st) = None"
  shows "externalIPAddress (DM_ENG_Device_OpenSession env st) = None"
  using assms by (simp add: DM_ENG_Device_OpenSession_def DM_ENG_Device_GetConfigValue_def INVALID_PARAMETER_NAME_def
      DM_ENG_Device_ACSConnectionHandleGetwaninterface_def Let_def)

definition example_ad_env :: adapter_env where
  "example_ad_env =
     \<lparr>ad_sys = example_sys_env, ad_acs = example_acs_env, ad_sched = example_sched_env, ad_smm = example_smm_env,
      ad_ud = example_ud_env, ad_prefix = Some ''Device.'', ad_mgmt = (\<lambda>_. (0, Some ''1'')), ad_parse_acl = (\<lambda>_. True),
      ad_informs = (\<lambda>_. Some [(''k1'', 10), (''k2'', 20)]), ad_new_inform = (\<lambda>_. True), ad_rpc_subscribe = 0,
      ad_rpc_unsubscribe = 0, ad_set_rc = 0\<rparr>"

definition example_adapter :: adapter where
  "example_adapter =
     \<lparr>da_system = example_sys, da_acs = example_acs\<lparr>acsSubsList := no_subs\<rparr>, da_prefix = None, da_vendor_prefix = None,
      da_autoCreateInstances = False, da_acl = None, da_acl_rules = False, persistentRPCPath = None, externalIPAddress = None,
      da_sched = \<lparr>sd_plugin = plugin_start, sd_bus_ctx = False, sd_subscribed = False, sd_notifs = [], sd_timers = [],
                  sd_reports = []\<rparr>,
      da_smm = example_smm, da_ud = example_ud, rpc_bus_ctx = False, rpc_subscribed = False, da_live = 0, da_log = []\<rparr>"


theorem load_config_resumes_witness:
  "fst (snd (DM_ENG_Device_LoadConfig example_ad_env example_adapter)) = [(''k1'', 10), (''k2'', 20)]"
proof -
  obtain rc informs st' where r: "DM_ENG_Device_LoadConfig example_ad_env example_adapter = (rc, informs, st')"
    by (metis prod_cases3)
  have "ad_informs example_ad_env (persistentRPCPath example_adapter) = Some [(''k1'', 10), (''k2'', 20)]"
    "\<forall>e\<in>set [(''k1'', 10), (''k2'', 20)]. ad_new_inform example_ad_env e"
    "sd_bus_ok (ad_sched example_ad_env) \<and> sd_get_rc (ad_sched example_ad_env) = 0"
    "se_bus_ok (ad_smm example_ad_env) \<and> se_get_ok (ad_smm example_ad_env)" "ue_get_ok (ad_ud example_ad_env)"
    by (simp_all add: example_ad_env_def example_sched_env_def example_smm_env_def example_ud_env_def)
  from load_config_resumes [OF this r] r show ?thesis by simp
qed

end
