(* ===== verification/Spec2Isabelle.thy ===== *)
theory Spec2Isabelle
  imports Daemon Client_Tls Transfer_Props Set_Values_Prpl Get_Names_Prpl Add_Delete Plugin_Service Up_Download
    Software_Modules System_Connection Gsdm_Parameters Schedule_Download Manageable_Devices Xmpp Inform_Parameters
    Xml_Bodies Device_Adapter
begin

text \<open>
  \<^bold>\<open>The program.\<close> The TR-069 manager is a CPE agent. The daemon \<open>cwmpd\<close> (src/dmmain) talks HTTP with the
  auto configuration server (ACS): it answers connection requests, opens sessions, resolves the address of
  the ACS and runs the timers of the engine. The data model lives in an Ambiorix plugin
  (src/dmdeviceadapter/amx/cwmp\_plugin) that also carries out scheduled downloads, and the adapter
  (src/dmdeviceadapter/amx/adapter) translates between the engine's parameters and the bus. The engine itself
  (libdmengine, libdmcom), Ambiorix, libwebsockets, c-ares, libevent and OpenSSL are not in the repository.

  \<^bold>\<open>Conventions.\<close> Each module's static variables are one record; each C function is one definition of the same
  name that takes the record and returns it updated, with its result; a loop or a part of a long function has a definition of
  its own. A null pointer is \<open>None\<close> of a \<open>cstr\<close> or \<open>option\<close>. What a library, the allocator, the
  data model or the operating system answers is a field of an environment record that is an argument of the
  definition (\<open>env\<close>, \<open>cr_env\<close>, \<open>dns_env\<close>, \<open>client_env\<close>, \<open>tls_env\<close>, \<open>main_env\<close> for the daemon; \<open>ft_env\<close>, \<open>smm_env\<close>, \<open>md_env\<close> and
  others for the plugin; \<open>amx_env\<close>, \<open>sub_env\<close>, \<open>acs_env\<close>, \<open>sys_env\<close>, \<open>gpv_env\<close>, \<open>ud_env\<close>, \<open>sched_env\<close>, \<open>adapter_env\<close> and others for the
  adapter), so every theorem holds for every behaviour of these parties that its hypotheses allow. Calls to them that
  matter are logged (\<open>amxp_calls\<close>, \<open>cl_log\<close>, \<open>download_calls\<close>, \<open>sys_log\<close>, \<open>da_log\<close>), and memory that is live or freed is
  kept or counted (\<open>live_ctx\<close>, \<open>bus\<close>, \<open>freed_subs\<close>, \<open>Freed\<close>, \<open>ip_live\<close>, \<open>da_live\<close>), with a flag for a use after free or of a null
  pointer (\<open>mem_error\<close>, \<open>cl_fault\<close>, \<open>null_deref\<close>, \<open>sys_fault\<close>). 32-bit arithmetic is on words where it can wrap. A component
  that reacts to events is an instance of the locale \<open>event_system\<close>; an event is enabled when the library can
  deliver it (for instance, a new timer has an address that is not in use). Where the data model is the state that two
  parties share, its objects are in the state of the component and its events are a queue that is delivered in order.

  \<^bold>\<open>Theories: shared.\<close>
  \<^item> \<open>Prelude\<close>: C string functions (\<open>strtok\<close>, \<open>strchr\<close>, \<open>strstr\<close>, \<open>atoi\<close>), decimal numbers, the locales \<open>keyed_list\<close> (a
    linked list searched by a key), \<open>event_system\<close> (an invariant kept by every handler) and \<open>refining_system\<close> (an event
    system that implements an abstract machine), Ambiorix timers.

  \<^bold>\<open>Theories: the daemon (src/dmmain).\<close>
  \<^item> \<open>Cookie_Jar\<close> (cwmpd\_cookie.c): the parser of Set-Cookie and the printer of Cookie; the parser ends and
    refines a map of names to values, printing and parsing are inverse.
  \<^item> \<open>Timers\<close> (cwmpd\_timer.c): the named timers; names stay unique, no timer leaks or is used after it is
    deleted, start, stop and expiry refine a map of names.
  \<^item> \<open>Conn_Requests\<close> (cwmpd\_connectionsecurity.c, cwmpd\_server.c): the rate limiter, the checks of a request,
    the replies, start and stop; a session is opened only for an authorised request within the limit.
  \<^item> \<open>Dns_Resolver\<close> (cwmpd\_dns.c): resolvers, poll events, publication and schedule; only the latest lookup
    counts, the lookup never stalls, one bootstrap for each new URL.
  \<^item> \<open>Acs_Client\<close> (cwmpd\_client.c): the libwebsockets callbacks and the entry points of the engine; what is
    sent and kept across sessions, reassembly of answers, TLS options, choice of the address.
  \<^item> \<open>Client_Tls\<close> (cwmpd\_client.c, cwmpd\_get\_certificate\_uri.c): the set-up of OpenSSL for a key in a token, with the
    references it takes and drops.
  \<^item> \<open>Daemon\<close> (cwmpd\_main.c, cwmpd\_evlp.c): configuration, start, the loop over the events of all the
    components above, engine events, clean-up.

  \<^bold>\<open>Theories: the plugin (src/dmdeviceadapter/amx/cwmp\_plugin).\<close>
  \<^item> \<open>Time_Windows\<close>, \<open>Transfers\<close>, \<open>Transfer_Props\<close> (transfers\_timewindow.c, transfers.c,
    transfers\_firmware.c, transfers\_dm.c): the state machine of scheduled downloads, as handlers on the plugin
    state and an inductive reachability relation; safety of every reachable state, one download at a
    time, \<open>Done\<close> is final, bounded retries, timers across a restart.
  \<^item> \<open>Plugin_Service\<close> (cwmp\_plugin.c and the files of the connection request URL, the WAN address and the supervision): the
    published URL follows the host, port and path; cwmpd runs or its restart is armed.
  \<^item> \<open>File_Transfers\<close> (cwmp\_plugin\_transfer.c): the transfers that are run at once, from the request to the end of the
    download or upload; an accepted one is never lost.
  \<^item> \<open>Software_Modules\<close> (smm.c, DM\_AmxChangeDUState.c): changes of deployment units, from the request of the ACS through
    the operations to the report.
  \<^item> \<open>Manageable_Devices\<close> (cwmp\_plugin\_manageable\_device.c): devices and hosts found by gMap; the instances with their textual
    lists refine a map of devices to sets of hosts.
  \<^item> \<open>Xmpp\<close> (cwmp\_plugin\_xmpp.c): the Jabber identifier follows the enabled connection that is named.

  \<^bold>\<open>Theories: the adapter (src/dmdeviceadapter/amx/adapter).\<close>
  \<^item> \<open>Amx_Paths\<close>, \<open>Subscriptions\<close> (DM\_AmxCommon.c): wildcard and alias paths with the sizes of their buffers,
    and the list of bus subscriptions, which stays in step with the bus.
  \<^item> \<open>Set_Values\<close>, \<open>Set_Values_Prpl\<close> (DM\_AmxParameterValues.c and its \_prpl variant): SetParameterValues in both builds;
    validation before any write, order of the writes, agreement of the builds.
  \<^item> \<open>Get_Values\<close> (the same files): GetParameterValues in both builds; exactly the visible parameters.
  \<^item> \<open>Get_Names\<close>, \<open>Get_Names_Prpl\<close> (DM\_AmxParameterNames.c and its \_prpl variant): GetParameterNames, a mutual
    recursion over the objects the bus describes.
  \<^item> \<open>Gsdm_Parameters\<close> (DM\_AmxParameter.c, DM\_AmxCommon.c): values and names from the supported data model, which is asked
    for once for each path; overlapping paths list each parameter once.
  \<^item> \<open>Add_Delete\<close> (DM\_AmxAddDelete.c): AddObject and DeleteObject respect the access rules.
  \<^item> \<open>Up_Download\<close> (DM\_AmxUpDownload.c): Download and Upload on top of \<open>File_Transfers\<close>; the end is reported once.
  \<^item> \<open>Schedule_Download\<close> (DM\_AmxScheduleDownload.c): ScheduleDownload on top of \<open>Transfers\<close>; no finished download is lost, across
    restarts of the daemon too.
  \<^item> \<open>Acs_Notifications\<close> (DM\_AmxACSConnection.c): subscriptions of the ACS, which refine a map of paths to types, and changes
    announced to it.
  \<^item> \<open>System_Connection\<close> (DM\_AmxSystemConnection.c): configuration parameters, changes the engine must hear of, the
    bounded wait at the start.
  \<^item> \<open>Inform_Parameters\<close>, \<open>Xml_Bodies\<close> (DM\_DeviceAdapter.c, and \_prpl): the parameters of an Inform; the SOAP bodies of the whole
    data model, which read back.
  \<^item> \<open>Device_Adapter\<close> (DM\_DeviceAdapter.c, DM\_AmxReset.c, DM\_AmxRPCInterface.c): start, loading, sessions, resets and end, with the
    states of the connections and modules; nothing is left at the end, everything under way is taken up again.

  Most functions of DM\_DeviceAdapter\_prpl.c have the text of those of DM\_DeviceAdapter.c and are not defined twice.
  This theory holds the properties that span components of the daemon: \<open>main\<close> releases what any of them acquired, a new
  URL takes effect in client and resolver, resolved addresses are those the client selects from.

  \<^bold>\<open>Termination, bounds and fuel.\<close> Loops over lists are structural recursion and need no fuel; \<open>valid_alias_loop\<close> ends by
  the length of the rest of the path, \<open>dec_text\<close> by division, and \<open>status_loop\<close> by the counter, which the code
  limits to 24. The parser of Set-Cookie has a \<open>continue\<close> that would repeat a token for ever; its loop is a
  \<open>partial_function\<close> and is proved to return. The recursion of GetParameterNames follows what the bus describes, which
  need not end; it takes fuel, and fuel \<open>N + 2\<close> is proved enough when no path that the bus describes is longer
  than \<open>N\<close>, with a result that does not depend on the fuel.

  \<^bold>\<open>Findings.\<close> Theorems such as \<open>running_upgrade_reported_failed\<close>, \<open>del_info_leaves_dangling\<close>,
  \<open>cookiejar_drops_attribute_prefix\<close>, \<open>acsip_outside_pool_kept\<close>, \<open>first_session_timeout_ignored\<close>,
  \<open>early_sigterm_lost\<close>, \<open>rate_limit_burst\<close>, \<open>long_alias_unchecked\<close>, \<open>spv_failure_masked\<close>, \<open>refused_transfer_reported_ok\<close>,
  \<open>only_first_host_added\<close>, \<open>unsubscribed_parameter_misattributed\<close>, \<open>missing_connection_keeps_id\<close>, \<open>inform_counter_leaked\<close>,
  \<open>inform_cleans_uninitialised\<close>, \<open>failed_read_forgets_address\<close>, \<open>engine_finished_without_init\<close> and \<open>refused_ctx_leaked\<close> state
  where the code does not do what it means to.

  \<^bold>\<open>Not modelled.\<close> The trace output; callbacks of the event loop that only forward to a library; helpers that only
  allocate, free, return a pointer to a static record or always the same result; \<open>DM_ENG_Device_GetMapping\<close>, which copies
  one answer of the bus; the build files, ODL definitions and tests, which are configuration. The engine, the bus, gMap, the
  XMPP service and the libraries are parameters, because their code is not in the repository.
\<close>

section \<open>The TR-069 manager\<close>

subsection \<open>The daemon as a whole\<close>



text \<open>A SIGTERM that arrives before the loop runs does not end the daemon: the handler sets
  the state to \<open>EXIT\<close> and asks a loop to break that is not running, and nothing reads the state, so that
  the loop goes on to process every event it is given.\<close>

theorem early_sigterm_lost:
  assumes "loop_entry env d = Some l" "SIGTERM \<in> set (me_early_signals env)"
  shows "app_state (app l) = EXIT \<and>
    cwmpd_main env (map D_timer ts) d = Inr (main_end env (foldl daemon_step l (map D_timer ts)))"
  using assms entry_no_break [OF assms(1)] main_from_entry [OF assms(1)]
  by (simp add: timer_events_run early_exit_state)

theorem early_sigterm_lost_witness:
  "\<exists>l :: unit daemon. loop_entry example_main_env boot_daemon = Some l \<and> app_state (app l) = EXIT"
proof -
  have "loop_entry example_main_env (boot_daemon :: unit daemon) \<noteq> None" by code_simp
  moreover have "SIGTERM \<in> set (me_early_signals example_main_env)" by (simp add: example_main_env_def)
  ultimately show ?thesis using early_sigterm_lost by blast
qed

text \<open>Property C6. After the engine reports a new ACS URL whose host can be read, the client has forgotten
  the address of the old server, the published list is empty (or is the address in the URL itself), a
  bootstrap inform is due or was sent, and every lookup begun before the change is marked: whatever
  it answers later changes nothing.\<close>

theorem url_change_takes_effect:
  assumes "de_url denv = Some url" "cwmp_dns_get_host denv url = Some host" "de_set_ok denv"
    and "d' = cwmp_app_engineEventHandler cenv denv EVENT_ENG_URL_CHANGED d"
  shows "acs_server_ip (client d') = None \<and>
    dm_acsiplist (dns_module d') = (if de_is_ipaddr denv host then host else []) \<and>
    (send_bootstrap (dns_module d') \<or> bootstrap_informs (dns_module d') = Suc (bootstrap_informs (dns_module d))) \<and>
    (\<forall>r\<in>set (resolver_list (dns_module d)). \<exists>r'\<in>set (resolver_list (dns_module d')).
       r_id r' = r_id r \<and> (\<forall>env status nodes st. snd (cwmp_dns_resolve_cb env status nodes r' st) = st))"
proof -
  have d': "d' = d\<lparr>client := cwmp_client_clear_ACSIP (client d),
      dns_module := snd (cwmp_dns_resolve denv True (dns_module d))\<rparr>"
    using assms(4) by (simp add: cwmp_app_engineEventHandler_def event_names)
  have dirty: "set (map (\<lambda>r. r\<lparr>r_dirty := True\<rparr>) (resolver_list (dns_module d))) \<subseteq> set (resolver_list (dns_module d'))"
    using assms(1,2)
    by (auto simp: d' cwmp_dns_resolve_def mark_resolvers_as_dirty_def cwmp_dns_ares_resolution_def
        set_acsiplist_def cwmp_dns_set_static_ip_def dns_retry_def Let_def split: option.splits)
  have "snd (cwmp_dns_resolve_cb env status nodes (r\<lparr>r_dirty := True\<rparr>) st) = st" for env status nodes r st
    by (simp add: cwmp_dns_resolve_cb_def Let_def)
  then have stale: "\<exists>r'\<in>set (resolver_list (dns_module d')).
       r_id r' = r_id r \<and> (\<forall>env status nodes st. snd (cwmp_dns_resolve_cb env status nodes r' st) = st)"
    if "r \<in> set (resolver_list (dns_module d))" for r
    using that dirty by (intro bexI [of _ "r\<lparr>r_dirty := True\<rparr>"]) auto
  have "dm_acsiplist (dns_module d') = (if de_is_ipaddr denv host then host else []) \<and>
    (send_bootstrap (dns_module d') \<or> bootstrap_informs (dns_module d') = Suc (bootstrap_informs (dns_module d)))"
    using assms(1-3)
    by (auto simp: d' cwmp_dns_resolve_def mark_resolvers_as_dirty_def cwmp_dns_ares_resolution_def
        set_acsiplist_def cwmp_dns_set_static_ip_def dns_retry_def send_pending_bootstrap_def Let_def
        split: option.splits)
  with stale show ?thesis by (simp add: d' cwmp_client_clear_ACSIP_def)
qed

theorem url_change_takes_effect_witness:
  "send_bootstrap (dns_module (cwmp_app_engineEventHandler example_cr_env (example_dns_env ''acs'' 1)
      EVENT_ENG_URL_CHANGED (boot_daemon :: unit daemon)) ) \<or>
   bootstrap_informs (dns_module (cwmp_app_engineEventHandler example_cr_env (example_dns_env ''acs'' 1)
      EVENT_ENG_URL_CHANGED (boot_daemon :: unit daemon))) = 1"
  using url_change_takes_effect [OF _ _ _ refl, of "example_dns_env ''acs'' 1" "the (de_url (example_dns_env ''acs'' 1))"
      "''acs''" example_cr_env "boot_daemon :: unit daemon"]
  by (simp add: example_dns_env_def cwmp_dns_get_host_def boot_daemon_def dns_ready_def)

text \<open>The addresses of a lookup reach the client: when the published list is what it reads and it
  remembers no address, the address it selects for the session is one of those in the answer.\<close>

theorem resolved_address_selected:
  assumes "\<not> r_dirty r" "nodes \<noteq> []" "de_set_ok denv" "dns_ttl_timer st \<noteq> No_timer"
    and "\<forall>n\<in>set nodes. 1 < length (node_text n) \<and> CHR '','' \<notin> set (node_text n) \<and> ai_ttl n \<le> INT_MAX"
    and "cwmp_dns_resolve_cb denv ARES_SUCCESS nodes r st = (r', st')"
    and "cv_value cenv cl_param.DM_ENG_ACSIPLIST = Some (Some (dm_acsiplist st'))" "cv_csv cenv = split_fields (CHR '','')"
    and "\<not> is_ip cenv (acs_server_host c)" "cv_value cenv cl_param.DM_ENG_ACSIP = Some None"
    and "cwmp_client_get_acsip cenv c = (rc, c')"
  shows "rc = cwmp_status_ok \<and> (\<exists>n\<in>set nodes. acs_server_ip c' = Some (node_text n))"
proof -
  let ?ips = "map node_text nodes"
  have l: "dm_acsiplist st' = join_with (CHR '','') ?ips"
    using result_publishes [OF assms(1,2) _ assms(3,4,6)] assms(5) by fastforce
  have split: "split_fields (CHR '','') (dm_acsiplist st') = ?ips"
    using assms(2,5) unfolding l by (intro split_join) auto
  have "1 < length (dm_acsiplist st')"
    using assms(2,5) unfolding l by (cases nodes; cases "tl nodes") auto
  then have "cwmp_get_random_ip cenv = Some (?ips ! (cv_rand cenv mod length ?ips))"
    using assms(2,7,8) split by (simp add: cwmp_get_random_ip_def Let_def)
  moreover have "cv_rand cenv mod length nodes < length nodes" using assms(2) by simp
  ultimately obtain n where n: "n \<in> set nodes" "cwmp_get_random_ip cenv = Some (node_text n)"
    by (metis length_map nth_map nth_mem)
  with assms(9,10,11) show ?thesis
    by (auto simp: cwmp_client_get_acsip_def Let_def)
qed

definition resolved_nodes :: "ai_node list" where
  "resolved_nodes = [example_node ''10.0.0.1'' 120, example_node ''10.0.0.2'' 60]"

definition session_env :: client_env where
  "session_env = example_client_env\<lparr>cv_value := (\<lambda>p. if p = cl_param.DM_ENG_ACSIP then Some None else
     Some (Some (dm_acsiplist (snd (cwmp_dns_resolve_cb (example_dns_env ''acs'' 1) ARES_SUCCESS resolved_nodes
       example_resolver dns_ready)))))\<rparr>"

theorem resolved_address_selected_witness:
  "fst (cwmp_client_get_acsip session_env (idle_client\<lparr>acs_server_host := Some ''acs''\<rparr>)) = cwmp_status_ok \<and>
   (\<exists>n\<in>set resolved_nodes. acs_server_ip (snd (cwmp_client_get_acsip session_env
      (idle_client\<lparr>acs_server_host := Some ''acs''\<rparr>))) = Some (node_text n))"
proof (rule resolved_address_selected [OF _ _ _ _ _ prod.collapse [symmetric] _ _ _ _ prod.collapse [symmetric]])
  show "\<not> r_dirty example_resolver" by code_simp
  show "resolved_nodes \<noteq> []" "\<forall>n\<in>set resolved_nodes. 1 < length (node_text n) \<and> CHR '','' \<notin> set (node_text n) \<and>
      ai_ttl n \<le> INT_MAX"
    by (simp_all add: resolved_nodes_def example_node_def node_text_def INT_MAX_def)
  show "de_set_ok (example_dns_env ''acs'' 1)" "dns_ttl_timer dns_ready \<noteq> No_timer"
    by (simp_all add: example_dns_env_def dns_ready_def)
  show "cv_value session_env cl_param.DM_ENG_ACSIPLIST = Some (Some (dm_acsiplist (snd (cwmp_dns_resolve_cb
      (example_dns_env ''acs'' 1) ARES_SUCCESS resolved_nodes example_resolver dns_ready))))"
    "cv_value session_env cl_param.DM_ENG_ACSIP = Some None"
    by (simp_all add: session_env_def)
  show "cv_csv session_env = split_fields (CHR '','')"
    "\<not> is_ip session_env (acs_server_host (idle_client\<lparr>acs_server_host := Some ''acs''\<rparr>))"
    by (simp_all add: session_env_def example_client_env_def is_ip_def)
qed


end
